(* ===== verification/Relay_Prelude.thy ===== *)
theory Relay_Prelude
  imports Main "HOL-Library.Word" "HOL-Library.Char_ord" "HOL-Library.List_Lexorder"
begin

text \<open>
  Shared vocabulary of the development: Go values that every component uses (strings, maps, errors,
  clock and entropy readings, JSON values) and the generic lemmas about them.

  \<^item> A Go \<open>string\<close> is a byte string, here \<open>string\<close> (a \<open>char list\<close>).
  \<^item> A Go \<open>error\<close> is a value of type \<open>error\<close>: the sentinel errors it wraps (what
    \<open>errors.Is\<close> looks at) and its text (what \<open>Error()\<close> returns).
  \<^item> \<open>time.Now\<close> and \<open>crypto/rand.Read\<close> read from the environment: the record \<open>world\<close>
    holds all readings the clock will give and all bytes the entropy source will give, and how many
    of each were taken. Nothing is assumed about the clock (\<open>UTC()\<close> strips the monotonic reading),
    and the entropy source is only ever assumed not to have repeated itself so far.
\<close>

named_theorems storage_simps \<open>frame equations of the storage primitives\<close>
named_theorems inv_intros \<open>preservation lemmas of the storage invariant\<close>

type_synonym time = int
type_synonym duration = int

abbreviation nl :: string where "nl \<equiv> [CHR 0x0A]"
abbreviation nul :: string where "nul \<equiv> [CHR 0x00]"
abbreviation quot :: string where "quot \<equiv> [CHR 0x22]"

section \<open>Errors\<close>

datatype sentinel =
  NotFound | NoAssignment | InvalidLease | InvalidTransition | RunCancelledErr | IncompatibleProtocol
| CapabilityProviderMissing | CapabilityNotGranted | ResourceOutOfScope | IdempotencyConflict
| RunNotFound | LeaseLost | BindingNotFound | StreamInterrupted | ContextDone | NotExist | Panic

datatype error = GoError (err_is: "sentinel list") (err_text: string)

definition errors_New :: "string \<Rightarrow> error" where
  "errors_New msg = GoError [] msg"

definition errors_Is :: "error \<Rightarrow> sentinel \<Rightarrow> bool" where
  "errors_Is e x \<longleftrightarrow> x \<in> set (err_is e)"

text \<open>\<open>fmt.Errorf("%w: ...", e)\<close> keeps what \<open>e\<close> wraps and puts its text first.\<close>

definition wrap :: "error \<Rightarrow> string \<Rightarrow> error" where
  "wrap e msg = GoError (err_is e) (err_text e @ '': '' @ msg)"

definition errors_Join :: "error \<Rightarrow> error \<Rightarrow> error" where
  "errors_Join a b = GoError (err_is a @ err_is b) (err_text a @ nl @ err_text b)"

text \<open>A nil dereference or an out-of-range index: the process panics.\<close>

definition go_panic :: error where
  "go_panic = GoError [Panic] ''runtime error''"

type_synonym 'a result = "error + 'a"

lemma errors_Is_wrap [simp]: "errors_Is (wrap e m) x = errors_Is e x"
  by (simp add: errors_Is_def wrap_def)

lemma errors_Is_Join [simp]: "errors_Is (errors_Join a b) x \<longleftrightarrow> errors_Is a x \<or> errors_Is b x"
  by (auto simp: errors_Is_def errors_Join_def)

lemma errors_Is_New [simp]: "\<not> errors_Is (errors_New m) x"
  by (simp add: errors_Is_def errors_New_def)

section \<open>The environment: clock and entropy\<close>

record world =
  w_clock :: "nat \<Rightarrow> time"
  w_ticks :: nat
  w_rand :: "nat \<Rightarrow> nat \<Rightarrow> 8 word"
  w_drawn :: nat

definition time_Now :: "'a world_scheme \<Rightarrow> time \<times> 'a world_scheme" where
  "time_Now s = (w_clock s (w_ticks s), s\<lparr>w_ticks := Suc (w_ticks s)\<rparr>)"

text \<open>The \<open>k\<close>-th read of \<open>n\<close> bytes.\<close>

definition draw :: "'a world_scheme \<Rightarrow> nat \<Rightarrow> nat \<Rightarrow> 8 word list" where
  "draw s n k = map (w_rand s k) [0..<n]"

definition rand_Read :: "nat \<Rightarrow> 'a world_scheme \<Rightarrow> 8 word list \<times> 'a world_scheme" where
  "rand_Read n s = (draw s n (w_drawn s), s\<lparr>w_drawn := Suc (w_drawn s)\<rparr>)"

lemma length_draw [simp]: "length (draw s n k) = n"
  by (simp add: draw_def)

lemma draw_cong: "w_rand s = w_rand t \<Longrightarrow> draw s = draw t"
  by (simp add: draw_def fun_eq_iff)

section \<open>Hexadecimal\<close>

definition hex_digit :: "nat \<Rightarrow> char" where
  "hex_digit n = ''0123456789abcdef'' ! n"

definition hex_byte :: "8 word \<Rightarrow> string" where
  "hex_byte b = [hex_digit (unat b div 16), hex_digit (unat b mod 16)]"

definition hex_EncodeToString :: "8 word list \<Rightarrow> string" where
  "hex_EncodeToString bs = concat (map hex_byte bs)"

lemma hex_digit_inj: "m < 16 \<Longrightarrow> n < 16 \<Longrightarrow> hex_digit m = hex_digit n \<Longrightarrow> m = n"
proof -
  assume "m < 16" "n < 16" and eq: "hex_digit m = hex_digit n"
  have "distinct ''0123456789abcdef''" by simp
  with \<open>m < 16\<close> \<open>n < 16\<close> eq show "m = n"
    by (simp add: hex_digit_def nth_eq_iff_index_eq)
qed

lemma hex_byte_inj: "hex_byte a = hex_byte b \<Longrightarrow> a = b"
proof -
  assume eq: "hex_byte a = hex_byte b"
  have lt: "unat x < 256" for x :: "8 word"
    using unsigned_less [of x, where 'a = nat] by simp
  have "unat a div 16 = unat b div 16" "unat a mod 16 = unat b mod 16"
    using eq lt [of a] lt [of b] by (auto simp: hex_byte_def dest: hex_digit_inj [rotated 2])
  then have "unat a = unat b" by (metis div_mult_mod_eq)
  then show "a = b" by (rule unsigned_word_eqI)
qed

lemma length_hex_byte [simp]: "length (hex_byte b) = 2"
  by (simp add: hex_byte_def)

lemma length_hex_EncodeToString [simp]: "length (hex_EncodeToString bs) = 2 * length bs"
  by (induction bs) (simp_all add: hex_EncodeToString_def)

lemma hex_EncodeToString_inj:
  "hex_EncodeToString as = hex_EncodeToString bs \<Longrightarrow> as = bs"
proof (induction as arbitrary: bs)
  case Nil
  then have "length (hex_EncodeToString bs) = 0" by (simp add: hex_EncodeToString_def)
  then show ?case by simp
next
  case (Cons a as)
  from Cons.prems have "length (hex_EncodeToString bs) = 2 * Suc (length as)"
    by (metis length_hex_EncodeToString length_Cons)
  then obtain b bs' where bs: "bs = b # bs'" by (cases bs) auto
  with Cons.prems have "hex_byte a @ hex_EncodeToString as = hex_byte b @ hex_EncodeToString bs'"
    by (simp add: hex_EncodeToString_def)
  then have "hex_byte a = hex_byte b" "hex_EncodeToString as = hex_EncodeToString bs'"
    by (simp_all add: append_eq_append_conv)
  with Cons.IH bs show ?case by (simp add: hex_byte_inj)
qed

section \<open>Keys joined by a separator\<close>

text \<open>
  Map keys built as \<open>a + sep + b\<close> determine \<open>a\<close> and \<open>b\<close> only when \<open>a\<close> is free of the
  separator.
\<close>

lemma append_sep_inj:
  assumes "c \<notin> set a" "c \<notin> set a'" and "a @ c # b = a' @ c # b'"
  shows "a = a' \<and> b = b'"
  using assms
proof (induction a arbitrary: a')
  case Nil
  then show ?case by (cases a') auto
next
  case (Cons x a)
  then show ?case by (cases a') auto
qed

end
