(* ===== verification/Go_Strings.thy ===== *)
theory Go_Strings
  imports Relay_Prelude
begin

text \<open>
  The part of Go's \<open>strings\<close>, \<open>strconv\<close> and \<open>time\<close> packages that the program calls, on byte
  strings: trimming (with the UTF-8 encodings of every Unicode white space), prefixes and suffixes,
  searching, joining, paths, decimal numbers, and \<open>time.ParseDuration\<close>.
\<close>

section \<open>Prefixes, suffixes, search\<close>

definition HasPrefix :: "string \<Rightarrow> string \<Rightarrow> bool" where
  "HasPrefix s p \<longleftrightarrow> take (length p) s = p"

definition HasSuffix :: "string \<Rightarrow> string \<Rightarrow> bool" where
  "HasSuffix s p \<longleftrightarrow> HasPrefix (rev s) (rev p)"

fun Index :: "string \<Rightarrow> string \<Rightarrow> nat option" where
  "Index [] sub = (if sub = [] then Some 0 else None)"
| "Index (c # s) sub = (if HasPrefix (c # s) sub then Some 0 else map_option Suc (Index s sub))"

definition Contains :: "string \<Rightarrow> string \<Rightarrow> bool" where
  "Contains s sub \<longleftrightarrow> Index s sub \<noteq> None"

fun Join :: "string list \<Rightarrow> string \<Rightarrow> string" where
  "Join [] sep = []"
| "Join [s] sep = s"
| "Join (s # t # ss) sep = s @ sep @ Join (t # ss) sep"

fun Split1 :: "char \<Rightarrow> string \<Rightarrow> string list" where
  "Split1 c [] = [[]]"
| "Split1 c (x # s) = (if x = c then [] # Split1 c s
     else (case Split1 c s of [] \<Rightarrow> [[x]] | p # ps \<Rightarrow> (x # p) # ps))"

lemma Split1_nonempty [simp]: "Split1 c s \<noteq> []"
  by (induction s) (auto split: list.split)

lemma Split1_sep: "Split1 c (a @ c # b) = Split1 c a @ Split1 c b"
  by (induction a) (auto split: list.split)

lemma Split1_none: "c \<notin> set s \<Longrightarrow> Split1 c s = [s]"
  by (induction s) auto

lemma Split1_append: "c \<notin> set s \<Longrightarrow> Split1 c (s @ c # t) = s # Split1 c t"
  by (simp add: Split1_sep Split1_none)

lemma Split1_elements: "e \<in> set (Split1 c s) \<Longrightarrow> c \<notin> set e"
  by (induction s arbitrary: e) (auto split: list.splits if_splits)

lemma Split1_Join: "es \<noteq> [] \<Longrightarrow> \<forall>e \<in> set es. c \<notin> set e \<Longrightarrow> Split1 c (Join es [c]) = es"
  by (induction es "[c]" rule: Join.induct) (auto simp: Split1_none Split1_sep)

lemma Join_append_sep: "es \<noteq> [] \<Longrightarrow> Join (es @ fs) sep = (if fs = [] then Join es sep else Join es sep @ sep @ Join fs sep)"
  by (induction es sep rule: Join.induct) (auto simp: neq_Nil_conv)

lemma HasPrefix_append [simp]: "HasPrefix (p @ s) p"
  by (simp add: HasPrefix_def)

lemma HasPrefix_iff: "HasPrefix s p \<longleftrightarrow> (\<exists>t. s = p @ t)"
  by (metis HasPrefix_append HasPrefix_def append_take_drop_id)

lemma HasSuffix_iff: "HasSuffix s p \<longleftrightarrow> (\<exists>t. s = t @ p)"
  by (metis HasPrefix_iff HasSuffix_def rev_append rev_rev_ident)

lemma Index_SomeD: "Index s sub = Some n \<Longrightarrow> \<exists>t u. s = t @ sub @ u \<and> length t = n"
proof (induction s arbitrary: n)
  case Nil
  then show ?case by (simp split: if_splits)
next
  case (Cons c s)
  show ?case
  proof (cases "HasPrefix (c # s) sub")
    case True
    with Cons.prems show ?thesis by (auto simp: HasPrefix_iff)
  next
    case False
    with Cons.prems obtain m where m: "Index s sub = Some m" "n = Suc m"
      by (cases "Index s sub") auto
    from Cons.IH [OF m(1)] obtain t u where "s = t @ sub @ u" "length t = m" by blast
    with m(2) have "c # s = (c # t) @ sub @ u \<and> length (c # t) = n" by simp
    then show ?thesis by blast
  qed
qed

lemma Index_None: "Index s sub = None \<Longrightarrow> \<nexists>t u. s = t @ sub @ u"
proof (induction s)
  case Nil
  then show ?case by (simp split: if_splits)
next
  case (Cons c s)
  then have np: "\<not> HasPrefix (c # s) sub" and tl: "Index s sub = None"
    by (auto split: if_splits)
  show ?case
  proof
    assume "\<exists>t u. c # s = t @ sub @ u"
    then obtain t u where eq: "c # s = t @ sub @ u" by blast
    show False
    proof (cases t)
      case Nil
      with eq np show False by (auto simp: HasPrefix_iff)
    next
      case (Cons x t')
      with eq have "s = t' @ sub @ u" by simp
      with Cons.IH [OF tl] show False by blast
    qed
  qed
qed

text \<open>The first occurrence is not later than any other.\<close>

lemma Index_append_le: "\<exists>n \<le> length t. Index (t @ sub @ u) sub = Some n"
proof (induction t)
  case Nil
  have "HasPrefix (sub @ u) sub" by simp
  then show ?case by (cases "sub @ u") auto
next
  case (Cons c t)
  then obtain n where "n \<le> length t" "Index (t @ sub @ u) sub = Some n" by blast
  then show ?case by auto
qed

text \<open>A string without the separator is found on one side of the separator.\<close>

lemma HasPrefix_sep:
  assumes "c \<notin> set sub"
  shows "HasPrefix (a @ c # b) sub \<longleftrightarrow> HasPrefix a sub"
proof
  assume "HasPrefix (a @ c # b) sub"
  then obtain t where t: "a @ c # b = sub @ t" by (auto simp: HasPrefix_iff)
  then obtain us where "a = sub @ us \<and> us @ c # b = t \<or> a @ us = sub \<and> c # b = us @ t"
    by (auto simp: append_eq_append_conv2)
  with assms show "HasPrefix a sub"
    by (cases us) (auto simp: HasPrefix_iff)
next
  assume "HasPrefix a sub"
  then show "HasPrefix (a @ c # b) sub" by (auto simp: HasPrefix_iff)
qed

lemma Index_sep:
  assumes "c \<notin> set sub" "sub \<noteq> []"
  shows "Index (a @ c # b) sub = (case Index a sub of Some n \<Rightarrow> Some n
     | None \<Rightarrow> map_option (\<lambda>n. n + Suc (length a)) (Index b sub))"
proof (induction a)
  case Nil
  have "\<not> HasPrefix (c # b) sub" using HasPrefix_sep [OF assms(1), of "[]" b] assms(2) by (simp add: HasPrefix_def)
  with assms(2) show ?case by (cases "Index b sub") auto
next
  case (Cons x a)
  have "HasPrefix (x # a @ c # b) sub = HasPrefix (x # a) sub"
    using HasPrefix_sep [OF assms(1), of "x # a" b] by simp
  with Cons show ?case by (auto simp: option.map_comp comp_def split: option.splits)
qed

text \<open>Where the first occurrence is depends on the text up to its end only.\<close>

lemma HasPrefix_same_take:
  assumes "take (length sub) s = take (length sub) s'"
  shows "HasPrefix s sub = HasPrefix s' sub"
  using assms by (simp add: HasPrefix_def)

lemma Index_first:
  assumes "Index s sub = Some n" "take (n + length sub) s' = take (n + length sub) s"
  shows "Index s' sub = Some n"
  using assms
proof (induction s arbitrary: s' n)
  case Nil
  then have "sub = []" "n = 0" by (auto split: if_splits)
  then show ?case by (cases s') (auto simp: HasPrefix_def)
next
  case (Cons c s)
  show ?case
  proof (cases "HasPrefix (c # s) sub")
    case True
    with Cons.prems have "n = 0" by simp
    with Cons.prems True have "HasPrefix s' sub" by (simp add: HasPrefix_def)
    with \<open>n = 0\<close> show ?thesis by (cases s') (auto simp: HasPrefix_def)
  next
    case False
    with Cons.prems(1) obtain m where m: "Index s sub = Some m" "n = Suc m" by (cases "Index s sub") auto
    with Cons.prems(2) obtain s'' where s': "s' = c # s''" "take (m + length sub) s'' = take (m + length sub) s"
      by (cases s') auto
    have "take (length sub) s' = take (length sub) (c # s)"
      using arg_cong [OF Cons.prems(2), of "take (length sub)"] by (simp add: take_take)
    with False have "\<not> HasPrefix s' sub" by (simp add: HasPrefix_def)
    with s'(1) Cons.IH [OF m(1) s'(2)] m(2) show ?thesis by simp
  qed
qed

section \<open>Trimming\<close>

text \<open>The UTF-8 encodings of the Unicode white space characters (\<open>unicode.IsSpace\<close>).\<close>

definition spaces :: "string list" where
  "spaces =
    [[CHR 0x20], [CHR 0x0A], [CHR 0x09], [CHR 0x0B], [CHR 0x0C], [CHR 0x0D],
     [CHR 0xC2, CHR 0x85], [CHR 0xC2, CHR 0xA0], [CHR 0xE1, CHR 0x9A, CHR 0x80],
     [CHR 0xE2, CHR 0x80, CHR 0x80], [CHR 0xE2, CHR 0x80, CHR 0x81], [CHR 0xE2, CHR 0x80, CHR 0x82],
     [CHR 0xE2, CHR 0x80, CHR 0x83], [CHR 0xE2, CHR 0x80, CHR 0x84], [CHR 0xE2, CHR 0x80, CHR 0x85],
     [CHR 0xE2, CHR 0x80, CHR 0x86], [CHR 0xE2, CHR 0x80, CHR 0x87], [CHR 0xE2, CHR 0x80, CHR 0x88],
     [CHR 0xE2, CHR 0x80, CHR 0x89], [CHR 0xE2, CHR 0x80, CHR 0x8A], [CHR 0xE2, CHR 0x80, CHR 0xA8],
     [CHR 0xE2, CHR 0x80, CHR 0xA9], [CHR 0xE2, CHR 0x80, CHR 0xAF], [CHR 0xE2, CHR 0x81, CHR 0x9F],
     [CHR 0xE3, CHR 0x80, CHR 0x80]]"

function trim_left :: "string list \<Rightarrow> string \<Rightarrow> string" where
  "trim_left sps s = (case find (\<lambda>p. p \<noteq> [] \<and> HasPrefix s p) sps of
     None \<Rightarrow> s | Some p \<Rightarrow> trim_left sps (drop (length p) s))"
  by pat_completeness auto
termination
  by (relation "measure (length \<circ> snd)") (auto simp: find_Some_iff HasPrefix_iff)

declare trim_left.simps [simp del]

definition trim_right :: "string list \<Rightarrow> string \<Rightarrow> string" where
  "trim_right sps s = rev (trim_left (map rev sps) (rev s))"

definition TrimSpace :: "string \<Rightarrow> string" where
  "TrimSpace s = trim_right spaces (trim_left spaces s)"

text \<open>\<open>strings.TrimRight(s, "x")\<close> for a one-byte cutset.\<close>

definition TrimRight1 :: "string \<Rightarrow> char \<Rightarrow> string" where
  "TrimRight1 s c = rev (dropWhile (\<lambda>x. x = c) (rev s))"

lemma trim_left_suffix: "\<exists>t. s = t @ trim_left sps s"
proof (induction sps s rule: trim_left.induct)
  case (1 sps s)
  show ?case
  proof (cases "find (\<lambda>p. p \<noteq> [] \<and> HasPrefix s p) sps")
    case None
    then show ?thesis by (simp add: trim_left.simps [of sps s])
  next
    case (Some p)
    then have "HasPrefix s p" by (auto simp: find_Some_iff)
    from "1.IH" [OF Some] obtain t where t: "drop (length p) s = t @ trim_left sps (drop (length p) s)"
      by blast
    from \<open>HasPrefix s p\<close> have "s = p @ drop (length p) s" by (auto simp: HasPrefix_iff)
    with t Some show ?thesis
      by (metis (no_types, lifting) append.assoc option.simps(5) trim_left.simps)
  qed
qed

lemma trim_left_done: "find (\<lambda>p. p \<noteq> [] \<and> HasPrefix (trim_left sps s) p) sps = None"
proof (induction sps s rule: trim_left.induct)
  case (1 sps s)
  then show ?case
    by (cases "find (\<lambda>p. p \<noteq> [] \<and> HasPrefix s p) sps") (simp_all add: trim_left.simps [of sps s])
qed

lemma TrimRight1_idem [simp]: "TrimRight1 (TrimRight1 s c) c = TrimRight1 s c"
proof -
  have "dropWhile P (dropWhile P xs) = dropWhile P xs" for P and xs :: string
    by (induction xs) auto
  then show ?thesis by (simp add: TrimRight1_def)
qed

lemma TrimRight1_append1 [simp]: "TrimRight1 (s @ [c]) c = TrimRight1 s c"
  by (simp add: TrimRight1_def)

lemma TrimRight1_prefix: "\<exists>t. s = TrimRight1 s c @ t"
proof -
  have "rev s = takeWhile (\<lambda>x. x = c) (rev s) @ dropWhile (\<lambda>x. x = c) (rev s)" by simp
  then show ?thesis unfolding TrimRight1_def by (metis rev_append rev_rev_ident)
qed

lemma TrimRight1_ends:
  assumes "TrimRight1 s c = t @ [x]"
  shows "x \<noteq> c"
proof -
  have "dropWhile (\<lambda>y. y = c) (rev s) = x # rev t"
    using arg_cong [OF assms, of rev] by (simp add: TrimRight1_def)
  then show ?thesis by (simp add: dropWhile_eq_Cons_conv)
qed

lemma TrimRight1_keep: "t \<noteq> [] \<Longrightarrow> last t \<noteq> c \<Longrightarrow> \<exists>u. TrimRight1 (s @ t @ v) c = s @ t @ u"
proof -
  assume t: "t \<noteq> []" "last t \<noteq> c"
  then obtain t' x where tx: "t = t' @ [x]" "x \<noteq> c" by (metis append_butlast_last_id)
  have "dropWhile (\<lambda>y. y = c) (rev v @ x # w) = dropWhile (\<lambda>y. y = c) (rev v) @ x # w" for w
    using tx(2) by (simp add: dropWhile_append)
  then have "TrimRight1 (s @ t @ v) c = s @ t @ rev (dropWhile (\<lambda>y. y = c) (rev v))"
    by (simp add: TrimRight1_def tx(1))
  then show ?thesis by blast
qed

lemma TrimSpace_last: "TrimSpace s \<noteq> [] \<Longrightarrow> last (TrimSpace s) \<noteq> CHR 0x0A"
proof
  assume ne: "TrimSpace s \<noteq> []" and last: "last (TrimSpace s) = CHR 0x0A"
  define r where "r = trim_left (map rev spaces) (rev (trim_left spaces s))"
  have r: "TrimSpace s = rev r" by (simp add: TrimSpace_def trim_right_def r_def)
  with ne last obtain r' where "r = CHR 0x0A # r'" by (cases r) auto
  then have "HasPrefix r [CHR 0x0A]" by (simp add: HasPrefix_def)
  moreover have "[CHR 0x0A] \<in> set (map rev spaces)" by (simp add: spaces_def)
  moreover have "find (\<lambda>p. p \<noteq> [] \<and> HasPrefix r p) (map rev spaces) = None" unfolding r_def by (rule trim_left_done)
  ultimately show False by (auto simp: find_None_iff)
qed

section \<open>Paths\<close>

text \<open>\<open>filepath.Clean\<close> and \<open>filepath.Join\<close> with \<open>/\<close> as the separator.\<close>

fun clean_elements :: "bool \<Rightarrow> string list \<Rightarrow> string list \<Rightarrow> string list" where
  "clean_elements rooted acc [] = rev acc"
| "clean_elements rooted acc (e # es) =
    (if e = [] \<or> e = ''.'' then clean_elements rooted acc es
     else if e = ''..'' then
       (if acc \<noteq> [] \<and> hd acc \<noteq> ''..'' then clean_elements rooted (tl acc) es
        else if rooted then clean_elements rooted acc es
        else clean_elements rooted (e # acc) es)
     else clean_elements rooted (e # acc) es)"

definition filepath_Clean :: "string \<Rightarrow> string" where
  "filepath_Clean path =
    (let rooted = HasPrefix path ''/'';
         out = (if rooted then ''/'' else []) @ Join (clean_elements rooted [] (Split1 CHR ''/'' path)) ''/''
     in if out = [] then ''.'' else out)"

definition filepath_Join :: "string list \<Rightarrow> string" where
  "filepath_Join elems =
    (let es = filter (\<lambda>e. e \<noteq> []) elems in if es = [] then [] else filepath_Clean (Join es ''/''))"

section \<open>Case folding and replacement\<close>

text \<open>
  \<open>strings.ToLower\<close>, as far as comparing its result with an ASCII constant goes: ASCII letters, and
  the two non-ASCII code points whose lower case is an ASCII letter (Kelvin sign, dotted capital I).
\<close>

definition lower_char :: "char \<Rightarrow> char" where
  "lower_char c =
    (case map_of (zip ''ABCDEFGHIJKLMNOPQRSTUVWXYZ'' ''abcdefghijklmnopqrstuvwxyz'') c of
       None \<Rightarrow> c | Some l \<Rightarrow> l)"

fun ToLower :: "string \<Rightarrow> string" where
  "ToLower [] = []"
| "ToLower (c # s) =
    (if HasPrefix (c # s) [CHR 0xE2, CHR 0x84, CHR 0xAA] then CHR ''k'' # ToLower (drop 2 s)
     else if HasPrefix (c # s) [CHR 0xC4, CHR 0xB0] then CHR ''i'' # ToLower (drop 1 s)
     else lower_char c # ToLower s)"

section \<open>Decimal numbers\<close>

definition digit :: "nat \<Rightarrow> char" where
  "digit n = ''0123456789'' ! n"

fun nat_text :: "nat \<Rightarrow> string" where
  "nat_text n = (if n < 10 then [digit n] else nat_text (n div 10) @ [digit (n mod 10)])"

declare nat_text.simps [simp del]

definition Itoa :: "int \<Rightarrow> string" where
  "Itoa i = (if i < 0 then CHR ''-'' # nat_text (nat (- i)) else nat_text (nat i))"

definition digit_value :: "char \<Rightarrow> int option" where
  "digit_value c = map_of (zip ''0123456789'' [0, 1, 2, 3, 4, 5, 6, 7, 8, 9]) c"

definition is_digit :: "char \<Rightarrow> bool" where
  "is_digit c \<longleftrightarrow> digit_value c \<noteq> None"

definition decimal :: "string \<Rightarrow> int" where
  "decimal ds = foldl (\<lambda>acc c. 10 * acc + (case digit_value c of None \<Rightarrow> 0 | Some d \<Rightarrow> d)) 0 ds"

text \<open>\<open>strconv.Atoi\<close>: the value, 0 after a syntax error and the nearest value after a range error, and whether it is right.\<close>

definition Atoi :: "string \<Rightarrow> int \<times> bool" where
  "Atoi s =
    (let (neg, ds) = (case s of [] \<Rightarrow> (False, []) | c # cs \<Rightarrow> if c = CHR ''-'' then (True, cs) else if c = CHR ''+'' then (False, cs) else (False, s))
     in if ds = [] \<or> \<not> list_all is_digit ds then (0, False)
        else let n = decimal ds;
                 n = (if neg then - n else n)
             in if n < - (2 ^ 63) then (- (2 ^ 63), False) else if n \<ge> 2 ^ 63 then (2 ^ 63 - 1, False) else (n, True))"

lemma digit_value_digit: "n < 10 \<Longrightarrow> digit_value (digit n) = Some (int n)"
proof -
  assume "n < 10"
  then have "n = 0 \<or> n = 1 \<or> n = 2 \<or> n = 3 \<or> n = 4 \<or> n = 5 \<or> n = 6 \<or> n = 7 \<or> n = 8 \<or> n = 9" by arith
  then show ?thesis by (elim disjE) (simp_all add: digit_def digit_value_def)
qed

lemma nat_text_digits: "list_all is_digit (nat_text n) \<and> nat_text n \<noteq> [] \<and> decimal (nat_text n) = int n"
proof (induction n rule: nat_text.induct)
  case (1 n)
  show ?case
  proof (cases "n < 10")
    case True
    then show ?thesis by (simp add: nat_text.simps [of n] decimal_def is_digit_def digit_value_digit)
  next
    case False
    have "10 * (int n div 10) + int n mod 10 = int n" by simp
    with 1 False show ?thesis
      by (simp add: nat_text.simps [of n] decimal_def is_digit_def digit_value_digit zdiv_int zmod_int)
  qed
qed

lemma nat_text_first: "nat_text n = c # cs \<Longrightarrow> c \<noteq> CHR ''-'' \<and> c \<noteq> CHR ''+''"
  using nat_text_digits [of n] by (auto simp: is_digit_def digit_value_def)

lemma Atoi_Itoa: "- (2 ^ 63) \<le> i \<Longrightarrow> i < 2 ^ 63 \<Longrightarrow> Atoi (Itoa i) = (i, True)"
proof (cases "i < 0")
  case True
  moreover assume "- (2 ^ 63) \<le> i" "i < 2 ^ 63"
  ultimately show ?thesis using nat_text_digits [of "nat (- i)"] by (simp add: Atoi_def Itoa_def Let_def)
next
  case False
  assume "- (2 ^ 63) \<le> i" "i < 2 ^ 63"
  with False show ?thesis
    using nat_text_digits [of "nat i"] nat_text_first [of "nat i"]
    by (cases "nat_text (nat i)") (simp_all add: Atoi_def Itoa_def Let_def)
qed

section \<open>time.ParseDuration\<close>

text \<open>
  Durations are nanoseconds in an \<open>int64\<close>; the bounds below are the overflow checks of the library.
  The fraction of a unit is computed exactly here and in \<open>float64\<close> there.
\<close>

fun leadingInt :: "int \<Rightarrow> string \<Rightarrow> (int \<times> string) option" where
  "leadingInt x [] = Some (x, [])"
| "leadingInt x (c # s) =
    (case digit_value c of None \<Rightarrow> Some (x, c # s)
     | Some n \<Rightarrow>
       if x > 2 ^ 63 div 10 then None
       else if x * 10 + n > 2 ^ 63 then None else leadingInt (x * 10 + n) s)"

fun leadingFraction :: "int \<Rightarrow> int \<Rightarrow> bool \<Rightarrow> string \<Rightarrow> int \<times> int \<times> string" where
  "leadingFraction x scale ovf [] = (x, scale, [])"
| "leadingFraction x scale ovf (c # s) =
    (case digit_value c of None \<Rightarrow> (x, scale, c # s)
     | Some n \<Rightarrow>
       if ovf \<or> x > (2 ^ 63 - 1) div 10 \<or> x * 10 + n > 2 ^ 63
       then leadingFraction x scale True s
       else leadingFraction (x * 10 + n) (scale * 10) False s)"

definition unitMap :: "string \<Rightarrow> int option" where
  "unitMap u =
    (if u = ''ns'' then Some 1
     else if u = ''us'' \<or> u = [CHR 0xC2, CHR 0xB5, CHR ''s''] \<or> u = [CHR 0xCE, CHR 0xBC, CHR ''s'']
     then Some 1000
     else if u = ''ms'' then Some 1000000
     else if u = ''s'' then Some 1000000000
     else if u = ''m'' then Some 60000000000
     else if u = ''h'' then Some 3600000000000
     else None)"

lemma leadingInt_length: "leadingInt x s = Some (y, t) \<Longrightarrow> length t \<le> length s"
  by (induction x s rule: leadingInt.induct) (auto split: if_splits option.splits)

lemma leadingFraction_length: "leadingFraction x sc ovf s = (y, z, t) \<Longrightarrow> length t \<le> length s"
  by (induction x sc ovf s arbitrary: y z t rule: leadingFraction.induct)
     (auto split: if_splits option.splits simp: le_SucI)

text \<open>One \<open>number unit\<close> group: its value and the rest of the text.\<close>

definition durationGroup :: "string \<Rightarrow> (int \<times> string) option" where
  "durationGroup s =
    (if s = [] \<or> \<not> (hd s = CHR ''.'' \<or> is_digit (hd s)) then None
     else case leadingInt 0 s of None \<Rightarrow> None
     | Some (v, s1) \<Rightarrow>
       (let pre = (length s \<noteq> length s1);
            dot = (s1 \<noteq> [] \<and> hd s1 = CHR ''.'');
            (f, scale, s2) = (if dot then leadingFraction 0 1 False (tl s1) else (0, 1, s1));
            post = (dot \<and> length (tl s1) \<noteq> length s2);
            u = takeWhile (\<lambda>c. \<not> (c = CHR ''.'' \<or> is_digit c)) s2;
            s3 = drop (length u) s2
        in if \<not> pre \<and> \<not> post then None
           else if u = [] then None
           else case unitMap u of None \<Rightarrow> None
           | Some unit \<Rightarrow>
             if v > 2 ^ 63 div unit then None
             else let w = v * unit + (f * unit) div scale in
               if f > 0 \<and> w > 2 ^ 63 then None else Some (w, s3)))"

lemma durationGroup_length: "durationGroup s = Some (v, t) \<Longrightarrow> length t < length s"
  by (auto simp: durationGroup_def Let_def split: if_splits option.splits prod.splits
      dest!: leadingInt_length leadingFraction_length)

function durationLoop :: "int \<Rightarrow> string \<Rightarrow> int option" where
  "durationLoop d s = (if s = [] then Some d else
     case durationGroup s of None \<Rightarrow> None
     | Some (v, t) \<Rightarrow> if d + v > 2 ^ 63 then None else durationLoop (d + v) t)"
  by pat_completeness auto
termination
  by (relation "measure (length \<circ> snd)") (auto dest: durationGroup_length)

declare durationLoop.simps [simp del]

definition ParseDuration :: "string \<Rightarrow> duration option" where
  "ParseDuration s =
    (let neg = (s \<noteq> [] \<and> hd s = CHR ''-'');
         t = (if s \<noteq> [] \<and> (hd s = CHR ''-'' \<or> hd s = CHR ''+'') then tl s else s)
     in if t = ''0'' then Some 0
        else if t = [] then None
        else case durationLoop 0 t of None \<Rightarrow> None
        | Some d \<Rightarrow> if neg then Some (- d) else if d > 2 ^ 63 - 1 then None else Some d)"

text \<open>\<open>d, _ := time.ParseDuration(s)\<close>: the zero duration on error.\<close>

definition duration_or_zero :: "string \<Rightarrow> duration" where
  "duration_or_zero s = (case ParseDuration s of None \<Rightarrow> 0 | Some d \<Rightarrow> d)"

lemma leadingInt_nonneg: "leadingInt x s = Some (y, t) \<Longrightarrow> 0 \<le> x \<Longrightarrow> 0 \<le> y"
proof (induction x s rule: leadingInt.induct)
  case (2 x c s)
  have "digit_value c = Some n \<Longrightarrow> 0 \<le> n" for n
    by (auto simp: digit_value_def split: if_splits)
  with 2 show ?case by (auto split: if_splits option.splits)
qed simp

lemma leadingFraction_nonneg:
  "leadingFraction x sc ovf s = (y, z, t) \<Longrightarrow> 0 \<le> x \<Longrightarrow> 0 \<le> sc \<Longrightarrow> 0 \<le> y \<and> 0 \<le> z"
proof (induction x sc ovf s arbitrary: y z t rule: leadingFraction.induct)
  case (2 x scale ovf c s)
  have "digit_value c = Some n \<Longrightarrow> 0 \<le> n" for n
    by (auto simp: digit_value_def split: if_splits)
  with 2 show ?case by (auto split: if_splits option.splits)
qed simp

lemma unitMap_pos: "unitMap u = Some n \<Longrightarrow> 0 < n"
  by (auto simp: unitMap_def split: if_splits)

lemma durationGroup_nonneg: "durationGroup s = Some (v, t) \<Longrightarrow> 0 \<le> v"
  by (auto simp: durationGroup_def Let_def split: if_splits option.splits prod.splits
      dest!: leadingInt_nonneg leadingFraction_nonneg unitMap_pos intro!: add_nonneg_nonneg
      mult_nonneg_nonneg simp: pos_imp_zdiv_nonneg_iff div_int_pos_iff)

lemma durationLoop_bound:
  "durationLoop d s = Some e \<Longrightarrow> 0 \<le> d \<Longrightarrow> d \<le> 2 ^ 63 \<Longrightarrow> 0 \<le> e \<and> e \<le> 2 ^ 63"
proof (induction d s rule: durationLoop.induct)
  case (1 d s)
  then show ?case
    by (auto simp: durationLoop.simps [of d s] split: if_splits option.splits
        dest: durationGroup_nonneg)
qed

lemma ParseDuration_int64: "ParseDuration s = Some d \<Longrightarrow> - (2 ^ 63) \<le> d \<and> d < 2 ^ 63"
  by (auto simp: ParseDuration_def Let_def split: if_splits option.splits dest: durationLoop_bound)

end
