(* ===== verification/Go_JSON.thy ===== *)
theory Go_JSON
  imports Go_Strings "HOL-Library.Multiset"
begin

text \<open>
  JSON values, as \<open>encoding/json\<close> reads and writes them. Text is represented by its value: an object
  keeps its members in textual order, with duplicates, and a number keeps its literal
  (\<open>Decoder.UseNumber\<close>). \<open>JTime\<close> is the RFC 3339 string of an instant the program itself wrote.
  A \<open>json.RawMessage\<close> is a \<open>json option\<close> (\<open>None\<close> for no bytes). Decoding into
  \<open>map[string]any\<close> and marshalling back sorts the members and keeps the last of several with the
  same key: \<open>canonical\<close>.
\<close>

datatype json = JNull | JBool bool | JNum string | JStr string | JTime time
  | JArr "json list" | JObj "(string \<times> json) list"

definition sort_members :: "(string \<times> json) list \<Rightarrow> (string \<times> json) list" where
  "sort_members kvs =
     map (\<lambda>k. (k, case map_of (rev kvs) k of None \<Rightarrow> JNull | Some v \<Rightarrow> v)) (sort (remdups (map fst kvs)))"

primrec canonical :: "json \<Rightarrow> json" where
  "canonical JNull = JNull"
| "canonical (JBool b) = JBool b"
| "canonical (JNum n) = JNum n"
| "canonical (JStr s) = JStr s"
| "canonical (JTime t) = JTime t"
| "canonical (JArr xs) = JArr (map canonical xs)"
| "canonical (JObj kvs) = JObj (sort_members (map (map_prod id canonical) kvs))"

text \<open>
  A Go value of type \<open>any\<close> handed to \<open>json.Marshal\<close>: nil, a value with a JSON form, or one that
  \<open>Marshal\<close> rejects (an invalid \<open>RawMessage\<close>, a channel, a function, an infinite float).
\<close>

datatype goany = GoNil | GoVal json | GoBad

definition json_Marshal :: "goany \<Rightarrow> json result" where
  "json_Marshal v = (case v of GoNil \<Rightarrow> Inr JNull | GoVal j \<Rightarrow> Inr j
     | GoBad \<Rightarrow> Inl (errors_New ''json: unsupported value''))"

text \<open>\<open>raw\<close> as a member value: no bytes marshal to \<open>null\<close>.\<close>

definition raw_json :: "json option \<Rightarrow> json" where
  "raw_json r = (case r of None \<Rightarrow> JNull | Some j \<Rightarrow> j)"

text \<open>A member with \<open>omitempty\<close>.\<close>

definition omit_str :: "string \<Rightarrow> string \<Rightarrow> (string \<times> json) list" where
  "omit_str k v = (if v = [] then [] else [(k, JStr v)])"

definition omit_raw :: "string \<Rightarrow> json option \<Rightarrow> (string \<times> json) list" where
  "omit_raw k v = (case v of None \<Rightarrow> [] | Some j \<Rightarrow> [(k, j)])"

definition str_obj :: "(string \<times> string) list \<Rightarrow> json" where
  "str_obj kvs = JObj (map (map_prod id JStr) kvs)"

lemma map_of_sort_members:
  assumes "distinct (map fst kvs)"
  shows "map_of (sort_members kvs) = map_of kvs"
proof
  fix k
  have rev: "map_of (rev kvs) = map_of kvs"
    by (rule map_of_inject_set [THEN iffD2]) (simp_all add: assms rev_map [symmetric])
  show "map_of (sort_members kvs) k = map_of kvs k"
  proof (cases "k \<in> fst ` set kvs")
    case True
    then obtain v where "map_of kvs k = Some v"
      by (metis map_of_eq_None_iff not_None_eq)
    with True show ?thesis
      by (simp add: sort_members_def rev map_of_map_restrict)
  next
    case False
    then have "map_of kvs k = None" by (simp add: map_of_eq_None_iff)
    moreover have "map_of (sort_members kvs) k = None"
      using False by (simp add: sort_members_def map_of_eq_None_iff image_image)
    ultimately show ?thesis by simp
  qed
qed

text \<open>Members in another order, with distinct keys, have the same canonical form.\<close>

lemma sort_members_perm:
  assumes "distinct (map fst kvs)" and "mset kvs' = mset kvs"
  shows "sort_members kvs' = sort_members kvs"
proof -
  have keys: "mset (map fst kvs') = mset (map fst kvs)"
    using assms(2) by (simp only: mset_map)
  then have d': "distinct (map fst kvs')"
    using assms(1) by (metis distinct_count_atmost_1 set_mset_mset)
  have rev1: "map_of (rev kvs) = map_of kvs"
    by (rule map_of_inject_set [THEN iffD2]) (simp_all add: assms(1) rev_map [symmetric])
  have rev2: "map_of (rev kvs') = map_of kvs"
    by (rule map_of_inject_set [THEN iffD2])
      (use assms(2) d' in \<open>simp_all add: assms(1) rev_map [symmetric] flip: set_mset_mset\<close>)
  have "sort (remdups (map fst kvs')) = sort (remdups (map fst kvs))"
    using keys d' assms(1) by (intro properties_for_sort) (simp_all add: distinct_remdups_id)
  then show ?thesis by (simp add: sort_members_def rev1 rev2)
qed

lemma sort_members_idem:
  "sort_members (sort_members kvs) = sort_members kvs"
proof -
  let ?ks = "sort (remdups (map fst kvs))"
  have fst_sm: "map fst (sort_members kvs) = ?ks"
    by (simp add: sort_members_def comp_def)
  have d: "distinct ?ks" by simp
  have "sort (remdups ?ks) = ?ks"
    by (simp add: distinct_remdups_id sorted_sort_id)
  moreover have "map_of (rev (sort_members kvs)) = map_of (sort_members kvs)"
    by (rule map_of_inject_set [THEN iffD2]) (simp_all add: fst_sm rev_map [symmetric] d)
  ultimately have "sort_members (sort_members kvs) =
      map (\<lambda>k. (k, case map_of (sort_members kvs) k of None \<Rightarrow> JNull | Some v \<Rightarrow> v)) ?ks"
    by (simp add: sort_members_def [of "sort_members kvs"] fst_sm)
  also have "\<dots> = sort_members kvs"
    by (auto simp: sort_members_def map_of_map_restrict)
  finally show ?thesis .
qed

end
