(* ===== verification/Go_Sha256.thy ===== *)
theory Go_Sha256
  imports Go_Strings
begin

unbundle bit_operations_syntax

text \<open>
  \<open>crypto/sha256.Sum256\<close> on byte strings (FIPS 180-4). The program uses it to name producer events,
  capability requests, artifacts and Git mirrors. Claims that two digests differ are never made
  outright: they carry the absence of a collision between the two concrete inputs as a hypothesis.
\<close>

definition sha_K :: "32 word list" where
  "sha_K =
    [1116352408, 1899447441, 3049323471, 3921009573, 961987163, 1508970993, 2453635748, 2870763221,
     3624381080, 310598401, 607225278, 1426881987, 1925078388, 2162078206, 2614888103, 3248222580,
     3835390401, 4022224774, 264347078, 604807628, 770255983, 1249150122, 1555081692, 1996064986,
     2554220882, 2821834349, 2952996808, 3210313671, 3336571891, 3584528711, 113926993, 338241895,
     666307205, 773529912, 1294757372, 1396182291, 1695183700, 1986661051, 2177026350, 2456956037,
     2730485921, 2820302411, 3259730800, 3345764771, 3516065817, 3600352804, 4094571909, 275423344,
     430227734, 506948616, 659060556, 883997877, 958139571, 1322822218, 1537002063, 1747873779,
     1955562222, 2024104815, 2227730452, 2361852424, 2428436474, 2756734187, 3204031479, 3329325298]"

definition sha_H0 :: "32 word list" where
  "sha_H0 =
    [1779033703, 3144134277, 1013904242, 2773480762, 1359893119, 2600822924, 528734635, 1541459225]"

definition bytes_of :: "string \<Rightarrow> 8 word list" where
  "bytes_of s = map (\<lambda>c. of_nat (of_char c)) s"

text \<open>A 64-bit big-endian length, and the padding to a multiple of 64 bytes.\<close>

definition be64 :: "nat \<Rightarrow> 8 word list" where
  "be64 n = map (\<lambda>i. of_int (int n div 256 ^ i)) [7, 6, 5, 4, 3, 2, 1, 0]"

definition sha_pad :: "8 word list \<Rightarrow> 8 word list" where
  "sha_pad m = m @ [0x80] @ replicate ((119 - length m mod 64) mod 64) 0 @ be64 (8 * length m)"

definition be32 :: "8 word list \<Rightarrow> 32 word" where
  "be32 bs = foldl (\<lambda>acc b. push_bit 8 acc OR ucast b) 0 bs"

fun chunks :: "nat \<Rightarrow> nat \<Rightarrow> 'a list \<Rightarrow> 'a list list" where
  "chunks 0 k xs = []"
| "chunks (Suc n) k xs = take k xs # chunks n k (drop k xs)"

fun sha_extend :: "nat \<Rightarrow> 32 word list \<Rightarrow> 32 word list" where
  "sha_extend 0 w = w"
| "sha_extend (Suc n) w =
    (let t = length w;
         x = w ! (t - 15); y = w ! (t - 2);
         s0 = word_rotr 7 x XOR word_rotr 18 x XOR drop_bit 3 x;
         s1 = word_rotr 17 y XOR word_rotr 19 y XOR drop_bit 10 y
     in sha_extend n (w @ [w ! (t - 16) + s0 + w ! (t - 7) + s1]))"

definition sha_round :: "32 word \<times> 32 word \<Rightarrow> 32 word list \<Rightarrow> 32 word list" where
  "sha_round kw v = (case v of [a, b, c, d, e, f, g, h] \<Rightarrow>
     (let S1 = word_rotr 6 e XOR word_rotr 11 e XOR word_rotr 25 e;
          ch = (e AND f) XOR (NOT e AND g);
          t1 = h + S1 + ch + fst kw + snd kw;
          S0 = word_rotr 2 a XOR word_rotr 13 a XOR word_rotr 22 a;
          maj = (a AND b) XOR (a AND c) XOR (b AND c);
          t2 = S0 + maj
      in [t1 + t2, a, b, c, d + t1, e, f, g])
   | _ \<Rightarrow> v)"

definition sha_block :: "8 word list \<Rightarrow> 32 word list \<Rightarrow> 32 word list" where
  "sha_block block hs =
    (let w = sha_extend 48 (map be32 (chunks 16 4 block))
     in map (\<lambda>(x, y). x + y) (zip hs (fold sha_round (zip sha_K w) hs)))"

definition word_bytes :: "32 word \<Rightarrow> 8 word list" where
  "word_bytes w = map (\<lambda>i. ucast (drop_bit i w)) [24, 16, 8, 0]"

definition sha256_Sum256 :: "8 word list \<Rightarrow> 8 word list" where
  "sha256_Sum256 m =
    (let p = sha_pad m
     in concat (map word_bytes (fold sha_block (chunks (length p div 64) 64 p) sha_H0)))"

lemma length_sha_round: "length v = 8 \<Longrightarrow> length (sha_round kw v) = 8"
  by (auto simp: sha_round_def Let_def split: list.splits)

lemma length_fold_sha_round: "length v = 8 \<Longrightarrow> length (fold sha_round kws v) = 8"
  by (induction kws arbitrary: v) (simp_all add: length_sha_round)

lemma length_sha_block: "length hs = 8 \<Longrightarrow> length (sha_block b hs) = 8"
  by (simp add: sha_block_def Let_def length_fold_sha_round)

lemma length_fold_sha_block: "length hs = 8 \<Longrightarrow> length (fold sha_block bs hs) = 8"
  by (induction bs arbitrary: hs) (simp_all add: length_sha_block)

lemma length_sha256 [simp]: "length (sha256_Sum256 m) = 32"
proof -
  have "length (concat (map word_bytes ws)) = 4 * length ws" for ws
    by (induction ws) (simp_all add: word_bytes_def)
  moreover have "length sha_H0 = 8" by (simp add: sha_H0_def)
  ultimately show ?thesis by (simp add: sha256_Sum256_def Let_def length_fold_sha_block)
qed

text \<open>The digest as the 64 hexadecimal digits the program stores.\<close>

definition sha256_hex :: "string \<Rightarrow> string" where
  "sha256_hex s = hex_EncodeToString (sha256_Sum256 (bytes_of s))"

lemma length_sha256_hex [simp]: "length (sha256_hex s) = 64"
  by (simp add: sha256_hex_def)

lemma sha256_hex_eq_iff:
  "sha256_hex s = sha256_hex t \<longleftrightarrow> sha256_Sum256 (bytes_of s) = sha256_Sum256 (bytes_of t)"
  by (auto simp: sha256_hex_def dest: hex_EncodeToString_inj)

end
