(* ===== verification/Relay_Types.thy ===== *)
theory Relay_Types
  imports Go_JSON Go_Sha256
begin

text \<open>
  The data model of \<open>types.go\<close> and \<open>controlplane/types.go\<close>: one record per struct with every field
  of the source (prefixed by the struct, since Isabelle's field names are global), one datatype per
  string enumeration, and the JSON form of the structs that are stored as event data. Pointers to
  times and results are options; \<open>map[string]string\<close> is an association list; \<open>int\<close> and
  \<open>int64\<close> counters are \<open>int\<close>, since none of them is computed past a list length.
\<close>

section \<open>types.go\<close>

datatype RunStatus = RunQueued | RunRunning | RunCancelling | RunCancelled | RunSucceeded | RunFailed

datatype AttemptStatus = AttemptQueued | AttemptLeased | AttemptRunning | AttemptSucceeded
  | AttemptFailed | AttemptLost | AttemptCancelled

datatype InteractionKind = InteractionInput | InteractionApproval | InteractionOther string

record WorkspaceSpec =
  ws_Kind :: string
  ws_Source :: string
  ws_Ref :: string
  ws_Subdir :: string
  ws_Ephemeral :: bool

record RetryPolicy =
  rp_MaxAttempts :: int
  rp_Backoff :: string

record RuntimeRequirement =
  rr_ID :: string
  rr_Provider :: string
  rr_Model :: string
  rr_Version :: string
  rr_Labels :: "(string \<times> string) list"

record Source =
  src_Kind :: string
  src_ExternalID :: string
  src_URL :: string
  src_Metadata :: "json option"

record Input =
  in_Type :: string
  in_Version :: string
  in_Prompt :: string
  in_Data :: "json option"

record InstructionFragment =
  frag_ID :: string
  frag_Version :: string
  frag_Title :: string
  frag_Content :: string

record InstructionBundle =
  ib_Runtime :: "InstructionFragment list"
  ib_Host :: "InstructionFragment list"
  ib_Workspace :: "InstructionFragment list"
  ib_Agent :: "InstructionFragment list"
  ib_Turn :: "InstructionFragment list"

record CompiledInstructions =
  ci_Stable :: string
  ci_Prompt :: string

record ContextItem =
  cx_Type :: string
  cx_Version :: string
  cx_ExternalID :: string
  cx_Revision :: string
  cx_CapturedAt :: time
  cx_Data :: "json option"

record Principal =
  pr_Type :: string
  pr_ID :: string
  pr_AccountableID :: string

record CapabilityGrant =
  cg_Name :: string
  cg_Version :: string
  cg_Effect :: string
  cg_Resources :: "string list"

record CapabilityCall =
  cc_Name :: string
  cc_Version :: string
  cc_IdempotencyKey :: string
  cc_Resource :: string
  cc_Input :: "json option"

record CapabilityRequest =
  cr_CallID :: string
  cr_RunID :: string
  cr_AgentID :: string
  cr_Principal :: Principal
  cr_Name :: string
  cr_Version :: string
  cr_Effect :: string
  cr_Resource :: string
  cr_Input :: "json option"

record CapabilityResult =
  cres_CallID :: string
  cres_Output :: "json option"

record CapabilityReservation =
  rsv_CallID :: string
  rsv_Execute :: bool
  rsv_Result :: "CapabilityResult option"
  rsv_Error :: string

record Artifact =
  art_ID :: string
  art_RunID :: string
  art_Type :: string
  art_Ref :: string
  art_Name :: string
  art_ContentType :: string
  art_Size :: int
  art_SHA256 :: string

record Result =
  res_Summary :: string
  res_Output :: "json option"
  res_Artifacts :: "Artifact list"

record Request =
  rq_TenantID :: string
  rq_ProjectID :: string
  rq_SessionID :: string
  rq_AgentID :: string
  rq_IdempotencyKey :: string
  rq_Runtime :: RuntimeRequirement
  rq_Source :: Source
  rq_Input :: Input
  rq_Instructions :: InstructionBundle
  rq_Context :: "ContextItem list"
  rq_Capabilities :: "CapabilityGrant list"
  rq_Principal :: Principal
  rq_Retry :: RetryPolicy
  rq_Timeout :: string
  rq_Workspace :: WorkspaceSpec

record Attempt =
  att_ID :: string
  att_Number :: int
  att_NodeID :: string
  att_LeaseToken :: string
  att_LeaseExpiresAt :: "time option"
  att_AvailableAt :: "time option"
  att_Status :: AttemptStatus
  att_StartedAt :: "time option"
  att_CompletedAt :: "time option"

record Run =
  run_ID :: string
  run_TenantID :: string
  run_ProjectID :: string
  run_SessionID :: string
  run_AgentID :: string
  run_IdempotencyKey :: string
  run_Runtime :: RuntimeRequirement
  run_Source :: Source
  run_Status :: RunStatus
  run_Attempt :: Attempt
  run_Result :: "Result option"
  run_Error :: string
  run_CreatedAt :: time
  run_StartedAt :: "time option"
  run_CompletedAt :: "time option"
  run_DeadlineAt :: "time option"
  run_CancelRequestedAt :: "time option"
  run_CancelReason :: string
  run_CancelledAt :: "time option"

record Event =
  ev_ID :: string
  ev_RunID :: string
  ev_AttemptID :: string
  ev_Sequence :: int
  ev_Type :: string
  ev_Data :: "json option"
  ev_CreatedAt :: time

record InteractionRequest =
  ir_Kind :: InteractionKind
  ir_Prompt :: string
  ir_Data :: "json option"

record Interaction =
  ia_ID :: string
  ia_RunID :: string
  ia_AttemptID :: string
  ia_Kind :: InteractionKind
  ia_State :: string
  ia_Prompt :: string
  ia_Data :: "json option"
  ia_Response :: "json option"
  ia_CreatedAt :: time
  ia_ResolvedAt :: "time option"

section \<open>controlplane/types.go\<close>

record RuntimeModel =
  rm_ID :: string
  rm_DisplayName :: string
  rm_Description :: string
  rm_Default :: bool

record Runtime =
  rt_ID :: string
  rt_Provider :: string
  rt_Version :: string
  rt_State :: string
  rt_Message :: string
  rt_DefaultModel :: string
  rt_Models :: "string list"
  rt_ModelCatalog :: "RuntimeModel list"
  rt_CheckedAt :: "time option"

record Capability =
  cap_Name :: string
  cap_Version :: string
  cap_Kind :: string

record NodeRegistration =
  reg_ID :: string
  reg_Version :: string
  reg_ProtocolVersion :: string
  reg_Labels :: "(string \<times> string) list"
  reg_Runtimes :: "Runtime list"
  reg_Capabilities :: "Capability list"
  reg_Capacity :: int

record Node =
  node_Registration :: NodeRegistration
  node_Active :: int
  node_LastSeen :: time
  node_State :: string

definition NodeOnline :: string where "NodeOnline = ''online''"
definition NodeOffline :: string where "NodeOffline = ''offline''"

record Assignment =
  as_RunID :: string
  as_AttemptID :: string
  as_LeaseToken :: string
  as_LeaseExpiresAt :: time
  as_Request :: Request

record LeaseUpdate =
  lu_LeaseExpiresAt :: time
  lu_CancelRequested :: bool
  lu_CancelReason :: string

record CancelRequest =
  cq_Reason :: string
  cq_RequestedBy :: string

section \<open>The sentinel errors of controlplane/service.go\<close>

definition ErrNotFound :: error where
  "ErrNotFound = GoError [NotFound] ''relay control plane: not found''"
definition ErrNoAssignment :: error where
  "ErrNoAssignment = GoError [NoAssignment] ''relay control plane: no matching assignment''"
definition ErrInvalidLease :: error where
  "ErrInvalidLease = GoError [InvalidLease] ''relay control plane: invalid lease''"
definition ErrInvalidTransition :: error where
  "ErrInvalidTransition = GoError [InvalidTransition] ''relay control plane: invalid transition''"
definition ErrRunCancelled :: error where
  "ErrRunCancelled = GoError [RunCancelledErr] ''relay control plane: run cancelled''"
definition ErrIncompatibleProtocol :: error where
  "ErrIncompatibleProtocol = GoError [IncompatibleProtocol] ''relay control plane: incompatible protocol''"

lemmas controlplane_errors = ErrNotFound_def ErrNoAssignment_def ErrInvalidLease_def
  ErrInvalidTransition_def ErrRunCancelled_def ErrIncompatibleProtocol_def

lemma controlplane_errors_distinct [simp]:
  "ErrNotFound \<noteq> ErrInvalidLease" "ErrInvalidLease \<noteq> ErrNotFound"
  "ErrNotFound \<noteq> ErrInvalidTransition" "ErrInvalidTransition \<noteq> ErrNotFound"
  "ErrInvalidLease \<noteq> ErrInvalidTransition" "ErrInvalidTransition \<noteq> ErrInvalidLease"
  "ErrRunCancelled \<noteq> ErrInvalidLease" "ErrInvalidLease \<noteq> ErrRunCancelled"
  "ErrRunCancelled \<noteq> ErrInvalidTransition" "ErrInvalidTransition \<noteq> ErrRunCancelled"
  "ErrRunCancelled \<noteq> ErrNotFound" "ErrNotFound \<noteq> ErrRunCancelled"
  "ErrNoAssignment \<noteq> ErrNotFound" "ErrNotFound \<noteq> ErrNoAssignment"
  by (simp_all add: controlplane_errors)

section \<open>Zero values\<close>

definition zero_Request :: Request where
  "zero_Request =
    \<lparr>rq_TenantID = [], rq_ProjectID = [], rq_SessionID = [], rq_AgentID = [], rq_IdempotencyKey = [],
     rq_Runtime = \<lparr>rr_ID = [], rr_Provider = [], rr_Model = [], rr_Version = [], rr_Labels = []\<rparr>,
     rq_Source = \<lparr>src_Kind = [], src_ExternalID = [], src_URL = [], src_Metadata = None\<rparr>,
     rq_Input = \<lparr>in_Type = [], in_Version = [], in_Prompt = [], in_Data = None\<rparr>,
     rq_Instructions = \<lparr>ib_Runtime = [], ib_Host = [], ib_Workspace = [], ib_Agent = [], ib_Turn = []\<rparr>,
     rq_Context = [], rq_Capabilities = [],
     rq_Principal = \<lparr>pr_Type = [], pr_ID = [], pr_AccountableID = []\<rparr>,
     rq_Retry = \<lparr>rp_MaxAttempts = 0, rp_Backoff = []\<rparr>, rq_Timeout = [],
     rq_Workspace = \<lparr>ws_Kind = [], ws_Source = [], ws_Ref = [], ws_Subdir = [], ws_Ephemeral = False\<rparr>\<rparr>"

definition zero_Attempt :: Attempt where
  "zero_Attempt = \<lparr>att_ID = [], att_Number = 0, att_NodeID = [], att_LeaseToken = [],
     att_LeaseExpiresAt = None, att_AvailableAt = None, att_Status = AttemptQueued,
     att_StartedAt = None, att_CompletedAt = None\<rparr>"

definition zero_Artifact :: Artifact where
  "zero_Artifact = \<lparr>art_ID = [], art_RunID = [], art_Type = [], art_Ref = [], art_Name = [],
     art_ContentType = [], art_Size = 0, art_SHA256 = []\<rparr>"

definition zero_CapabilityResult :: CapabilityResult where
  "zero_CapabilityResult = \<lparr>cres_CallID = [], cres_Output = None\<rparr>"

section \<open>JSON forms\<close>

fun RunStatus_text :: "RunStatus \<Rightarrow> string" where
  "RunStatus_text RunQueued = ''queued''"
| "RunStatus_text RunRunning = ''running''"
| "RunStatus_text RunCancelling = ''cancelling''"
| "RunStatus_text RunCancelled = ''cancelled''"
| "RunStatus_text RunSucceeded = ''succeeded''"
| "RunStatus_text RunFailed = ''failed''"

fun InteractionKind_text :: "InteractionKind \<Rightarrow> string" where
  "InteractionKind_text InteractionInput = ''input''"
| "InteractionKind_text InteractionApproval = ''approval''"
| "InteractionKind_text (InteractionOther s) = s"

definition omit_int :: "string \<Rightarrow> int \<Rightarrow> (string \<times> json) list" where
  "omit_int k n = (if n = 0 then [] else [(k, JNum (Itoa n))])"

text \<open>\<open>RunID\<close> carries the tag \<open>json:"-"\<close>.\<close>

definition Artifact_json :: "Artifact \<Rightarrow> json" where
  "Artifact_json a = JObj (omit_str ''id'' (art_ID a) @ [(''type'', JStr (art_Type a)), (''ref'', JStr (art_Ref a))]
     @ omit_str ''name'' (art_Name a) @ omit_str ''content_type'' (art_ContentType a)
     @ omit_int ''size'' (art_Size a) @ omit_str ''sha256'' (art_SHA256 a))"

definition Result_json :: "Result \<Rightarrow> json" where
  "Result_json r = JObj ([(''summary'', JStr (res_Summary r))] @ omit_raw ''output'' (res_Output r)
     @ (if res_Artifacts r = [] then [] else [(''artifacts'', JArr (map Artifact_json (res_Artifacts r)))]))"

definition CancelRequest_json :: "CancelRequest \<Rightarrow> json" where
  "CancelRequest_json r = JObj (omit_str ''reason'' (cq_Reason r) @ omit_str ''requested_by'' (cq_RequestedBy r))"

definition Interaction_json :: "Interaction \<Rightarrow> json" where
  "Interaction_json v = JObj ([(''id'', JStr (ia_ID v)), (''run_id'', JStr (ia_RunID v)),
       (''attempt_id'', JStr (ia_AttemptID v)), (''kind'', JStr (InteractionKind_text (ia_Kind v))),
       (''state'', JStr (ia_State v)), (''prompt'', JStr (ia_Prompt v))]
     @ omit_raw ''data'' (ia_Data v) @ omit_raw ''response'' (ia_Response v)
     @ [(''created_at'', JTime (ia_CreatedAt v))]
     @ (case ia_ResolvedAt v of None \<Rightarrow> [] | Some t \<Rightarrow> [(''resolved_at'', JTime t)]))"

section \<open>controlplane/event.go\<close>

text \<open>\<open>EventIdentity\<close> scopes producer identities to one fenced attempt.\<close>

definition EventIdentity :: "string \<Rightarrow> string \<Rightarrow> string list \<Rightarrow> string" where
  "EventIdentity attempt lease ids =
    (if ids = [] \<or> hd ids = [] then []
     else ''producer_'' @ sha256_hex (attempt @ nul @ lease @ nul @ hd ids))"

definition SameEvent :: "string \<Rightarrow> json option \<Rightarrow> string \<Rightarrow> goany \<Rightarrow> error option" where
  "SameEvent oldType oldData newType data =
    (case json_Marshal data of Inl e \<Rightarrow> Some e
     | Inr encoded \<Rightarrow>
       if oldType \<noteq> newType \<or> canonical (raw_json oldData) \<noteq> canonical encoded
       then Some (wrap ErrInvalidTransition ''event identity reused with different content'')
       else None)"

definition SameValue :: "json \<Rightarrow> json \<Rightarrow> bool" where
  "SameValue previous current \<longleftrightarrow> canonical previous = canonical current"

lemma EventIdentity_empty_iff: "EventIdentity a l ids = [] \<longleftrightarrow> ids = [] \<or> hd ids = []"
  by (simp add: EventIdentity_def)

lemma SameEvent_refl:
  assumes "json_Marshal v = Inr j"
  shows "SameEvent ty (Some j) ty v = None"
  using assms by (simp add: SameEvent_def raw_json_def)

lemma SameValue_refl [simp]: "SameValue v v"
  by (simp add: SameValue_def)

text \<open>\<open>SameValue\<close> does not depend on the order of an object's members.\<close>

lemma SameValue_perm:
  assumes "distinct (map fst kvs)" and "mset kvs' = mset kvs"
  shows "SameValue (JObj kvs') (JObj kvs)"
proof -
  let ?f = "map (map_prod id canonical)"
  have "distinct (map fst (?f kvs))"
    using assms(1) by (simp add: comp_def)
  moreover have "mset (?f kvs') = mset (?f kvs)"
    using assms(2) by (simp only: mset_map)
  ultimately show ?thesis
    by (simp add: SameValue_def sort_members_perm)
qed

end
