(* ===== verification/Capabilities.thy ===== *)
theory Capabilities
  imports Relay_Types
begin

text \<open>
  \<open>capability.go\<close>: the capability invoker of one run. The host's provider, the reservation and finish
  callbacks, the event sink, \<open>newID\<close> and the text that \<open>json.Marshal\<close> produces are the invoker's
  environment, the record \<open>capability_env\<close> of functions over an environment state.

  \<open>Call\<close> may be entered by many goroutines at once. Its critical sections are the look-up that starts
  it (\<open>Call_begin\<close>) and \<open>finishCall\<close>; between them the goroutine that owns the key executes
  (\<open>Call_run\<close>) and the others wait for its \<open>done\<close> channel. \<open>invoker_step\<close> interleaves them freely.
\<close>

section \<open>Grants\<close>

definition ErrCapabilityProviderMissing :: error where
  "ErrCapabilityProviderMissing = GoError [CapabilityProviderMissing] ''relay: capability provider is not configured''"
definition ErrCapabilityNotGranted :: error where
  "ErrCapabilityNotGranted = GoError [CapabilityNotGranted] ''relay: capability not granted''"
definition ErrResourceOutOfScope :: error where
  "ErrResourceOutOfScope = GoError [ResourceOutOfScope] ''relay: capability resource out of scope''"
definition CallConflict :: error where
  "CallConflict = GoError [IdempotencyConflict] ''relay: idempotency key reused for a different capability call''"

fun findGrant :: "CapabilityGrant list \<Rightarrow> CapabilityCall \<Rightarrow> CapabilityGrant result" where
  "findGrant [] call = Inl (wrap ErrCapabilityNotGranted (cc_Name call))"
| "findGrant (grant # grants) call =
    (if cg_Name grant \<noteq> cc_Name call \<or> (cc_Version call \<noteq> [] \<and> cg_Version grant \<noteq> cc_Version call)
     then findGrant grants call
     else if cg_Resources grant \<noteq> [] \<and> cc_Resource call \<notin> set (cg_Resources grant)
     then Inl (wrap ErrResourceOutOfScope (cc_Resource call))
     else Inr grant)"

section \<open>The invoker\<close>

record capabilityCallState =
  ccs_name :: string
  ccs_version :: string
  ccs_resource :: string
  ccs_done :: bool
  ccs_outcome :: "CapabilityResult result"

record 'e capability_env =
  ce_Invoke :: "(CapabilityRequest \<Rightarrow> 'e \<Rightarrow> 'e \<times> json option result) option"
  ce_reserve :: "(string \<Rightarrow> string \<Rightarrow> CapabilityRequest \<Rightarrow> 'e \<Rightarrow> 'e \<times> CapabilityReservation result) option"
  ce_finish :: "(CapabilityReservation \<Rightarrow> CapabilityResult \<Rightarrow> string \<Rightarrow> 'e \<Rightarrow> 'e \<times> unit result) option"
  ce_emit :: "string \<Rightarrow> goany \<Rightarrow> 'e \<Rightarrow> 'e"
  ce_newID :: "string \<Rightarrow> 'e \<Rightarrow> string \<times> 'e"
  ce_text :: "json \<Rightarrow> string"

record 'e scopedCapabilities =
  sc_runID :: string
  sc_agentID :: string
  sc_principal :: Principal
  sc_grants :: "CapabilityGrant list"
  sc_env :: "'e capability_env"

definition Principal_json :: "Principal \<Rightarrow> json" where
  "Principal_json p = JObj ([(''type'', JStr (pr_Type p)), (''id'', JStr (pr_ID p))] @ omit_str ''accountable_id'' (pr_AccountableID p))"

definition CapabilityRequest_json :: "CapabilityRequest \<Rightarrow> json" where
  "CapabilityRequest_json r = JObj ([(''call_id'', JStr (cr_CallID r)), (''run_id'', JStr (cr_RunID r)),
     (''agent_id'', JStr (cr_AgentID r)), (''principal'', Principal_json (cr_Principal r)), (''name'', JStr (cr_Name r)),
     (''version'', JStr (cr_Version r)), (''effect'', JStr (cr_Effect r))] @ omit_str ''resource'' (cr_Resource r)
     @ omit_raw ''input'' (cr_Input r))"

text \<open>What \<open>Call\<close> decides under the mutex.\<close>

datatype call_entry = Reply "CapabilityResult result" | Wait | Own CapabilityGrant

definition Call_begin :: "'e scopedCapabilities \<Rightarrow> CapabilityCall \<Rightarrow> (string \<Rightarrow> capabilityCallState option)
    \<Rightarrow> (string \<Rightarrow> capabilityCallState option) \<times> call_entry" where
  "Call_begin sc call calls =
    (if ce_Invoke (sc_env sc) = None then (calls, Reply (Inl ErrCapabilityProviderMissing))
     else if cc_IdempotencyKey call = []
     then (calls, Reply (Inl (errors_New ''relay: capability idempotency key is required'')))
     else case findGrant (sc_grants sc) call of Inl e \<Rightarrow> (calls, Reply (Inl e))
     | Inr grant \<Rightarrow>
       (case calls (cc_IdempotencyKey call) of
          Some previous \<Rightarrow>
            if ccs_name previous \<noteq> cc_Name call \<or> ccs_version previous \<noteq> cg_Version grant \<or>
               ccs_resource previous \<noteq> cc_Resource call
            then (calls, Reply (Inl CallConflict)) else (calls, Wait)
        | None \<Rightarrow>
            (calls(cc_IdempotencyKey call \<mapsto> \<lparr>ccs_name = cc_Name call, ccs_version = cg_Version grant,
               ccs_resource = cc_Resource call, ccs_done = False, ccs_outcome = Inr zero_CapabilityResult\<rparr>), Own grant)))"

text \<open>
  What the owner of the key does outside the mutex. Besides the outcome that \<open>finishCall\<close> publishes it
  returns the request with which the provider was invoked, if it was.
\<close>

definition Call_invoke :: "'e scopedCapabilities \<Rightarrow> CapabilityCall \<Rightarrow> CapabilityRequest \<Rightarrow> CapabilityReservation \<Rightarrow> 'e
    \<Rightarrow> 'e \<times> CapabilityRequest option \<times> CapabilityResult result" where
  "Call_invoke sc call request reservation e =
    (let env = sc_env sc;
         callID = rsv_CallID reservation;
         e = ce_emit env ''capability.started'' (GoVal (str_obj [(''call_id'', callID), (''name'', cc_Name call),
               (''resource'', cc_Resource call)])) e;
         request = request\<lparr>cr_CallID := callID\<rparr>
     in case ce_Invoke env of None \<Rightarrow> (e, None, Inl go_panic)
     | Some Invoke \<Rightarrow>
       (case Invoke request e of
          (e, Inl err) \<Rightarrow>
            let e = (case ce_finish env of None \<Rightarrow> e
                  | Some finish \<Rightarrow> fst (finish reservation zero_CapabilityResult (err_text err) e));
                e = ce_emit env ''capability.failed'' (GoVal (str_obj [(''call_id'', callID), (''name'', cc_Name call),
                      (''error'', err_text err)])) e
            in (e, Some request, Inl err)
        | (e, Inr out) \<Rightarrow>
            let result = \<lparr>cres_CallID = callID, cres_Output = out\<rparr>;
                (e, finished) = (case ce_finish env of None \<Rightarrow> (e, Inr ()) | Some finish \<Rightarrow> finish reservation result [] e)
            in case finished of Inl err \<Rightarrow> (e, Some request, Inl err)
               | Inr _ \<Rightarrow> (ce_emit env ''capability.succeeded''
                    (GoVal (str_obj [(''call_id'', callID), (''name'', cc_Name call)])) e, Some request, Inr result)))"

definition call_request :: "'e scopedCapabilities \<Rightarrow> CapabilityCall \<Rightarrow> CapabilityGrant \<Rightarrow> CapabilityRequest" where
  "call_request sc call grant =
    \<lparr>cr_CallID = [], cr_RunID = sc_runID sc, cr_AgentID = sc_agentID sc, cr_Principal = sc_principal sc,
     cr_Name = cg_Name grant, cr_Version = cg_Version grant, cr_Effect = cg_Effect grant,
     cr_Resource = cc_Resource call, cr_Input = cc_Input call\<rparr>"

definition Call_run :: "'e scopedCapabilities \<Rightarrow> CapabilityCall \<Rightarrow> CapabilityGrant \<Rightarrow> 'e
    \<Rightarrow> 'e \<times> CapabilityRequest option \<times> CapabilityResult result" where
  "Call_run sc call grant e =
    (let env = sc_env sc;
         request = call_request sc call grant;
         (callID, e) = ce_newID env ''call'' e;
         local = \<lparr>rsv_CallID = callID, rsv_Execute = True, rsv_Result = None, rsv_Error = []\<rparr>
     in case ce_reserve env of None \<Rightarrow> Call_invoke sc call request local e
     | Some reserve \<Rightarrow>
       (case reserve (cc_IdempotencyKey call) (sha256_hex (ce_text env (CapabilityRequest_json request))) request e of
          (e, Inl err) \<Rightarrow> (e, None, Inl err)
        | (e, Inr reservation) \<Rightarrow>
          if \<not> rsv_Execute reservation then
            (e, None,
             if rsv_Error reservation \<noteq> [] then Inl (errors_New (rsv_Error reservation))
             else case rsv_Result reservation of None \<Rightarrow> Inl (errors_New ''relay: capability call is still pending'')
                  | Some result \<Rightarrow> Inr result)
          else Call_invoke sc call request reservation e))"

definition finishCall :: "string \<Rightarrow> CapabilityResult result \<Rightarrow> (string \<Rightarrow> capabilityCallState option)
    \<Rightarrow> (string \<Rightarrow> capabilityCallState option)" where
  "finishCall key outcome calls =
    (case calls key of None \<Rightarrow> calls | Some state \<Rightarrow> calls(key \<mapsto> state\<lparr>ccs_done := True, ccs_outcome := outcome\<rparr>))"

definition ErrContext :: error where
  "ErrContext = GoError [ContextDone] ''context canceled''"

text \<open>\<open>Call\<close> by a single goroutine: a call it would have to wait for itself returns with its context only.\<close>

definition Call :: "'e scopedCapabilities \<Rightarrow> CapabilityCall \<Rightarrow> (string \<Rightarrow> capabilityCallState option) \<Rightarrow> 'e
    \<Rightarrow> (string \<Rightarrow> capabilityCallState option) \<times> 'e \<times> CapabilityResult result" where
  "Call sc call calls e =
    (case Call_begin sc call calls of
       (calls, Reply r) \<Rightarrow> (calls, e, r)
     | (calls, Wait) \<Rightarrow> (calls, e, case calls (cc_IdempotencyKey call) of None \<Rightarrow> Inl go_panic
         | Some state \<Rightarrow> if ccs_done state then ccs_outcome state else Inl ErrContext)
     | (calls, Own grant) \<Rightarrow>
         (case Call_run sc call grant e of (e, _, outcome) \<Rightarrow> (finishCall (cc_IdempotencyKey call) outcome calls, e, outcome)))"

text \<open>A relation that every step of the environment keeps is kept by the whole call.\<close>

lemma Call_frame:
  assumes refl: "\<And>e. K e e" and trans: "\<And>a b c. K a b \<Longrightarrow> K b c \<Longrightarrow> K a c"
    and emit: "\<And>t v e. K e (ce_emit (sc_env sc) t v e)" and new: "\<And>p e. K e (snd (ce_newID (sc_env sc) p e))"
    and invoke: "\<And>Invoke r e. ce_Invoke (sc_env sc) = Some Invoke \<Longrightarrow> K e (fst (Invoke r e))"
    and reserve: "\<And>reserve k h r e. ce_reserve (sc_env sc) = Some reserve \<Longrightarrow> K e (fst (reserve k h r e))"
    and finish: "\<And>finish rsv r t e. ce_finish (sc_env sc) = Some finish \<Longrightarrow> K e (fst (finish rsv r t e))"
  shows "K e (fst (snd (Call sc call calls e)))"
proof -
  have inv: "K e (fst (Call_invoke sc call request rsv e))" for request rsv e
  proof (cases "ce_Invoke (sc_env sc)")
    case None
    then show ?thesis using emit by (simp add: Call_invoke_def Let_def)
  next
    case (Some Invoke)
    let ?e1 = "ce_emit (sc_env sc) ''capability.started'' (GoVal (str_obj [(''call_id'', rsv_CallID rsv), (''name'', cc_Name call),
               (''resource'', cc_Resource call)])) e"
    obtain e2 out where out: "Invoke (request\<lparr>cr_CallID := rsv_CallID rsv\<rparr>) ?e1 = (e2, out)" by fastforce
    have "K e e2" using invoke [OF Some, of ?e1 "request\<lparr>cr_CallID := rsv_CallID rsv\<rparr>"] trans [OF emit] out by simp
    then have fin: "K e e3" if "ce_finish (sc_env sc) = Some finish'" "finish' rsv r t e2 = (e3, done')" for finish' r t e3 done'
      using finish [OF that(1), of e2 rsv r t] that(2) trans by auto
    show ?thesis
      using \<open>K e e2\<close> trans [OF _ emit] fin [OF _ surjective_pairing] fin
      by (cases out; cases "ce_finish (sc_env sc)") (auto simp: Call_invoke_def Let_def Some out split: prod.split sum.split)
  qed
  have "K e (fst (Call_run sc call grant e))" for grant
  proof -
    obtain callID e1 where e1: "ce_newID (sc_env sc) ''call'' e = (callID, e1)" by fastforce
    then have K1: "K e e1" using new [of e "''call''"] by simp
    show ?thesis
    proof (cases "ce_reserve (sc_env sc)")
      case None
      then show ?thesis using trans [OF K1 inv] by (simp add: Call_run_def e1 Let_def)
    next
      case (Some rsv)
      then have "K e e2" if "rsv k h r e1 = (e2, out)" for k h r e2 out
        using reserve [OF Some, of e1 k h r] trans [OF K1] that by simp
      then show ?thesis
        using trans [OF _ inv] by (auto simp: Call_run_def e1 Some Let_def split: prod.split sum.split)
    qed
  qed
  then show ?thesis
    by (auto simp: Call_def refl split: prod.split call_entry.split)
      (metis fst_conv)+
qed

section \<open>Concurrent callers\<close>

datatype caller = Entering CapabilityCall | Waiting CapabilityCall | Executing CapabilityCall CapabilityGrant
  | Returned CapabilityCall "CapabilityResult result"

record 'e invoker =
  iv_calls :: "string \<Rightarrow> capabilityCallState option"
  iv_env :: 'e
  iv_callers :: "nat \<Rightarrow> caller option"
  iv_invoked :: "(string \<times> CapabilityRequest) list"

inductive invoker_step :: "'e scopedCapabilities \<Rightarrow> 'e invoker \<Rightarrow> 'e invoker \<Rightarrow> bool" for sc :: "'e scopedCapabilities" where
  arrive: "iv_callers s i = None \<Longrightarrow> invoker_step sc s (s\<lparr>iv_callers := (iv_callers s)(i \<mapsto> Entering call)\<rparr>)"
| begin_call: "iv_callers s i = Some (Entering call) \<Longrightarrow> Call_begin sc call (iv_calls s) = (calls, entry) \<Longrightarrow>
    invoker_step sc s (s\<lparr>iv_calls := calls, iv_callers := (iv_callers s)(i \<mapsto>
      (case entry of Reply r \<Rightarrow> Returned call r | Wait \<Rightarrow> Waiting call | Own grant \<Rightarrow> Executing call grant))\<rparr>)"
| execute: "iv_callers s i = Some (Executing call grant) \<Longrightarrow> Call_run sc call grant (iv_env s) = (e, invoked, outcome) \<Longrightarrow>
    invoker_step sc s (s\<lparr>iv_env := e, iv_calls := finishCall (cc_IdempotencyKey call) outcome (iv_calls s),
      iv_callers := (iv_callers s)(i \<mapsto> Returned call outcome),
      iv_invoked := (case invoked of None \<Rightarrow> iv_invoked s | Some r \<Rightarrow> iv_invoked s @ [(cc_IdempotencyKey call, r)])\<rparr>)"
| wake: "iv_callers s i = Some (Waiting call) \<Longrightarrow> iv_calls s (cc_IdempotencyKey call) = Some state \<Longrightarrow> ccs_done state \<Longrightarrow>
    invoker_step sc s (s\<lparr>iv_callers := (iv_callers s)(i \<mapsto> Returned call (ccs_outcome state))\<rparr>)"
| cancelled: "iv_callers s i = Some (Waiting call) \<Longrightarrow>
    invoker_step sc s (s\<lparr>iv_callers := (iv_callers s)(i \<mapsto> Returned call (Inl ErrContext))\<rparr>)"

definition NewCapabilityInvoker :: "'e \<Rightarrow> 'e invoker" where
  "NewCapabilityInvoker e = \<lparr>iv_calls = Map.empty, iv_env = e, iv_callers = Map.empty, iv_invoked = []\<rparr>"

inductive invoker_reach :: "'e scopedCapabilities \<Rightarrow> 'e \<Rightarrow> 'e invoker \<Rightarrow> bool" for sc :: "'e scopedCapabilities" and e :: 'e where
  init: "invoker_reach sc e (NewCapabilityInvoker e)"
| step: "invoker_reach sc e s \<Longrightarrow> invoker_step sc s s' \<Longrightarrow> invoker_reach sc e s'"

section \<open>At most one execution per key\<close>

text \<open>The invariant: who owns a key, and what the callers that returned were told.\<close>

definition owns :: "'e invoker \<Rightarrow> nat \<Rightarrow> string \<Rightarrow> bool" where
  "owns s i key \<longleftrightarrow> (\<exists>call grant. iv_callers s i = Some (Executing call grant) \<and> cc_IdempotencyKey call = key)"

definition owner_inv :: "'e invoker \<Rightarrow> bool" where
  "owner_inv s \<longleftrightarrow> (\<forall>i key. owns s i key \<longrightarrow>
     (\<exists>state. iv_calls s key = Some state \<and> \<not> ccs_done state) \<and> (\<forall>j. owns s j key \<longrightarrow> j = i))"

definition invoked_inv :: "'e invoker \<Rightarrow> bool" where
  "invoked_inv s \<longleftrightarrow> distinct (map fst (iv_invoked s)) \<and>
     (\<forall>key \<in> fst ` set (iv_invoked s). \<exists>state. iv_calls s key = Some state \<and> ccs_done state)"

text \<open>What a caller may be told.\<close>

definition rejected :: "'e scopedCapabilities \<Rightarrow> CapabilityCall \<Rightarrow> error option" where
  "rejected sc call =
    (if ce_Invoke (sc_env sc) = None then Some ErrCapabilityProviderMissing
     else if cc_IdempotencyKey call = [] then Some (errors_New ''relay: capability idempotency key is required'')
     else case findGrant (sc_grants sc) call of Inl e \<Rightarrow> Some e | Inr _ \<Rightarrow> None)"

definition told :: "'e scopedCapabilities \<Rightarrow> (string \<Rightarrow> capabilityCallState option) \<Rightarrow> CapabilityCall
    \<Rightarrow> CapabilityResult result \<Rightarrow> bool" where
  "told sc calls call r \<longleftrightarrow>
     (case rejected sc call of Some e \<Rightarrow> r = Inl e
      | None \<Rightarrow> r = Inl CallConflict \<or> r = Inl ErrContext \<or>
          (\<exists>state. calls (cc_IdempotencyKey call) = Some state \<and> ccs_done state \<and> r = ccs_outcome state))"

definition told_inv :: "'e scopedCapabilities \<Rightarrow> 'e invoker \<Rightarrow> bool" where
  "told_inv sc s \<longleftrightarrow> (\<forall>i call r. iv_callers s i = Some (Returned call r) \<longrightarrow> told sc (iv_calls s) call r)"

definition waiting_inv :: "'e scopedCapabilities \<Rightarrow> 'e invoker \<Rightarrow> bool" where
  "waiting_inv sc s \<longleftrightarrow> (\<forall>i call. iv_callers s i = Some (Waiting call) \<longrightarrow> rejected sc call = None) \<and>
     (\<forall>i call g. iv_callers s i = Some (Executing call g) \<longrightarrow> rejected sc call = None)"

definition invoker_inv :: "'e scopedCapabilities \<Rightarrow> 'e invoker \<Rightarrow> bool" where
  "invoker_inv sc s \<longleftrightarrow> owner_inv s \<and> invoked_inv s \<and> told_inv sc s \<and> waiting_inv sc s"

lemmas invoker_invs = owner_inv_def owns_def invoked_inv_def told_inv_def waiting_inv_def

text \<open>The three outcomes of \<open>Call_begin\<close>.\<close>

lemma Call_begin_cases:
  assumes "Call_begin sc call calls = (calls', entry)"
  obtains (reply) e where "entry = Reply (Inl e)" "calls' = calls" "rejected sc call = Some e"
  | (conflict) "entry = Reply (Inl CallConflict)" "calls' = calls" "rejected sc call = None"
  | (wait) previous where "entry = Wait" "calls' = calls" "calls (cc_IdempotencyKey call) = Some previous" "rejected sc call = None"
  | (own) grant fresh where "entry = Own grant" "calls (cc_IdempotencyKey call) = None"
      "calls' = calls(cc_IdempotencyKey call \<mapsto> fresh)" "\<not> ccs_done fresh" "rejected sc call = None"
  using assms
  by (auto simp: Call_begin_def rejected_def split: if_splits sum.splits option.splits)

lemma told_keep:
  assumes "told sc calls call r" "\<And>key state. calls key = Some state \<Longrightarrow> ccs_done state \<Longrightarrow> calls' key = Some state"
  shows "told sc calls' call r"
  using assms by (auto simp: told_def split: option.splits)

lemma owner_invD:
  assumes "owner_inv s" "owns s i key"
  shows "\<exists>state. iv_calls s key = Some state \<and> \<not> ccs_done state" "owns s j key \<Longrightarrow> j = i"
  using assms unfolding owner_inv_def by blast+

lemma waiting_invD:
  assumes "waiting_inv sc s"
  shows "iv_callers s i = Some (Waiting call) \<Longrightarrow> rejected sc call = None"
    and "iv_callers s i = Some (Executing call grant) \<Longrightarrow> rejected sc call = None"
  using assms unfolding waiting_inv_def by blast+

lemma invoker_inv_begin:
  assumes inv: "invoker_inv sc s" and i: "iv_callers s i = Some (Entering call)"
    and b: "Call_begin sc call (iv_calls s) = (calls, entry)"
    and s': "s' = s\<lparr>iv_calls := calls, iv_callers := (iv_callers s)(i \<mapsto>
      (case entry of Reply r \<Rightarrow> Returned call r | Wait \<Rightarrow> Waiting call | Own grant \<Rightarrow> Executing call grant))\<rparr>"
  shows "invoker_inv sc s'"
  using b
proof (cases rule: Call_begin_cases)
  case (own grant fresh)
  have none: "\<not> owns s j (cc_IdempotencyKey call)" for j
    using owner_invD(1) [of s j] inv own(2) by (fastforce simp: invoker_inv_def)
  have owns': "owns s' j key \<longleftrightarrow> (if j = i then key = cc_IdempotencyKey call else owns s j key)" for j key
    using i by (auto simp: owns_def s' own(1))
  have "owner_inv s'"
    unfolding owner_inv_def owns'
    using inv own(3,4) none by (auto simp: invoker_inv_def s' dest: owner_invD)
  moreover have "invoked_inv s'"
    using inv own(2,3) by (fastforce simp: invoker_inv_def invoked_inv_def s')
  moreover have "told_inv sc s'"
  proof -
    have "told sc calls c r" if "told sc (iv_calls s) c r" for c r
      by (rule told_keep [OF that]) (use own(2,3) in auto)
    then show ?thesis using inv own(1) by (auto simp: invoker_inv_def told_inv_def s')
  qed
  moreover have "waiting_inv sc s'" using inv own by (auto simp: invoker_inv_def waiting_inv_def s')
  ultimately show ?thesis by (simp add: invoker_inv_def)
next
  case (reply e)
  then show ?thesis
    using inv i by (auto simp: invoker_inv_def invoker_invs s' told_def)
next
  case conflict
  then show ?thesis
    using inv i by (auto simp: invoker_inv_def invoker_invs s' told_def)
next
  case (wait previous)
  then show ?thesis
    using inv i by (auto simp: invoker_inv_def invoker_invs s')
qed

lemma invoker_inv_execute:
  assumes inv: "invoker_inv sc s" and i: "iv_callers s i = Some (Executing call grant)"
    and s': "s' = s\<lparr>iv_env := e, iv_calls := finishCall (cc_IdempotencyKey call) outcome (iv_calls s),
      iv_callers := (iv_callers s)(i \<mapsto> Returned call outcome),
      iv_invoked := (case invoked of None \<Rightarrow> iv_invoked s | Some r \<Rightarrow> iv_invoked s @ [(cc_IdempotencyKey call, r)])\<rparr>"
  shows "invoker_inv sc s'"
proof -
  let ?key = "cc_IdempotencyKey call"
  have invs: "owner_inv s" "invoked_inv s" "told_inv sc s" "waiting_inv sc s" using inv by (auto simp: invoker_inv_def)
  have own: "owns s i ?key" using i by (auto simp: owns_def)
  from owner_invD(1) [OF invs(1) own] obtain state where state: "iv_calls s ?key = Some state" "\<not> ccs_done state" by blast
  note sole = owner_invD(2) [OF invs(1) own]
  have calls: "iv_calls s' = (iv_calls s)(?key \<mapsto> state\<lparr>ccs_done := True, ccs_outcome := outcome\<rparr>)"
    by (simp add: s' finishCall_def state)
  have owns': "owns s' j key \<longleftrightarrow> j \<noteq> i \<and> owns s j key" for j key by (auto simp: owns_def s')
  have "owner_inv s'"
    unfolding owner_inv_def owns' using invs(1) sole by (auto simp: calls dest: owner_invD)
  moreover have "invoked_inv s'"
  proof -
    have "?key \<notin> fst ` set (iv_invoked s)" using invs(2) state by (auto simp: invoked_inv_def)
    moreover have "iv_invoked s' = iv_invoked s \<or> (\<exists>r. iv_invoked s' = iv_invoked s @ [(?key, r)])"
      by (auto simp: s' split: option.split)
    ultimately show ?thesis using invs(2) unfolding invoked_inv_def calls by auto
  qed
  moreover have "told_inv sc s'"
  proof -
    have "told sc (iv_calls s') call outcome"
      using waiting_invD(2) [OF invs(4) i] by (simp add: told_def calls)
    moreover have "told sc (iv_calls s') c r" if "told sc (iv_calls s) c r" for c r
      by (rule told_keep [OF that]) (use state in \<open>auto simp: calls\<close>)
    ultimately show ?thesis using invs(3) by (auto simp: told_inv_def s' split: if_splits)
  qed
  moreover have "waiting_inv sc s'" using invs(4) by (auto simp: waiting_inv_def s')
  ultimately show ?thesis by (simp add: invoker_inv_def)
qed

lemma invoker_inv_step: "invoker_step sc s s' \<Longrightarrow> invoker_inv sc s \<Longrightarrow> invoker_inv sc s'"
proof (induction rule: invoker_step.induct)
  case (begin_call s i call calls entry)
  then show ?case by (intro invoker_inv_begin [OF _ begin_call.hyps refl])
next
  case (execute s i call grant e invoked outcome)
  then show ?case by (intro invoker_inv_execute [OF _ execute.hyps(1) refl])
next
  case (wake s i call state)
  then have "rejected sc call = None" by (auto simp: invoker_inv_def intro: waiting_invD)
  then have "told sc (iv_calls s) call (ccs_outcome state)" using wake.hyps by (auto simp: told_def)
  with wake show ?case by (auto simp: invoker_inv_def invoker_invs)
next
  case (cancelled s i call)
  then have "rejected sc call = None" by (auto simp: invoker_inv_def intro: waiting_invD)
  then have "told sc (iv_calls s) call (Inl ErrContext)" by (simp add: told_def)
  with cancelled show ?case by (auto simp: invoker_inv_def invoker_invs)
qed (auto simp: invoker_inv_def invoker_invs)

lemma invoker_inv_init: "invoker_inv sc (NewCapabilityInvoker e)"
  by (simp add: invoker_inv_def invoker_invs NewCapabilityInvoker_def)

lemma invoker_reach_inv: "invoker_reach sc e s \<Longrightarrow> invoker_inv sc s"
  by (induction rule: invoker_reach.induct) (auto intro: invoker_inv_step invoker_inv_init)

section \<open>Properties\<close>

text \<open>The grant a call may use is the first one of its name and version.\<close>

definition grant_matches :: "CapabilityCall \<Rightarrow> CapabilityGrant \<Rightarrow> bool" where
  "grant_matches call grant \<longleftrightarrow> cg_Name grant = cc_Name call \<and> (cc_Version call = [] \<or> cg_Version grant = cc_Version call)"

definition grant_covers :: "CapabilityCall \<Rightarrow> CapabilityGrant \<Rightarrow> bool" where
  "grant_covers call grant \<longleftrightarrow> cg_Resources grant = [] \<or> cc_Resource call \<in> set (cg_Resources grant)"

lemma findGrant_find:
  "findGrant grants call =
    (case find (grant_matches call) grants of None \<Rightarrow> Inl (wrap ErrCapabilityNotGranted (cc_Name call))
     | Some grant \<Rightarrow> if grant_covers call grant then Inr grant else Inl (wrap ErrResourceOutOfScope (cc_Resource call)))"
  by (induction grants) (auto simp: grant_matches_def grant_covers_def)

lemma findGrant_granted:
  assumes "findGrant grants call = Inr grant"
  shows "grant \<in> set grants" "grant_matches call grant" "grant_covers call grant"
  using assms by (auto simp: findGrant_find find_Some_iff split: option.splits if_splits)

text \<open>Every request that reaches the provider stays within the grants of the run.\<close>

definition request_granted :: "'e scopedCapabilities \<Rightarrow> CapabilityRequest \<Rightarrow> bool" where
  "request_granted sc r \<longleftrightarrow> cr_RunID r = sc_runID sc \<and> cr_Principal r = sc_principal sc \<and>
     (\<exists>grant \<in> set (sc_grants sc). cr_Name r = cg_Name grant \<and> cr_Version r = cg_Version grant \<and>
        cr_Effect r = cg_Effect grant \<and> (cg_Resources grant = [] \<or> cr_Resource r \<in> set (cg_Resources grant)))"

definition granted_inv :: "'e scopedCapabilities \<Rightarrow> 'e invoker \<Rightarrow> bool" where
  "granted_inv sc s \<longleftrightarrow> (\<forall>i call grant. iv_callers s i = Some (Executing call grant) \<longrightarrow>
       findGrant (sc_grants sc) call = Inr grant) \<and> (\<forall>(key, r) \<in> set (iv_invoked s). request_granted sc r)"

lemma Call_invoke_request: "fst (snd (Call_invoke sc call request reservation e)) \<in> {None, Some (request\<lparr>cr_CallID := rsv_CallID reservation\<rparr>)}"
  by (auto simp: Call_invoke_def Let_def split: option.split prod.split sum.split)

lemma Call_run_request:
  assumes "Call_run sc call grant e = (e', Some r, outcome)"
  shows "\<exists>callID. r = (call_request sc call grant)\<lparr>cr_CallID := callID\<rparr>"
proof -
  have r: "fst (snd (Call_run sc call grant e)) = Some r" using assms by simp
  have "fst (snd (Call_run sc call grant e)) = None \<or> (\<exists>rsv e''. Call_run sc call grant e = Call_invoke sc call (call_request sc call grant) rsv e'')"
    by (auto simp: Call_run_def Let_def split: option.split prod.split sum.split)
  with r obtain rsv e'' where "fst (snd (Call_invoke sc call (call_request sc call grant) rsv e'')) = Some r" by auto
  with Call_invoke_request [of sc call "call_request sc call grant" rsv e''] show ?thesis by auto
qed

lemma Call_begin_grant: "Call_begin sc call calls = (calls', Own grant) \<Longrightarrow> findGrant (sc_grants sc) call = Inr grant"
  by (auto simp: Call_begin_def split: if_splits sum.splits option.splits)

lemma request_granted_call:
  assumes "findGrant (sc_grants sc) call = Inr grant"
  shows "request_granted sc ((call_request sc call grant)\<lparr>cr_CallID := callID\<rparr>)"
  using findGrant_granted [OF assms] by (auto simp: request_granted_def call_request_def grant_covers_def)

lemma granted_inv_step: "invoker_step sc s s' \<Longrightarrow> granted_inv sc s \<Longrightarrow> granted_inv sc s'"
proof (induction rule: invoker_step.induct)
  case (begin_call s i call calls entry)
  then show ?case by (cases entry) (auto simp: granted_inv_def dest: Call_begin_grant)
next
  case (execute s i call grant e invoked outcome)
  then have "findGrant (sc_grants sc) call = Inr grant" unfolding granted_inv_def by blast
  then have "request_granted sc r" if "invoked = Some r" for r
    using Call_run_request execute.hyps(2) request_granted_call that by metis
  with execute show ?case by (auto simp: granted_inv_def split: option.split)
qed (auto simp: granted_inv_def)

lemma invoker_reach_granted: "invoker_reach sc e s \<Longrightarrow> granted_inv sc s"
proof (induction rule: invoker_reach.induct)
  case init
  show ?case by (simp add: granted_inv_def NewCapabilityInvoker_def)
next
  case (step s s')
  then show ?case using granted_inv_step by blast
qed

text \<open>A key whose call has not finished has an owner, and a waiting caller waits for a call that was begun.\<close>

definition pending_inv :: "'e invoker \<Rightarrow> bool" where
  "pending_inv s \<longleftrightarrow> (\<forall>key state. iv_calls s key = Some state \<longrightarrow> \<not> ccs_done state \<longrightarrow> (\<exists>i. owns s i key)) \<and>
     (\<forall>i call. iv_callers s i = Some (Waiting call) \<longrightarrow> iv_calls s (cc_IdempotencyKey call) \<noteq> None)"

lemma pending_inv_begin:
  assumes inv: "pending_inv s" and i: "iv_callers s i = Some (Entering call)"
    and b: "Call_begin sc call (iv_calls s) = (calls, entry)"
    and s': "s' = s\<lparr>iv_calls := calls, iv_callers := (iv_callers s)(i \<mapsto>
      (case entry of Reply r \<Rightarrow> Returned call r | Wait \<Rightarrow> Waiting call | Own grant \<Rightarrow> Executing call grant))\<rparr>"
  shows "pending_inv s'"
proof -
  have keep: "owns s' j key" if "owns s j key" for j key using that i by (auto simp: owns_def s')
  show ?thesis
    using b
  proof (cases rule: Call_begin_cases)
    case (own grant fresh)
    have "owns s' i (cc_IdempotencyKey call)" by (simp add: owns_def s' own(1))
    with keep inv own show ?thesis unfolding pending_inv_def by (auto simp: s') blast+
  qed (use keep inv in \<open>auto simp: pending_inv_def s'; blast\<close>)+
qed

lemma pending_inv_execute:
  assumes inv: "pending_inv s" "owner_inv s" and i: "iv_callers s i = Some (Executing call grant)"
    and s': "s' = s\<lparr>iv_env := e, iv_calls := finishCall (cc_IdempotencyKey call) outcome (iv_calls s),
      iv_callers := (iv_callers s)(i \<mapsto> Returned call outcome), iv_invoked := invoked\<rparr>"
  shows "pending_inv s'" "\<exists>state. iv_calls s' (cc_IdempotencyKey call) = Some state \<and> ccs_done state"
proof -
  let ?key = "cc_IdempotencyKey call"
  have own: "owns s i ?key" using i by (auto simp: owns_def)
  from owner_invD(1) [OF inv(2) own] obtain state where state: "iv_calls s ?key = Some state" by blast
  have calls: "iv_calls s' = (iv_calls s)(?key \<mapsto> state\<lparr>ccs_done := True, ccs_outcome := outcome\<rparr>)"
    by (simp add: s' finishCall_def state)
  have keep: "owns s' j key" if "owns s j key" "key \<noteq> ?key" for j key using that i by (auto simp: owns_def s')
  show "\<exists>state. iv_calls s' ?key = Some state \<and> ccs_done state" by (simp add: calls)
  have "\<exists>j. owns s' j key" if "iv_calls s' key = Some st" "\<not> ccs_done st" for key st
  proof -
    have key: "key \<noteq> ?key" using that by (auto simp: calls)
    with that have "iv_calls s key = Some st" by (simp add: calls)
    with inv(1) that(2) obtain j where "owns s j key" unfolding pending_inv_def by blast
    with keep key show ?thesis by blast
  qed
  moreover have "iv_calls s' (cc_IdempotencyKey c) \<noteq> None" if "iv_callers s' j = Some (Waiting c)" for j c
  proof -
    have "iv_callers s j = Some (Waiting c)" using that by (auto simp: s' split: if_splits)
    with inv(1) show ?thesis unfolding pending_inv_def by (auto simp: calls)
  qed
  ultimately show "pending_inv s'" unfolding pending_inv_def by blast
qed

lemma pending_inv_keep:
  assumes "pending_inv s" "iv_calls s' = iv_calls s" "\<And>j key. owns s j key \<Longrightarrow> owns s' j key"
    "\<And>j c. iv_callers s' j = Some (Waiting c) \<Longrightarrow> iv_callers s j = Some (Waiting c)"
  shows "pending_inv s'"
  using assms unfolding pending_inv_def by metis

lemma pending_inv_step: "invoker_step sc s s' \<Longrightarrow> pending_inv s \<Longrightarrow> owner_inv s \<Longrightarrow> pending_inv s'"
proof (induction rule: invoker_step.induct)
  case (begin_call s i call calls entry)
  then show ?case by (intro pending_inv_begin [OF _ begin_call.hyps refl])
next
  case (execute s i call grant e invoked outcome)
  then show ?case by (intro pending_inv_execute [OF _ _ execute.hyps(1) refl])
qed (erule pending_inv_keep; auto simp: owns_def split: if_splits)+

lemma invoker_reach_pending: "invoker_reach sc e s \<Longrightarrow> pending_inv s"
proof (induction rule: invoker_reach.induct)
  case init
  show ?case by (simp add: pending_inv_def NewCapabilityInvoker_def)
next
  case (step s s')
  then have "owner_inv s" using invoker_reach_inv [of sc e s] by (simp add: invoker_inv_def)
  then show ?case using pending_inv_step step by blast
qed

text \<open>A small scenario: two callers use the same key of the grant of one capability.\<close>

definition demo_grant :: CapabilityGrant where
  "demo_grant = \<lparr>cg_Name = ''mail'', cg_Version = ''1'', cg_Effect = ''write'', cg_Resources = [''inbox'']\<rparr>"
definition demo_call :: CapabilityCall where
  "demo_call = \<lparr>cc_Name = ''mail'', cc_Version = [], cc_IdempotencyKey = ''k'', cc_Resource = ''inbox'', cc_Input = None\<rparr>"
definition demo_caps :: "nat scopedCapabilities" where
  "demo_caps = \<lparr>sc_runID = ''run'', sc_agentID = ''agent'',
     sc_principal = \<lparr>pr_Type = ''user'', pr_ID = ''u'', pr_AccountableID = []\<rparr>, sc_grants = [demo_grant],
     sc_env = \<lparr>ce_Invoke = Some (\<lambda>r e. (Suc e, Inr None)), ce_reserve = None, ce_finish = None, ce_emit = (\<lambda>_ _ e. e),
       ce_newID = (\<lambda>prefix e. (prefix, e)), ce_text = (\<lambda>_. [])\<rparr>\<rparr>"
definition demo_waiting :: "nat invoker" where
  "demo_waiting = \<lparr>iv_calls = [''k'' \<mapsto> \<lparr>ccs_name = ''mail'', ccs_version = ''1'', ccs_resource = ''inbox'', ccs_done = False,
       ccs_outcome = Inr zero_CapabilityResult\<rparr>], iv_env = 0,
     iv_callers = [0 \<mapsto> Executing demo_call demo_grant, 1 \<mapsto> Waiting demo_call], iv_invoked = []\<rparr>"
definition demo_returned :: "nat invoker" where
  "demo_returned = \<lparr>iv_calls = [''k'' \<mapsto> \<lparr>ccs_name = ''mail'', ccs_version = ''1'', ccs_resource = ''inbox'', ccs_done = True,
       ccs_outcome = Inr \<lparr>cres_CallID = ''call'', cres_Output = None\<rparr>\<rparr>], iv_env = 1,
     iv_callers = [0 \<mapsto> Returned demo_call (Inr \<lparr>cres_CallID = ''call'', cres_Output = None\<rparr>), 1 \<mapsto> Waiting demo_call],
     iv_invoked = [(''k'', (call_request demo_caps demo_call demo_grant)\<lparr>cr_CallID := ''call''\<rparr>)]\<rparr>"

lemmas demo_caps_defs = demo_grant_def demo_call_def demo_caps_def demo_waiting_def demo_returned_def NewCapabilityInvoker_def

lemma demo_begin:
  "Call_begin demo_caps demo_call Map.empty = (iv_calls demo_waiting, Own demo_grant)"
  "Call_begin demo_caps demo_call (iv_calls demo_waiting) = (iv_calls demo_waiting, Wait)"
  by (simp_all add: Call_begin_def demo_caps_defs)

lemma demo_waiting_reach: "invoker_reach demo_caps 0 demo_waiting"
proof -
  let ?s0 = "NewCapabilityInvoker (0::nat)"
  define s1 where "s1 = ?s0\<lparr>iv_callers := (iv_callers ?s0)(0 \<mapsto> Entering demo_call)\<rparr>"
  define s2 where "s2 = s1\<lparr>iv_calls := iv_calls demo_waiting, iv_callers := (iv_callers s1)(0 \<mapsto> Executing demo_call demo_grant)\<rparr>"
  define s3 where "s3 = s2\<lparr>iv_callers := (iv_callers s2)(1 \<mapsto> Entering demo_call)\<rparr>"
  have "invoker_step demo_caps ?s0 s1"
    unfolding s1_def by (rule invoker_step.arrive) (simp add: NewCapabilityInvoker_def)
  moreover have "invoker_step demo_caps s1 s2"
    using invoker_step.begin_call [of s1 0 demo_call demo_caps "iv_calls demo_waiting" "Own demo_grant"] demo_begin(1)
    by (simp add: s1_def s2_def NewCapabilityInvoker_def)
  moreover have "invoker_step demo_caps s2 s3"
    unfolding s3_def by (rule invoker_step.arrive) (simp add: s2_def s1_def NewCapabilityInvoker_def)
  moreover have "invoker_step demo_caps s3 demo_waiting"
  proof -
    have "demo_waiting = s3\<lparr>iv_calls := iv_calls demo_waiting, iv_callers := (iv_callers s3)(1 \<mapsto> Waiting demo_call)\<rparr>"
      by (simp add: s3_def s2_def s1_def NewCapabilityInvoker_def demo_waiting_def)
    moreover have "iv_callers s3 1 = Some (Entering demo_call)" "iv_calls s3 = iv_calls demo_waiting"
      by (simp_all add: s3_def s2_def)
    ultimately show ?thesis
      using invoker_step.begin_call [of s3 1 demo_call demo_caps "iv_calls demo_waiting" Wait] demo_begin(2) by simp
  qed
  ultimately show ?thesis by (meson invoker_reach.init invoker_reach.step)
qed

lemma demo_returned_reach: "invoker_reach demo_caps 0 demo_returned"
proof -
  have "Call_run demo_caps demo_call demo_grant (iv_env demo_waiting) =
      (1, Some ((call_request demo_caps demo_call demo_grant)\<lparr>cr_CallID := ''call''\<rparr>),
       Inr \<lparr>cres_CallID = ''call'', cres_Output = None\<rparr>)"
    by (simp add: Call_run_def Call_invoke_def demo_caps_def demo_waiting_def Let_def)
  moreover have "iv_callers demo_waiting 0 = Some (Executing demo_call demo_grant)" by (simp add: demo_waiting_def)
  ultimately have step: "invoker_step demo_caps demo_waiting (demo_waiting\<lparr>iv_env := 1,
      iv_calls := finishCall (cc_IdempotencyKey demo_call) (Inr \<lparr>cres_CallID = ''call'', cres_Output = None\<rparr>) (iv_calls demo_waiting),
      iv_callers := (iv_callers demo_waiting)(0 \<mapsto> Returned demo_call (Inr \<lparr>cres_CallID = ''call'', cres_Output = None\<rparr>)),
      iv_invoked := [(cc_IdempotencyKey demo_call, (call_request demo_caps demo_call demo_grant)\<lparr>cr_CallID := ''call''\<rparr>)]\<rparr>)"
    (is "invoker_step _ _ ?t")
    using invoker_step.execute [of demo_waiting 0 demo_call demo_grant demo_caps 1]
    by (auto simp: demo_waiting_def)
  have "?t = demo_returned"
    by (simp add: demo_waiting_def demo_returned_def finishCall_def demo_call_def fun_upd_twist)
  with invoker_reach.step [OF demo_waiting_reach step] show ?thesis by simp
qed

text \<open>
  C38: However many goroutines enter \<open>Call\<close> and however their critical sections interleave, the provider
  is invoked at most once per idempotency key; a caller that returned was rejected by the checks before
  the mutex, told of a conflict, cancelled by its own context, or told the one published outcome of its key.
\<close>
theorem capability_at_most_once:
  assumes "invoker_reach sc e s"
  shows "distinct (map fst (iv_invoked s)) \<and>
    (\<forall>i call r. iv_callers s i = Some (Returned call r) \<longrightarrow> told sc (iv_calls s) call r)"
  using invoker_reach_inv [OF assms] by (simp add: invoker_inv_def invoked_inv_def told_inv_def)

theorem capability_at_most_once_witness:
  "map fst (iv_invoked demo_returned) = [''k''] \<and>
   told demo_caps (iv_calls demo_returned) demo_call (Inr \<lparr>cres_CallID = ''call'', cres_Output = None\<rparr>)"
proof -
  note once = capability_at_most_once [OF demo_returned_reach]
  have "iv_callers demo_returned 0 = Some (Returned demo_call (Inr \<lparr>cres_CallID = ''call'', cres_Output = None\<rparr>))"
    by (simp add: demo_returned_def)
  with once have "told demo_caps (iv_calls demo_returned) demo_call (Inr \<lparr>cres_CallID = ''call'', cres_Output = None\<rparr>)"
    by blast
  then show ?thesis by (simp add: demo_returned_def)
qed

text \<open>
  Every request with which the provider is invoked names the run and the principal of the invoker and
  a capability, version and effect of one grant of the run, on a resource that the grant covers.
\<close>
theorem capability_scoped:
  assumes "invoker_reach sc e s" "(key, r) \<in> set (iv_invoked s)"
  shows "request_granted sc r"
  using invoker_reach_granted [OF assms(1)] assms(2) by (auto simp: granted_inv_def)

theorem capability_scoped_witness:
  "request_granted demo_caps ((call_request demo_caps demo_call demo_grant)\<lparr>cr_CallID := ''call''\<rparr>)"
  by (rule capability_scoped [OF demo_returned_reach, of "''k''"]) (simp add: demo_returned_def)

text \<open>
  A caller that waits for another goroutine's call of its key is never stranded: from every reachable
  state some run of the invoker gives it the published outcome of that key.
\<close>
theorem capability_waiters_return:
  assumes reach: "invoker_reach sc e s" and i: "iv_callers s i = Some (Waiting call)"
  shows "\<exists>s' state. (invoker_step sc)\<^sup>*\<^sup>* s s' \<and> iv_calls s' (cc_IdempotencyKey call) = Some state \<and> ccs_done state \<and>
    iv_callers s' i = Some (Returned call (ccs_outcome state))"
proof -
  let ?key = "cc_IdempotencyKey call"
  have pending: "pending_inv s" and owner: "owner_inv s"
    using invoker_reach_pending [OF reach] invoker_reach_inv [OF reach] by (auto simp: invoker_inv_def)
  have "\<exists>s1 state. (invoker_step sc)\<^sup>*\<^sup>* s s1 \<and> iv_callers s1 i = Some (Waiting call) \<and> iv_calls s1 ?key = Some state \<and> ccs_done state"
  proof (cases "\<exists>state. iv_calls s ?key = Some state \<and> ccs_done state")
    case True
    with i show ?thesis by blast
  next
    case False
    with pending i obtain j where "owns s j ?key" unfolding pending_inv_def by blast
    then obtain c g where j: "iv_callers s j = Some (Executing c g)" and c: "cc_IdempotencyKey c = ?key" by (auto simp: owns_def)
    obtain e' invoked outcome where run: "Call_run sc c g (iv_env s) = (e', invoked, outcome)" by (metis prod.exhaust)
    define s1 where "s1 = s\<lparr>iv_env := e', iv_calls := finishCall (cc_IdempotencyKey c) outcome (iv_calls s),
      iv_callers := (iv_callers s)(j \<mapsto> Returned c outcome),
      iv_invoked := (case invoked of None \<Rightarrow> iv_invoked s | Some r \<Rightarrow> iv_invoked s @ [(cc_IdempotencyKey c, r)])\<rparr>"
    have "invoker_step sc s s1" using invoker_step.execute [OF j run] by (simp add: s1_def)
    moreover have "\<exists>state. iv_calls s1 ?key = Some state \<and> ccs_done state"
      using pending_inv_execute(2) [OF pending owner j s1_def] c by simp
    moreover have "iv_callers s1 i = Some (Waiting call)" using i j by (auto simp: s1_def)
    ultimately show ?thesis by blast
  qed
  then obtain s1 state where s1: "(invoker_step sc)\<^sup>*\<^sup>* s s1" "iv_callers s1 i = Some (Waiting call)"
      "iv_calls s1 ?key = Some state" "ccs_done state" by blast
  let ?s' = "s1\<lparr>iv_callers := (iv_callers s1)(i \<mapsto> Returned call (ccs_outcome state))\<rparr>"
  have "(invoker_step sc)\<^sup>*\<^sup>* s ?s'" using rtranclp.rtrancl_into_rtrancl [OF s1(1) invoker_step.wake [OF s1(2-4)]] .
  moreover have "iv_calls ?s' ?key = Some state" "iv_callers ?s' i = Some (Returned call (ccs_outcome state))"
    using s1(3) by simp_all
  ultimately show ?thesis using s1(4) by blast
qed

theorem capability_waiters_return_witness:
  "\<exists>s' state. (invoker_step demo_caps)\<^sup>*\<^sup>* demo_waiting s' \<and> iv_calls s' ''k'' = Some state \<and> ccs_done state \<and>
    iv_callers s' 1 = Some (Returned demo_call (ccs_outcome state))"
  using capability_waiters_return [OF demo_waiting_reach, of 1 demo_call] by (simp add: demo_caps_defs)

end
