(* ===== verification/Go_Files.thy ===== *)
theory Go_Files
  imports Go_Strings
begin

text \<open>
  The files the program reads and writes, by path, and the calls of \<open>os\<close> it makes on them. Any call of
  the operating system may fail: \<open>dir_fault\<close> says which of the calls to come do, in the order they are
  made (reads: per file). \<open>os.CreateTemp\<close> picks a name that does not exist: a prefix and \<open>dir_temp\<close>.
\<close>

record directory =
  dir_files :: "string \<Rightarrow> string option"
  dir_fault :: "nat \<Rightarrow> error option"
  dir_calls :: nat
  dir_unreadable :: "string \<Rightarrow> error option"
  dir_temp :: string

definition os_call :: "directory \<Rightarrow> directory \<times> error option" where
  "os_call d = (d\<lparr>dir_calls := Suc (dir_calls d)\<rparr>, dir_fault d (dir_calls d))"

definition ErrNotExist :: error where
  "ErrNotExist = GoError [NotExist] ''file does not exist''"

text \<open>\<open>os.Remove\<close>: the file must exist, and the call may fail.\<close>

definition os_Remove :: "string \<Rightarrow> directory \<Rightarrow> directory \<times> error option" where
  "os_Remove name d =
    (case os_call d of
       (d, Some e) \<Rightarrow> (d, Some e)
     | (d, None) \<Rightarrow> (case dir_files d name of None \<Rightarrow> (d, Some ErrNotExist)
         | Some _ \<Rightarrow> (d\<lparr>dir_files := (dir_files d)(name := None)\<rparr>, None)))"

text \<open>A file that exists is never reported as missing, whatever else is wrong with it.\<close>

definition os_ReadFile :: "string \<Rightarrow> directory \<Rightarrow> string result" where
  "os_ReadFile name d =
    (case dir_files d name of None \<Rightarrow> Inl ErrNotExist
     | Some content \<Rightarrow> (case dir_unreadable d name of Some e \<Rightarrow> Inl (GoError (removeAll NotExist (err_is e)) (err_text e))
         | None \<Rightarrow> Inr content))"

text \<open>
  \<open>os.WriteFile\<close> opens the file, which truncates it, and writes; when the write fails a part of the
  bytes is there, here \<open>dir_calls\<close> many of them, an arbitrary amount.
\<close>

definition os_WriteFile :: "string \<Rightarrow> string \<Rightarrow> directory \<Rightarrow> directory \<times> error option" where
  "os_WriteFile name data d =
    (case os_call d of
       (d, Some e) \<Rightarrow> (d, Some e)
     | (d, None) \<Rightarrow>
       (case os_call d of
          (d, Some e) \<Rightarrow> (d\<lparr>dir_files := (dir_files d)(name \<mapsto> take (dir_calls d) data)\<rparr>, Some e)
        | (d, None) \<Rightarrow> (d\<lparr>dir_files := (dir_files d)(name \<mapsto> data)\<rparr>, None)))"

lemma os_call_frame [simp]:
  "dir_files (fst (os_call d)) = dir_files d" "dir_unreadable (fst (os_call d)) = dir_unreadable d"
  "dir_temp (fst (os_call d)) = dir_temp d"
  by (simp_all add: os_call_def)

lemma os_Remove_other [simp]: "k \<noteq> name \<Longrightarrow> dir_files (fst (os_Remove name d)) k = dir_files d k"
  by (simp add: os_Remove_def os_call_def split: option.split)

lemma os_WriteFile_files:
  "os_WriteFile name data d = (d', None) \<Longrightarrow> dir_files d' = (dir_files d)(name \<mapsto> data)"
  "k \<noteq> name \<Longrightarrow> dir_files (fst (os_WriteFile name data d)) k = dir_files d k"
  by (auto simp: os_WriteFile_def os_call_def split: option.splits)

lemma os_WriteFile_unreadable [simp]: "dir_unreadable (fst (os_WriteFile name data d)) = dir_unreadable d"
  by (simp add: os_WriteFile_def os_call_def split: option.split)

end
