(* ===== verification/Instructions.thy ===== *)
theory Instructions
  imports Go_Files Relay_Types
begin

text \<open>
  \<open>instructions.go\<close>: compiling a request's instruction layers, and keeping Relay's block inside the
  instruction file of a provider. The lemmas treat the block as a view of the file: the text outside it
  is never touched, and writing it again replaces it.
\<close>

section \<open>Compiling\<close>

definition instructionMarkerBegin :: string where
  "instructionMarkerBegin = ''<!-- BEGIN RELAY-RUNTIME (auto-managed; do not edit) -->''"
definition instructionMarkerEnd :: string where
  "instructionMarkerEnd = ''<!-- END RELAY-RUNTIME -->''"

definition appendInstruction :: "string \<Rightarrow> InstructionFragment \<Rightarrow> string" where
  "appendInstruction builder fragment =
    (let content = TrimSpace (frag_Content fragment) in
     if content = [] then builder
     else let title = TrimSpace (frag_Title fragment);
              title = (if title = [] then TrimSpace (frag_ID fragment) else title)
          in builder @ nl @ nl @ ''## '' @ title @ nl @ nl @ content @ nl)"

definition Compile :: "Input \<Rightarrow> InstructionBundle \<Rightarrow> CompiledInstructions result" where
  "Compile input bundle =
    (let stable = ''# Relay Runtime'' @ nl @ nl
           @ ''This execution is managed by Relay. Return durable results before the top-level agent process exits.'' @ nl;
         stable = foldl (foldl appendInstruction) stable
           [ib_Runtime bundle, ib_Host bundle, ib_Workspace bundle, ib_Agent bundle];
         prompt = foldl appendInstruction (TrimSpace (in_Prompt input)) (ib_Turn bundle)
     in Inr \<lparr>ci_Stable = TrimRight1 stable CHR 0x0A @ nl, ci_Prompt = TrimSpace prompt @ nl\<rparr>)"

definition grant_line :: "CapabilityGrant \<Rightarrow> string" where
  "grant_line grant = ''- `'' @ cg_Name grant @ ''@'' @ cg_Version grant @ ''`''
     @ (if cg_Resources grant \<noteq> [] then '' resources: `'' @ Join (cg_Resources grant) ''`, `'' @ ''`'' else []) @ nl"

definition CapabilityToolInstruction :: "CapabilityGrant list \<Rightarrow> InstructionFragment" where
  "CapabilityToolInstruction grants =
    \<lparr>frag_ID = ''relay-capability-tools'', frag_Version = ''1'', frag_Title = ''Relay capabilities'',
     frag_Content = ''Use `relay-tool call` when live host data or actions are needed. Do not invoke host-specific CLIs directly. Every call requires a unique, stable `--idempotency` value.'' @ nl
       @ (if grants \<noteq> [] then nl @ ''Granted capabilities:'' @ nl @ concat (map grant_line grants) else [])\<rparr>"

section \<open>Materialising\<close>

definition instructionFileName :: "string \<Rightarrow> string result" where
  "instructionFileName provider =
    (let p = ToLower provider in
     if p \<in> set [''codex'', ''trae'', ''traex'', ''copilot'', ''cursor'', ''opencode'', ''hermes'', ''pi'', ''mock'']
     then Inr ''AGENTS.md''
     else if p = ''claude'' then Inr ''CLAUDE.md''
     else if p = ''qwen'' then Inr ''QWEN.md''
     else if p = ''codebuddy'' then Inr ''CODEBUDDY.md''
     else Inl (errors_New (''relay: unsupported instruction provider '' @ quot @ provider @ quot)))"

definition instruction_block :: "CompiledInstructions \<Rightarrow> string" where
  "instruction_block compiled =
    instructionMarkerBegin @ nl @ TrimRight1 (ci_Stable compiled) CHR 0x0A @ nl @ instructionMarkerEnd @ nl"

text \<open>The new content of the file, given its present content if it exists.\<close>

definition mergeInstructions :: "string option \<Rightarrow> string \<Rightarrow> string result" where
  "mergeInstructions existing block =
    (case existing of None \<Rightarrow> Inr block
     | Some content \<Rightarrow>
       (case Index content instructionMarkerBegin of
          Some start \<Rightarrow>
            (case Index (drop start content) instructionMarkerEnd of
               None \<Rightarrow> Inl (errors_New ''relay: incomplete managed instruction marker'')
             | Some endRelative \<Rightarrow>
               let end' = start + endRelative + length instructionMarkerEnd;
                   end' = (if end' < length content \<and> content ! end' = CHR 0x0A then Suc end' else end')
               in Inr (take start content @ block @ drop end' content))
        | None \<Rightarrow> Inr (content @ (if content = [] then [] else nl @ nl) @ block)))"

definition MaterializeInstructions :: "string \<Rightarrow> string \<Rightarrow> CompiledInstructions \<Rightarrow> directory \<Rightarrow> directory \<times> string result" where
  "MaterializeInstructions workDir provider compiled d =
    (case instructionFileName provider of Inl e \<Rightarrow> (d, Inl e)
     | Inr name \<Rightarrow>
       let path = filepath_Join [workDir, name] in
       case os_call d of (d, Some e) \<Rightarrow> (d, Inl e)
       | (d, None) \<Rightarrow>
         let existing = os_ReadFile path d;
             write = (\<lambda>content. case os_WriteFile path content d of (d, Some e) \<Rightarrow> (d, Inl e) | (d, None) \<Rightarrow> (d, Inr path))
         in case existing of
            Inl e \<Rightarrow>
              if errors_Is e NotExist
              then (case mergeInstructions None (instruction_block compiled) of Inl e \<Rightarrow> (d, Inl e) | Inr new \<Rightarrow> write new)
              else (d, Inl (GoError (err_is e) (''relay: read instruction file: '' @ err_text e)))
          | Inr content \<Rightarrow>
              (case mergeInstructions (Some content) (instruction_block compiled) of Inl e \<Rightarrow> (d, Inl e) | Inr new \<Rightarrow> write new))"

section \<open>The block as a view of the file\<close>

text \<open>The text before and after the block, \<open>None\<close> when the block is not closed.\<close>

definition outside :: "string option \<Rightarrow> (string \<times> string) option" where
  "outside existing =
    (case existing of None \<Rightarrow> Some ([], [])
     | Some content \<Rightarrow>
       (case Index content instructionMarkerBegin of
          None \<Rightarrow> Some (if content = [] then [] else content @ nl @ nl, [])
        | Some start \<Rightarrow>
          (case Index (drop start content) instructionMarkerEnd of None \<Rightarrow> None
           | Some n \<Rightarrow>
             let rest = drop (start + n + length instructionMarkerEnd) content
             in Some (take start content, if rest \<noteq> [] \<and> hd rest = CHR 0x0A then tl rest else rest))))"

lemma mergeInstructions_outside:
  "mergeInstructions existing block =
    (case outside existing of None \<Rightarrow> Inl (errors_New ''relay: incomplete managed instruction marker'')
     | Some (before, after) \<Rightarrow> Inr (before @ block @ after))"
  by (auto simp: mergeInstructions_def outside_def Let_def hd_drop_conv_nth tl_drop drop_Suc not_less split: option.split)

definition clean_block :: "CompiledInstructions \<Rightarrow> bool" where
  "clean_block compiled \<longleftrightarrow> \<not> Contains (ci_Stable compiled) instructionMarkerEnd"

lemma markers [simp]:
  "CHR 0x0A \<notin> set instructionMarkerBegin" "CHR 0x0A \<notin> set instructionMarkerEnd"
  "instructionMarkerBegin \<noteq> []" "instructionMarkerEnd \<noteq> []" "Index instructionMarkerBegin instructionMarkerEnd = None"
  by (simp_all add: instructionMarkerBegin_def instructionMarkerEnd_def HasPrefix_def)

lemma Index_self [simp]: "sub \<noteq> [] \<Longrightarrow> Index (sub @ s) sub = Some 0"
  using HasPrefix_append [of sub s] by (cases "sub @ s") (simp_all del: HasPrefix_append)

lemma Index_skip: "c \<notin> set sub \<Longrightarrow> sub \<noteq> [] \<Longrightarrow> Index (c # s) sub = map_option Suc (Index s sub)"
  using Index_sep [of c sub "[]" s] by simp

lemma Index_prefix_None: "Index (s @ t) sub = None \<Longrightarrow> Index s sub = None"
  using Index_None Index_SomeD by (metis append.assoc not_Some_eq)

lemma Index_end_block:
  assumes "clean_block compiled"
  shows "Index (instruction_block compiled @ after) instructionMarkerEnd =
    Some (length instructionMarkerBegin + 1 + length (TrimRight1 (ci_Stable compiled) CHR 0x0A) + 1)"
proof -
  have "Index (TrimRight1 (ci_Stable compiled) CHR 0x0A) instructionMarkerEnd = None"
    using assms TrimRight1_prefix Index_prefix_None unfolding clean_block_def Contains_def by metis
  then show ?thesis by (simp add: instruction_block_def Index_sep)
qed

text \<open>Writing a block leaves what is outside of it, wherever it was found.\<close>

lemma outside_merge:
  assumes "outside existing = Some (before, after)" "clean_block compiled"
  shows "outside (Some (before @ instruction_block compiled @ after)) = Some (before, after)"
proof -
  let ?new = "before @ instruction_block compiled @ after"
  have start: "Index ?new instructionMarkerBegin = Some (length before)"
  proof (cases existing)
    case None
    with assms show ?thesis by (simp add: outside_def instruction_block_def)
  next
    case (Some content)
    show ?thesis
    proof (cases "Index content instructionMarkerBegin")
      case None
      show ?thesis
      proof (cases "content = []")
        case True
        with assms Some None show ?thesis by (simp add: outside_def instruction_block_def)
      next
        case False
        with assms Some None have "before = content @ nl @ nl" by (simp add: outside_def)
        with None show ?thesis by (simp add: instruction_block_def Index_sep Index_skip del: Index.simps)
      qed
    next
      case start: (Some start)
      with assms Some have before: "before = take start content" by (auto simp: outside_def Let_def split: option.splits)
      from Index_SomeD [OF start] obtain t u where "content = t @ instructionMarkerBegin @ u" "length t = start" by blast
      with before have "take (start + length instructionMarkerBegin) ?new = take (start + length instructionMarkerBegin) content"
        "length before = start" by (simp_all add: instruction_block_def)
      with Index_first [OF start] show ?thesis by blast
    qed
  qed
  moreover have "drop (length before) ?new = instruction_block compiled @ after" by simp
  moreover have "drop (length before + (length instructionMarkerBegin + 1 + length (TrimRight1 (ci_Stable compiled) CHR 0x0A) + 1)
      + length instructionMarkerEnd) ?new = nl @ after"
    by (simp add: instruction_block_def)
  ultimately show ?thesis
    using Index_end_block [OF assms(2), of after] by (simp add: outside_def Let_def)
qed

text \<open>What a call does to the files.\<close>

lemma MaterializeInstructions_ok:
  assumes "MaterializeInstructions workDir provider compiled d = (d', Inr path)"
  shows "(\<exists>name. instructionFileName provider = Inr name \<and> path = filepath_Join [workDir, name]) \<and>
    (\<exists>before after. outside (dir_files d path) = Some (before, after) \<and>
       dir_files d' = (dir_files d)(path \<mapsto> before @ instruction_block compiled @ after))"
proof -
  from assms obtain name where name: "instructionFileName provider = Inr name"
    by (auto simp: MaterializeInstructions_def split: sum.splits)
  let ?p = "filepath_Join [workDir, name]"
  from assms name obtain d1 where d1: "os_call d = (d1, None)"
    by (cases "os_call d"; cases "snd (os_call d)") (auto simp: MaterializeInstructions_def Let_def)
  have files: "dir_files d1 = dir_files d" using os_call_frame(1) [of d] d1 by simp
  have "\<exists>new. mergeInstructions (dir_files d1 ?p) (instruction_block compiled) = Inr new \<and>
      os_WriteFile ?p new d1 = (d', None) \<and> path = ?p"
    using assms
    by (auto simp: MaterializeInstructions_def name d1 Let_def os_ReadFile_def ErrNotExist_def errors_Is_def
        split: sum.splits prod.splits option.splits if_splits)
  then obtain new where "mergeInstructions (dir_files d ?p) (instruction_block compiled) = Inr new"
      "dir_files d' = (dir_files d)(?p \<mapsto> new)" "path = ?p"
    using files by (auto dest: os_WriteFile_files(1))
  with name show ?thesis by (auto simp: mergeInstructions_outside split: option.splits)
qed

text \<open>A provider with a file name whose file is readable and whose calls of the operating system succeed.\<close>

lemma MaterializeInstructions_live:
  assumes "instructionFileName provider = Inr name" "path = filepath_Join [workDir, name]"
    "dir_fault d = (\<lambda>_. None)" "dir_unreadable d path = None" "outside (dir_files d path) \<noteq> None"
  shows "\<exists>d'. MaterializeInstructions workDir provider compiled d = (d', Inr path)"
proof -
  obtain new where "mergeInstructions (dir_files d path) (instruction_block compiled) = Inr new"
    using assms(5) by (auto simp: mergeInstructions_outside)
  with assms show ?thesis
    by (cases "dir_files d path")
      (auto simp: MaterializeInstructions_def os_call_def os_ReadFile_def os_WriteFile_def ErrNotExist_def errors_Is_def Let_def)
qed

section \<open>Properties\<close>

definition demo_dir :: directory where
  "demo_dir = \<lparr>dir_files = [''w/AGENTS.md'' \<mapsto> ''notes''], dir_fault = (\<lambda>_. None), dir_calls = 0,
     dir_unreadable = Map.empty, dir_temp = ''0''\<rparr>"
definition demo_compiled :: "string \<Rightarrow> CompiledInstructions" where
  "demo_compiled s = \<lparr>ci_Stable = s, ci_Prompt = []\<rparr>"

lemma demo_path: "instructionFileName ''codex'' = Inr ''AGENTS.md''" "filepath_Join [''w'', ''AGENTS.md''] = ''w/AGENTS.md''"
  by (simp_all add: instructionFileName_def lower_char_def HasPrefix_def filepath_Join_def filepath_Clean_def Let_def)

lemma demo_outside: "outside (dir_files demo_dir ''w/AGENTS.md'') = Some (''notes'' @ nl @ nl, [])"
  by (simp add: demo_dir_def outside_def instructionMarkerBegin_def HasPrefix_def)

text \<open>
  C40: A call that succeeds writes one file only, the provider's, and there it replaces Relay's block or
  appends one: the host's text before and after the block is the same as before the call, and the file
  still has exactly one managed block, in the same place.
\<close>
theorem materialize_preserves:
  assumes "MaterializeInstructions workDir provider compiled d = (d', Inr path)" "clean_block compiled"
  shows "\<exists>before after. outside (dir_files d path) = Some (before, after) \<and>
    dir_files d' = (dir_files d)(path \<mapsto> before @ instruction_block compiled @ after) \<and>
    outside (dir_files d' path) = Some (before, after)"
proof -
  from MaterializeInstructions_ok [OF assms(1)] obtain before after where
    "outside (dir_files d path) = Some (before, after)"
    "dir_files d' = (dir_files d)(path \<mapsto> before @ instruction_block compiled @ after)" by blast
  with outside_merge [OF _ assms(2)] show ?thesis by simp
qed

theorem materialize_preserves_witness:
  "\<exists>d'. MaterializeInstructions ''w'' ''codex'' (demo_compiled ''be brief'') demo_dir = (d', Inr ''w/AGENTS.md'') \<and>
     dir_files d' ''w/AGENTS.md'' = Some (''notes'' @ nl @ nl @ instruction_block (demo_compiled ''be brief''))"
proof -
  obtain d' where d': "MaterializeInstructions ''w'' ''codex'' (demo_compiled ''be brief'') demo_dir = (d', Inr ''w/AGENTS.md'')"
    using MaterializeInstructions_live [OF demo_path(1) demo_path(2) [symmetric], of demo_dir] demo_outside
    by (auto simp: demo_dir_def)
  have "clean_block (demo_compiled ''be brief'')"
    by (simp add: clean_block_def demo_compiled_def Contains_def instructionMarkerEnd_def HasPrefix_def)
  from materialize_preserves [OF d' this] demo_outside d' show ?thesis by auto
qed

text \<open>
  Materialising again replaces what the first call wrote: after two successful calls the files are
  those that the second alone would have written, so repeating a call changes nothing.
\<close>
theorem materialize_replaces:
  assumes "MaterializeInstructions workDir provider c1 d = (d1, Inr path)" "clean_block c1"
    "MaterializeInstructions workDir provider c2 d1 = (d2, Inr path2)"
  shows "path2 = path \<and> (\<exists>before after. outside (dir_files d path) = Some (before, after) \<and>
    dir_files d2 = (dir_files d)(path \<mapsto> before @ instruction_block c2 @ after)) \<and> (c1 = c2 \<longrightarrow> dir_files d2 = dir_files d1)"
proof -
  note first = MaterializeInstructions_ok [OF assms(1)] and second = MaterializeInstructions_ok [OF assms(3)]
  from first obtain before after where 1: "outside (dir_files d path) = Some (before, after)"
    "dir_files d1 = (dir_files d)(path \<mapsto> before @ instruction_block c1 @ after)" by blast
  have same: "path2 = path" using first second by auto
  from outside_merge [OF 1(1) assms(2)] 1(2) have "outside (dir_files d1 path) = Some (before, after)" by simp
  with second same have "dir_files d2 = (dir_files d1)(path \<mapsto> before @ instruction_block c2 @ after)" by auto
  with 1 same show ?thesis by auto
qed

theorem materialize_replaces_witness:
  "\<exists>d1 d2. MaterializeInstructions ''w'' ''codex'' (demo_compiled ''a'') demo_dir = (d1, Inr ''w/AGENTS.md'') \<and>
     MaterializeInstructions ''w'' ''codex'' (demo_compiled ''b'') d1 = (d2, Inr ''w/AGENTS.md'') \<and>
     dir_files d2 ''w/AGENTS.md'' = Some (''notes'' @ nl @ nl @ instruction_block (demo_compiled ''b''))"
proof -
  define d1 where "d1 = fst (MaterializeInstructions ''w'' ''codex'' (demo_compiled ''a'') demo_dir)"
  define d2 where "d2 = fst (MaterializeInstructions ''w'' ''codex'' (demo_compiled ''b'') d1)"
  have d1: "MaterializeInstructions ''w'' ''codex'' (demo_compiled ''a'') demo_dir = (d1, Inr ''w/AGENTS.md'')"
    using MaterializeInstructions_live [OF demo_path(1) demo_path(2) [symmetric], of demo_dir "demo_compiled ''a''"] demo_outside
    by (auto simp: demo_dir_def d1_def)
  have clean: "clean_block (demo_compiled ''a'')"
    by (simp add: clean_block_def demo_compiled_def Contains_def instructionMarkerEnd_def HasPrefix_def)
  from MaterializeInstructions_ok [OF d1] demo_outside
  have f1: "dir_files d1 ''w/AGENTS.md'' = Some ((''notes'' @ nl @ nl) @ instruction_block (demo_compiled ''a'') @ [])" by auto
  have "dir_fault d1 = (\<lambda>_. None)" "dir_unreadable d1 ''w/AGENTS.md'' = None"
    using d1 by (auto simp: MaterializeInstructions_def demo_path Let_def os_call_def os_ReadFile_def os_WriteFile_def demo_dir_def
      split: sum.splits option.splits prod.splits if_splits)
  then have d2: "MaterializeInstructions ''w'' ''codex'' (demo_compiled ''b'') d1 = (d2, Inr ''w/AGENTS.md'')"
    using MaterializeInstructions_live [OF demo_path(1) demo_path(2) [symmetric], of d1 "demo_compiled ''b''"]
      outside_merge [OF demo_outside clean] f1 by (auto simp: d2_def)
  from materialize_replaces [OF d1 clean d2] demo_outside d1 d2 show ?thesis by auto
qed

end
