(* ===== verification/Engine.thy ===== *)
theory Engine
  imports Capabilities Instructions
begin

text \<open>
  \<open>engine.go\<close> and \<open>store.go\<close>: the embedded engine, which executes a request in the caller's process,
  and the in-memory \<open>Store\<close>. The contract of a \<open>Store\<close> is the locale \<open>run_store\<close>; what
  \<open>Execute\<close> guarantees is proved there for every store and every executor, and \<open>MemoryStore\<close> is an
  instance.

  An executor is the sequence of calls it makes to the engine, as a function of the answers
  (\<open>executor_run\<close>); the host behind the provider and the observer has a state of any type.
\<close>

section \<open>Stores\<close>

record 's Store =
  store_Create :: "Run \<Rightarrow> 's \<Rightarrow> 's \<times> (Run \<times> bool) result"
  store_Update :: "Run \<Rightarrow> 's \<Rightarrow> 's \<times> unit result"
  store_AppendEvent :: "Event \<Rightarrow> 's \<Rightarrow> 's \<times> Event result"
  store_Get :: "string \<Rightarrow> 's \<Rightarrow> Run result"
  store_Events :: "string \<Rightarrow> 's \<Rightarrow> Event list result"

definition ErrRunNotFound :: error where
  "ErrRunNotFound = GoError [RunNotFound] ''relay: run not found''"

record MemoryStore =
  ms_runs :: "string \<Rightarrow> Run option"
  ms_byRequest :: "string \<Rightarrow> string option"
  ms_events :: "string \<Rightarrow> Event list"

definition NewMemoryStore :: MemoryStore where
  "NewMemoryStore = \<lparr>ms_runs = Map.empty, ms_byRequest = Map.empty, ms_events = (\<lambda>_. [])\<rparr>"

text \<open>
  The zero \<open>Run\<close>, but for its status, which is empty in Go and no \<open>RunStatus\<close>: it is filled in before
  anything is stored, and a caller that gets the zero \<open>Run\<close> with an error is modelled as getting none.
\<close>

definition zero_Run :: Run where
  "zero_Run = \<lparr>run_ID = [], run_TenantID = [], run_ProjectID = [], run_SessionID = [], run_AgentID = [],
     run_IdempotencyKey = [], run_Runtime = rq_Runtime zero_Request, run_Source = rq_Source zero_Request,
     run_Status = RunQueued, run_Attempt = zero_Attempt, run_Result = None, run_Error = [], run_CreatedAt = 0,
     run_StartedAt = None, run_CompletedAt = None, run_DeadlineAt = None, run_CancelRequestedAt = None,
     run_CancelReason = [], run_CancelledAt = None\<rparr>"

definition requestKey :: "Run \<Rightarrow> string" where
  "requestKey run = run_TenantID run @ nul @ run_ProjectID run @ nul @ run_IdempotencyKey run"

definition MemoryStore_Create :: "Run \<Rightarrow> MemoryStore \<Rightarrow> MemoryStore \<times> (Run \<times> bool) result" where
  "MemoryStore_Create run s =
    (case ms_byRequest s (requestKey run) of
       Some runID \<Rightarrow> (s, Inr (case ms_runs s runID of Some r \<Rightarrow> r | None \<Rightarrow> zero_Run, False))
     | None \<Rightarrow> (s\<lparr>ms_runs := (ms_runs s)(run_ID run \<mapsto> run), ms_byRequest := (ms_byRequest s)(requestKey run \<mapsto> run_ID run)\<rparr>,
         Inr (run, True)))"

definition MemoryStore_Update :: "Run \<Rightarrow> MemoryStore \<Rightarrow> MemoryStore \<times> unit result" where
  "MemoryStore_Update run s =
    (if ms_runs s (run_ID run) = None then (s, Inl ErrRunNotFound)
     else (s\<lparr>ms_runs := (ms_runs s)(run_ID run \<mapsto> run)\<rparr>, Inr ()))"

definition MemoryStore_AppendEvent :: "Event \<Rightarrow> MemoryStore \<Rightarrow> MemoryStore \<times> Event result" where
  "MemoryStore_AppendEvent event s =
    (if ms_runs s (ev_RunID event) = None then (s, Inl ErrRunNotFound)
     else let event = event\<lparr>ev_Sequence := int (length (ms_events s (ev_RunID event))) + 1\<rparr>
          in (s\<lparr>ms_events := (ms_events s)(ev_RunID event := ms_events s (ev_RunID event) @ [event])\<rparr>, Inr event))"

definition MemoryStore_Get :: "string \<Rightarrow> MemoryStore \<Rightarrow> Run result" where
  "MemoryStore_Get runID s = (case ms_runs s runID of None \<Rightarrow> Inl ErrRunNotFound | Some run \<Rightarrow> Inr run)"

definition MemoryStore_Events :: "string \<Rightarrow> MemoryStore \<Rightarrow> Event list result" where
  "MemoryStore_Events runID s = (if ms_runs s runID = None then Inl ErrRunNotFound else Inr (ms_events s runID))"

definition memoryStore :: "MemoryStore Store" where
  "memoryStore = \<lparr>store_Create = MemoryStore_Create, store_Update = MemoryStore_Update, store_AppendEvent = MemoryStore_AppendEvent,
     store_Get = MemoryStore_Get, store_Events = MemoryStore_Events\<rparr>"

section \<open>The engine\<close>

record Execution =
  ex_RunID :: string
  ex_AttemptID :: string
  ex_AgentID :: string
  ex_Runtime :: RuntimeRequirement
  ex_Source :: Source
  ex_Input :: Input
  ex_Context :: "ContextItem list"
  ex_Instructions :: CompiledInstructions
  ex_WorkDir :: string

datatype executor_run = Finish "Result result" | Emit string goany executor_run
  | CallCapability CapabilityCall "CapabilityResult result \<Rightarrow> executor_run"

record ('s, 'o) Options =
  op_Executor :: "(Execution \<Rightarrow> executor_run) option"
  op_Capabilities :: "(CapabilityRequest \<Rightarrow> 'o \<Rightarrow> 'o \<times> json option result) option"
  op_Store :: "'s Store option"
  op_Observer :: "(Event \<Rightarrow> 'o \<Rightarrow> 'o) option"
  op_Compiler :: "(Input \<Rightarrow> InstructionBundle \<Rightarrow> CompiledInstructions result) option"

record ('s, 'o) Engine =
  en_executor :: "Execution \<Rightarrow> executor_run"
  en_capabilities :: "(CapabilityRequest \<Rightarrow> 'o \<Rightarrow> 'o \<times> json option result) option"
  en_store :: "'s Store"
  en_observer :: "(Event \<Rightarrow> 'o \<Rightarrow> 'o) option"
  en_compiler :: "Input \<Rightarrow> InstructionBundle \<Rightarrow> CompiledInstructions result"

definition New :: "(MemoryStore, 'o) Options \<Rightarrow> (MemoryStore, 'o) Engine result" where
  "New options =
    (case op_Executor options of None \<Rightarrow> Inl (errors_New ''relay: executor is required'')
     | Some executor \<Rightarrow> Inr \<lparr>en_executor = executor, en_capabilities = op_Capabilities options,
         en_store = (case op_Store options of None \<Rightarrow> memoryStore | Some store \<Rightarrow> store), en_observer = op_Observer options,
         en_compiler = (case op_Compiler options of None \<Rightarrow> Compile | Some compiler \<Rightarrow> compiler)\<rparr>)"

record ('s, 'o) engine_state = world +
  es_store :: 's
  es_host :: 'o

lemma engine_state_frame [simp]:
  "es_store (s\<lparr>w_drawn := n\<rparr>) = es_store (s :: ('s, 'o) engine_state)" "es_store (s\<lparr>w_ticks := n\<rparr>) = es_store s"
  "es_host (s\<lparr>w_drawn := n\<rparr>) = es_host s" "es_host (s\<lparr>w_ticks := n\<rparr>) = es_host s"
  by simp_all

definition newID :: "string \<Rightarrow> 'a world_scheme \<Rightarrow> string \<times> 'a world_scheme" where
  "newID prefix s = (let (value, s) = rand_Read 12 s in (prefix @ ''_'' @ hex_EncodeToString value, s))"

definition emit :: "('s, 'o) Engine \<Rightarrow> Run \<Rightarrow> string \<Rightarrow> goany \<Rightarrow> ('s, 'o) engine_state \<Rightarrow> ('s, 'o) engine_state" where
  "emit e run eventType value s =
    (let data = (if value = GoNil then None else case json_Marshal value of Inl _ \<Rightarrow> None | Inr j \<Rightarrow> Some j);
         (eventID, s) = newID ''event'' s;
         (now, s) = time_Now s;
         (store, appended) = store_AppendEvent (en_store e) \<lparr>ev_ID = eventID, ev_RunID = run_ID run, ev_AttemptID = att_ID (run_Attempt run),
            ev_Sequence = 0, ev_Type = eventType, ev_Data = data, ev_CreatedAt = now\<rparr> (es_store s);
         s = s\<lparr>es_store := store\<rparr>
     in case appended of Inl _ \<Rightarrow> s
        | Inr event \<Rightarrow> (case en_observer e of None \<Rightarrow> s | Some onEvent \<Rightarrow> s\<lparr>es_host := onEvent event (es_host s)\<rparr>))"

definition emitted :: "Run \<Rightarrow> string \<Rightarrow> goany \<Rightarrow> ('s, 'o) engine_state \<Rightarrow> Event" where
  "emitted run eventType value s = \<lparr>ev_ID = fst (newID ''event'' s), ev_RunID = run_ID run, ev_AttemptID = att_ID (run_Attempt run),
     ev_Sequence = 0, ev_Type = eventType,
     ev_Data = (if value = GoNil then None else case json_Marshal value of Inl _ \<Rightarrow> None | Inr j \<Rightarrow> Some j),
     ev_CreatedAt = w_clock s (w_ticks s)\<rparr>"

lemma emitted_simps [simp]: "ev_RunID (emitted run t v s) = run_ID run" "ev_Type (emitted run t v s) = t"
  by (simp_all add: emitted_def)

lemma emit_store: "es_store (emit e run t v s) = fst (store_AppendEvent (en_store e) (emitted run t v s) (es_store s))"
proof -
  have "ev_CreatedAt (emitted run t v s) = w_clock (snd (newID ''event'' s)) (w_ticks (snd (newID ''event'' s)))"
    by (simp add: emitted_def newID_def rand_Read_def Let_def)
  then show ?thesis
    unfolding emit_def time_Now_def Let_def
    by (auto simp: emitted_def newID_def rand_Read_def split: prod.split sum.split option.split)
qed

definition fail :: "('s, 'o) Engine \<Rightarrow> Run \<Rightarrow> error \<Rightarrow> ('s, 'o) engine_state \<Rightarrow> ('s, 'o) engine_state \<times> Run option \<times> error option" where
  "fail e run cause s =
    (let (now, s) = time_Now s;
         run = run\<lparr>run_Status := RunFailed, run_Error := err_text cause, run_CompletedAt := Some now,
           run_Attempt := (run_Attempt run)\<lparr>att_Status := AttemptFailed, att_CompletedAt := Some now\<rparr>\<rparr>;
         (store, updated) = store_Update (en_store e) run (es_store s);
         s = s\<lparr>es_store := store\<rparr>
     in case updated of Inl err \<Rightarrow> (s, None, Some (errors_Join cause err))
        | Inr _ \<Rightarrow>
          let s = emit e run ''attempt.failed'' (GoVal (str_obj [(''error'', err_text cause)])) s;
              s = emit e run ''run.failed'' (GoVal (str_obj [(''error'', err_text cause)])) s
          in (s, Some run, Some cause))"

definition validateRequest :: "Request \<Rightarrow> error option" where
  "validateRequest request =
    (if rq_AgentID request = [] \<or> rq_IdempotencyKey request = [] \<or> in_Prompt (rq_Input request) = []
     then Some (errors_New ''relay: agent ID, idempotency key, and input prompt are required'') else None)"

text \<open>The invoker of a run; its provider and its events go through the engine.\<close>

definition engine_invoker :: "('s, 'o) Engine \<Rightarrow> Run \<Rightarrow> Request \<Rightarrow> (('s, 'o) engine_state) scopedCapabilities" where
  "engine_invoker e run request =
    \<lparr>sc_runID = run_ID run, sc_agentID = run_AgentID run, sc_principal = rq_Principal request, sc_grants = rq_Capabilities request,
     sc_env = \<lparr>ce_Invoke = map_option (\<lambda>invoke r s. let (h, out) = invoke r (es_host s) in (s\<lparr>es_host := h\<rparr>, out)) (en_capabilities e),
       ce_reserve = None, ce_finish = None, ce_emit = emit e run, ce_newID = newID, ce_text = (\<lambda>_. [])\<rparr>\<rparr>"

primrec run_executor :: "('s, 'o) Engine \<Rightarrow> Run \<Rightarrow> Request \<Rightarrow> executor_run \<Rightarrow> (string \<Rightarrow> capabilityCallState option)
    \<Rightarrow> ('s, 'o) engine_state \<Rightarrow> ('s, 'o) engine_state \<times> Result result" where
  "run_executor e run request (Finish r) calls s = (s, r)"
| "run_executor e run request (Emit eventType data p) calls s = run_executor e run request p calls (emit e run eventType data s)"
| "run_executor e run request (CallCapability call p) calls s =
    (case Call (engine_invoker e run request) call calls s of (calls, s, r) \<Rightarrow> run_executor e run request (p r) calls s)"

definition newEngineRun :: "Request \<Rightarrow> time \<Rightarrow> string \<Rightarrow> string \<Rightarrow> Run" where
  "newEngineRun request now runID attemptID =
    zero_Run\<lparr>run_ID := runID, run_TenantID := rq_TenantID request, run_ProjectID := rq_ProjectID request,
      run_SessionID := rq_SessionID request, run_AgentID := rq_AgentID request, run_IdempotencyKey := rq_IdempotencyKey request,
      run_Runtime := rq_Runtime request, run_Source := rq_Source request, run_Status := RunQueued, run_CreatedAt := now,
      run_Attempt := zero_Attempt\<lparr>att_ID := attemptID, att_Number := 1, att_Status := AttemptQueued\<rparr>\<rparr>"

text \<open>\<open>Execute\<close> from the point where the executor is started.\<close>

definition Execute_attempt :: "('s, 'o) Engine \<Rightarrow> Run \<Rightarrow> Request \<Rightarrow> CompiledInstructions \<Rightarrow> ('s, 'o) engine_state
    \<Rightarrow> ('s, 'o) engine_state \<times> Run option \<times> error option" where
  "Execute_attempt e run request compiled s =
    (let (s, outcome) = run_executor e run request
           (en_executor e \<lparr>ex_RunID = run_ID run, ex_AttemptID = att_ID (run_Attempt run), ex_AgentID = run_AgentID run,
              ex_Runtime = rq_Runtime zero_Request, ex_Source = rq_Source request, ex_Input = rq_Input request,
              ex_Context = rq_Context request, ex_Instructions = compiled, ex_WorkDir = []\<rparr>) Map.empty s
     in case outcome of Inl executionErr \<Rightarrow> fail e run executionErr s
     | Inr result \<Rightarrow>
       let (now, s) = time_Now s;
           run = run\<lparr>run_Status := RunSucceeded, run_Result := Some result, run_CompletedAt := Some now,
             run_Attempt := (run_Attempt run)\<lparr>att_Status := AttemptSucceeded, att_CompletedAt := Some now\<rparr>\<rparr>;
           (store, updated) = store_Update (en_store e) run (es_store s);
           s = s\<lparr>es_store := store\<rparr>
       in case updated of Inl err \<Rightarrow> (s, None, Some err)
          | Inr _ \<Rightarrow>
            let s = emit e run ''attempt.succeeded'' GoNil s;
                s = emit e run ''run.succeeded'' (GoVal (Result_json result)) s
            in (s, Some run, None))"

text \<open>\<open>Execute\<close> from the point where the run has been created.\<close>

definition Execute_created :: "('s, 'o) Engine \<Rightarrow> Run \<Rightarrow> Request \<Rightarrow> ('s, 'o) engine_state
    \<Rightarrow> ('s, 'o) engine_state \<times> Run option \<times> error option" where
  "Execute_created e run request s =
    (let s = emit e run ''run.created'' (GoVal (str_obj [(''status'', RunStatus_text RunQueued)])) s
     in case en_compiler e (rq_Input request) (rq_Instructions request) of
        Inl err \<Rightarrow> fail e run (GoError (err_is err) (''compile instructions: '' @ err_text err)) s
      | Inr compiled \<Rightarrow>
        let (now, s) = time_Now s;
            run = run\<lparr>run_Status := RunRunning, run_StartedAt := Some now,
              run_Attempt := (run_Attempt run)\<lparr>att_Status := AttemptRunning, att_StartedAt := Some now\<rparr>\<rparr>;
            (store, updated) = store_Update (en_store e) run (es_store s);
            s = s\<lparr>es_store := store\<rparr>
        in case updated of Inl err \<Rightarrow> (s, None, Some err)
           | Inr _ \<Rightarrow>
             let s = emit e run ''attempt.started'' GoNil s;
                 s = emit e run ''run.started'' GoNil s
             in Execute_attempt e run request compiled s)"

definition Execute :: "('s, 'o) Engine \<Rightarrow> Request \<Rightarrow> ('s, 'o) engine_state \<Rightarrow> ('s, 'o) engine_state \<times> Run option \<times> error option" where
  "Execute e request s =
    (case validateRequest request of Some err \<Rightarrow> (s, None, Some err)
     | None \<Rightarrow>
       let (now, s) = time_Now s;
           (runID, s) = newID ''run'' s;
           (attemptID, s) = newID ''attempt'' s;
           run = newEngineRun request now runID attemptID;
           (store, created) = store_Create (en_store e) run (es_store s);
           s = s\<lparr>es_store := store\<rparr>
       in case created of Inl err \<Rightarrow> (s, None, Some err)
       | Inr (stored, False) \<Rightarrow> (s, Some stored, None)
       | Inr (_, True) \<Rightarrow> Execute_created e run request s)"

definition Engine_Run :: "('s, 'o) Engine \<Rightarrow> string \<Rightarrow> ('s, 'o) engine_state \<Rightarrow> Run result" where
  "Engine_Run e runID s = store_Get (en_store e) runID (es_store s)"

definition Engine_Events :: "('s, 'o) Engine \<Rightarrow> string \<Rightarrow> ('s, 'o) engine_state \<Rightarrow> Event list result" where
  "Engine_Events e runID s = store_Events (en_store e) runID (es_store s)"

section \<open>The contract of a store\<close>

text \<open>
  \<open>view\<close> is the run of an identifier, \<open>lookup\<close> the run of a request scope, \<open>log\<close> the events of a run.
  A call may fail only if the store is \<open>flaky\<close> or the run is unknown, and then it changes nothing.
\<close>

definition request_key :: "Request \<Rightarrow> string" where
  "request_key request = rq_TenantID request @ nul @ rq_ProjectID request @ nul @ rq_IdempotencyKey request"

definition same_store :: "('s \<Rightarrow> string \<Rightarrow> Run option) \<Rightarrow> ('s \<Rightarrow> string \<Rightarrow> Run option) \<Rightarrow> ('s \<Rightarrow> string \<Rightarrow> Event list)
    \<Rightarrow> 's \<Rightarrow> 's \<Rightarrow> bool" where
  "same_store view lookup log s s' \<longleftrightarrow> view s' = view s \<and> lookup s' = lookup s \<and> log s' = log s"

definition numbered_from :: "nat \<Rightarrow> Event list \<Rightarrow> bool" where
  "numbered_from n evs \<longleftrightarrow> map ev_Sequence evs = map (\<lambda>i. int i + 1) [n..<n + length evs]"

lemma numbered_from_append:
  "numbered_from n (evs @ evs') \<longleftrightarrow> numbered_from n evs \<and> numbered_from (n + length evs) evs'"
  using upt_add_eq_append [of n "n + length evs" "length evs'"] by (auto simp: numbered_from_def add.assoc)

text \<open>How a run ends.\<close>

definition closed_run :: "Run \<Rightarrow> Run \<Rightarrow> error option \<Rightarrow> bool" where
  "closed_run run r err \<longleftrightarrow> run_ID r = run_ID run \<and> requestKey r = requestKey run \<and> run_CompletedAt r \<noteq> None \<and>
     (case err of None \<Rightarrow> run_Status r = RunSucceeded \<and> att_Status (run_Attempt r) = AttemptSucceeded \<and> run_Result r \<noteq> None
      | Some cause \<Rightarrow> run_Status r = RunFailed \<and> att_Status (run_Attempt r) = AttemptFailed \<and> run_Error r = err_text cause)"

definition closing_events :: "error option \<Rightarrow> string list" where
  "closing_events err = (case err of None \<Rightarrow> [''attempt.succeeded'', ''run.succeeded''] | Some _ \<Rightarrow> [''attempt.failed'', ''run.failed''])"

locale run_store =
  fixes store :: "'s Store" and flaky :: bool and ok :: "'s \<Rightarrow> bool" and view :: "'s \<Rightarrow> string \<Rightarrow> Run option"
    and lookup :: "'s \<Rightarrow> string \<Rightarrow> Run option" and log :: "'s \<Rightarrow> string \<Rightarrow> Event list"
  assumes Create_ok: "ok s \<Longrightarrow> store_Create store run s = (s', out) \<Longrightarrow> ok s'"
    and Create_err: "ok s \<Longrightarrow> store_Create store run s = (s', Inl err) \<Longrightarrow> flaky \<and> same_store view lookup log s s'"
    and Create_old: "ok s \<Longrightarrow> store_Create store run s = (s', Inr (r, False)) \<Longrightarrow>
      lookup s (requestKey run) = Some r \<and> same_store view lookup log s s'"
    and Create_new: "ok s \<Longrightarrow> store_Create store run s = (s', Inr (r, True)) \<Longrightarrow>
      r = run \<and> lookup s (requestKey run) = None \<and> view s' = (view s)(run_ID run \<mapsto> run) \<and>
      lookup s' (requestKey run) = Some run \<and> log s' = log s"
    and Update_ok: "ok s \<Longrightarrow> store_Update store run s = (s', updated) \<Longrightarrow> ok s'"
    and Update_err: "ok s \<Longrightarrow> store_Update store run s = (s', Inl err) \<Longrightarrow>
      (flaky \<or> view s (run_ID run) = None) \<and> same_store view lookup log s s'"
    and Update_done: "ok s \<Longrightarrow> store_Update store run s = (s', Inr ()) \<Longrightarrow>
      view s' = (view s)(run_ID run \<mapsto> run) \<and> log s' = log s \<and>
      (\<forall>key r. lookup s key = Some r \<longrightarrow> run_ID r = run_ID run \<longrightarrow> lookup s' key = Some run)"
    and Append_keeps: "ok s \<Longrightarrow> store_AppendEvent store event s = (s', appended) \<Longrightarrow> ok s' \<and> view s' = view s \<and> lookup s' = lookup s"
    and Append_err: "ok s \<Longrightarrow> store_AppendEvent store event s = (s', Inl err) \<Longrightarrow>
      (flaky \<or> view s (ev_RunID event) = None) \<and> log s' = log s"
    and Append_done: "ok s \<Longrightarrow> store_AppendEvent store event s = (s', Inr ev) \<Longrightarrow>
      ev = event\<lparr>ev_Sequence := int (length (log s (ev_RunID event))) + 1\<rparr> \<and>
      log s' = (log s)(ev_RunID event := log s (ev_RunID event) @ [ev])"
    and Get_view: "ok s \<Longrightarrow> view s runID = Some r \<Longrightarrow> store_Get store runID s = Inr r"
begin

text \<open>
  What an operation of the engine does to a store: events of the types \<open>ts\<close> are appended to the log of
  one run (some of them are lost if the store is flaky), and the run may be replaced by \<open>r\<close>.
\<close>

definition logs :: "string \<Rightarrow> string list \<Rightarrow> 's \<Rightarrow> 's \<Rightarrow> bool" where
  "logs runID ts a b \<longleftrightarrow> (\<exists>evs. log b = (log a)(runID := log a runID @ evs) \<and> numbered_from (length (log a runID)) evs \<and>
     (flaky \<or> view a runID = None \<or> map ev_Type evs = ts))"

definition grows :: "string \<Rightarrow> string list \<Rightarrow> 's \<Rightarrow> 's \<Rightarrow> bool" where
  "grows runID ts a b \<longleftrightarrow> (ok a \<longrightarrow> ok b \<and> view b = view a \<and> lookup b = lookup a \<and> logs runID ts a b)"

definition settles :: "Run \<Rightarrow> string list \<Rightarrow> 's \<Rightarrow> 's \<Rightarrow> bool" where
  "settles r ts a b \<longleftrightarrow> (ok a \<longrightarrow> ok b \<and> view b = (view a)(run_ID r \<mapsto> r) \<and> logs (run_ID r) ts a b \<and>
     (\<forall>key r0. lookup a key = Some r0 \<longrightarrow> run_ID r0 = run_ID r \<longrightarrow> lookup b key = Some r))"

lemma logs_same: "log b = log a \<Longrightarrow> logs runID [] a b"
  by (auto simp: logs_def numbered_from_def intro: exI [of _ "[]"])

lemma logs_trans:
  assumes "logs runID ts a b" "logs runID ts' b c" "view a runID \<noteq> None \<longrightarrow> view b runID \<noteq> None"
  shows "logs runID (ts @ ts') a c"
proof -
  from assms(1) obtain evs where 1: "log b = (log a)(runID := log a runID @ evs)" "numbered_from (length (log a runID)) evs"
      "flaky \<or> view a runID = None \<or> map ev_Type evs = ts" by (auto simp: logs_def)
  from assms(2) obtain evs' where 2: "log c = (log b)(runID := log b runID @ evs')" "numbered_from (length (log b runID)) evs'"
      "flaky \<or> view b runID = None \<or> map ev_Type evs' = ts'" by (auto simp: logs_def)
  have "numbered_from (length (log a runID)) (evs @ evs')" using 1 2 by (simp add: numbered_from_append)
  with 1 2 assms(3) show ?thesis unfolding logs_def by (intro exI [of _ "evs @ evs'"]) auto
qed

lemma grows_refl: "grows runID [] a a"
  by (simp add: grows_def logs_same)

lemma grows_trans: "grows runID ts a b \<Longrightarrow> grows runID ts' b c \<Longrightarrow> grows runID (ts @ ts') a c"
  using logs_trans by (auto simp: grows_def)

lemma settles_grows: "settles r ts a b \<Longrightarrow> grows (run_ID r) ts' b c \<Longrightarrow> settles r (ts @ ts') a c"
  using logs_trans by (auto simp: settles_def grows_def)

lemma grows_settles: "grows (run_ID r) ts a b \<Longrightarrow> settles r ts' b c \<Longrightarrow> settles r (ts @ ts') a c"
  using logs_trans by (auto simp: settles_def grows_def)

lemma settles_trans:
  assumes "settles r0 ts a b" "settles r ts' b c" "run_ID r0 = run_ID r"
  shows "settles r (ts @ ts') a c"
  using assms logs_trans [of "run_ID r" ts a b ts' c] by (auto simp: settles_def)

lemma grows_append: "store_AppendEvent store event a = (b, out) \<Longrightarrow> grows (ev_RunID event) [ev_Type event] a b"
  using Append_keeps [of a event b out] Append_err [of a event b] Append_done [of a event b]
  by (cases out) (auto simp: grows_def logs_def numbered_from_def intro: exI [of _ "[]"] exI [of _ "[_]"])

lemma grows_emit:
  assumes "en_store e = store"
  shows "grows (run_ID run) [t] (es_store s) (es_store (emit e run t v s))"
proof -
  obtain b out where "store_AppendEvent store (emitted run t v s) (es_store s) = (b, out)" by fastforce
  with grows_append [OF this] show ?thesis by (simp add: emit_store assms)
qed

lemma grows_run_executor:
  assumes "en_store e = store"
  shows "\<exists>ts. grows (run_ID run) ts (es_store s) (es_store (fst (run_executor e run request p calls s)))"
proof (induction p arbitrary: calls s)
  case (CallCapability call p)
  let ?K = "\<lambda>a b. \<exists>ts. grows (run_ID run) ts (es_store a) (es_store b)"
  have trans: "?K a b \<Longrightarrow> ?K b c \<Longrightarrow> ?K a c" for a b c :: "('s, 'b) engine_state" using grows_trans by blast
  have refl: "\<exists>ts. grows (run_ID run) ts a a" for a using grows_refl by blast
  have "?K s (fst (snd (Call (engine_invoker e run request) call calls s)))"
    by (rule Call_frame [where K = ?K])
      (auto simp: engine_invoker_def newID_def rand_Read_def Let_def
        intro: refl grows_emit [OF assms] trans split: prod.split)
  moreover obtain calls' s1 r where call: "Call (engine_invoker e run request) call calls s = (calls', s1, r)" by (metis prod.exhaust)
  ultimately have "?K s s1" by simp
  from trans [OF this CallCapability [OF rangeI]] show ?case by (simp add: call)
next
  case (Emit eventType data p)
  then show ?case using grows_trans [OF grows_emit [OF assms]] by simp blast
next
  case (Finish r)
  then show ?case using grows_refl by auto
qed

lemma settles_update: "store_Update store r a = (b, Inr ()) \<Longrightarrow> settles r [] a b"
  using Update_ok [of a r b "Inr ()"] Update_done [of a r b] by (auto simp: settles_def logs_same)

lemma settles_emit:
  assumes "settles r ts a (es_store s)" "en_store e = store"
  shows "settles r (ts @ [t]) a (es_store (emit e r t v s))"
  using settles_grows [OF assms(1) grows_emit [OF assms(2)]] .

lemma fail_outcome:
  assumes e: "en_store e = store" and ok: "ok (es_store s)" and known: "view (es_store s) (run_ID run) \<noteq> None"
    and "fail e run cause s = (s', out, err)"
  shows "(flaky \<and> out = None \<and> err \<noteq> None) \<or>
    (\<exists>r. out = Some r \<and> err = Some cause \<and> closed_run run r err \<and> settles r (closing_events err) (es_store s) (es_store s'))"
proof -
  define r where "r = run\<lparr>run_Status := RunFailed, run_Error := err_text cause, run_CompletedAt := Some (w_clock s (w_ticks s)),
           run_Attempt := (run_Attempt run)\<lparr>att_Status := AttemptFailed, att_CompletedAt := Some (w_clock s (w_ticks s))\<rparr>\<rparr>"
  obtain b updated where upd: "store_Update store r (es_store s) = (b, updated)" by fastforce
  define s1 where "s1 = s\<lparr>w_ticks := Suc (w_ticks s), es_store := b\<rparr>"
  let ?data = "GoVal (str_obj [(''error'', err_text cause)])"
  have r: "run_ID r = run_ID run" by (simp add: r_def)
  have fail: "fail e run cause s = (case updated of Inl err \<Rightarrow> (s1, None, Some (errors_Join cause err))
      | Inr _ \<Rightarrow> (emit e r ''run.failed'' ?data (emit e r ''attempt.failed'' ?data s1), Some r, Some cause))"
    using upd by (simp add: fail_def time_Now_def r_def s1_def e Let_def split: sum.split)
  show ?thesis
  proof (cases updated)
    case (Inl x)
    with Update_err [OF ok, of r b x] known upd r assms(4) fail show ?thesis by auto
  next
    case (Inr u)
    with upd have "settles r [] (es_store s) (es_store s1)" using settles_update by (simp add: s1_def)
    from settles_emit [OF settles_emit [OF this e] e] Inr assms(4) fail
    show ?thesis by (auto simp: closing_events_def closed_run_def r_def requestKey_def)
  qed
qed

lemma attempt_outcome:
  assumes e: "en_store e = store" and ok: "ok (es_store s)" and known: "view (es_store s) (run_ID run) \<noteq> None"
    and "Execute_attempt e run request compiled s = (s', out, err)"
  shows "(flaky \<and> out = None \<and> err \<noteq> None) \<or>
    (\<exists>r ts. out = Some r \<and> closed_run run r err \<and> settles r (ts @ closing_events err) (es_store s) (es_store s'))"
proof -
  define p where "p = en_executor e \<lparr>ex_RunID = run_ID run, ex_AttemptID = att_ID (run_Attempt run), ex_AgentID = run_AgentID run,
              ex_Runtime = rq_Runtime zero_Request, ex_Source = rq_Source request, ex_Input = rq_Input request,
              ex_Context = rq_Context request, ex_Instructions = compiled, ex_WorkDir = []\<rparr>"
  obtain s1 outcome where s1: "run_executor e run request p Map.empty s = (s1, outcome)" by fastforce
  then obtain ts where ts: "grows (run_ID run) ts (es_store s) (es_store s1)"
    using grows_run_executor [OF e, of run s request p Map.empty] by auto
  with ok known have ok1: "ok (es_store s1)" and known1: "view (es_store s1) (run_ID run) \<noteq> None" by (auto simp: grows_def)
  show ?thesis
  proof (cases outcome)
    case (Inl cause)
    then have "fail e run cause s1 = (s', out, err)" using assms(4) s1 by (simp add: Execute_attempt_def p_def)
    from fail_outcome [OF e ok1 known1 this] ts show ?thesis
      using grows_settles [of _ ts "es_store s" "es_store s1"] unfolding closed_run_def by metis
  next
    case (Inr result)
    define r where "r = run\<lparr>run_Status := RunSucceeded, run_Result := Some result, run_CompletedAt := Some (w_clock s1 (w_ticks s1)),
             run_Attempt := (run_Attempt run)\<lparr>att_Status := AttemptSucceeded, att_CompletedAt := Some (w_clock s1 (w_ticks s1))\<rparr>\<rparr>"
    obtain b updated where upd: "store_Update store r (es_store s1) = (b, updated)" by fastforce
    define s2 where "s2 = s1\<lparr>w_ticks := Suc (w_ticks s1), es_store := b\<rparr>"
    have r: "run_ID r = run_ID run" by (simp add: r_def)
    have attempt: "(s', out, err) = (case updated of Inl err \<Rightarrow> (s2, None, Some err)
      | Inr _ \<Rightarrow> (emit e r ''run.succeeded'' (GoVal (Result_json result)) (emit e r ''attempt.succeeded'' GoNil s2), Some r, None))"
      using assms(4) upd s1 Inr by (simp add: Execute_attempt_def p_def time_Now_def r_def s2_def e Let_def split: sum.splits)
    show ?thesis
    proof (cases updated)
      case (Inl x)
      with Update_err [OF ok1, of r b x] known1 upd r attempt show ?thesis by auto
    next
      case (Inr u)
      with upd have "settles r [] (es_store s1) (es_store s2)" using settles_update by (simp add: s2_def)
      from settles_emit [OF settles_emit [OF this e] e] Inr attempt
      have "settles r (closing_events err) (es_store s1) (es_store s')" by (simp add: closing_events_def)
      with ts r have "settles r (ts @ closing_events err) (es_store s) (es_store s')" by (metis grows_settles)
      moreover have "out = Some r" "closed_run run r err"
        using Inr attempt by (simp_all add: closed_run_def r_def requestKey_def)
      ultimately show ?thesis by blast
    qed
  qed
qed

text \<open>
  The outcomes of \<open>Execute\<close>: an error without a run, the run of an earlier request of the same scope, or
  a new run that has ended, as the store and the caller now see it.
\<close>

definition ran :: "Request \<Rightarrow> Run \<Rightarrow> error option \<Rightarrow> 's \<Rightarrow> 's \<Rightarrow> bool" where
  "ran request r err a b \<longleftrightarrow> requestKey r = request_key request \<and> closed_run r r err \<and>
     lookup a (request_key request) = None \<and> lookup b (request_key request) = Some r \<and>
     ok b \<and> view b = (view a)(run_ID r \<mapsto> r) \<and>
     (\<exists>evs ts. log b = (log a)(run_ID r := log a (run_ID r) @ evs) \<and> numbered_from (length (log a (run_ID r))) evs \<and>
        (flaky \<or> map ev_Type evs = ''run.created'' # ts @ closing_events err))"

lemma ranI:
  assumes "ok a" "store_Create store run a = (b, Inr (r0, True))" "requestKey run = request_key request"
    "settles r (''run.created'' # ts @ closing_events err) b c" "closed_run run r err"
  shows "ran request r err a c"
proof -
  have r: "run_ID r = run_ID run" "requestKey r = requestKey run" "closed_run r r err"
    using assms(5) by (auto simp: closed_run_def split: option.splits)
  have ok: "ok b" using Create_ok assms(1,2) by blast
  note new = Create_new [OF assms(1,2)]
  from assms(4) ok r new have c: "ok c" "view c = (view b)(run_ID r \<mapsto> r)" "logs (run_ID r) (''run.created'' # ts @ closing_events err) b c"
      "lookup c (requestKey run) = Some r" by (auto simp: settles_def)
  from c(3) new r obtain evs where "log c = (log a)(run_ID r := log a (run_ID r) @ evs)" "numbered_from (length (log a (run_ID r))) evs"
      "flaky \<or> map ev_Type evs = ''run.created'' # ts @ closing_events err" by (auto simp: logs_def)
  with c new r assms(3) show ?thesis unfolding ran_def by auto
qed

lemma created_outcome:
  assumes e: "en_store e = store" and ok: "ok (es_store s)" and known: "view (es_store s) (run_ID run) \<noteq> None"
    and exec: "Execute_created e run request s = (s', out, err)"
  shows "(flaky \<and> out = None \<and> err \<noteq> None) \<or>
    (\<exists>r ts. out = Some r \<and> closed_run run r err \<and> settles r (''run.created'' # ts @ closing_events err) (es_store s) (es_store s'))"
proof -
  define s1 where "s1 = emit e run ''run.created'' (GoVal (str_obj [(''status'', RunStatus_text RunQueued)])) s"
  have s1: "grows (run_ID run) [''run.created''] (es_store s) (es_store s1)" unfolding s1_def by (rule grows_emit [OF e])
  then have ok1: "ok (es_store s1)" and known1: "view (es_store s1) (run_ID run) \<noteq> None"
    using ok known by (auto simp: grows_def)
  note first = grows_settles [of _ "[''run.created'']" "es_store s" "es_store s1", simplified append_Cons append_Nil]
  show ?thesis
  proof (cases "en_compiler e (rq_Input request) (rq_Instructions request)")
    case (Inl x)
    let ?cause = "GoError (err_is x) (''compile instructions: '' @ err_text x)"
    have "fail e run ?cause s1 = (s', out, err)" using exec by (simp add: Execute_created_def Inl s1_def Let_def)
    from fail_outcome [OF e ok1 known1 this] show ?thesis
    proof (elim disjE exE conjE)
      fix r assume r: "out = Some r" "err = Some ?cause" "closed_run run r err" "settles r (closing_events err) (es_store s1) (es_store s')"
      then have "run_ID r = run_ID run" by (simp add: closed_run_def)
      with first [OF _ r(4)] s1 have "settles r (''run.created'' # [] @ closing_events err) (es_store s) (es_store s')" by simp
      with r show ?thesis by blast
    qed simp
  next
    case (Inr compiled)
    define run1 where "run1 = run\<lparr>run_Status := RunRunning, run_StartedAt := Some (w_clock s1 (w_ticks s1)),
              run_Attempt := (run_Attempt run)\<lparr>att_Status := AttemptRunning, att_StartedAt := Some (w_clock s1 (w_ticks s1))\<rparr>\<rparr>"
    have run1: "run_ID run1 = run_ID run" "requestKey run1 = requestKey run" by (simp_all add: run1_def requestKey_def)
    obtain b updated where upd: "store_Update store run1 (es_store s1) = (b, updated)" by fastforce
    define s2 where "s2 = s1\<lparr>w_ticks := Suc (w_ticks s1), es_store := b\<rparr>"
    define s3 where "s3 = emit e run1 ''run.started'' GoNil (emit e run1 ''attempt.started'' GoNil s2)"
    have split: "(s', out, err) = (case updated of Inl err \<Rightarrow> (s2, None, Some err)
        | Inr _ \<Rightarrow> Execute_attempt e run1 request compiled s3)"
      using exec upd unfolding Execute_created_def Inr s1_def [symmetric] Let_def time_Now_def e
      by (simp add: s2_def s3_def run1_def split: sum.splits)
    show ?thesis
    proof (cases updated)
      case (Inl x)
      with Update_err [OF ok1, of run1 b x] known1 upd run1 split show ?thesis by auto
    next
      case (Inr u)
      with upd have "settles run1 [] (es_store s1) (es_store s2)" using settles_update by (simp add: s2_def)
      from settles_emit [OF settles_emit [OF this e] e]
      have s3: "settles run1 [''attempt.started'', ''run.started''] (es_store s1) (es_store s3)" by (simp add: s3_def)
      then have ok3: "ok (es_store s3)" and known3: "view (es_store s3) (run_ID run1) \<noteq> None"
        using ok1 by (auto simp: settles_def)
      have "Execute_attempt e run1 request compiled s3 = (s', out, err)" using split Inr by simp
      from attempt_outcome [OF e ok3 known3 this] show ?thesis
      proof (elim disjE exE conjE)
        fix r ts assume r: "out = Some r" "closed_run run1 r err" "settles r (ts @ closing_events err) (es_store s3) (es_store s')"
        then have ids: "run_ID r = run_ID run1" by (simp add: closed_run_def)
        have "settles r ([''attempt.started'', ''run.started''] @ ts @ closing_events err) (es_store s1) (es_store s')"
          by (rule settles_trans [OF s3 r(3)]) (simp add: ids)
        from first [OF _ this] s1 ids run1
        have "settles r (''run.created'' # ([''attempt.started'', ''run.started''] @ ts) @ closing_events err) (es_store s) (es_store s')"
          by simp
        moreover have "closed_run run r err" using r(2) run1 by (simp add: closed_run_def)
        ultimately show ?thesis using r(1) by blast
      qed simp
    qed
  qed
qed

lemma execute_outcome:
  assumes e: "en_store e = store" and ok: "ok (es_store s)" and exec: "Execute e request s = (s', out, err)"
  shows "(out = None \<and> err \<noteq> None \<and> (flaky \<or> validateRequest request \<noteq> None)) \<or>
    (\<exists>r. out = Some r \<and> err = None \<and> lookup (es_store s) (request_key request) = Some r \<and>
       same_store view lookup log (es_store s) (es_store s') \<and> ok (es_store s') \<and> es_host s' = es_host s) \<or>
    (\<exists>r. out = Some r \<and> ran request r err (es_store s) (es_store s'))"
proof (cases "validateRequest request")
  case (Some x)
  have "(s, None, Some x) = (s', out, err)" using exec by (simp add: Execute_def Some)
  then have "out = None" "err = Some x" by simp_all
  then show ?thesis by (simp add: Some)
next
  case None
  obtain runID s1 where s1: "newID ''run'' (snd (time_Now s)) = (runID, s1)" by fastforce
  obtain attemptID s2 where s2: "newID ''attempt'' s1 = (attemptID, s2)" by fastforce
  have st: "es_store s2 = es_store s" "es_host s2 = es_host s"
    using s1 s2 by (auto simp: newID_def rand_Read_def time_Now_def)
  define run where "run = newEngineRun request (fst (time_Now s)) runID attemptID"
  have key: "requestKey run = request_key request"
    by (simp add: run_def newEngineRun_def requestKey_def request_key_def)
  obtain b created where b: "store_Create store run (es_store s) = (b, created)" by fastforce
  define s3 where "s3 = s2\<lparr>es_store := b\<rparr>"
  have s3: "es_store s3 = b" "es_host s3 = es_host s" by (simp_all add: s3_def st)
  have ok3: "ok (es_store s3)" using Create_ok [OF ok b] s3 by simp
  have split: "(s', out, err) = (case created of Inl err \<Rightarrow> (s3, None, Some err)
      | Inr (stored, False) \<Rightarrow> (s3, Some stored, None) | Inr (_, True) \<Rightarrow> Execute_created e run request s3)"
    using exec b unfolding run_def
    by (simp add: Execute_def None Let_def e split_beta s1 s2 st s3_def cong: sum.case_cong prod.case_cong bool.case_cong)
  consider (err) x where "created = Inl x" | (old) r where "created = Inr (r, False)" | (new) r where "created = Inr (r, True)"
    by (metis sum.exhaust surj_pair)
  then show ?thesis
  proof cases
    case err
    with Create_err [OF ok, of run b x] b split show ?thesis by auto
  next
    case old
    with Create_old [OF ok, of run b r] b split s3 key ok3 show ?thesis by auto
  next
    case new
    note b' = b [unfolded new]
    have known: "view (es_store s3) (run_ID run) \<noteq> None" using Create_new [OF ok b'] s3(1) by simp
    have "Execute_created e run request s3 = (s', out, err)" using split new by simp
    from created_outcome [OF e ok3 known this] show ?thesis
      using ranI [OF ok b' key] s3(1) by blast
  qed
qed

text \<open>The same scope executed again: the first run is returned, and nothing happens.\<close>

lemma execute_again:
  assumes e: "en_store e = store" and ok: "ok (es_store s)" and exec: "Execute e request s = (s', out, err)"
    and known: "lookup (es_store s) (request_key request) = Some r" and valid: "validateRequest request = None" and "\<not> flaky"
  shows "out = Some r \<and> err = None \<and> same_store view lookup log (es_store s) (es_store s') \<and> es_host s' = es_host s"
proof -
  have "\<not> ran request r' err (es_store s) (es_store s')" for r' using known unfolding ran_def by simp
  with execute_outcome [OF e ok exec] known valid assms(6) show ?thesis by auto
qed

end

section \<open>MemoryStore keeps the contract\<close>

definition memory_store_ok :: "MemoryStore \<Rightarrow> bool" where
  "memory_store_ok s \<longleftrightarrow> (\<forall>runID r. ms_runs s runID = Some r \<longrightarrow> run_ID r = runID) \<and>
     (\<forall>key runID. ms_byRequest s key = Some runID \<longrightarrow> ms_runs s runID \<noteq> None)"

definition memory_lookup :: "MemoryStore \<Rightarrow> string \<Rightarrow> Run option" where
  "memory_lookup s key = (case ms_byRequest s key of None \<Rightarrow> None | Some runID \<Rightarrow> ms_runs s runID)"

lemmas memoryStore_simps = memoryStore_def MemoryStore_Create_def MemoryStore_Update_def MemoryStore_AppendEvent_def
  MemoryStore_Get_def memory_store_ok_def memory_lookup_def same_store_def

interpretation memory_runs: run_store memoryStore False memory_store_ok ms_runs memory_lookup ms_events
  by unfold_locales (auto simp: memoryStore_simps Let_def split: option.splits if_splits)

section \<open>Properties\<close>

text \<open>The scenario: an executor that emits an event and returns a result.\<close>

definition demo_options :: "(Execution \<Rightarrow> executor_run) \<Rightarrow> (MemoryStore, unit) Options" where
  "demo_options executor = \<lparr>op_Executor = Some executor, op_Capabilities = None, op_Store = None, op_Observer = None, op_Compiler = None\<rparr>"
definition demo_request :: Request where
  "demo_request = zero_Request\<lparr>rq_AgentID := ''a'', rq_IdempotencyKey := ''k'', rq_Input := (rq_Input zero_Request)\<lparr>in_Prompt := ''p''\<rparr>\<rparr>"
definition demo_engine_state :: "(MemoryStore, unit) engine_state" where
  "demo_engine_state = \<lparr>w_clock = int, w_ticks = 0, w_rand = (\<lambda>k i. of_nat k), w_drawn = 0, es_store = NewMemoryStore, es_host = ()\<rparr>"

lemma New_engine:
  assumes "New options = Inr e" "op_Store options = None"
  shows "en_store e = memoryStore"
  using assms by (auto simp: New_def split: option.splits)

lemma demo_engine:
  "New (demo_options executor) = Inr \<lparr>en_executor = executor, en_capabilities = None, en_store = memoryStore, en_observer = None, en_compiler = Compile\<rparr>"
  "memory_store_ok (es_store demo_engine_state)" "validateRequest demo_request = None"
  by (simp_all add: New_def demo_options_def demo_engine_state_def NewMemoryStore_def memory_store_ok_def
      validateRequest_def demo_request_def)

text \<open>
  C39: \<open>Execute\<close> on the default store, whatever the executor, the provider and the observer do: a valid
  request whose scope is new is answered with its run, which has ended and is stored as returned;
  it succeeded exactly if no error is returned, and failed with the error's text otherwise. Its events are
  numbered without gaps, begin with \<open>run.created\<close> and end with the two closing events of that outcome, and no
  other run and no other log is touched.
\<close>
theorem engine_execute:
  assumes "New options = Inr e" "op_Store options = None" "memory_store_ok (es_store s)" "validateRequest request = None"
    "memory_lookup (es_store s) (request_key request) = None" "Execute e request s = (s', out, err)"
  shows "\<exists>r evs ts. out = Some r \<and> closed_run r r err \<and> requestKey r = request_key request \<and> Engine_Run e (run_ID r) s' = Inr r \<and>
    memory_store_ok (es_store s') \<and> ms_runs (es_store s') = (ms_runs (es_store s))(run_ID r \<mapsto> r) \<and>
    ms_events (es_store s') = (ms_events (es_store s))(run_ID r := ms_events (es_store s) (run_ID r) @ evs) \<and>
    numbered_from (length (ms_events (es_store s) (run_ID r))) evs \<and>
    map ev_Type evs = ''run.created'' # ts @ closing_events err"
proof -
  note e = New_engine [OF assms(1,2)]
  from memory_runs.execute_outcome [OF e assms(3,6)] assms(4,5)
  obtain r where r: "out = Some r" "memory_runs.ran request r err (es_store s) (es_store s')" by auto
  have "Engine_Run e (run_ID r) s' = Inr r"
    using r(2) by (simp add: Engine_Run_def e memory_runs.ran_def memoryStore_def MemoryStore_Get_def)
  moreover obtain evs ts where "ms_events (es_store s') = (ms_events (es_store s))(run_ID r := ms_events (es_store s) (run_ID r) @ evs)"
      "numbered_from (length (ms_events (es_store s) (run_ID r))) evs" "map ev_Type evs = ''run.created'' # ts @ closing_events err"
    using r(2) by (auto simp: memory_runs.ran_def)
  ultimately show ?thesis using r unfolding memory_runs.ran_def by (intro exI [of _ r] exI [of _ evs] exI [of _ ts]) simp
qed

theorem engine_execute_witness:
  "\<exists>e s' r err. New (demo_options (\<lambda>_. Finish (Inl (errors_New ''boom'')))) = Inr e \<and>
     Execute e demo_request demo_engine_state = (s', Some r, err) \<and> Engine_Run e (run_ID r) s' = Inr r"
proof -
  obtain e where e: "New (demo_options (\<lambda>_. Finish (Inl (errors_New ''boom'')))) = Inr e" using demo_engine(1) by simp
  obtain s' out err where x: "Execute e demo_request demo_engine_state = (s', out, err)" by (metis prod.exhaust)
  have "memory_lookup (es_store demo_engine_state) (request_key demo_request) = None"
    by (simp add: demo_engine_state_def NewMemoryStore_def memory_lookup_def)
  from engine_execute [OF e _ demo_engine(2,3) this x] x e show ?thesis by (auto simp: demo_options_def)
qed

text \<open>
  An idempotency key executes once: after \<open>Execute\<close> has returned a run, every later valid request of
  the same tenant, project and key returns that run without an error, through any engine on the store, and neither the
  store nor the host sees anything of it.
\<close>
theorem engine_idempotent:
  assumes "New options = Inr e" "op_Store options = None" "memory_store_ok (es_store s)" "Execute e request s = (s1, Some r, err)"
    "New options2 = Inr e2" "op_Store options2 = None" "es_store s2 = es_store s1"
    "validateRequest request2 = None" "request_key request2 = request_key request" "Execute e2 request2 s2 = (s3, out, err3)"
  shows "out = Some r \<and> err3 = None \<and> ms_runs (es_store s3) = ms_runs (es_store s1) \<and>
    ms_events (es_store s3) = ms_events (es_store s1) \<and> es_host s3 = es_host s2"
proof -
  note e = New_engine [OF assms(1,2)] and e2 = New_engine [OF assms(5,6)]
  have "memory_store_ok (es_store s2) \<and> memory_lookup (es_store s2) (request_key request2) = Some r"
    using memory_runs.execute_outcome [OF e assms(3,4)] assms(3,7,9)
    by (auto simp: memory_runs.ran_def same_store_def)
  with memory_runs.execute_again [OF e2 _ assms(10)] assms(7,8) show ?thesis by (simp add: same_store_def)
qed

theorem engine_idempotent_witness:
  "\<exists>e s1 r err s3 e2. New (demo_options (\<lambda>_. Finish (Inr \<lparr>res_Summary = ''done'', res_Output = None, res_Artifacts = []\<rparr>))) = Inr e \<and>
     New (demo_options (\<lambda>_. Finish (Inl (errors_New ''boom'')))) = Inr e2 \<and>
     Execute e demo_request demo_engine_state = (s1, Some r, err) \<and> Execute e2 demo_request s1 = (s3, Some r, None)"
proof -
  obtain e where e: "New (demo_options (\<lambda>_. Finish (Inr \<lparr>res_Summary = ''done'', res_Output = None, res_Artifacts = []\<rparr>))) = Inr e"
    using demo_engine(1) by simp
  obtain e2 where e2: "New (demo_options (\<lambda>_. Finish (Inl (errors_New ''boom'')))) = Inr e2" using demo_engine(1) by simp
  obtain s1 out err where x: "Execute e demo_request demo_engine_state = (s1, out, err)" by (metis prod.exhaust)
  have "op_Store (demo_options p) = None" for p by (simp add: demo_options_def)
  note opts = this
  from memory_runs.execute_outcome [OF New_engine [OF e opts] demo_engine(2) x] demo_engine(3)
  obtain r where r: "out = Some r" by auto
  obtain s3 out3 err3 where y: "Execute e2 demo_request s1 = (s3, out3, err3)" by (metis prod.exhaust)
  from engine_idempotent [OF e opts demo_engine(2) x [unfolded r] e2 opts refl demo_engine(3) refl y] e e2 x y r
  show ?thesis by auto
qed

end
