(* ===== verification/Scheduling.thy ===== *)
theory Scheduling
  imports Relay_Types
begin

text \<open>
  Placement: which runtime instance satisfies a requirement (\<open>RuntimeMatches\<close>) and which node may
  claim a request (\<open>nodeMatches\<close>); the access scope carried by a request context
  (\<open>controlplane/access.go\<close>). The semantic-version package is third-party code: it is the parameter
  \<open>semver\<close>, three functions of unknown types.
\<close>

record ('v, 'c) semver =
  sv_NewVersion :: "string \<Rightarrow> 'v option"
  sv_NewConstraint :: "string \<Rightarrow> 'c option"
  sv_Check :: "'c \<Rightarrow> 'v \<Rightarrow> bool"

definition RuntimeMatches :: "('v, 'c) semver \<Rightarrow> Runtime \<Rightarrow> RuntimeRequirement \<Rightarrow> bool" where
  "RuntimeMatches sv runtime requirement =
    (if rr_ID requirement \<noteq> [] \<and> rt_ID runtime \<noteq> rr_ID requirement then False
     else if rt_Provider runtime \<noteq> rr_Provider requirement \<or> rt_State runtime = ''unhealthy'' then False
     else if rr_Model requirement \<noteq> [] \<and> rt_Models runtime \<noteq> [] \<and>
       \<not> fold (\<lambda>model available. available \<or> model = rr_Model requirement) (rt_Models runtime)
          (rt_DefaultModel runtime = rr_Model requirement)
     then False
     else if rr_Version requirement = [] then True
     else case sv_NewVersion sv (rt_Version runtime) of
       None \<Rightarrow> rt_Version runtime = rr_Version requirement
     | Some actual \<Rightarrow>
       (case sv_NewConstraint sv (rr_Version requirement) of
          None \<Rightarrow> False
        | Some constraint \<Rightarrow> sv_Check sv constraint actual))"

definition RuntimeInstanceID :: "string \<Rightarrow> string \<Rightarrow> string" where
  "RuntimeInstanceID nodeID provider = TrimSpace nodeID @ ''/'' @ TrimSpace provider"

definition nodeMatches :: "('v, 'c) semver \<Rightarrow> Node \<Rightarrow> Request \<Rightarrow> bool" where
  "nodeMatches sv node request =
    (let reg = node_Registration node in
     if \<not> list_ex (\<lambda>runtime. RuntimeMatches sv runtime (rq_Runtime request)) (reg_Runtimes reg) then False
     else if list_ex (\<lambda>(key, value).
       (case map_of (reg_Labels reg) key of None \<Rightarrow> [] | Some v \<Rightarrow> v) \<noteq> value)
       (rr_Labels (rq_Runtime request)) then False
     else list_all (\<lambda>grant. list_ex (\<lambda>available.
       cap_Name available = cg_Name grant \<and> cap_Version available = cg_Version grant)
       (reg_Capabilities reg)) (rq_Capabilities request))"

lemma fold_or: "fold (\<lambda>x b. b \<or> P x) xs b \<longleftrightarrow> b \<or> (\<exists>x\<in>set xs. P x)"
  by (induction xs arbitrary: b) auto

section \<open>Access scopes\<close>

datatype AccessKind = AccessHost | AccessNode

record AccessScope =
  sc_Kind :: AccessKind
  sc_Subject :: string
  sc_TenantID :: string
  sc_ProjectID :: string

text \<open>The context carries at most one scope: \<open>AccessFrom(ctx)\<close> is that option.\<close>

type_synonym ctx = "AccessScope option"

definition authorizeRunScope :: "ctx \<Rightarrow> Run \<Rightarrow> error option" where
  "authorizeRunScope ctx run =
    (case ctx of None \<Rightarrow> None
     | Some scope \<Rightarrow>
       if sc_Kind scope = AccessNode then None
       else if sc_TenantID scope \<noteq> [] \<and> sc_TenantID scope \<noteq> run_TenantID run then Some ErrNotFound
       else if sc_ProjectID scope \<noteq> [] \<and> sc_ProjectID scope \<noteq> run_ProjectID run then Some ErrNotFound
       else None)"

text \<open>What a host scope may see.\<close>

definition in_scope :: "AccessScope \<Rightarrow> Run \<Rightarrow> bool" where
  "in_scope scope run \<longleftrightarrow>
    (sc_TenantID scope = [] \<or> sc_TenantID scope = run_TenantID run) \<and>
    (sc_ProjectID scope = [] \<or> sc_ProjectID scope = run_ProjectID run)"

lemma authorizeRunScope_host:
  "sc_Kind scope = AccessHost \<Longrightarrow>
   authorizeRunScope (Some scope) run = (if in_scope scope run then None else Some ErrNotFound)"
  by (auto simp: authorizeRunScope_def in_scope_def)

lemma authorizeRunScope_cases:
  "authorizeRunScope ctx run = None \<or> authorizeRunScope ctx run = Some ErrNotFound"
  by (auto simp: authorizeRunScope_def split: option.splits)

end
