(* ===== verification/Memory_Storage.thy ===== *)
theory Memory_Storage
  imports Scheduling
begin

text \<open>
  \<open>controlplane/memory.go\<close>: the in-memory implementation of the control plane's \<open>Storage\<close>. The
  state is the struct's maps plus the environment (clock, entropy). Every exported method holds the
  mutex from its first to its last statement, so each is one function of the state; a method that
  returns an error after a mutation returns the mutated state with the error. \<open>*relay.Run\<close> pointers
  of the map \<open>runs\<close> are its keys: a helper that takes \<open>run\<close> reads the current record and stores
  the updated one under its \<open>ID\<close>.

  A Go \<open>range\<close> over a map visits the keys in an unspecified order: the methods that iterate take the
  order as a list argument (one per loop), and their theorems hold for every order.
\<close>

record memoryCapabilityCall =
  mcc_hash :: string
  mcc_reservation :: CapabilityReservation

record MemoryStorage = world +
  ms_nodes :: "string \<Rightarrow> Node option"
  ms_runs :: "string \<Rightarrow> Run option"
  ms_requests :: "string \<Rightarrow> Request option"
  ms_events :: "string \<Rightarrow> Event list"
  ms_byIdempotency :: "string \<Rightarrow> string option"
  ms_artifacts :: "string \<Rightarrow> Artifact option"
  ms_artifactRuns :: "string \<Rightarrow> string list"
  ms_capabilityCalls :: "string \<Rightarrow> memoryCapabilityCall option"
  ms_attemptHistory :: "string \<Rightarrow> Attempt list"
  ms_interactions :: "string \<Rightarrow> Interaction option"

definition NewMemoryStorage :: "world \<Rightarrow> MemoryStorage" where
  "NewMemoryStorage w = world.extend w
    \<lparr>ms_nodes = Map.empty, ms_runs = Map.empty, ms_requests = Map.empty, ms_events = (\<lambda>_. []),
     ms_byIdempotency = Map.empty, ms_artifacts = Map.empty, ms_artifactRuns = (\<lambda>_. []),
     ms_capabilityCalls = Map.empty, ms_attemptHistory = (\<lambda>_. []), ms_interactions = Map.empty\<rparr>"

section \<open>Helpers\<close>

definition id_text :: "string \<Rightarrow> 8 word list \<Rightarrow> string" where
  "id_text prefix value = prefix @ ''_'' @ hex_EncodeToString value"

definition newControlPlaneID :: "string \<Rightarrow> 'a world_scheme \<Rightarrow> string \<times> 'a world_scheme" where
  "newControlPlaneID prefix s = (let (value, s) = rand_Read 12 s in (id_text prefix value, s))"

definition terminalRun :: "RunStatus \<Rightarrow> bool" where
  "terminalRun status \<longleftrightarrow> status = RunSucceeded \<or> status = RunFailed \<or> status = RunCancelled"

definition retryBackoff :: "RetryPolicy \<Rightarrow> duration" where
  "retryBackoff policy = duration_or_zero (rp_Backoff policy)"

definition setRun :: "Run \<Rightarrow> MemoryStorage \<Rightarrow> MemoryStorage" where
  "setRun run s = s\<lparr>ms_runs := (ms_runs s)(run_ID run \<mapsto> run)\<rparr>"

definition request_of :: "MemoryStorage \<Rightarrow> string \<Rightarrow> Request" where
  "request_of s runID = (case ms_requests s runID of None \<Rightarrow> zero_Request | Some r \<Rightarrow> r)"

definition appendEvent :: "Run \<Rightarrow> string \<Rightarrow> goany \<Rightarrow> MemoryStorage \<Rightarrow> MemoryStorage" where
  "appendEvent run eventType value s =
    (let data = (case value of GoNil \<Rightarrow> None | GoVal j \<Rightarrow> Some j | GoBad \<Rightarrow> None);
         (id, s) = newControlPlaneID ''event'' s;
         (now, s) = time_Now s;
         old = ms_events s (run_ID run)
     in s\<lparr>ms_events := (ms_events s)(run_ID run := old @
          [\<lparr>ev_ID = id, ev_RunID = run_ID run, ev_AttemptID = att_ID (run_Attempt run),
            ev_Sequence = int (length old) + 1, ev_Type = eventType, ev_Data = data,
            ev_CreatedAt = now\<rparr>])\<rparr>)"

definition releaseNode :: "string \<Rightarrow> MemoryStorage \<Rightarrow> MemoryStorage" where
  "releaseNode nodeID s =
    (case ms_nodes s nodeID of None \<Rightarrow> s
     | Some node \<Rightarrow>
       if node_Active node > 0
       then s\<lparr>ms_nodes := (ms_nodes s)(nodeID \<mapsto> node\<lparr>node_Active := node_Active node - 1\<rparr>)\<rparr>
       else s)"

text \<open>\<open>!now.Before(*t)\<close> for an optional time that is present.\<close>

definition reached :: "time option \<Rightarrow> time \<Rightarrow> bool" where
  "reached t now = (case t of None \<Rightarrow> False | Some e \<Rightarrow> e \<le> now)"

definition requeueExpired :: "Run \<Rightarrow> time \<Rightarrow> MemoryStorage \<Rightarrow> MemoryStorage" where
  "requeueExpired run now s =
    (let a = run_Attempt run in
     if att_Status a \<noteq> AttemptLeased \<or> \<not> reached (att_LeaseExpiresAt a) now then s
     else let s = releaseNode (att_NodeID a) s;
              s = appendEvent run ''attempt.lease_expired'' (GoVal (str_obj [(''node_id'', att_NodeID a)])) s
          in setRun (run\<lparr>run_Attempt := a\<lparr>att_Status := AttemptQueued, att_NodeID := [],
                att_LeaseToken := [], att_LeaseExpiresAt := None\<rparr>\<rparr>) s)"

definition finalizeCancellation :: "Run \<Rightarrow> time \<Rightarrow> MemoryStorage \<Rightarrow> MemoryStorage" where
  "finalizeCancellation run now s =
    (if run_Status run = RunCancelled then s
     else let a = run_Attempt run;
              s = releaseNode (att_NodeID a) s;
              run = run\<lparr>run_Attempt := a\<lparr>att_Status := AttemptCancelled, att_CompletedAt := Some now\<rparr>,
                        run_Status := RunCancelled, run_CancelledAt := Some now,
                        run_CompletedAt := Some now\<rparr>;
              s = setRun run s;
              reason = GoVal (str_obj [(''reason'', run_CancelReason run)]);
              s = appendEvent run ''attempt.cancelled'' reason s
          in appendEvent run ''run.cancelled'' reason s)"

definition cancelRunLocked :: "Run \<Rightarrow> CancelRequest \<Rightarrow> time \<Rightarrow> MemoryStorage \<Rightarrow> MemoryStorage" where
  "cancelRunLocked run request now s =
    (if terminalRun (run_Status run) \<or> run_CancelRequestedAt run \<noteq> None then s
     else let run = run\<lparr>run_CancelRequestedAt := Some now, run_CancelReason := cq_Reason request\<rparr>;
              s = setRun run s;
              s = appendEvent run ''run.cancel_requested'' (GoVal (CancelRequest_json request)) s
          in if att_Status (run_Attempt run) = AttemptQueued then finalizeCancellation run now s
             else setRun (run\<lparr>run_Status := RunCancelling\<rparr>) s)"

text \<open>
  \<open>authorize\<close> reads the clock once for the expiry test and once more when it requeues an expired
  lease.
\<close>

definition authorize :: "string \<Rightarrow> string \<Rightarrow> string \<Rightarrow> MemoryStorage \<Rightarrow> MemoryStorage \<times> Run result" where
  "authorize runID attemptID lease s =
    (case ms_runs s runID of None \<Rightarrow> (s, Inl ErrNotFound)
     | Some run \<Rightarrow>
       let a = run_Attempt run in
       if att_ID a \<noteq> attemptID \<or> lease = [] \<or> att_LeaseToken a \<noteq> lease then (s, Inl ErrInvalidLease)
       else case att_LeaseExpiresAt a of
         None \<Rightarrow> (let (now, s) = time_Now s in (requeueExpired run now s, Inl ErrInvalidLease))
       | Some e \<Rightarrow>
         (let (now, s) = time_Now s in
          if e \<le> now then (let (now, s) = time_Now s in (requeueExpired run now s, Inl ErrInvalidLease))
          else (s, Inr run)))"

section \<open>Nodes\<close>

definition RegisterNode :: "NodeRegistration \<Rightarrow> MemoryStorage \<Rightarrow> MemoryStorage \<times> Node result" where
  "RegisterNode registration s =
    (let (now, s) = time_Now s;
         node = (case ms_nodes s (reg_ID registration) of
             Some existing \<Rightarrow> existing\<lparr>node_Registration := registration, node_LastSeen := now\<rparr>
           | None \<Rightarrow> \<lparr>node_Registration = registration, node_Active = 0, node_LastSeen = now, node_State = []\<rparr>)
     in (s\<lparr>ms_nodes := (ms_nodes s)(reg_ID registration \<mapsto> node)\<rparr>, Inr node))"

definition Heartbeat :: "string \<Rightarrow> MemoryStorage \<Rightarrow> MemoryStorage \<times> Node result" where
  "Heartbeat nodeID s =
    (case ms_nodes s nodeID of None \<Rightarrow> (s, Inl ErrNotFound)
     | Some node \<Rightarrow>
       let (now, s) = time_Now s; node = node\<lparr>node_LastSeen := now\<rparr>
       in (s\<lparr>ms_nodes := (ms_nodes s)(nodeID \<mapsto> node)\<rparr>, Inr node))"

definition Nodes :: "string list \<Rightarrow> MemoryStorage \<Rightarrow> Node list result" where
  "Nodes order s = Inr (List.map_filter (ms_nodes s) order)"

section \<open>Submission\<close>

definition idempotencyScope :: "string \<Rightarrow> string \<Rightarrow> string \<Rightarrow> string" where
  "idempotencyScope tenant project key = tenant @ nul @ project @ nul @ key"

text \<open>The run record that \<open>Submit\<close> creates.\<close>

definition newRun :: "Request \<Rightarrow> time \<Rightarrow> string \<Rightarrow> string \<Rightarrow> Run" where
  "newRun request now runID attemptID =
    (let timeout = duration_or_zero (rq_Timeout request);
         attempt = zero_Attempt\<lparr>att_ID := attemptID, att_Number := 1, att_Status := AttemptQueued,
                     att_AvailableAt := Some now\<rparr>
     in \<lparr>run_ID = runID, run_TenantID = rq_TenantID request, run_ProjectID = rq_ProjectID request,
         run_SessionID = rq_SessionID request, run_AgentID = rq_AgentID request,
         run_IdempotencyKey = rq_IdempotencyKey request, run_Runtime = rq_Runtime request,
         run_Source = rq_Source request, run_Status = RunQueued, run_Attempt = attempt,
         run_Result = None, run_Error = [], run_CreatedAt = now, run_StartedAt = None,
         run_CompletedAt = None,
         run_DeadlineAt = (if timeout > 0 then Some (now + timeout) else None),
         run_CancelRequestedAt = None, run_CancelReason = [], run_CancelledAt = None\<rparr>)"

definition Submit :: "Request \<Rightarrow> MemoryStorage \<Rightarrow> MemoryStorage \<times> Run result" where
  "Submit request s =
    (let scope = idempotencyScope (rq_TenantID request) (rq_ProjectID request) (rq_IdempotencyKey request);
         found = (case ms_byIdempotency s scope of None \<Rightarrow> [] | Some runID \<Rightarrow> runID)
     in if found \<noteq> [] then
          (s, case ms_runs s found of None \<Rightarrow> Inl go_panic | Some run \<Rightarrow> Inr run)
        else
          let (now, s) = time_Now s;
              (runID, s) = newControlPlaneID ''run'' s;
              (attemptID, s) = newControlPlaneID ''attempt'' s;
              run = newRun request now runID attemptID;
              s = setRun run s;
              s = s\<lparr>ms_attemptHistory := (ms_attemptHistory s)(runID := [run_Attempt run])\<rparr>;
              s = s\<lparr>ms_requests := (ms_requests s)(runID \<mapsto> request)\<rparr>;
              s = s\<lparr>ms_byIdempotency := (ms_byIdempotency s)(scope \<mapsto> runID)\<rparr>;
              s = appendEvent run ''run.created'' (GoVal (str_obj [(''status'', RunStatus_text RunQueued)])) s;
              s = appendEvent run ''attempt.queued'' (GoVal (JObj [(''number'', JNum ''1'')])) s
          in (s, Inr run))"

section \<open>Claiming\<close>

definition timeoutRequest :: CancelRequest where
  "timeoutRequest = \<lparr>cq_Reason = ''run timeout exceeded'', cq_RequestedBy = ''relay''\<rparr>"

text \<open>The first loop of \<open>Claim\<close>: deadlines, finished cancellations, expired leases.\<close>

definition claim_sweep_one :: "time \<Rightarrow> string \<Rightarrow> MemoryStorage \<Rightarrow> MemoryStorage" where
  "claim_sweep_one now runID s =
    (case ms_runs s runID of None \<Rightarrow> s
     | Some run \<Rightarrow>
       let s = (if reached (run_DeadlineAt run) now \<and> run_CancelRequestedAt run = None
                then cancelRunLocked run timeoutRequest now s else s)
       in case ms_runs s runID of None \<Rightarrow> s
          | Some run \<Rightarrow>
            let a = run_Attempt run in
            if run_Status run = RunCancelling \<and>
               (att_Status a = AttemptLeased \<or> att_Status a = AttemptRunning) \<and>
               reached (att_LeaseExpiresAt a) now
            then finalizeCancellation run now s
            else requeueExpired run now s)"

definition claim_sweep :: "time \<Rightarrow> string list \<Rightarrow> MemoryStorage \<Rightarrow> MemoryStorage" where
  "claim_sweep now order s = fold (claim_sweep_one now) order s"

text \<open>The second loop: the first queued, available run that the node matches.\<close>

definition claimable :: "time \<Rightarrow> Run \<Rightarrow> bool" where
  "claimable now run \<longleftrightarrow> run_Status run = RunQueued \<and> att_Status (run_Attempt run) = AttemptQueued \<and>
     (case att_AvailableAt (run_Attempt run) of None \<Rightarrow> True | Some t \<Rightarrow> t \<le> now)"

definition leaseRun :: "string \<Rightarrow> duration \<Rightarrow> time \<Rightarrow> Node \<Rightarrow> Run \<Rightarrow> MemoryStorage \<Rightarrow> MemoryStorage \<times> Assignment result" where
  "leaseRun nodeID leaseTTL now node run s =
    (let request = request_of s (run_ID run);
         (token, s) = newControlPlaneID ''lease'' s;
         s = s\<lparr>ms_nodes := (ms_nodes s)(nodeID \<mapsto> node\<lparr>node_Active := node_Active node + 1\<rparr>)\<rparr>;
         expires = now + leaseTTL;
         run = run\<lparr>run_Attempt := (run_Attempt run)\<lparr>att_Status := AttemptLeased, att_NodeID := nodeID,
                     att_LeaseToken := token, att_LeaseExpiresAt := Some expires\<rparr>\<rparr>;
         s = setRun run s;
         s = appendEvent run ''attempt.leased''
               (GoVal (JObj [(''lease_expires_at'', JTime expires), (''node_id'', JStr nodeID)])) s
     in (s, Inr \<lparr>as_RunID = run_ID run, as_AttemptID = att_ID (run_Attempt run), as_LeaseToken = token,
                 as_LeaseExpiresAt = expires, as_Request = request\<rparr>))"

fun claim_pick :: "('v, 'c) semver \<Rightarrow> string \<Rightarrow> duration \<Rightarrow> time \<Rightarrow> string list \<Rightarrow> MemoryStorage
    \<Rightarrow> MemoryStorage \<times> Assignment result" where
  "claim_pick sv nodeID leaseTTL now [] s = (s, Inl ErrNoAssignment)"
| "claim_pick sv nodeID leaseTTL now (runID # order) s =
    (case (ms_runs s runID, ms_nodes s nodeID) of
       (Some run, Some node) \<Rightarrow>
         if \<not> claimable now run then claim_pick sv nodeID leaseTTL now order s
         else if \<not> nodeMatches sv node (request_of s (run_ID run))
         then claim_pick sv nodeID leaseTTL now order s
         else leaseRun nodeID leaseTTL now node run s
     | _ \<Rightarrow> claim_pick sv nodeID leaseTTL now order s)"

definition Claim :: "('v, 'c) semver \<Rightarrow> string list \<Rightarrow> string list \<Rightarrow> string \<Rightarrow> duration \<Rightarrow> MemoryStorage
    \<Rightarrow> MemoryStorage \<times> Assignment result" where
  "Claim sv order1 order2 nodeID leaseTTL s =
    (case ms_nodes s nodeID of None \<Rightarrow> (s, Inl ErrNotFound)
     | Some node \<Rightarrow>
       if node_Active node \<ge> reg_Capacity (node_Registration node) then (s, Inl ErrNoAssignment)
       else let (now, s) = time_Now s; s = claim_sweep now order1 s
            in claim_pick sv nodeID leaseTTL now order2 s)"

definition Renew :: "Assignment \<Rightarrow> duration \<Rightarrow> MemoryStorage \<Rightarrow> MemoryStorage \<times> LeaseUpdate result" where
  "Renew assignment leaseTTL s =
    (case authorize (as_RunID assignment) (as_AttemptID assignment) (as_LeaseToken assignment) s of
       (s, Inl e) \<Rightarrow> (s, Inl e)
     | (s, Inr run) \<Rightarrow>
       let a = run_Attempt run in
       if att_Status a \<noteq> AttemptLeased \<and> att_Status a \<noteq> AttemptRunning then (s, Inl ErrInvalidTransition)
       else let (now, s) = time_Now s in
         if att_LeaseExpiresAt a = None \<or> reached (att_LeaseExpiresAt a) now then (s, Inl ErrInvalidLease)
         else let expires = now + leaseTTL;
                  s = setRun (run\<lparr>run_Attempt := a\<lparr>att_LeaseExpiresAt := Some expires\<rparr>\<rparr>) s
              in (s, Inr \<lparr>lu_LeaseExpiresAt = expires, lu_CancelRequested = (run_CancelRequestedAt run \<noteq> None),
                          lu_CancelReason = run_CancelReason run\<rparr>))"

section \<open>Reconciliation\<close>

fun reconcile_deadlines :: "time \<Rightarrow> int \<Rightarrow> string list \<Rightarrow> int \<Rightarrow> MemoryStorage \<Rightarrow> MemoryStorage \<times> int" where
  "reconcile_deadlines now limit [] recovered s = (s, recovered)"
| "reconcile_deadlines now limit (runID # order) recovered s =
    (if recovered \<ge> limit then (s, recovered)
     else case ms_runs s runID of None \<Rightarrow> reconcile_deadlines now limit order recovered s
     | Some run \<Rightarrow>
       if reached (run_DeadlineAt run) now \<and> \<not> terminalRun (run_Status run) \<and> run_CancelRequestedAt run = None
       then reconcile_deadlines now limit order (recovered + 1) (cancelRunLocked run timeoutRequest now s)
       else reconcile_deadlines now limit order recovered s)"

text \<open>The guard of the second loop, negated: the attempt of the run is lost.\<close>

definition recoverable :: "time \<Rightarrow> Run \<Rightarrow> bool" where
  "recoverable now run \<longleftrightarrow>
    (let a = run_Attempt run;
         activeAttempt = (att_Status a = AttemptRunning \<or>
           (run_Status run = RunCancelling \<and> att_Status a = AttemptLeased))
     in (run_Status run = RunRunning \<or> run_Status run = RunCancelling) \<and> activeAttempt \<and>
        reached (att_LeaseExpiresAt a) now)"

definition recoverLost :: "time \<Rightarrow> Run \<Rightarrow> MemoryStorage \<Rightarrow> MemoryStorage \<times> unit result" where
  "recoverLost now run s =
    (let a = run_Attempt run;
         s = releaseNode (att_NodeID a) s;
         run = run\<lparr>run_Attempt := a\<lparr>att_Status := AttemptLost, att_CompletedAt := Some now\<rparr>\<rparr>;
         s = setRun run s;
         s = appendEvent run ''attempt.lost''
               (GoVal (str_obj [(''node_id'', att_NodeID a), (''reason'', ''lease_expired'')])) s;
         request = request_of s (run_ID run)
     in if att_Number a \<ge> rp_MaxAttempts (rq_Retry request) then
          let run = run\<lparr>run_Status := RunFailed, run_Error := ''attempt lease expired'', run_CompletedAt := Some now\<rparr>;
              s = setRun run s
          in (appendEvent run ''run.failed'' (GoVal (str_obj [(''error'', run_Error run)])) s, Inr ())
        else
          let next = now + retryBackoff (rq_Retry request);
              history = ms_attemptHistory s (run_ID run)
          in if history = [] then (s, Inl go_panic)
             else let history = butlast history @ [run_Attempt run];
                      (attemptID, s) = newControlPlaneID ''attempt'' s;
                      attempt = zero_Attempt\<lparr>att_ID := attemptID, att_Number := att_Number a + 1,
                                  att_Status := AttemptQueued, att_AvailableAt := Some next\<rparr>;
                      s = s\<lparr>ms_attemptHistory := (ms_attemptHistory s)(run_ID run := history @ [attempt])\<rparr>;
                      run = run\<lparr>run_Attempt := attempt, run_Status := RunQueued, run_Error := [],
                                run_StartedAt := None, run_CompletedAt := None\<rparr>;
                      s = setRun run s
                  in (appendEvent run ''attempt.queued''
                        (GoVal (JObj [(''available_at'', JTime next),
                           (''number'', JNum (Itoa (att_Number attempt))), (''reason'', JStr ''retry'')])) s, Inr ()))"

fun reconcile_expired :: "time \<Rightarrow> int \<Rightarrow> string list \<Rightarrow> int \<Rightarrow> MemoryStorage \<Rightarrow> MemoryStorage \<times> int result" where
  "reconcile_expired now limit [] recovered s = (s, Inr recovered)"
| "reconcile_expired now limit (runID # order) recovered s =
    (case ms_runs s runID of None \<Rightarrow> reconcile_expired now limit order recovered s
     | Some run \<Rightarrow>
       if recovered \<ge> limit \<or> \<not> recoverable now run then reconcile_expired now limit order recovered s
       else if run_Status run = RunCancelling
       then reconcile_expired now limit order (recovered + 1) (finalizeCancellation run now s)
       else case recoverLost now run s of
         (s, Inl e) \<Rightarrow> (s, Inl e)
       | (s, Inr _) \<Rightarrow> reconcile_expired now limit order (recovered + 1) s)"

definition Reconcile :: "string list \<Rightarrow> string list \<Rightarrow> time \<Rightarrow> int \<Rightarrow> MemoryStorage \<Rightarrow> MemoryStorage \<times> int result" where
  "Reconcile order1 order2 now limit s =
    (let (s, recovered) = reconcile_deadlines now limit order1 0 s
     in reconcile_expired now limit order2 recovered s)"

section \<open>Cancellation\<close>

definition CancelRun :: "string \<Rightarrow> CancelRequest \<Rightarrow> MemoryStorage \<Rightarrow> MemoryStorage \<times> Run result" where
  "CancelRun runID request s =
    (case ms_runs s runID of None \<Rightarrow> (s, Inl ErrNotFound)
     | Some run \<Rightarrow>
       let (now, s) = time_Now s; s = cancelRunLocked run request now s
       in (s, case ms_runs s runID of None \<Rightarrow> Inl go_panic | Some run \<Rightarrow> Inr run))"

definition AcknowledgeCancellation :: "Assignment \<Rightarrow> MemoryStorage \<Rightarrow> MemoryStorage \<times> unit result" where
  "AcknowledgeCancellation assignment s =
    (case authorize (as_RunID assignment) (as_AttemptID assignment) (as_LeaseToken assignment) s of
       (s, Inl e) \<Rightarrow> (s, Inl e)
     | (s, Inr run) \<Rightarrow>
       if run_Status run = RunCancelled then (s, Inr ())
       else if run_Status run \<noteq> RunCancelling then (s, Inl ErrInvalidTransition)
       else let (now, s) = time_Now s in (finalizeCancellation run now s, Inr ()))"

section \<open>Execution\<close>

definition Start :: "Assignment \<Rightarrow> MemoryStorage \<Rightarrow> MemoryStorage \<times> unit result" where
  "Start assignment s =
    (case authorize (as_RunID assignment) (as_AttemptID assignment) (as_LeaseToken assignment) s of
       (s, Inl e) \<Rightarrow> (s, Inl e)
     | (s, Inr run) \<Rightarrow>
       let a = run_Attempt run in
       if att_Status a \<noteq> AttemptLeased then (s, Inl ErrInvalidTransition)
       else if run_Status run = RunCancelling then
         (let (now, s) = time_Now s in (finalizeCancellation run now s, Inl ErrRunCancelled))
       else
         let (expired, s) = (case att_LeaseExpiresAt a of None \<Rightarrow> (False, s)
               | Some e \<Rightarrow> (let (now, s) = time_Now s in (e \<le> now, s)))
         in if expired then (let (now, s) = time_Now s in (requeueExpired run now s, Inl ErrInvalidLease))
            else
              let (now, s) = time_Now s;
                  run = run\<lparr>run_Status := RunRunning, run_StartedAt := Some now,
                            run_Attempt := a\<lparr>att_Status := AttemptRunning, att_StartedAt := Some now\<rparr>\<rparr>;
                  s = setRun run s;
                  s = appendEvent run ''attempt.started'' (GoVal (str_obj [(''node_id'', att_NodeID a)])) s
              in (appendEvent run ''run.started'' GoNil s, Inr ()))"

fun find_event :: "string \<Rightarrow> Event list \<Rightarrow> Event option" where
  "find_event eventID [] = None"
| "find_event eventID (e # es) = (if ev_ID e = eventID then Some e else find_event eventID es)"

text \<open>\<open>s.events[runID][len-1].ID = id\<close>.\<close>

definition rename_last :: "string \<Rightarrow> string \<Rightarrow> MemoryStorage \<Rightarrow> MemoryStorage" where
  "rename_last runID eventID s =
    s\<lparr>ms_events := (ms_events s)(runID := butlast (ms_events s runID) @
        (if ms_events s runID = [] then [] else [(last (ms_events s runID))\<lparr>ev_ID := eventID\<rparr>]))\<rparr>"

definition AppendEvent :: "string \<Rightarrow> string \<Rightarrow> string \<Rightarrow> string \<Rightarrow> goany \<Rightarrow> string list \<Rightarrow> MemoryStorage
    \<Rightarrow> MemoryStorage \<times> unit result" where
  "AppendEvent runID attemptID lease eventType data eventIDs s =
    (case authorize runID attemptID lease s of
       (s, Inl e) \<Rightarrow> (s, Inl e)
     | (s, Inr run) \<Rightarrow>
       if att_Status (run_Attempt run) \<noteq> AttemptRunning then (s, Inl ErrInvalidTransition)
       else
         let id = EventIdentity attemptID lease eventIDs in
         case (if id \<noteq> [] then find_event id (ms_events s runID) else None) of
           Some event \<Rightarrow>
             (s, case SameEvent (ev_Type event) (ev_Data event) eventType data of
                   None \<Rightarrow> Inr () | Some e \<Rightarrow> Inl e)
         | None \<Rightarrow>
           (case json_Marshal data of Inl e \<Rightarrow> (s, Inl e)
            | Inr _ \<Rightarrow>
              let s = appendEvent run eventType data s
              in (if id \<noteq> [] then rename_last runID id s else s, Inr ())))"

definition Complete :: "Assignment \<Rightarrow> Result \<Rightarrow> MemoryStorage \<Rightarrow> MemoryStorage \<times> unit result" where
  "Complete assignment result s =
    (case ms_runs s (as_RunID assignment) of None \<Rightarrow> (s, Inl ErrNotFound)
     | Some run \<Rightarrow>
       let a = run_Attempt run in
       if att_ID a \<noteq> as_AttemptID assignment \<or> as_LeaseToken assignment = [] \<or>
          att_LeaseToken a \<noteq> as_LeaseToken assignment then (s, Inl ErrInvalidLease)
       else if run_Status run = RunSucceeded \<and> att_Status a = AttemptSucceeded then
         (s, case run_Result run of
            Some r \<Rightarrow> if SameValue (Result_json r) (Result_json result) then Inr ()
                      else Inl (wrap ErrInvalidTransition ''completion result differs from the committed result'')
          | None \<Rightarrow> Inl (wrap ErrInvalidTransition ''completion result differs from the committed result''))
       else
         let (expired, s) = (case att_LeaseExpiresAt a of None \<Rightarrow> (True, s)
               | Some e \<Rightarrow> (let (now, s) = time_Now s in (e \<le> now, s)))
         in if expired then (s, Inl ErrInvalidLease)
            else if att_Status a \<noteq> AttemptRunning then (s, Inl ErrInvalidTransition)
            else if run_Status run = RunCancelling then (s, Inl ErrRunCancelled)
            else
              let (now, s) = time_Now s;
                  run = run\<lparr>run_Status := RunSucceeded, run_Result := Some result, run_CompletedAt := Some now,
                            run_Attempt := a\<lparr>att_Status := AttemptSucceeded, att_CompletedAt := Some now\<rparr>\<rparr>;
                  s = setRun run s;
                  s = releaseNode (att_NodeID a) s;
                  s = appendEvent run ''attempt.succeeded'' GoNil s
              in (appendEvent run ''run.succeeded'' (GoVal (Result_json result)) s, Inr ()))"

definition Fail :: "Assignment \<Rightarrow> string \<Rightarrow> MemoryStorage \<Rightarrow> MemoryStorage \<times> unit result" where
  "Fail assignment cause s =
    (case ms_runs s (as_RunID assignment) of None \<Rightarrow> (s, Inl ErrNotFound)
     | Some run \<Rightarrow>
       let a = run_Attempt run in
       if att_ID a \<noteq> as_AttemptID assignment \<or> as_LeaseToken assignment = [] \<or>
          att_LeaseToken a \<noteq> as_LeaseToken assignment then (s, Inl ErrInvalidLease)
       else if run_Status run = RunFailed \<and> att_Status a = AttemptFailed then
         (s, if run_Error run = cause then Inr ()
             else Inl (wrap ErrInvalidTransition ''failure cause differs from the committed cause''))
       else
         let (expired, s) = (case att_LeaseExpiresAt a of None \<Rightarrow> (True, s)
               | Some e \<Rightarrow> (let (now, s) = time_Now s in (e \<le> now, s)))
         in if expired then (s, Inl ErrInvalidLease)
            else if att_Status a \<noteq> AttemptRunning \<and> att_Status a \<noteq> AttemptLeased
            then (s, Inl ErrInvalidTransition)
            else if run_Status run = RunCancelling then
              (let (now, s) = time_Now s in (finalizeCancellation run now s, Inl ErrRunCancelled))
            else
              let (now, s) = time_Now s;
                  run = run\<lparr>run_Status := RunFailed, run_Error := cause, run_CompletedAt := Some now,
                            run_Attempt := a\<lparr>att_Status := AttemptFailed, att_CompletedAt := Some now\<rparr>\<rparr>;
                  s = setRun run s;
                  s = releaseNode (att_NodeID a) s;
                  data = GoVal (str_obj [(''error'', cause)]);
                  s = appendEvent run ''attempt.failed'' data s
              in (appendEvent run ''run.failed'' data s, Inr ()))"

section \<open>Queries\<close>

definition GetRun :: "string \<Rightarrow> MemoryStorage \<Rightarrow> Run result" where
  "GetRun runID s = (case ms_runs s runID of Some run \<Rightarrow> Inr run | None \<Rightarrow> Inl ErrNotFound)"

fun events_index :: "int \<Rightarrow> Event list \<Rightarrow> nat" where
  "events_index after [] = 0"
| "events_index after (e # es) = (if ev_Sequence e \<le> after then Suc (events_index after es) else 0)"

definition EventsAfter :: "string \<Rightarrow> int \<Rightarrow> MemoryStorage \<Rightarrow> Event list result" where
  "EventsAfter runID after s =
    (case ms_runs s runID of None \<Rightarrow> Inl ErrNotFound
     | Some _ \<Rightarrow> Inr (drop (events_index after (ms_events s runID)) (ms_events s runID)))"

definition Events :: "string \<Rightarrow> MemoryStorage \<Rightarrow> Event list result" where
  "Events runID s = EventsAfter runID 0 s"

text \<open>\<open>sort.Slice\<close> on the collected runs; the initial order is the map's iteration order.\<close>

definition ListRuns :: "string list \<Rightarrow> string \<Rightarrow> string \<Rightarrow> string \<Rightarrow> int \<Rightarrow> MemoryStorage \<Rightarrow> Run list result" where
  "ListRuns order tenant project session limit s =
    (let values = filter (\<lambda>run. (tenant = [] \<or> run_TenantID run = tenant) \<and>
           (project = [] \<or> run_ProjectID run = project) \<and> (session = [] \<or> run_SessionID run = session))
           (List.map_filter (ms_runs s) order);
         values = sort_key (\<lambda>run. - run_CreatedAt run) values;
         limit = (if limit \<le> 0 \<or> limit > 200 then 50 else limit)
     in Inr (take (nat limit) values))"

definition Attempts :: "string \<Rightarrow> MemoryStorage \<Rightarrow> Attempt list result" where
  "Attempts runID s =
    (case ms_runs s runID of None \<Rightarrow> Inl ErrNotFound
     | Some run \<Rightarrow>
       let values = ms_attemptHistory s runID
       in Inr (if values \<noteq> [] then butlast values @ [run_Attempt run] else values))"

section \<open>Artifacts\<close>

definition AddArtifact :: "Assignment \<Rightarrow> Artifact \<Rightarrow> MemoryStorage \<Rightarrow> MemoryStorage \<times> unit result" where
  "AddArtifact assignment artifact s =
    (case authorize (as_RunID assignment) (as_AttemptID assignment) (as_LeaseToken assignment) s of
       (s, Inl e) \<Rightarrow> (s, Inl e)
     | (s, Inr run) \<Rightarrow>
       if att_Status (run_Attempt run) \<noteq> AttemptRunning then (s, Inl ErrInvalidTransition)
       else
         let s = s\<lparr>ms_artifacts := (ms_artifacts s)(art_ID artifact \<mapsto> artifact)\<rparr>;
             s = s\<lparr>ms_artifactRuns := (ms_artifactRuns s)(run_ID run := ms_artifactRuns s (run_ID run) @ [art_ID artifact])\<rparr>
         in (appendEvent run ''artifact.created'' (GoVal (Artifact_json artifact)) s, Inr ()))"

definition Artifacts :: "string \<Rightarrow> MemoryStorage \<Rightarrow> Artifact list result" where
  "Artifacts runID s =
    (case ms_runs s runID of None \<Rightarrow> Inl ErrNotFound
     | Some _ \<Rightarrow> Inr (map (\<lambda>id. case ms_artifacts s id of None \<Rightarrow> zero_Artifact | Some a \<Rightarrow> a)
                    (ms_artifactRuns s runID)))"

definition Artifact_get :: "string \<Rightarrow> MemoryStorage \<Rightarrow> Artifact result" where
  "Artifact_get artifactID s = (case ms_artifacts s artifactID of None \<Rightarrow> Inl ErrNotFound | Some a \<Rightarrow> Inr a)"

section \<open>Capability calls\<close>

definition ErrIdempotencyConflict :: error where
  "ErrIdempotencyConflict = GoError [IdempotencyConflict]
     ''relay: idempotency key reused for a different capability call''"

definition ReserveCapability :: "Assignment \<Rightarrow> string \<Rightarrow> string \<Rightarrow> MemoryStorage
    \<Rightarrow> MemoryStorage \<times> CapabilityReservation result" where
  "ReserveCapability a key hash s =
    (case authorize (as_RunID a) (as_AttemptID a) (as_LeaseToken a) s of
       (s, Inl e) \<Rightarrow> (s, Inl e)
     | (s, Inr run) \<Rightarrow>
       if att_Status (run_Attempt run) \<noteq> AttemptRunning then (s, Inl ErrInvalidTransition)
       else
         let mapKey = as_RunID a @ nul @ key in
         case ms_capabilityCalls s mapKey of
           Some old \<Rightarrow> (s, if mcc_hash old \<noteq> hash then Inl ErrIdempotencyConflict else Inr (mcc_reservation old))
         | None \<Rightarrow>
           let (callID, s) = newControlPlaneID ''call'' s;
               reservation = \<lparr>rsv_CallID = callID, rsv_Execute = True, rsv_Result = None, rsv_Error = []\<rparr>
           in (s\<lparr>ms_capabilityCalls := (ms_capabilityCalls s)(mapKey \<mapsto>
                  \<lparr>mcc_hash = hash, mcc_reservation = reservation\<rparr>)\<rparr>, Inr reservation))"

fun find_call :: "string \<Rightarrow> string list \<Rightarrow> MemoryStorage \<Rightarrow> (string \<times> memoryCapabilityCall) option" where
  "find_call callID [] s = None"
| "find_call callID (key # order) s =
    (case ms_capabilityCalls s key of
       Some value \<Rightarrow> if rsv_CallID (mcc_reservation value) \<noteq> callID then find_call callID order s
                     else Some (key, value)
     | None \<Rightarrow> find_call callID order s)"

definition FinishCapability :: "string list \<Rightarrow> Assignment \<Rightarrow> CapabilityReservation \<Rightarrow> CapabilityResult \<Rightarrow> string
    \<Rightarrow> MemoryStorage \<Rightarrow> MemoryStorage \<times> unit result" where
  "FinishCapability order a reservation result cause s =
    (case authorize (as_RunID a) (as_AttemptID a) (as_LeaseToken a) s of
       (s, Inl e) \<Rightarrow> (s, Inl e)
     | (s, Inr run) \<Rightarrow>
       (case find_call (rsv_CallID reservation) order s of
          None \<Rightarrow> (s, Inl ErrNotFound)
        | Some (key, value) \<Rightarrow>
          let value = value\<lparr>mcc_reservation := (mcc_reservation value)\<lparr>rsv_Execute := False,
                        rsv_Result := Some result, rsv_Error := cause\<rparr>\<rparr>;
              s = s\<lparr>ms_capabilityCalls := (ms_capabilityCalls s)(key \<mapsto> value)\<rparr>
          in (appendEvent run ''capability.recorded'' (GoVal (str_obj [(''call_id'', rsv_CallID reservation)])) s,
              Inr ())))"

section \<open>Interactions\<close>

definition CreateInteraction :: "Assignment \<Rightarrow> InteractionRequest \<Rightarrow> MemoryStorage
    \<Rightarrow> MemoryStorage \<times> Interaction result" where
  "CreateInteraction a request s =
    (case authorize (as_RunID a) (as_AttemptID a) (as_LeaseToken a) s of
       (s, Inl e) \<Rightarrow> (s, Inl e)
     | (s, Inr run) \<Rightarrow>
       if att_Status (run_Attempt run) \<noteq> AttemptRunning then (s, Inl ErrInvalidTransition)
       else
         let (id, s) = newControlPlaneID ''interaction'' s;
             (now, s) = time_Now s;
             value = \<lparr>ia_ID = id, ia_RunID = run_ID run, ia_AttemptID = att_ID (run_Attempt run),
                      ia_Kind = ir_Kind request, ia_State = ''pending'', ia_Prompt = ir_Prompt request,
                      ia_Data = ir_Data request, ia_Response = None, ia_CreatedAt = now, ia_ResolvedAt = None\<rparr>;
             s = s\<lparr>ms_interactions := (ms_interactions s)(id \<mapsto> value)\<rparr>
         in (appendEvent run ''interaction.requested'' (GoVal (Interaction_json value)) s, Inr value))"

definition GetInteraction :: "Assignment \<Rightarrow> string \<Rightarrow> MemoryStorage \<Rightarrow> MemoryStorage \<times> Interaction result" where
  "GetInteraction a interactionID s =
    (case authorize (as_RunID a) (as_AttemptID a) (as_LeaseToken a) s of
       (s, Inl e) \<Rightarrow> (s, Inl e)
     | (s, Inr _) \<Rightarrow>
       (s, case ms_interactions s interactionID of None \<Rightarrow> Inl ErrNotFound
           | Some value \<Rightarrow> if ia_RunID value \<noteq> as_RunID a then Inl ErrNotFound else Inr value))"

definition Interactions :: "string list \<Rightarrow> string \<Rightarrow> MemoryStorage \<Rightarrow> Interaction list result" where
  "Interactions order runID s =
    (case ms_runs s runID of None \<Rightarrow> Inl ErrNotFound
     | Some _ \<Rightarrow> Inr (sort_key ia_CreatedAt
         (filter (\<lambda>v. ia_RunID v = runID) (List.map_filter (ms_interactions s) order))))"

definition ResolveInteraction :: "string \<Rightarrow> json option \<Rightarrow> string \<Rightarrow> string \<Rightarrow> MemoryStorage
    \<Rightarrow> MemoryStorage \<times> Interaction result" where
  "ResolveInteraction interactionID response tenant project s =
    (case ms_interactions s interactionID of None \<Rightarrow> (s, Inl ErrNotFound)
     | Some value \<Rightarrow>
       (case ms_runs s (ia_RunID value) of None \<Rightarrow> (s, Inl go_panic)
        | Some run \<Rightarrow>
          if (tenant \<noteq> [] \<and> run_TenantID run \<noteq> tenant) \<or> (project \<noteq> [] \<and> run_ProjectID run \<noteq> project)
          then (s, Inl ErrNotFound)
          else if ia_State value \<noteq> ''pending'' then (s, Inl ErrInvalidTransition)
          else
            let (now, s) = time_Now s;
                value = value\<lparr>ia_State := ''resolved'', ia_Response := response, ia_ResolvedAt := Some now\<rparr>;
                s = s\<lparr>ms_interactions := (ms_interactions s)(interactionID \<mapsto> value)\<rparr>
            in (appendEvent run ''interaction.resolved'' (GoVal (str_obj [(''interaction_id'', interactionID)])) s, Inr value)))"

end
