(* ===== verification/Memory_Lifecycle.thy ===== *)
theory Memory_Lifecycle
  imports Memory_Storage
begin

text \<open>
  The run lifecycle as a state machine. \<open>run_step\<close> and \<open>submit_step\<close> list the atomic transitions of the
  control plane's state (a run is leased, renewed, started, ..., cancelled; a new run is submitted), each with the
  node accounting that belongs to it. This theory proves what every transition keeps: the storage
  invariant \<open>storage_inv\<close>, and the safety properties that follow from it. That every method of
  \<open>MemoryStorage\<close> is a sequence of these transitions is shown in \<open>Memory_Refinement\<close>.
\<close>

section \<open>Frame equations\<close>

definition new_event :: "Run \<Rightarrow> string \<Rightarrow> goany \<Rightarrow> MemoryStorage \<Rightarrow> Event" where
  "new_event run eventType value s =
    \<lparr>ev_ID = id_text ''event'' (draw s 12 (w_drawn s)), ev_RunID = run_ID run,
     ev_AttemptID = att_ID (run_Attempt run), ev_Sequence = int (length (ms_events s (run_ID run))) + 1,
     ev_Type = eventType,
     ev_Data = (case value of GoNil \<Rightarrow> None | GoVal j \<Rightarrow> Some j | GoBad \<Rightarrow> None),
     ev_CreatedAt = w_clock s (w_ticks s)\<rparr>"

lemma time_Now_eq [storage_simps]: "time_Now s = (w_clock s (w_ticks s), s\<lparr>w_ticks := Suc (w_ticks s)\<rparr>)"
  by (simp add: time_Now_def)

lemma newControlPlaneID_eq [storage_simps]:
  "newControlPlaneID p s = (id_text p (draw s 12 (w_drawn s)), s\<lparr>w_drawn := Suc (w_drawn s)\<rparr>)"
  by (simp add: newControlPlaneID_def rand_Read_def)

lemma appendEvent_eq:
  "appendEvent run ty v s = s\<lparr>w_drawn := Suc (w_drawn s), w_ticks := Suc (w_ticks s),
     ms_events := (ms_events s)(run_ID run := ms_events s (run_ID run) @ [new_event run ty v s])\<rparr>"
  by (simp add: appendEvent_def new_event_def storage_simps Let_def draw_def)

lemma appendEvent_frame [simp]:
  "ms_nodes (appendEvent run ty v s) = ms_nodes s"
  "ms_runs (appendEvent run ty v s) = ms_runs s"
  "ms_requests (appendEvent run ty v s) = ms_requests s"
  "ms_byIdempotency (appendEvent run ty v s) = ms_byIdempotency s"
  "ms_artifacts (appendEvent run ty v s) = ms_artifacts s"
  "ms_artifactRuns (appendEvent run ty v s) = ms_artifactRuns s"
  "ms_capabilityCalls (appendEvent run ty v s) = ms_capabilityCalls s"
  "ms_attemptHistory (appendEvent run ty v s) = ms_attemptHistory s"
  "ms_interactions (appendEvent run ty v s) = ms_interactions s"
  "w_clock (appendEvent run ty v s) = w_clock s"
  "w_ticks (appendEvent run ty v s) = Suc (w_ticks s)"
  "w_rand (appendEvent run ty v s) = w_rand s"
  "w_drawn (appendEvent run ty v s) = Suc (w_drawn s)"
  "request_of (appendEvent run ty v s) rid = request_of s rid"
  by (simp_all add: appendEvent_eq request_of_def)

lemma appendEvent_events [simp]:
  "ms_events (appendEvent run ty v s) =
     (ms_events s)(run_ID run := ms_events s (run_ID run) @ [new_event run ty v s])"
  by (simp add: appendEvent_eq)

definition release :: "string \<Rightarrow> (string \<Rightarrow> Node option) \<Rightarrow> string \<Rightarrow> Node option" where
  "release n nodes = (case nodes n of None \<Rightarrow> nodes
     | Some node \<Rightarrow> if node_Active node > 0
         then nodes(n \<mapsto> node\<lparr>node_Active := node_Active node - 1\<rparr>) else nodes)"

lemma releaseNode_eq: "releaseNode n s = s\<lparr>ms_nodes := release n (ms_nodes s)\<rparr>"
  by (simp add: releaseNode_def release_def split: option.split)

lemma releaseNode_frame [simp]:
  "ms_nodes (releaseNode n s) = release n (ms_nodes s)"
  "ms_runs (releaseNode n s) = ms_runs s"
  "ms_requests (releaseNode n s) = ms_requests s"
  "ms_events (releaseNode n s) = ms_events s"
  "ms_byIdempotency (releaseNode n s) = ms_byIdempotency s"
  "ms_artifacts (releaseNode n s) = ms_artifacts s"
  "ms_artifactRuns (releaseNode n s) = ms_artifactRuns s"
  "ms_capabilityCalls (releaseNode n s) = ms_capabilityCalls s"
  "ms_attemptHistory (releaseNode n s) = ms_attemptHistory s"
  "ms_interactions (releaseNode n s) = ms_interactions s"
  "w_clock (releaseNode n s) = w_clock s" "w_ticks (releaseNode n s) = w_ticks s"
  "w_rand (releaseNode n s) = w_rand s" "w_drawn (releaseNode n s) = w_drawn s"
  "request_of (releaseNode n s) rid = request_of s rid"
  by (simp_all add: releaseNode_eq request_of_def)

lemma setRun_frame [simp]:
  "ms_nodes (setRun run s) = ms_nodes s"
  "ms_runs (setRun run s) = (ms_runs s)(run_ID run \<mapsto> run)"
  "ms_requests (setRun run s) = ms_requests s"
  "ms_events (setRun run s) = ms_events s"
  "ms_byIdempotency (setRun run s) = ms_byIdempotency s"
  "ms_artifacts (setRun run s) = ms_artifacts s"
  "ms_artifactRuns (setRun run s) = ms_artifactRuns s"
  "ms_capabilityCalls (setRun run s) = ms_capabilityCalls s"
  "ms_attemptHistory (setRun run s) = ms_attemptHistory s"
  "ms_interactions (setRun run s) = ms_interactions s"
  "w_clock (setRun run s) = w_clock s" "w_ticks (setRun run s) = w_ticks s"
  "w_rand (setRun run s) = w_rand s" "w_drawn (setRun run s) = w_drawn s"
  "request_of (setRun run s) rid = request_of s rid"
  by (simp_all add: setRun_def request_of_def)

lemma new_event_cong:
  assumes "w_rand s = w_rand t" "w_drawn s = w_drawn t" "w_clock s = w_clock t" "w_ticks s = w_ticks t"
    and "ms_events s = ms_events t"
  shows "new_event run ty v s = new_event run ty v t"
  using assms by (simp add: new_event_def draw_def)

text \<open>The primitives commute: an event may be appended before or after a run or node update.\<close>

lemma setRun_appendEvent: "setRun r (appendEvent run ty v s) = appendEvent run ty v (setRun r s)"
  by (simp add: appendEvent_eq setRun_def new_event_def draw_def)

lemma releaseNode_appendEvent:
  "releaseNode n (appendEvent run ty v s) = appendEvent run ty v (releaseNode n s)"
  by (simp add: appendEvent_eq releaseNode_eq new_event_def draw_def)

lemma releaseNode_setRun: "releaseNode n (setRun r s) = setRun r (releaseNode n s)"
  by (simp add: releaseNode_eq setRun_def)

lemma setRun_setRun: "run_ID r = run_ID r' \<Longrightarrow> setRun r (setRun r' s) = setRun r s"
  by (simp add: setRun_def)

section \<open>The invariant\<close>

definition active :: "Attempt \<Rightarrow> bool" where
  "active a \<longleftrightarrow> att_Status a = AttemptLeased \<or> att_Status a = AttemptRunning"

definition holds :: "string \<Rightarrow> Run \<Rightarrow> bool" where
  "holds n run \<longleftrightarrow> active (run_Attempt run) \<and> att_NodeID (run_Attempt run) = n"

definition holders :: "(string \<Rightarrow> Run option) \<Rightarrow> string \<Rightarrow> string set" where
  "holders runs n = {rid. \<exists>run. runs rid = Some run \<and> holds n run}"

text \<open>How the fields of one run agree.\<close>

definition status_ok :: "RunStatus \<Rightarrow> AttemptStatus \<Rightarrow> bool" where
  "status_ok rs as = (case rs of
     RunQueued \<Rightarrow> as = AttemptQueued \<or> as = AttemptLeased
   | RunRunning \<Rightarrow> as = AttemptRunning
   | RunCancelling \<Rightarrow> as = AttemptQueued \<or> as = AttemptLeased \<or> as = AttemptRunning
   | RunCancelled \<Rightarrow> as = AttemptCancelled
   | RunSucceeded \<Rightarrow> as = AttemptSucceeded
   | RunFailed \<Rightarrow> as = AttemptFailed \<or> as = AttemptLost)"

definition run_ok :: "Run \<Rightarrow> bool" where
  "run_ok run \<longleftrightarrow> (let a = run_Attempt run in
     status_ok (run_Status run) (att_Status a) \<and>
     (active a \<longrightarrow> att_NodeID a \<noteq> [] \<and> att_LeaseToken a \<noteq> [] \<and> att_LeaseExpiresAt a \<noteq> None) \<and>
     (att_Status a = AttemptQueued \<longrightarrow>
        att_NodeID a = [] \<and> att_LeaseToken a = [] \<and> att_LeaseExpiresAt a = None) \<and>
     (run_CancelRequestedAt run \<noteq> None \<longleftrightarrow> run_Status run = RunCancelling \<or> run_Status run = RunCancelled) \<and>
     (run_CompletedAt run \<noteq> None \<longleftrightarrow> terminalRun (run_Status run)) \<and>
     (run_CancelledAt run \<noteq> None \<longleftrightarrow> run_Status run = RunCancelled) \<and>
     (run_Result run \<noteq> None \<longleftrightarrow> run_Status run = RunSucceeded))"

definition runs_inv :: "MemoryStorage \<Rightarrow> bool" where
  "runs_inv s \<longleftrightarrow> finite (dom (ms_runs s)) \<and>
     (\<forall>rid run. ms_runs s rid = Some run \<longrightarrow> run_ID run = rid \<and> run_ok run)"

definition nodes_inv :: "MemoryStorage \<Rightarrow> bool" where
  "nodes_inv s \<longleftrightarrow>
     (\<forall>n node. ms_nodes s n = Some node \<longrightarrow> n \<noteq> [] \<and> reg_ID (node_Registration node) = n \<and>
        node_Active node = int (card (holders (ms_runs s) n))) \<and>
     (\<forall>rid run. ms_runs s rid = Some run \<longrightarrow> active (run_Attempt run) \<longrightarrow>
        ms_nodes s (att_NodeID (run_Attempt run)) \<noteq> None)"

definition events_inv :: "MemoryStorage \<Rightarrow> bool" where
  "events_inv s \<longleftrightarrow>
     (\<forall>rid. (\<forall>i < length (ms_events s rid).
        ev_Sequence (ms_events s rid ! i) = int i + 1 \<and> ev_RunID (ms_events s rid ! i) = rid) \<and>
      (ms_events s rid \<noteq> [] \<longrightarrow> ms_runs s rid \<noteq> None))"

definition max_attempts :: "Request \<Rightarrow> int" where
  "max_attempts request = max 1 (rp_MaxAttempts (rq_Retry request))"

definition history_inv :: "MemoryStorage \<Rightarrow> bool" where
  "history_inv s \<longleftrightarrow>
     (\<forall>rid run. ms_runs s rid = Some run \<longrightarrow>
        ms_requests s rid \<noteq> None \<and>
        ms_attemptHistory s rid \<noteq> [] \<and>
        int (length (ms_attemptHistory s rid)) = att_Number (run_Attempt run) \<and>
        att_Number (run_Attempt run) \<le> max_attempts (request_of s rid) \<and>
        att_ID (last (ms_attemptHistory s rid)) = att_ID (run_Attempt run) \<and>
        (\<forall>i < length (ms_attemptHistory s rid). att_Number (ms_attemptHistory s rid ! i) = int i + 1))"

definition run_scope :: "Run \<Rightarrow> string" where
  "run_scope run = idempotencyScope (run_TenantID run) (run_ProjectID run) (run_IdempotencyKey run)"

definition idempotency_inv :: "MemoryStorage \<Rightarrow> bool" where
  "idempotency_inv s \<longleftrightarrow>
     (\<forall>scope rid. ms_byIdempotency s scope = Some rid \<longrightarrow>
        (\<exists>run. ms_runs s rid = Some run \<and> run_scope run = scope)) \<and>
     (\<forall>rid run. ms_runs s rid = Some run \<longrightarrow> ms_byIdempotency s (run_scope run) = Some rid)"

text \<open>Identifiers drawn so far.\<close>

definition issued :: "'a world_scheme \<Rightarrow> string \<Rightarrow> string set" where
  "issued s prefix = {id_text prefix (draw s 12 k) | k. k < w_drawn s}"

definition ids_inv :: "MemoryStorage \<Rightarrow> bool" where
  "ids_inv s \<longleftrightarrow>
     (\<forall>rid run. ms_runs s rid = Some run \<longrightarrow> rid \<in> issued s ''run'' \<and>
        att_ID (run_Attempt run) \<in> issued s ''attempt'' \<and>
        (att_LeaseToken (run_Attempt run) \<noteq> [] \<longrightarrow> att_LeaseToken (run_Attempt run) \<in> issued s ''lease''))"

definition storage_inv :: "MemoryStorage \<Rightarrow> bool" where
  "storage_inv s \<longleftrightarrow> runs_inv s \<and> nodes_inv s \<and> events_inv s \<and> history_inv s \<and> idempotency_inv s \<and> ids_inv s"

text \<open>The entropy source has not repeated a value so far.\<close>

definition no_collision :: "'a world_scheme \<Rightarrow> bool" where
  "no_collision s \<longleftrightarrow> inj_on (draw s 12) {..<w_drawn s}"


section \<open>The transitions\<close>

inductive run_step :: "MemoryStorage \<Rightarrow> MemoryStorage \<Rightarrow> bool" where
  tick: "run_step s (s\<lparr>w_ticks := Suc (w_ticks s)\<rparr>)"
| draw_id: "run_step s (s\<lparr>w_drawn := Suc (w_drawn s)\<rparr>)"
| side: "run_step s (s\<lparr>ms_artifacts := a, ms_artifactRuns := b, ms_capabilityCalls := c, ms_interactions := d\<rparr>)"
| event: "ms_runs s (run_ID run) \<noteq> None \<Longrightarrow> run_step s (appendEvent run ty v s)"
| producer_event: "ms_runs s (run_ID run) \<noteq> None \<Longrightarrow> eid = EventIdentity aid lease ids \<Longrightarrow> eid \<noteq> [] \<Longrightarrow>
    find_event eid (ms_events s (run_ID run)) = None \<Longrightarrow>
    run_step s (rename_last (run_ID run) eid (appendEvent run ty v s))"
| register: "reg_ID reg \<noteq> [] \<Longrightarrow> run_step s (fst (RegisterNode reg s))"
| heartbeat: "run_step s (fst (Heartbeat n s))"
| lease: "ms_runs s (run_ID run) = Some run \<Longrightarrow> run_Status run = RunQueued \<Longrightarrow>
    att_Status (run_Attempt run) = AttemptQueued \<Longrightarrow> ms_nodes s n = Some node \<Longrightarrow>
    run_step s (setRun (run\<lparr>run_Attempt := (run_Attempt run)\<lparr>att_Status := AttemptLeased, att_NodeID := n,
        att_LeaseToken := id_text ''lease'' (draw s 12 (w_drawn s)), att_LeaseExpiresAt := Some e\<rparr>\<rparr>)
      (s\<lparr>w_drawn := Suc (w_drawn s),
         ms_nodes := (ms_nodes s)(n \<mapsto> node\<lparr>node_Active := node_Active node + 1\<rparr>)\<rparr>))"
| renew: "ms_runs s (run_ID run) = Some run \<Longrightarrow> active (run_Attempt run) \<Longrightarrow>
    run_step s (setRun (run\<lparr>run_Attempt := (run_Attempt run)\<lparr>att_LeaseExpiresAt := Some e\<rparr>\<rparr>) s)"
| requeue: "ms_runs s (run_ID run) = Some run \<Longrightarrow> att_Status (run_Attempt run) = AttemptLeased \<Longrightarrow>
    run_step s (setRun (run\<lparr>run_Attempt := (run_Attempt run)\<lparr>att_Status := AttemptQueued,
        att_NodeID := [], att_LeaseToken := [], att_LeaseExpiresAt := None\<rparr>\<rparr>)
      (releaseNode (att_NodeID (run_Attempt run)) s))"
| start: "ms_runs s (run_ID run) = Some run \<Longrightarrow> att_Status (run_Attempt run) = AttemptLeased \<Longrightarrow>
    run_Status run \<noteq> RunCancelling \<Longrightarrow>
    run_step s (setRun (run\<lparr>run_Status := RunRunning, run_StartedAt := Some now,
      run_Attempt := (run_Attempt run)\<lparr>att_Status := AttemptRunning, att_StartedAt := Some now\<rparr>\<rparr>) s)"
| succeed: "ms_runs s (run_ID run) = Some run \<Longrightarrow> att_Status (run_Attempt run) = AttemptRunning \<Longrightarrow>
    run_Status run \<noteq> RunCancelling \<Longrightarrow>
    run_step s (setRun (run\<lparr>run_Status := RunSucceeded, run_Result := Some res, run_CompletedAt := Some now,
      run_Attempt := (run_Attempt run)\<lparr>att_Status := AttemptSucceeded, att_CompletedAt := Some now\<rparr>\<rparr>)
      (releaseNode (att_NodeID (run_Attempt run)) s))"
| fail: "ms_runs s (run_ID run) = Some run \<Longrightarrow> active (run_Attempt run) \<Longrightarrow>
    run_Status run \<noteq> RunCancelling \<Longrightarrow>
    run_step s (setRun (run\<lparr>run_Status := RunFailed, run_Error := cause, run_CompletedAt := Some now,
      run_Attempt := (run_Attempt run)\<lparr>att_Status := AttemptFailed, att_CompletedAt := Some now\<rparr>\<rparr>)
      (releaseNode (att_NodeID (run_Attempt run)) s))"
| lost_fail: "ms_runs s (run_ID run) = Some run \<Longrightarrow> att_Status (run_Attempt run) = AttemptRunning \<Longrightarrow>
    run_Status run = RunRunning \<Longrightarrow>
    run_step s (setRun (run\<lparr>run_Attempt := (run_Attempt run)\<lparr>att_Status := AttemptLost, att_CompletedAt := Some now\<rparr>,
      run_Status := RunFailed, run_Error := cause, run_CompletedAt := Some now\<rparr>)
      (releaseNode (att_NodeID (run_Attempt run)) s))"
| lost_retry: "ms_runs s (run_ID run) = Some run \<Longrightarrow> att_Status (run_Attempt run) = AttemptRunning \<Longrightarrow>
    run_Status run = RunRunning \<Longrightarrow>
    att_Number (run_Attempt run) < rp_MaxAttempts (rq_Retry (request_of s (run_ID run))) \<Longrightarrow>
    lost = (run_Attempt run)\<lparr>att_Status := AttemptLost, att_CompletedAt := Some now\<rparr> \<Longrightarrow>
    attempt = zero_Attempt\<lparr>att_ID := id_text ''attempt'' (draw s 12 (w_drawn s)),
      att_Number := att_Number (run_Attempt run) + 1, att_Status := AttemptQueued, att_AvailableAt := available\<rparr> \<Longrightarrow>
    run_step s (setRun (run\<lparr>run_Attempt := attempt, run_Status := RunQueued, run_Error := [],
        run_StartedAt := None, run_CompletedAt := None\<rparr>)
      ((releaseNode (att_NodeID (run_Attempt run)) s)\<lparr>w_drawn := Suc (w_drawn s),
        ms_attemptHistory := (ms_attemptHistory s)
          (run_ID run := butlast (ms_attemptHistory s (run_ID run)) @ [lost, attempt])\<rparr>))"
| cancel_request: "ms_runs s (run_ID run) = Some run \<Longrightarrow> \<not> terminalRun (run_Status run) \<Longrightarrow>
    run_CancelRequestedAt run = None \<Longrightarrow> att_Status (run_Attempt run) \<noteq> AttemptQueued \<Longrightarrow>
    run_step s (setRun (run\<lparr>run_CancelRequestedAt := Some now, run_CancelReason := reason,
      run_Status := RunCancelling\<rparr>) s)"
| cancel_queued: "ms_runs s (run_ID run) = Some run \<Longrightarrow> \<not> terminalRun (run_Status run) \<Longrightarrow>
    run_CancelRequestedAt run = None \<Longrightarrow> att_Status (run_Attempt run) = AttemptQueued \<Longrightarrow>
    run_step s (setRun (run\<lparr>run_CancelRequestedAt := Some now, run_CancelReason := reason,
        run_Attempt := (run_Attempt run)\<lparr>att_Status := AttemptCancelled, att_CompletedAt := Some now\<rparr>,
        run_Status := RunCancelled, run_CancelledAt := Some now, run_CompletedAt := Some now\<rparr>)
      (releaseNode (att_NodeID (run_Attempt run)) s))"
| cancel_final: "ms_runs s (run_ID run) = Some run \<Longrightarrow> run_Status run = RunCancelling \<Longrightarrow>
    active (run_Attempt run) \<Longrightarrow>
    run_step s (setRun (run\<lparr>run_Attempt := (run_Attempt run)\<lparr>att_Status := AttemptCancelled, att_CompletedAt := Some now\<rparr>,
        run_Status := RunCancelled, run_CancelledAt := Some now, run_CompletedAt := Some now\<rparr>)
      (releaseNode (att_NodeID (run_Attempt run)) s))"

text \<open>A new run enters with the next two identifiers of the entropy source.\<close>

inductive submit_step :: "MemoryStorage \<Rightarrow> MemoryStorage \<Rightarrow> bool" where
  submit: "ms_byIdempotency s (run_scope run) = None \<Longrightarrow>
    run_ID run = id_text ''run'' (draw s 12 (w_drawn s)) \<Longrightarrow>
    run_Attempt run = zero_Attempt\<lparr>att_ID := id_text ''attempt'' (draw s 12 (Suc (w_drawn s))),
      att_Number := 1, att_Status := AttemptQueued, att_AvailableAt := available\<rparr> \<Longrightarrow>
    run_Status run = RunQueued \<Longrightarrow> run_CancelRequestedAt run = None \<Longrightarrow> run_CompletedAt run = None \<Longrightarrow>
    run_CancelledAt run = None \<Longrightarrow> run_Result run = None \<Longrightarrow>
    submit_step s ((setRun run (s\<lparr>w_drawn := Suc (Suc (w_drawn s))\<rparr>))\<lparr>
      ms_attemptHistory := (ms_attemptHistory s)(run_ID run := [run_Attempt run]),
      ms_requests := (ms_requests s)(run_ID run \<mapsto> request),
      ms_byIdempotency := (ms_byIdempotency s)(run_scope run \<mapsto> run_ID run)\<rparr>)"

definition lifecycle_step :: "MemoryStorage \<Rightarrow> MemoryStorage \<Rightarrow> bool" where
  "lifecycle_step s s' \<longleftrightarrow> run_step s s' \<or> submit_step s s'"

section \<open>Lemmas about one updated run\<close>

lemma holders_upd:
  "holders (runs(rid \<mapsto> run')) n = (if holds n run' then insert rid (holders runs n) else holders runs n - {rid})"
  by (auto simp: holders_def)

lemma holders_finite: "finite (dom runs) \<Longrightarrow> finite (holders runs n)"
  by (rule finite_subset [of _ "dom runs"]) (auto simp: holders_def)

lemma holders_mem: "runs rid = Some run \<Longrightarrow> rid \<in> holders runs n \<longleftrightarrow> holds n run"
  by (auto simp: holders_def)

lemma holders_same:
  assumes "runs rid = Some run" and "holds n run' = holds n run"
  shows "holders (runs(rid \<mapsto> run')) n = holders runs n"
  using assms by (auto simp: holders_upd holders_def)

lemma runs_inv_upd:
  assumes "runs_inv s" "ms_runs s' = (ms_runs s)(rid \<mapsto> run')" "run_ID run' = rid" "run_ok run'"
  shows "runs_inv s'"
  using assms by (auto simp: runs_inv_def)

lemma nodes_inv_keep:
  assumes inv: "nodes_inv s" and run: "ms_runs s rid = Some run"
    and runs: "ms_runs s' = (ms_runs s)(rid \<mapsto> run')" and nodes: "ms_nodes s' = ms_nodes s"
    and same: "active (run_Attempt run') = active (run_Attempt run)"
      "att_NodeID (run_Attempt run') = att_NodeID (run_Attempt run)"
  shows "nodes_inv s'"
proof -
  have "holders (ms_runs s') n = holders (ms_runs s) n" for n
    unfolding runs by (rule holders_same [of "ms_runs s", OF run]) (simp add: holds_def same)
  then show ?thesis
    using inv run unfolding nodes_inv_def by (auto simp: runs nodes same)
qed

lemma release_other [simp]: "n \<noteq> m \<Longrightarrow> release m nodes n = nodes n"
  by (simp add: release_def split: option.split)

lemma release_None [simp]: "nodes n = None \<Longrightarrow> release n nodes = nodes"
  by (simp add: release_def)

lemma release_eq_None [simp]: "release m nodes n = None \<longleftrightarrow> nodes n = None"
  by (simp add: release_def split: option.split)

text \<open>Releasing the node of a run that stops being active keeps the accounts balanced.\<close>

lemma nodes_inv_release:
  assumes inv: "nodes_inv s" and fin: "finite (dom (ms_runs s))" and run: "ms_runs s rid = Some run"
    and act: "active (run_Attempt run)"
    and runs: "ms_runs s' = (ms_runs s)(rid \<mapsto> run')"
    and nodes: "ms_nodes s' = release (att_NodeID (run_Attempt run)) (ms_nodes s)"
    and inact: "\<not> active (run_Attempt run')"
  shows "nodes_inv s'"
proof -
  let ?n = "att_NodeID (run_Attempt run)"
  have hold: "holds ?n run" using act by (simp add: holds_def)
  have nohold: "\<not> holds n run'" for n using inact by (simp add: holds_def)
  have mem: "rid \<in> holders (ms_runs s) ?n" using run hold by (auto simp: holders_def)
  have finh: "finite (holders (ms_runs s) n)" for n by (rule holders_finite [OF fin])
  obtain node where node: "ms_nodes s ?n = Some node"
    using inv run act unfolding nodes_inv_def by blast
  have pos: "node_Active node = int (card (holders (ms_runs s) ?n))"
    using inv node unfolding nodes_inv_def by blast
  then have gt: "node_Active node > 0" using mem finh by (auto simp: card_gt_0_iff)
  have nodes': "ms_nodes s' = (ms_nodes s)(?n \<mapsto> node\<lparr>node_Active := node_Active node - 1\<rparr>)"
    by (simp add: nodes release_def node gt)
  have hold': "holders (ms_runs s') n = holders (ms_runs s) n - {rid}" for n
    by (simp add: runs holders_upd nohold)
  have other: "n \<noteq> ?n \<Longrightarrow> holders (ms_runs s') n = holders (ms_runs s) n" for n
    using holders_mem [of "ms_runs s", OF run] by (simp add: hold' holds_def)
  have dec: "int (card (holders (ms_runs s') ?n)) = node_Active node - 1"
    using mem finh pos gt by (simp add: hold' card_Diff_singleton_if of_nat_diff card_gt_0_iff Suc_le_eq)
  show ?thesis
    using inv inact unfolding nodes_inv_def
    by (auto simp: nodes' runs dec [unfolded runs] other [unfolded runs] node)
qed

lemma nodes_inv_acquire:
  assumes inv: "nodes_inv s" and fin: "finite (dom (ms_runs s))" and run: "ms_runs s rid = Some run"
    and inact: "\<not> active (run_Attempt run)" and node: "ms_nodes s n = Some node"
    and runs: "ms_runs s' = (ms_runs s)(rid \<mapsto> run')"
    and nodes: "ms_nodes s' = (ms_nodes s)(n \<mapsto> node\<lparr>node_Active := node_Active node + 1\<rparr>)"
    and act: "active (run_Attempt run')" "att_NodeID (run_Attempt run') = n"
  shows "nodes_inv s'"
proof -
  have fresh: "rid \<notin> holders (ms_runs s) m" for m using run inact by (auto simp: holders_def holds_def)
  have finh: "finite (holders (ms_runs s) m)" for m by (rule holders_finite [OF fin])
  have hold': "holders (ms_runs s') m = (if m = n then insert rid (holders (ms_runs s) m) else holders (ms_runs s) m)" for m
    using act fresh by (auto simp: runs holders_upd holds_def)
  show ?thesis
    using inv act node unfolding nodes_inv_def
    by (auto simp: nodes runs hold' [unfolded runs] card_insert_disjoint [OF finh fresh])
qed

lemma events_inv_frame:
  assumes "events_inv s" "ms_events s' = ms_events s" "dom (ms_runs s) \<subseteq> dom (ms_runs s')"
  shows "events_inv s'"
  using assms unfolding events_inv_def by (metis domIff subsetD)

lemma history_inv_upd:
  assumes "history_inv s" "ms_runs s rid = Some run" "ms_runs s' = (ms_runs s)(rid \<mapsto> run')"
    "ms_requests s' = ms_requests s" "ms_attemptHistory s' = ms_attemptHistory s"
    "att_Number (run_Attempt run') = att_Number (run_Attempt run)"
    "att_ID (run_Attempt run') = att_ID (run_Attempt run)"
  shows "history_inv s'"
  using assms by (auto simp: history_inv_def request_of_def)

lemma idempotency_inv_upd:
  assumes "idempotency_inv s" "ms_runs s rid = Some run" "ms_runs s' = (ms_runs s)(rid \<mapsto> run')"
    "ms_byIdempotency s' = ms_byIdempotency s" "run_scope run' = run_scope run"
  shows "idempotency_inv s'"
proof -
  from assms(1,2) have "run_scope run = scope" if "ms_byIdempotency s scope = Some rid" for scope
    using that by (fastforce simp: idempotency_inv_def)
  with assms show ?thesis unfolding idempotency_inv_def by auto
qed

lemma issued_mono:
  assumes "w_rand s' = w_rand s" "w_drawn s \<le> w_drawn s'"
  shows "issued s p \<subseteq> issued s' p"
  using assms by (auto simp: issued_def draw_def intro: less_le_trans)

lemma issued_next: "id_text p (draw s 12 k) \<in> issued s p" if "k < w_drawn s"
  using that by (auto simp: issued_def)

lemma ids_inv_upd:
  assumes "ids_inv s" "ms_runs s rid = Some run" "ms_runs s' = (ms_runs s)(rid \<mapsto> run')"
    "w_rand s' = w_rand s" "w_drawn s \<le> w_drawn s'"
    "att_ID (run_Attempt run') \<in> issued s' ''attempt'' \<or> att_ID (run_Attempt run') = att_ID (run_Attempt run)"
    "att_LeaseToken (run_Attempt run') \<noteq> [] \<Longrightarrow> att_LeaseToken (run_Attempt run') \<in> issued s' ''lease'' \<or>
       att_LeaseToken (run_Attempt run') = att_LeaseToken (run_Attempt run)"
  shows "ids_inv s'"
proof -
  have mono: "x \<in> issued s p \<Longrightarrow> x \<in> issued s' p" for x p
    using issued_mono [OF assms(4,5)] by blast
  from assms(1,2) have old: "rid \<in> issued s ''run''" "att_ID (run_Attempt run) \<in> issued s ''attempt''"
    "att_LeaseToken (run_Attempt run) \<noteq> [] \<Longrightarrow> att_LeaseToken (run_Attempt run) \<in> issued s ''lease''"
    by (auto simp: ids_inv_def)
  show ?thesis
    unfolding ids_inv_def
  proof (intro allI impI)
    fix r x
    assume r: "ms_runs s' r = Some x"
    show "r \<in> issued s' ''run'' \<and> att_ID (run_Attempt x) \<in> issued s' ''attempt'' \<and>
      (att_LeaseToken (run_Attempt x) \<noteq> [] \<longrightarrow> att_LeaseToken (run_Attempt x) \<in> issued s' ''lease'')"
    proof (cases "r = rid")
      case True
      with r assms(3) have "x = run'" by simp
      with True show ?thesis using assms(6,7) old mono by metis
    next
      case False
      with r assms(3) have "ms_runs s r = Some x" by simp
      then show ?thesis using assms(1) mono unfolding ids_inv_def by blast
    qed
  qed
qed


section \<open>Every transition keeps the invariant\<close>

lemma storage_invD:
  assumes "storage_inv s"
  shows "runs_inv s" "nodes_inv s" "events_inv s" "history_inv s" "idempotency_inv s" "ids_inv s"
    and "finite (dom (ms_runs s))"
  using assms by (auto simp: storage_inv_def runs_inv_def)

lemma storage_inv_run:
  assumes "storage_inv s" "ms_runs s rid = Some run"
  shows "run_ID run = rid" "run_ok run"
  using assms by (auto simp: storage_inv_def runs_inv_def)

lemma storage_inv_frame:
  assumes "storage_inv s" "ms_nodes s' = ms_nodes s" "ms_runs s' = ms_runs s" "ms_requests s' = ms_requests s"
    "ms_events s' = ms_events s" "ms_byIdempotency s' = ms_byIdempotency s"
    "ms_attemptHistory s' = ms_attemptHistory s" "w_rand s' = w_rand s" "w_drawn s \<le> w_drawn s'"
  shows "storage_inv s'"
proof -
  have "x \<in> issued s p \<Longrightarrow> x \<in> issued s' p" for x p
    using issued_mono [OF assms(8,9)] by blast
  then have "ids_inv s'"
    using storage_invD(6) [OF assms(1)] by (simp add: ids_inv_def assms(3))
  with assms show ?thesis
    by (simp add: storage_inv_def runs_inv_def nodes_inv_def events_inv_def history_inv_def
        idempotency_inv_def request_of_def)
qed

lemma storage_inv_run_upd:
  assumes inv: "storage_inv s" and run: "ms_runs s rid = Some run"
    and runs: "ms_runs s' = (ms_runs s)(rid \<mapsto> run')"
    and frame: "ms_requests s' = ms_requests s" "ms_events s' = ms_events s"
      "ms_byIdempotency s' = ms_byIdempotency s" "ms_attemptHistory s' = ms_attemptHistory s"
      "w_rand s' = w_rand s" "w_drawn s \<le> w_drawn s'"
    and run': "run_ID run' = rid" "run_ok run'" "run_scope run' = run_scope run"
      "att_Number (run_Attempt run') = att_Number (run_Attempt run)"
      "att_ID (run_Attempt run') = att_ID (run_Attempt run)"
      "att_LeaseToken (run_Attempt run') \<noteq> [] \<Longrightarrow> att_LeaseToken (run_Attempt run') \<in> issued s' ''lease'' \<or>
         att_LeaseToken (run_Attempt run') = att_LeaseToken (run_Attempt run)"
    and nodes: "nodes_inv s'"
  shows "storage_inv s'"
proof -
  note invs = storage_invD [OF inv]
  have "dom (ms_runs s) \<subseteq> dom (ms_runs s')" by (auto simp: runs)
  then have "events_inv s'" by (rule events_inv_frame [OF invs(3) frame(2)])
  moreover have "runs_inv s'" by (rule runs_inv_upd [OF invs(1) runs run'(1,2)])
  moreover have "history_inv s'" by (rule history_inv_upd [OF invs(4) run runs frame(1,4) run'(4,5)])
  moreover have "idempotency_inv s'" by (rule idempotency_inv_upd [OF invs(5) run runs frame(3) run'(3)])
  moreover have "ids_inv s'" by (rule ids_inv_upd [OF invs(6) run runs frame(5,6)]) (use run' in auto)
  ultimately show ?thesis using nodes by (simp add: storage_inv_def)
qed

lemmas run_ok_simps = run_ok_def Let_def active_def terminalRun_def status_ok_def

lemma status_ok_cases:
  assumes "run_ok run"
  shows "att_Status (run_Attempt run) = AttemptLeased \<Longrightarrow> run_Status run = RunQueued \<or> run_Status run = RunCancelling"
    "att_Status (run_Attempt run) = AttemptRunning \<Longrightarrow> run_Status run = RunRunning \<or> run_Status run = RunCancelling"
    "att_Status (run_Attempt run) = AttemptQueued \<Longrightarrow> run_Status run = RunQueued \<or> run_Status run = RunCancelling"
  using assms by (auto simp: run_ok_simps split: RunStatus.splits)

lemma storage_inv_keep:
  assumes inv: "storage_inv s" and run: "ms_runs s (run_ID run) = Some run"
    and run': "run_ID run' = run_ID run" "run_ok run'" "run_scope run' = run_scope run"
      "att_Number (run_Attempt run') = att_Number (run_Attempt run)"
      "att_ID (run_Attempt run') = att_ID (run_Attempt run)"
      "att_LeaseToken (run_Attempt run') = att_LeaseToken (run_Attempt run)"
      "att_NodeID (run_Attempt run') = att_NodeID (run_Attempt run)"
      "active (run_Attempt run') = active (run_Attempt run)"
  shows "storage_inv (setRun run' s)"
proof (rule storage_inv_run_upd [OF inv run, of "setRun run' s" run'])
  show "nodes_inv (setRun run' s)"
    by (rule nodes_inv_keep [OF storage_invD(2) [OF inv] run, of _ run']) (use run' in simp_all)
qed (use run' in simp_all)

lemma storage_inv_release:
  assumes inv: "storage_inv s" and run: "ms_runs s (run_ID run) = Some run"
    and run': "run_ID run' = run_ID run" "run_ok run'" "run_scope run' = run_scope run"
      "att_Number (run_Attempt run') = att_Number (run_Attempt run)"
      "att_ID (run_Attempt run') = att_ID (run_Attempt run)"
      "att_LeaseToken (run_Attempt run') = [] \<or> att_LeaseToken (run_Attempt run') = att_LeaseToken (run_Attempt run)"
    and act: "active (run_Attempt run)" "\<not> active (run_Attempt run')"
  shows "storage_inv (setRun run' (releaseNode (att_NodeID (run_Attempt run)) s))"
proof (rule storage_inv_run_upd [OF inv run, of _ run'])
  show "nodes_inv (setRun run' (releaseNode (att_NodeID (run_Attempt run)) s))"
    by (rule nodes_inv_release [OF storage_invD(2) [OF inv] storage_invD(7) [OF inv] run act(1), of _ run'])
      (use run' act in simp_all)
qed (use run' in auto)

lemma storage_inv_event:
  assumes inv: "storage_inv s" and run: "ms_runs s (run_ID run) \<noteq> None"
  shows "storage_inv (appendEvent run ty v s)"
proof -
  let ?s = "appendEvent run ty v s"
  have "events_inv ?s"
    using storage_invD(3) [OF inv] run
    by (auto simp: events_inv_def nth_append new_event_def less_Suc_eq)
  moreover have "storage_inv (?s\<lparr>ms_events := ms_events s\<rparr>)"
    by (rule storage_inv_frame [OF inv]) simp_all
  ultimately show ?thesis
    by (simp add: storage_inv_def runs_inv_def nodes_inv_def history_inv_def idempotency_inv_def
        ids_inv_def request_of_def issued_def draw_def)
qed

lemma rename_last_events:
  "ms_events (rename_last (run_ID run) eid (appendEvent run ty v s)) =
     (ms_events s)(run_ID run := ms_events s (run_ID run) @ [(new_event run ty v s)\<lparr>ev_ID := eid\<rparr>])"
  by (simp add: rename_last_def)

lemma rename_last_frame [simp]:
  "ms_nodes (rename_last r e s) = ms_nodes s" "ms_runs (rename_last r e s) = ms_runs s"
  "ms_requests (rename_last r e s) = ms_requests s" "ms_byIdempotency (rename_last r e s) = ms_byIdempotency s"
  "ms_attemptHistory (rename_last r e s) = ms_attemptHistory s"
  "w_rand (rename_last r e s) = w_rand s" "w_drawn (rename_last r e s) = w_drawn s"
  "w_clock (rename_last r e s) = w_clock s" "w_ticks (rename_last r e s) = w_ticks s"
  by (simp_all add: rename_last_def)

lemma storage_inv_producer_event:
  assumes inv: "storage_inv s" and run: "ms_runs s (run_ID run) \<noteq> None"
  shows "storage_inv (rename_last (run_ID run) eid (appendEvent run ty v s))"
proof -
  let ?s = "rename_last (run_ID run) eid (appendEvent run ty v s)"
  have "events_inv ?s"
    using storage_invD(3) [OF inv] run
    by (auto simp: events_inv_def nth_append new_event_def rename_last_events less_Suc_eq)
  moreover have "storage_inv (appendEvent run ty v s)" by (rule storage_inv_event [OF inv run])
  ultimately show ?thesis
    by (simp add: storage_inv_def runs_inv_def nodes_inv_def history_inv_def idempotency_inv_def
        ids_inv_def request_of_def issued_def draw_def)
qed


lemma storage_inv_node:
  assumes inv: "storage_inv s" and n: "n \<noteq> []" "reg_ID (node_Registration node') = n"
    and act: "case ms_nodes s n of None \<Rightarrow> node_Active node' = 0 | Some node \<Rightarrow> node_Active node' = node_Active node"
  shows "storage_inv (s\<lparr>w_ticks := t, ms_nodes := (ms_nodes s)(n \<mapsto> node')\<rparr>)"
proof -
  let ?s = "s\<lparr>w_ticks := t, ms_nodes := (ms_nodes s)(n \<mapsto> node')\<rparr>"
  have none: "holders (ms_runs s) n = {}" if "ms_nodes s n = None"
    using storage_invD(2) [OF inv] that unfolding nodes_inv_def holders_def holds_def by blast
  have "nodes_inv ?s"
    using storage_invD(2) [OF inv] n act none
    by (auto simp: nodes_inv_def split: option.splits)
  moreover have "storage_inv (?s\<lparr>ms_nodes := ms_nodes s\<rparr>)"
    by (rule storage_inv_frame [OF inv]) simp_all
  ultimately show ?thesis
    by (simp add: storage_inv_def runs_inv_def events_inv_def history_inv_def idempotency_inv_def
        ids_inv_def request_of_def issued_def draw_def)
qed

lemma storage_inv_register: "storage_inv s \<Longrightarrow> reg_ID reg \<noteq> [] \<Longrightarrow> storage_inv (fst (RegisterNode reg s))"
  by (auto simp: RegisterNode_def storage_simps Let_def intro!: storage_inv_node split: option.splits)

lemma storage_inv_heartbeat: "storage_inv s \<Longrightarrow> storage_inv (fst (Heartbeat n s))"
  using storage_invD(2) [of s]
  by (auto simp: Heartbeat_def storage_simps Let_def nodes_inv_def intro!: storage_inv_node split: option.splits)

lemma id_text_inj: "id_text p a = id_text p b \<Longrightarrow> a = b"
  by (auto simp: id_text_def dest: hex_EncodeToString_inj)

lemma id_text_nonempty [simp]: "id_text p a \<noteq> []"
  by (simp add: id_text_def)

text \<open>A value drawn without collision is new.\<close>

lemma draw_fresh:
  assumes "inj_on (draw s 12) {..<m}" "w_drawn s \<le> k" "k < m"
  shows "id_text p (draw s 12 k) \<notin> issued s p"
proof
  assume "id_text p (draw s 12 k) \<in> issued s p"
  then obtain j where j: "j < w_drawn s" "draw s 12 k = draw s 12 j"
    by (auto simp: issued_def dest: id_text_inj)
  with assms have "k = j" by (intro inj_onD [OF assms(1)]) auto
  with j assms show False by simp
qed

lemma storage_inv_lease:
  assumes inv: "storage_inv s" and run: "ms_runs s (run_ID run) = Some run"
    and queued: "run_Status run = RunQueued" "att_Status (run_Attempt run) = AttemptQueued"
    and node: "ms_nodes s n = Some node"
    and run': "run' = run\<lparr>run_Attempt := (run_Attempt run)\<lparr>att_Status := AttemptLeased, att_NodeID := n,
        att_LeaseToken := id_text ''lease'' (draw s 12 (w_drawn s)), att_LeaseExpiresAt := Some e\<rparr>\<rparr>"
    and s': "s' = setRun run' (s\<lparr>w_drawn := Suc (w_drawn s),
         ms_nodes := (ms_nodes s)(n \<mapsto> node\<lparr>node_Active := node_Active node + 1\<rparr>)\<rparr>)"
  shows "storage_inv s'"
proof -
  have n: "n \<noteq> []" using storage_invD(2) [OF inv] node by (auto simp: nodes_inv_def)
  have ok: "run_ok run'"
    using storage_inv_run(2) [OF inv run] queued n by (auto simp: run_ok_simps run')
  have nodes: "nodes_inv s'"
    by (rule nodes_inv_acquire [OF storage_invD(2) [OF inv] storage_invD(7) [OF inv] run _ node, of _ run'])
      (use queued in \<open>simp_all add: run' s' active_def\<close>)
  have "id_text ''lease'' (draw s 12 (w_drawn s)) \<in> issued s' ''lease''"
    by (auto simp: issued_def s' draw_def)
  then show ?thesis
    by (intro storage_inv_run_upd [OF inv run, of s' run'])
      (use ok nodes in \<open>simp_all add: s' run' run_scope_def\<close>)
qed

lemma storage_inv_retry:
  assumes inv: "storage_inv s" and run: "ms_runs s (run_ID run) = Some run"
    and running: "run_Status run = RunRunning" "att_Status (run_Attempt run) = AttemptRunning"
    and bound: "att_Number (run_Attempt run) < rp_MaxAttempts (rq_Retry (request_of s (run_ID run)))"
    and lost: "lost = (run_Attempt run)\<lparr>att_Status := AttemptLost, att_CompletedAt := Some now\<rparr>"
    and attempt: "attempt = zero_Attempt\<lparr>att_ID := id_text ''attempt'' (draw s 12 (w_drawn s)),
      att_Number := att_Number (run_Attempt run) + 1, att_Status := AttemptQueued, att_AvailableAt := available\<rparr>"
    and run': "run' = run\<lparr>run_Attempt := attempt, run_Status := RunQueued, run_Error := [],
        run_StartedAt := None, run_CompletedAt := None\<rparr>"
    and s': "s' = setRun run'
      ((releaseNode (att_NodeID (run_Attempt run)) s)\<lparr>w_drawn := Suc (w_drawn s),
        ms_attemptHistory := (ms_attemptHistory s)
          (run_ID run := butlast (ms_attemptHistory s (run_ID run)) @ [lost, attempt])\<rparr>)"
  shows "storage_inv s'"
proof -
  note invs = storage_invD [OF inv]
  have ok: "run_ok run'"
    using storage_inv_run(2) [OF inv run] running by (auto simp: run_ok_simps run' attempt zero_Attempt_def)
  have runs: "ms_runs s' = (ms_runs s)(run_ID run \<mapsto> run')" by (simp add: s' run')
  have "nodes_inv s'"
    by (rule nodes_inv_release [OF invs(2) invs(7) run _ runs])
      (use running in \<open>simp_all add: s' run' attempt active_def\<close>)
  moreover have "runs_inv s'" by (rule runs_inv_upd [OF invs(1) runs _ ok]) (simp add: run')
  moreover have "events_inv s'" by (rule events_inv_frame [OF invs(3)]) (auto simp: s')
  moreover have "idempotency_inv s'"
    by (rule idempotency_inv_upd [OF invs(5) run runs]) (simp_all add: s' run' run_scope_def)
  moreover have "ids_inv s'"
    by (rule ids_inv_upd [OF invs(6) run runs])
      (auto simp: s' run' attempt zero_Attempt_def issued_def draw_def)
  moreover have "history_inv s'"
  proof -
    let ?h = "ms_attemptHistory s (run_ID run)"
    from invs(4) run have h: "?h \<noteq> []" "int (length ?h) = att_Number (run_Attempt run)"
      "\<And>i. i < length ?h \<Longrightarrow> att_Number (?h ! i) = int i + 1"
      by (auto simp: history_inv_def)
    have num: "att_Number ((butlast ?h @ [lost, attempt]) ! i) = int i + 1" if "i < Suc (length ?h)" for i
    proof -
      consider "i < length ?h - 1" | "i = length ?h - 1" | "i = length ?h" using \<open>i < Suc (length ?h)\<close> by linarith
      then show ?thesis
        using h by cases (auto simp: nth_append nth_butlast lost attempt of_nat_diff Suc_le_eq)
    qed
    with h invs(4) run bound show ?thesis
      by (auto simp: history_inv_def s' run' attempt request_of_def max_attempts_def zero_Attempt_def)
  qed
  ultimately show ?thesis by (simp add: storage_inv_def)
qed

lemma storage_inv_submit:
  assumes inv: "storage_inv s" and new: "ms_byIdempotency s (run_scope run) = None"
    and rid: "run_ID run = id_text ''run'' (draw s 12 (w_drawn s))"
    and att: "run_Attempt run = zero_Attempt\<lparr>att_ID := id_text ''attempt'' (draw s 12 (Suc (w_drawn s))),
      att_Number := 1, att_Status := AttemptQueued, att_AvailableAt := available\<rparr>"
    and st: "run_Status run = RunQueued" "run_CancelRequestedAt run = None" "run_CompletedAt run = None"
      "run_CancelledAt run = None" "run_Result run = None"
    and s': "s' = (setRun run (s\<lparr>w_drawn := Suc (Suc (w_drawn s))\<rparr>))\<lparr>
      ms_attemptHistory := (ms_attemptHistory s)(run_ID run := [run_Attempt run]),
      ms_requests := (ms_requests s)(run_ID run \<mapsto> request),
      ms_byIdempotency := (ms_byIdempotency s)(run_scope run \<mapsto> run_ID run)\<rparr>"
    and nc: "no_collision s'"
  shows "storage_inv s'"
proof -
  note invs = storage_invD [OF inv]
  have "draw s' = draw s" by (rule draw_cong) (simp add: s')
  with nc have inj: "inj_on (draw s 12) {..<Suc (Suc (w_drawn s))}"
    by (simp add: no_collision_def) (simp add: s')
  have "run_ID run \<notin> issued s ''run''"
    unfolding rid by (rule draw_fresh [OF inj]) simp_all
  then have fresh: "ms_runs s (run_ID run) = None"
    using invs(6) unfolding ids_inv_def by (meson not_Some_eq)
  then have fresh_sel: "ms_runs s rid = Some x \<Longrightarrow> rid \<noteq> run_ID run" for rid x by auto
  have runs: "ms_runs s' = (ms_runs s)(run_ID run \<mapsto> run)" by (simp add: s')
  have inact: "\<not> active (run_Attempt run)" by (simp add: att active_def)
  have ok: "run_ok run" using st by (simp add: run_ok_simps att zero_Attempt_def)
  have "runs_inv s'" by (rule runs_inv_upd [OF invs(1) runs refl ok])
  moreover have "nodes_inv s'"
  proof -
    have "holders (ms_runs s') n = holders (ms_runs s) n" for n
      using fresh inact by (auto simp: runs holders_def holds_def)
    then show ?thesis using invs(2) inact unfolding nodes_inv_def by (simp add: s')
  qed
  moreover have "events_inv s'" by (rule events_inv_frame [OF invs(3)]) (auto simp: s')
  moreover have "history_inv s'"
    using invs(4) fresh_sel
    by (auto simp: history_inv_def s' att request_of_def max_attempts_def zero_Attempt_def)
  moreover have "idempotency_inv s'"
  proof -
    have a: "ms_byIdempotency s scope \<noteq> Some (run_ID run)" for scope
      using invs(5) fresh unfolding idempotency_inv_def by fastforce
    have b: "ms_runs s rid = Some x \<Longrightarrow> run_scope x \<noteq> run_scope run" for rid x
      using invs(5) new unfolding idempotency_inv_def by fastforce
    show ?thesis
      using invs(5) unfolding idempotency_inv_def s' by (auto simp: a dest: b fresh_sel)
  qed
  moreover have "ids_inv s'"
  proof -
    have mono: "x \<in> issued s p \<Longrightarrow> x \<in> issued s' p" for x p
      using issued_mono [of s' s] by (auto simp: s')
    have "run_ID run \<in> issued s' ''run''" "att_ID (run_Attempt run) \<in> issued s' ''attempt''"
      by (auto simp: issued_def s' rid att draw_def)
    then show ?thesis
      using invs(6) mono unfolding ids_inv_def by (simp add: runs att zero_Attempt_def)
  qed
  ultimately show ?thesis by (simp add: storage_inv_def)
qed

theorem run_step_inv:
  assumes "run_step s s'" "storage_inv s"
  shows "storage_inv s'"
  using assms
proof (induction rule: run_step.induct)
  case (event s run ty v)
  then show ?case by (intro storage_inv_event) simp_all
next
  case (producer_event s run eid ty v)
  then show ?case by (intro storage_inv_producer_event) simp_all
next
  case (lease s run n node e)
  then show ?case by (intro storage_inv_lease [OF _ lease.hyps refl refl]) simp_all
next
  case (lost_retry s run lost now attempt available)
  then show ?case by (intro storage_inv_retry [OF _ lost_retry.hyps(1,3,2,4-) refl refl]) simp_all
next
  case (renew s run e)
  then show ?case
    using storage_inv_run [OF renew.prems(1) renew.hyps(1)]
    by (intro storage_inv_keep) (auto simp: run_ok_simps run_scope_def split: RunStatus.splits)
next
  case (start s run now)
  then show ?case
    using storage_inv_run [OF start.prems(1) start.hyps(1)]
    by (intro storage_inv_keep) (auto simp: run_ok_simps run_scope_def split: RunStatus.splits)
next
  case (cancel_request s run now reason)
  then show ?case
    using storage_inv_run [OF cancel_request.prems(1) cancel_request.hyps(1)]
    by (intro storage_inv_keep) (auto simp: run_ok_simps run_scope_def split: RunStatus.splits)
next
  case (requeue s run)
  then show ?case
    using storage_inv_run [OF requeue.prems(1) requeue.hyps(1)]
    by (intro storage_inv_release) (auto simp: run_ok_simps run_scope_def split: RunStatus.splits)
next
  case (succeed s run res now)
  then show ?case
    using storage_inv_run [OF succeed.prems(1) succeed.hyps(1)]
    by (intro storage_inv_release) (auto simp: run_ok_simps run_scope_def split: RunStatus.splits)
next
  case (fail s run cause now)
  then show ?case
    using storage_inv_run [OF fail.prems(1) fail.hyps(1)]
    by (intro storage_inv_release) (auto simp: run_ok_simps run_scope_def split: RunStatus.splits)
next
  case (lost_fail s run cause now)
  then show ?case
    using storage_inv_run [OF lost_fail.prems(1) lost_fail.hyps(1)]
    by (intro storage_inv_release) (auto simp: run_ok_simps run_scope_def split: RunStatus.splits)
next
  case (cancel_final s run now)
  then show ?case
    using storage_inv_run [OF cancel_final.prems(1) cancel_final.hyps(1)]
    by (intro storage_inv_release) (auto simp: run_ok_simps run_scope_def split: RunStatus.splits)
next
  case (cancel_queued s run now reason)
  note ok = storage_inv_run [OF cancel_queued.prems(1) cancel_queued.hyps(1)]
  have keep: "releaseNode (att_NodeID (run_Attempt run)) s = s"
    using ok cancel_queued.hyps storage_invD(2) [OF cancel_queued.prems(1)]
    by (auto simp: run_ok_simps releaseNode_def nodes_inv_def split: option.splits)
  show ?case
    unfolding keep
    by (rule storage_inv_keep [OF cancel_queued.prems(1) cancel_queued.hyps(1)])
      (use ok cancel_queued.hyps in \<open>auto simp: run_ok_simps run_scope_def split: RunStatus.splits\<close>)
qed (simp_all add: storage_inv_register storage_inv_heartbeat storage_inv_frame [where s' = "_\<lparr>w_ticks := _\<rparr>"]
      storage_inv_frame [where s' = "_\<lparr>w_drawn := _\<rparr>"]
      storage_inv_frame [where s' = "_\<lparr>ms_artifacts := _, ms_artifactRuns := _, ms_capabilityCalls := _, ms_interactions := _\<rparr>"])

lemma submit_step_inv:
  assumes "submit_step s s'" "no_collision s'" "storage_inv s"
  shows "storage_inv s'"
  using assms
proof (induction rule: submit_step.induct)
  case (submit s run available request)
  then show ?case by (intro storage_inv_submit [OF _ submit.hyps refl]) simp_all
qed

theorem lifecycle_step_inv:
  assumes "lifecycle_step s s'" "no_collision s'" "storage_inv s"
  shows "storage_inv s'"
  using assms run_step_inv submit_step_inv unfolding lifecycle_step_def by blast

section \<open>Safety of every transition\<close>

lemma RegisterNode_frame [simp]:
  "ms_runs (fst (RegisterNode reg s)) = ms_runs s" "ms_events (fst (RegisterNode reg s)) = ms_events s"
  "w_rand (fst (RegisterNode reg s)) = w_rand s" "w_clock (fst (RegisterNode reg s)) = w_clock s"
  "w_drawn (fst (RegisterNode reg s)) = w_drawn s"
  "ms_requests (fst (RegisterNode reg s)) = ms_requests s"
  by (simp_all add: RegisterNode_def storage_simps Let_def)

lemma Heartbeat_frame [simp]:
  "ms_runs (fst (Heartbeat n s)) = ms_runs s" "ms_events (fst (Heartbeat n s)) = ms_events s"
  "w_rand (fst (Heartbeat n s)) = w_rand s" "w_clock (fst (Heartbeat n s)) = w_clock s"
  "w_drawn (fst (Heartbeat n s)) = w_drawn s"
  "ms_requests (fst (Heartbeat n s)) = ms_requests s"
  by (simp_all add: Heartbeat_def storage_simps Let_def split: option.split)

lemma lifecycle_step_world:
  assumes "lifecycle_step s s'"
  shows "w_rand s' = w_rand s" "w_clock s' = w_clock s" "w_drawn s \<le> w_drawn s'"
  using assms by (auto simp: lifecycle_step_def elim!: run_step.cases submit_step.cases)

lemma lifecycle_step_events:
  assumes "lifecycle_step s s'"
  shows "\<exists>new. ms_events s' rid = ms_events s rid @ new"
  using assms by (auto simp: lifecycle_step_def rename_last_events elim!: run_step.cases submit_step.cases)

text \<open>
  A run that is terminal, or that is being cancelled while no node holds it, takes part in no
  transition.
\<close>

definition frozen :: "Run \<Rightarrow> bool" where
  "frozen run \<longleftrightarrow> terminalRun (run_Status run) \<or>
     (run_Status run = RunCancelling \<and> att_Status (run_Attempt run) = AttemptQueued)"

lemma fresh_run:
  assumes "storage_inv s" "inj_on (draw s 12) {..<Suc (w_drawn s)}"
  shows "ms_runs s (id_text ''run'' (draw s 12 (w_drawn s))) = None"
proof -
  have "id_text ''run'' (draw s 12 (w_drawn s)) \<notin> issued s ''run''"
    by (rule draw_fresh [OF assms(2)]) simp_all
  then show ?thesis using storage_invD(6) [OF assms(1)] unfolding ids_inv_def by (meson not_Some_eq)
qed

lemma no_collision_mono:
  assumes "no_collision s'" "w_rand s' = w_rand s" "w_drawn s \<le> w_drawn s'"
  shows "no_collision s"
  using assms unfolding no_collision_def draw_cong [OF assms(2)] by (auto intro: inj_on_subset)

lemma no_collision_draws:
  assumes "no_collision s'" "w_rand s' = w_rand s" "m \<le> w_drawn s'"
  shows "inj_on (draw s 12) {..<m}"
  using assms unfolding no_collision_def draw_cong [OF assms(2)] by (auto intro: inj_on_subset)

text \<open>The run that a transition writes is never a frozen one.\<close>

definition movable :: "Run \<Rightarrow> bool" where
  "movable run \<longleftrightarrow> active (run_Attempt run) \<or>
     (run_Status run = RunQueued \<and> att_Status (run_Attempt run) = AttemptQueued) \<or>
     (\<not> terminalRun (run_Status run) \<and> run_CancelRequestedAt run = None)"

lemma frozen_not_movable: "frozen run \<Longrightarrow> run_ok run \<Longrightarrow> \<not> movable run"
  by (auto simp: frozen_def movable_def run_ok_simps split: RunStatus.splits)

lemma run_step_writes:
  assumes "run_step s s'"
  shows "ms_runs s' rid = ms_runs s rid \<or> (\<exists>run. ms_runs s rid = Some run \<and> movable run)"
  using assms by (induction rule: run_step.induct) (simp_all add: movable_def active_def, blast+)

lemma submit_step_writes:
  assumes "submit_step s s'" "storage_inv s" "no_collision s'" "ms_runs s rid = Some run"
  shows "ms_runs s' rid = Some run"
  using assms
proof (induction rule: submit_step.induct)
  case (submit s new available request)
  then have "ms_runs s (run_ID new) = None"
    unfolding submit.hyps(2) by (intro fresh_run no_collision_draws [OF submit.prems(2)]) simp_all
  with submit.prems show ?case by auto
qed

lemma lifecycle_step_frozen:
  assumes step: "lifecycle_step s s'" and inv: "storage_inv s" and nc: "no_collision s'"
    and run: "ms_runs s rid = Some run" "frozen run"
  shows "ms_runs s' rid = Some run"
  using step submit_step_writes [OF _ inv nc run(1)] run_step_writes [of s s' rid] run
    frozen_not_movable [OF run(2) storage_inv_run(2) [OF inv run(1)]]
  by (auto simp: lifecycle_step_def)

text \<open>A lease token that a run does not carry any more.\<close>

definition stale :: "MemoryStorage \<Rightarrow> string \<Rightarrow> string \<Rightarrow> bool" where
  "stale s rid token \<longleftrightarrow> token \<in> issued s ''lease'' \<and>
     (\<forall>run. ms_runs s rid = Some run \<longrightarrow> att_LeaseToken (run_Attempt run) \<noteq> token)"

lemma run_step_tokens:
  assumes "run_step s s'" "ms_runs s' rid = Some run'"
  shows "\<exists>run. ms_runs s rid = Some run \<and> att_LeaseToken (run_Attempt run') \<in>
    {[], att_LeaseToken (run_Attempt run)} \<union> {id_text ''lease'' (draw s 12 k) | k. w_drawn s \<le> k \<and> k < w_drawn s'}"
  using assms by (induction rule: run_step.induct) (auto simp: zero_Attempt_def split: if_splits)

lemma lifecycle_step_stale:
  assumes step: "lifecycle_step s s'" and nc: "no_collision s'" and stale: "stale s rid token"
  shows "stale s' rid token"
proof -
  note world = lifecycle_step_world [OF step]
  have "token \<in> issued s' ''lease''"
    using issued_mono [OF world(1,3)] stale by (auto simp: stale_def)
  moreover have "att_LeaseToken (run_Attempt run') \<noteq> token" if "ms_runs s' rid = Some run'" for run'
  proof -
    have fresh: "token \<noteq> id_text ''lease'' (draw s 12 k)" if "w_drawn s \<le> k" "k < w_drawn s'" for k
      using draw_fresh [OF no_collision_draws [OF nc world(1) order_refl] that] stale by (auto simp: stale_def)
    have ne: "token \<noteq> []" using stale by (auto simp: stale_def issued_def)
    from step show ?thesis
      using run_step_tokens [OF _ \<open>ms_runs s' rid = Some run'\<close>] fresh ne stale that
      by (fastforce simp: lifecycle_step_def stale_def zero_Attempt_def elim!: submit_step.cases split: if_splits)
  qed
  ultimately show ?thesis by (simp add: stale_def)
qed

text \<open>What never changes of a run.\<close>

definition same_run :: "Run \<Rightarrow> Run \<Rightarrow> bool" where
  "same_run run run' \<longleftrightarrow> run_ID run' = run_ID run \<and> run_TenantID run' = run_TenantID run \<and>
     run_ProjectID run' = run_ProjectID run \<and> run_IdempotencyKey run' = run_IdempotencyKey run \<and>
     run_DeadlineAt run' = run_DeadlineAt run \<and> run_CreatedAt run' = run_CreatedAt run \<and>
     att_Number (run_Attempt run) \<le> att_Number (run_Attempt run')"

lemma same_run_refl [simp]: "same_run run run"
  by (simp add: same_run_def)

lemma same_run_trans: "same_run a b \<Longrightarrow> same_run b c \<Longrightarrow> same_run a c"
  by (auto simp: same_run_def)

lemma run_step_same_run:
  assumes "run_step s s'" "ms_runs s rid = Some run"
  shows "\<exists>run'. ms_runs s' rid = Some run' \<and> same_run run run'"
  using assms by (induction rule: run_step.induct) (auto simp: same_run_def)

lemma lifecycle_step_same_run:
  assumes "lifecycle_step s s'" "storage_inv s" "no_collision s'" "ms_runs s rid = Some run"
  shows "\<exists>run'. ms_runs s' rid = Some run' \<and> same_run run run'"
  using assms run_step_same_run submit_step_writes unfolding lifecycle_step_def
  by (metis same_run_refl)

lemma storage_inv_NewMemoryStorage: "w_drawn w = 0 \<Longrightarrow> storage_inv (NewMemoryStorage w)"
  by (simp add: storage_inv_def runs_inv_def nodes_inv_def events_inv_def history_inv_def
      idempotency_inv_def ids_inv_def NewMemoryStorage_def world.defs)

end
