(* ===== verification/Memory_Refinement.thy ===== *)
theory Memory_Refinement
  imports Memory_Lifecycle
begin

text \<open>
  Every method of \<open>MemoryStorage\<close> is a sequence of lifecycle transitions, on every branch, the
  failing ones included. The methods' step relation \<open>storage_step\<close> therefore inherits the
  invariant and the safety properties of \<open>Memory_Lifecycle\<close>.
\<close>

section \<open>Sequences of transitions\<close>

abbreviation run_steps :: "MemoryStorage \<Rightarrow> MemoryStorage \<Rightarrow> bool" where
  "run_steps \<equiv> run_step\<^sup>*\<^sup>*"

lemma run_steps_inv: "run_steps s s' \<Longrightarrow> storage_inv s \<Longrightarrow> storage_inv s'"
  by (induction rule: rtranclp_induct) (auto intro: run_step_inv)

lemma run_steps_event:
  "run_steps s t \<Longrightarrow> ms_runs t (run_ID run) \<noteq> None \<Longrightarrow> run_steps s (appendEvent run ty v t)"
  by (erule rtranclp.rtrancl_into_rtrancl) (rule run_step.event)

lemma run_steps_tick: "run_steps s t \<Longrightarrow> run_steps s (t\<lparr>w_ticks := Suc (w_ticks t)\<rparr>)"
  by (erule rtranclp.rtrancl_into_rtrancl) (rule run_step.tick)

lemma run_steps_tick1: "run_steps s (s\<lparr>w_ticks := Suc (w_ticks s)\<rparr>)"
  by (rule run_steps_tick) simp

lemma run_steps_after_tick: "run_steps (s\<lparr>w_ticks := Suc (w_ticks s)\<rparr>) t \<Longrightarrow> run_steps s t"
  by (rule converse_rtranclp_into_rtranclp) (rule run_step.tick)

lemmas run_steps_one = r_into_rtranclp [of run_step]

lemmas run_steps_intros = run_steps_event run_step.lease [THEN run_steps_one] run_step.renew [THEN run_steps_one]
  run_step.requeue [THEN run_steps_one] run_step.start [THEN run_steps_one] run_step.succeed [THEN run_steps_one]
  run_step.fail [THEN run_steps_one] run_step.cancel_request [THEN run_steps_one]
  run_step.cancel_queued [THEN run_steps_one] run_step.cancel_final [THEN run_steps_one]

lemma run_steps_same_run:
  "run_steps s s' \<Longrightarrow> ms_runs s rid = Some run \<Longrightarrow> \<exists>run'. ms_runs s' rid = Some run' \<and> same_run run run'"
  by (induction rule: rtranclp_induct) (auto dest: run_step_same_run intro: same_run_trans)

lemma run_step_dom: "run_step s s' \<Longrightarrow> dom (ms_runs s') = dom (ms_runs s)"
proof -
  assume step: "run_step s s'"
  have "ms_runs s' rid = None \<longleftrightarrow> ms_runs s rid = None" for rid
    using step by (induction rule: run_step.induct) auto
  then show ?thesis by (simp add: dom_def)
qed

lemma run_steps_dom: "run_steps s s' \<Longrightarrow> dom (ms_runs s') = dom (ms_runs s)"
  by (induction rule: rtranclp_induct) (simp_all add: run_step_dom)

lemmas storage_push = setRun_appendEvent releaseNode_appendEvent releaseNode_setRun setRun_setRun

lemma tick_frame [simp]:
  "storage_inv (s\<lparr>w_ticks := n\<rparr>) = storage_inv s"
  by (simp add: storage_inv_def runs_inv_def nodes_inv_def events_inv_def history_inv_def
      idempotency_inv_def ids_inv_def request_of_def issued_def draw_def)

section \<open>The internal helpers\<close>

text \<open>A run record read from the map.\<close>

definition stored :: "MemoryStorage \<Rightarrow> Run \<Rightarrow> bool" where
  "stored s run \<longleftrightarrow> ms_runs s (run_ID run) = Some run"

lemma storedI: "storage_inv s \<Longrightarrow> ms_runs s rid = Some run \<Longrightarrow> stored s run"
  using storage_inv_run(1) by (fastforce simp: stored_def)

lemma stored_tick [simp]: "stored (s\<lparr>w_ticks := n\<rparr>) run = stored s run"
  by (simp add: stored_def)

lemma requeueExpired_steps: "stored s run \<Longrightarrow> run_steps s (requeueExpired run now s)"
  by (auto simp: requeueExpired_def Let_def storage_push stored_def intro!: run_steps_intros)

lemma finalizeCancellation_steps:
  assumes "stored s run" "run_Status run = RunCancelled \<or> run_Status run = RunCancelling \<and> active (run_Attempt run)"
  shows "run_steps s (finalizeCancellation run now s)"
  using assms by (auto simp: finalizeCancellation_def Let_def storage_push stored_def intro!: run_steps_intros)

lemma cancelRunLocked_steps:
  assumes "stored s run"
  shows "run_steps s (cancelRunLocked run request now s)"
proof (cases "terminalRun (run_Status run) \<or> run_CancelRequestedAt run \<noteq> None")
  case False
  then have "run_Status run \<noteq> RunCancelled" by (auto simp: terminalRun_def)
  with False assms show ?thesis
    by (simp add: cancelRunLocked_def finalizeCancellation_def Let_def storage_push stored_def)
      (intro conjI impI run_steps_event; (simp add: run_steps_intros)?)
qed (auto simp: cancelRunLocked_def)

lemma authorize_Inr:
  assumes "authorize rid aid lease s = (t, Inr run)"
  shows "t = s\<lparr>w_ticks := Suc (w_ticks s)\<rparr>" "ms_runs s rid = Some run" "att_ID (run_Attempt run) = aid"
    "lease \<noteq> []" "att_LeaseToken (run_Attempt run) = lease"
    "\<exists>e. att_LeaseExpiresAt (run_Attempt run) = Some e \<and> w_clock s (w_ticks s) < e"
  using assms by (auto simp: authorize_def storage_simps Let_def split: option.splits if_splits)

lemma authorize_Inl:
  assumes "authorize rid aid lease s = (t, Inl e)"
  shows "e = ErrNotFound \<or> e = ErrInvalidLease"
  using assms by (auto simp: authorize_def storage_simps Let_def split: option.splits if_splits)

lemma authorize_steps:
  assumes "storage_inv s"
  shows "run_steps s (fst (authorize rid aid lease s))"
proof (cases "ms_runs s rid")
  case (Some run)
  then have stored: "stored s run" by (rule storedI [OF assms])
  have one: "run_steps s (requeueExpired run now (s\<lparr>w_ticks := Suc (w_ticks s)\<rparr>))" for now
    by (rule run_steps_after_tick, rule requeueExpired_steps) (simp add: stored)
  have two: "run_steps s (requeueExpired run now (s\<lparr>w_ticks := Suc (Suc (w_ticks s))\<rparr>))" for now
    using run_steps_after_tick [OF run_steps_after_tick, of s] requeueExpired_steps [of "s\<lparr>w_ticks := Suc (Suc (w_ticks s))\<rparr>" run now]
    by (simp add: stored)
  show ?thesis
    using Some one two
    by (simp add: authorize_def storage_simps Let_def run_steps_tick1 split: option.split)
qed (simp add: authorize_def)

text \<open>
  A method that first authorizes the caller: the rest runs with a stored run whose attempt and lease
  are the caller's.
\<close>

lemma authorized_steps:
  assumes inv: "storage_inv s"
    and op: "f = (case authorize rid aid lease s of (s, Inl e) \<Rightarrow> (s, Inl e) | (s, Inr run) \<Rightarrow> g run s)"
    and body: "\<And>run t. stored t run \<Longrightarrow> storage_inv t \<Longrightarrow> run_ID run = rid \<Longrightarrow> run_ok run \<Longrightarrow>
      att_LeaseToken (run_Attempt run) \<noteq> [] \<Longrightarrow> run_steps t (fst (g run t))"
  shows "run_steps s (fst f)"
proof -
  obtain t r where a: "authorize rid aid lease s = (t, r)" by fastforce
  show ?thesis
  proof (cases r)
    case (Inl e)
    with a op show ?thesis using authorize_steps [OF inv, of rid aid lease] by simp
  next
    case (Inr run)
    with a have "authorize rid aid lease s = (t, Inr run)" by simp
    note run = authorize_Inr [OF this]
    have "run_steps t (fst (g run t))"
      using run inv storage_inv_run [OF inv run(2)] by (intro body) (auto simp: stored_def)
    then have "run_steps s (fst (g run t))" unfolding run(1) by (rule run_steps_after_tick)
    with a op Inr show ?thesis by simp
  qed
qed

lemma authorized_active:
  assumes "run_ok run" "att_LeaseToken (run_Attempt run) \<noteq> []" "run_Status run = RunCancelling"
  shows "active (run_Attempt run)"
  using assms by (auto simp: run_ok_simps)

section \<open>The methods\<close>

lemma run_steps_trans: "run_steps s t \<Longrightarrow> run_steps t u \<Longrightarrow> run_steps s u"
  by (rule rtranclp_trans)

lemma tick_steps: "run_steps (s\<lparr>w_ticks := Suc (w_ticks s)\<rparr>) t \<Longrightarrow> run_steps s t"
  by (rule run_steps_after_tick)

lemma finalizeCancellation_tick_steps:
  assumes "stored s run" "run_Status run = RunCancelled \<or> run_Status run = RunCancelling \<and> active (run_Attempt run)"
  shows "run_steps s (finalizeCancellation run now (s\<lparr>w_ticks := Suc (w_ticks s)\<rparr>))"
  by (rule tick_steps, rule finalizeCancellation_steps) (use assms in simp_all)

lemma run_step_side_update:
  "run_step s (s\<lparr>ms_artifacts := a, ms_artifactRuns := b\<rparr>)" "run_step s (s\<lparr>ms_capabilityCalls := c\<rparr>)"
  "run_step s (s\<lparr>ms_interactions := d\<rparr>)"
  using run_step.side [where s = s and a = a and b = b and c = "ms_capabilityCalls s" and d = "ms_interactions s"]
    run_step.side [where s = s and a = "ms_artifacts s" and b = "ms_artifactRuns s" and c = c and d = "ms_interactions s"]
    run_step.side [where s = s and a = "ms_artifacts s" and b = "ms_artifactRuns s" and c = "ms_capabilityCalls s" and d = d]
  by simp_all

lemma RegisterNode_steps: "reg_ID reg \<noteq> [] \<Longrightarrow> run_steps s (fst (RegisterNode reg s))"
  by (intro run_steps_one run_step.register)

lemma Heartbeat_steps: "run_steps s (fst (Heartbeat n s))"
  by (intro run_steps_one run_step.heartbeat)

lemma Renew_steps:
  assumes "storage_inv s"
  shows "run_steps s (fst (Renew a ttl s))"
proof (rule authorized_steps [OF assms Renew_def], goal_cases)
  case (1 run t)
  then have "run_steps t (setRun (run\<lparr>run_Attempt := (run_Attempt run)\<lparr>att_LeaseExpiresAt := Some e\<rparr>\<rparr>)
      (t\<lparr>w_ticks := Suc (w_ticks t)\<rparr>))" if "active (run_Attempt run)" for e
    using that by (intro tick_steps [OF run_steps_intros(3)]) (simp_all add: stored_def)
  then show ?case
    by (simp add: storage_simps Let_def active_def run_steps_tick1)
qed

lemma CancelRun_steps:
  assumes "storage_inv s"
  shows "run_steps s (fst (CancelRun rid request s))"
proof (cases "ms_runs s rid")
  case (Some run)
  then have "run_steps s (cancelRunLocked run request now (s\<lparr>w_ticks := Suc (w_ticks s)\<rparr>))" for now
    by (intro tick_steps [OF cancelRunLocked_steps]) (simp add: storedI [OF assms Some])
  with Some show ?thesis by (simp add: CancelRun_def storage_simps Let_def)
qed (simp add: CancelRun_def)

lemma AcknowledgeCancellation_steps:
  assumes "storage_inv s"
  shows "run_steps s (fst (AcknowledgeCancellation a s))"
proof (rule authorized_steps [OF assms AcknowledgeCancellation_def], goal_cases)
  case (1 run t)
  then show ?case
    by (simp add: storage_simps Let_def finalizeCancellation_tick_steps authorized_active)
qed

lemma Start_steps:
  assumes "storage_inv s"
  shows "run_steps s (fst (Start a s))"
proof (rule authorized_steps [OF assms Start_def], goal_cases)
  case (1 run t)
  let ?run = "\<lambda>now. run\<lparr>run_Status := RunRunning, run_StartedAt := Some now,
      run_Attempt := (run_Attempt run)\<lparr>att_Status := AttemptRunning, att_StartedAt := Some now\<rparr>\<rparr>"
  have two: "run_steps t u" if "run_steps (t\<lparr>w_ticks := Suc (Suc (w_ticks t))\<rparr>) u" for u
    using that tick_steps [of t] tick_steps [of "t\<lparr>w_ticks := Suc (w_ticks t)\<rparr>"] by simp
  have start: "run_steps u (setRun (?run now) u)" if "stored u run" "att_Status (run_Attempt run) = AttemptLeased"
      "run_Status run \<noteq> RunCancelling" for u now
    using that by (intro run_steps_intros) (simp_all add: stored_def)
  have fin: "att_Status (run_Attempt run) = AttemptLeased \<Longrightarrow> run_Status run = RunCancelling \<Longrightarrow>
      run_steps t (finalizeCancellation run now (t\<lparr>w_ticks := Suc (w_ticks t)\<rparr>))" for now
    using 1 by (intro finalizeCancellation_tick_steps) (simp_all add: active_def)
  show ?case
    using 1 by (auto simp: storage_simps Let_def fin split: option.splits
        intro!: run_steps_event two [OF start] two [OF requeueExpired_steps] tick_steps [OF start])
qed

lemma AppendEvent_steps:
  assumes "storage_inv s"
  shows "run_steps s (fst (AppendEvent rid aid lease ty data ids s))"
proof (rule authorized_steps [OF assms AppendEvent_def], goal_cases)
  case (1 run t)
  then have "run_steps t (appendEvent run ty data t)" by (intro run_steps_event) (auto simp: stored_def)
  moreover have "run_steps t (rename_last rid (EventIdentity aid lease ids) (appendEvent run ty data t))"
    if "EventIdentity aid lease ids \<noteq> []" "find_event (EventIdentity aid lease ids) (ms_events t rid) = None"
    using 1 that run_step.producer_event [of t run, OF _ refl] by (intro run_steps_one) (auto simp: stored_def)
  ultimately show ?case by (auto simp: Let_def split: option.splits sum.splits)
qed

lemma two_ticks: "run_steps (s\<lparr>w_ticks := Suc (Suc (w_ticks s))\<rparr>) t \<Longrightarrow> run_steps s t"
  using tick_steps [of s] tick_steps [of "s\<lparr>w_ticks := Suc (w_ticks s)\<rparr>"] by simp

lemma Complete_steps:
  assumes "storage_inv s"
  shows "run_steps s (fst (Complete a res s))"
proof (cases "ms_runs s (as_RunID a)")
  case (Some run)
  note stored = storedI [OF assms Some]
  let ?s2 = "s\<lparr>w_ticks := Suc (Suc (w_ticks s))\<rparr>"
  have "run_steps s (setRun (run\<lparr>run_Status := RunSucceeded, run_Result := Some res, run_CompletedAt := Some now,
      run_Attempt := (run_Attempt run)\<lparr>att_Status := AttemptSucceeded, att_CompletedAt := Some now\<rparr>\<rparr>)
      (releaseNode (att_NodeID (run_Attempt run)) ?s2))"
    if "att_Status (run_Attempt run) = AttemptRunning" "run_Status run \<noteq> RunCancelling" for now
    by (rule two_ticks, rule run_steps_intros) (use stored that in \<open>simp_all add: stored_def\<close>)
  with Some stored show ?thesis
    by (auto simp: Complete_def storage_simps storage_push Let_def stored_def run_steps_tick1 split: option.split
        intro!: run_steps_event)
qed (simp add: Complete_def)

lemma Fail_steps:
  assumes "storage_inv s"
  shows "run_steps s (fst (Fail a cause s))"
proof (cases "ms_runs s (as_RunID a)")
  case (Some run)
  note stored = storedI [OF assms Some]
  let ?s2 = "s\<lparr>w_ticks := Suc (Suc (w_ticks s))\<rparr>"
  have fail: "run_steps s (setRun (run\<lparr>run_Status := RunFailed, run_Error := cause, run_CompletedAt := Some now,
      run_Attempt := (run_Attempt run)\<lparr>att_Status := AttemptFailed, att_CompletedAt := Some now\<rparr>\<rparr>)
      (releaseNode (att_NodeID (run_Attempt run)) ?s2))"
    if "active (run_Attempt run)" "run_Status run \<noteq> RunCancelling" for now
    by (rule two_ticks, rule run_steps_intros) (use stored that in \<open>simp_all add: stored_def\<close>)
  have fin: "run_steps s (finalizeCancellation run now ?s2)"
    if "active (run_Attempt run)" "run_Status run = RunCancelling" for now
    by (rule two_ticks, rule finalizeCancellation_steps) (use stored that in simp_all)
  show ?thesis
    using Some stored fail fin
    by (auto simp: Fail_def storage_simps storage_push Let_def stored_def run_steps_tick1 active_def
        split: option.split intro!: run_steps_event)
qed (simp add: Fail_def)

lemma side_steps:
  "run_steps s (s\<lparr>ms_artifacts := a, ms_artifactRuns := b\<rparr>)" "run_steps s (s\<lparr>ms_capabilityCalls := c\<rparr>)"
  "run_steps s (s\<lparr>ms_interactions := d\<rparr>)"
  "run_steps s (s\<lparr>w_drawn := Suc (w_drawn s), ms_capabilityCalls := c\<rparr>)"
  "run_steps s (s\<lparr>w_drawn := Suc (w_drawn s), w_ticks := Suc (w_ticks s), ms_interactions := d\<rparr>)"
  "run_steps s (s\<lparr>w_ticks := Suc (w_ticks s), ms_interactions := d\<rparr>)"
  using converse_rtranclp_into_rtranclp [of run_step, OF run_step.draw_id [of s]]
    converse_rtranclp_into_rtranclp [of run_step, OF run_step.tick [of "s\<lparr>w_drawn := Suc (w_drawn s)\<rparr>"]]
    tick_steps [of s] run_step_side_update [THEN run_steps_one]
  by simp_all

lemma AddArtifact_steps:
  assumes "storage_inv s"
  shows "run_steps s (fst (AddArtifact a artifact s))"
proof (rule authorized_steps [OF assms AddArtifact_def], goal_cases)
  case (1 run t)
  then show ?case by (auto simp: Let_def stored_def intro!: run_steps_event side_steps)
qed

lemma ReserveCapability_steps:
  assumes "storage_inv s"
  shows "run_steps s (fst (ReserveCapability a key hash s))"
proof (rule authorized_steps [OF assms ReserveCapability_def], goal_cases)
  case (1 run t)
  then show ?case by (simp add: Let_def storage_simps side_steps split: option.split)
qed

lemma FinishCapability_steps:
  assumes "storage_inv s"
  shows "run_steps s (fst (FinishCapability order a rsv res cause s))"
proof (rule authorized_steps [OF assms FinishCapability_def], goal_cases)
  case (1 run t)
  then show ?case by (auto simp: Let_def stored_def split: option.split intro!: run_steps_event side_steps)
qed

lemma CreateInteraction_steps:
  assumes "storage_inv s"
  shows "run_steps s (fst (CreateInteraction a request s))"
proof (rule authorized_steps [OF assms CreateInteraction_def], goal_cases)
  case (1 run t)
  then show ?case
    by (auto simp: Let_def storage_simps stored_def split: option.split intro!: run_steps_event side_steps)
qed

lemma GetInteraction_steps:
  assumes "storage_inv s"
  shows "run_steps s (fst (GetInteraction a iid s))"
  by (rule authorized_steps [OF assms GetInteraction_def]) simp

lemma ResolveInteraction_steps:
  assumes "storage_inv s"
  shows "run_steps s (fst (ResolveInteraction iid response tenant project s))"
  using storedI [OF assms]
  by (auto simp: ResolveInteraction_def Let_def storage_simps stored_def split: option.split
      intro!: run_steps_event side_steps)

section \<open>The sweeps\<close>

lemma claim_sweep_one_steps:
  assumes inv: "storage_inv s"
  shows "run_steps s (claim_sweep_one now rid s)"
proof (cases "ms_runs s rid")
  case (Some run)
  define t where "t = (if reached (run_DeadlineAt run) now \<and> run_CancelRequestedAt run = None
    then cancelRunLocked run timeoutRequest now s else s)"
  have st: "run_steps s t"
    using cancelRunLocked_steps [OF storedI [OF inv Some]] by (simp add: t_def)
  have inv_t: "storage_inv t" by (rule run_steps_inv [OF st inv])
  have "run_steps t (finalizeCancellation run' now t)"
    if "ms_runs t rid = Some run'" "run_Status run' = RunCancelling" "active (run_Attempt run')" for run'
    using storedI [OF inv_t that(1)] that by (intro finalizeCancellation_steps) simp_all
  moreover have "run_steps t (requeueExpired run' now t)" if "ms_runs t rid = Some run'" for run'
    by (rule requeueExpired_steps [OF storedI [OF inv_t that]])
  ultimately have "run_steps s (case ms_runs t rid of None \<Rightarrow> t | Some run \<Rightarrow>
      let a = run_Attempt run in
            if run_Status run = RunCancelling \<and>
               (att_Status a = AttemptLeased \<or> att_Status a = AttemptRunning) \<and>
               reached (att_LeaseExpiresAt a) now
            then finalizeCancellation run now t else requeueExpired run now t)"
    using st by (auto simp: Let_def active_def split: option.split intro: run_steps_trans)
  then show ?thesis by (simp add: claim_sweep_one_def Some t_def [symmetric] Let_def)
qed (simp add: claim_sweep_one_def)

lemma claim_sweep_steps: "storage_inv s \<Longrightarrow> run_steps s (claim_sweep now order s)"
proof (induction order arbitrary: s)
  case (Cons rid order)
  note one = claim_sweep_one_steps [OF Cons.prems, of now rid]
  from Cons.IH [OF run_steps_inv [OF one Cons.prems]] one show ?case
    by (simp add: claim_sweep_def)
qed (simp add: claim_sweep_def)

lemma leaseRun_steps:
  assumes "stored s run" "claimable now run" "ms_nodes s n = Some node"
  shows "run_steps s (fst (leaseRun n ttl now node run s))"
  using assms
  by (auto simp: leaseRun_def claimable_def storage_simps Let_def stored_def
      intro!: run_steps_intros)

lemma claim_pick_steps: "storage_inv s \<Longrightarrow> run_steps s (fst (claim_pick sv n ttl now order s))"
  by (induction order) (auto split: option.split intro: leaseRun_steps storedI)

lemma Claim_steps:
  assumes "storage_inv s"
  shows "run_steps s (fst (Claim sv order1 order2 n ttl s))"
proof -
  let ?t = "s\<lparr>w_ticks := Suc (w_ticks s)\<rparr>"
  have sweep: "run_steps ?t (claim_sweep now order1 ?t)" for now
    by (rule claim_sweep_steps) (simp add: assms)
  have "storage_inv (claim_sweep now order1 ?t)" for now
    by (rule run_steps_inv [OF sweep]) (simp add: assms)
  then have "run_steps s (fst (claim_pick sv n ttl now order2 (claim_sweep now order1 ?t)))" for now
    by (intro tick_steps [OF run_steps_trans [OF sweep claim_pick_steps]])
  then show ?thesis by (simp add: Claim_def storage_simps Let_def split: option.split)
qed

lemma reconcile_deadlines_steps:
  "storage_inv s \<Longrightarrow> run_steps s (fst (reconcile_deadlines now limit order k s))"
proof (induction order arbitrary: k s)
  case (Cons rid order)
  have "run_steps s (fst (reconcile_deadlines now limit order k' (cancelRunLocked run timeoutRequest now s)))"
    if "ms_runs s rid = Some run" for run k'
  proof -
    note c = cancelRunLocked_steps [OF storedI [OF Cons.prems that], of timeoutRequest now]
    show ?thesis by (rule run_steps_trans [OF c Cons.IH [OF run_steps_inv [OF c Cons.prems]]])
  qed
  then show ?case using Cons by (simp split: option.split)
qed simp

lemma recoverLost_steps:
  assumes stored: "stored s run" and rec: "att_Status (run_Attempt run) = AttemptRunning" "run_Status run = RunRunning"
    and inv: "storage_inv s"
  shows "run_steps s (fst (recoverLost now run s))" "snd (recoverLost now run s) = Inr ()"
proof -
  let ?a = "run_Attempt run"
  let ?lost = "run\<lparr>run_Attempt := ?a\<lparr>att_Status := AttemptLost, att_CompletedAt := Some now\<rparr>\<rparr>"
  let ?ev = "GoVal (str_obj [(''node_id'', att_NodeID ?a), (''reason'', ''lease_expired'')])"
  let ?s1 = "appendEvent ?lost ''attempt.lost'' ?ev s"
  from inv stored have hist: "ms_attemptHistory s (run_ID run) \<noteq> []"
    by (auto simp: storage_inv_def history_inv_def stored_def)
  show "snd (recoverLost now run s) = Inr ()"
    by (simp add: recoverLost_def Let_def storage_simps hist)
  show "run_steps s (fst (recoverLost now run s))"
  proof (cases "att_Number ?a \<ge> rp_MaxAttempts (rq_Retry (request_of s (run_ID run)))")
    case True
    have "run_steps s (setRun (run\<lparr>run_Attempt := ?a\<lparr>att_Status := AttemptLost, att_CompletedAt := Some now\<rparr>,
        run_Status := RunFailed, run_Error := ''attempt lease expired'', run_CompletedAt := Some now\<rparr>)
        (releaseNode (att_NodeID ?a) s))"
      by (intro run_steps_one run_step.lost_fail) (use stored rec in \<open>simp_all add: stored_def\<close>)
    then show ?thesis
      using True by (auto simp: recoverLost_def Let_def storage_push intro!: run_steps_event)
  next
    case False
    have s1: "run_steps s ?s1" using stored by (intro run_steps_event) (auto simp: stored_def)
    let ?next = "zero_Attempt\<lparr>att_ID := id_text ''attempt'' (draw ?s1 12 (w_drawn ?s1)),
      att_Number := att_Number ?a + 1, att_Status := AttemptQueued,
      att_AvailableAt := Some (now + retryBackoff (rq_Retry (request_of s (run_ID run))))\<rparr>"
    let ?s2 = "setRun (run\<lparr>run_Attempt := ?next, run_Status := RunQueued, run_Error := [],
        run_StartedAt := None, run_CompletedAt := None\<rparr>)
      ((releaseNode (att_NodeID ?a) ?s1)\<lparr>w_drawn := Suc (w_drawn ?s1),
        ms_attemptHistory := (ms_attemptHistory ?s1)(run_ID run :=
          butlast (ms_attemptHistory ?s1 (run_ID run)) @ [run_Attempt ?lost, ?next])\<rparr>)"
    have "run_step ?s1 ?s2"
      by (rule run_step.lost_retry) (use stored rec False in \<open>simp_all add: stored_def\<close>)
    with s1 have s2: "run_steps s ?s2" by (rule rtranclp.rtrancl_into_rtrancl)
    have "fst (recoverLost now run s) = appendEvent (run\<lparr>run_Attempt := ?next, run_Status := RunQueued, run_Error := [],
        run_StartedAt := None, run_CompletedAt := None\<rparr>) ''attempt.queued''
      (GoVal (JObj [(''available_at'', JTime (now + retryBackoff (rq_Retry (request_of s (run_ID run))))),
        (''number'', JNum (Itoa (att_Number ?a + 1))), (''reason'', JStr ''retry'')])) ?s2"
      using False
      by (simp add: recoverLost_def Let_def storage_simps hist)
        (simp add: appendEvent_eq setRun_def releaseNode_eq new_event_def draw_def)
    with s2 show ?thesis by (simp add: run_steps_event)
  qed
qed

lemma reconcile_expired_steps:
  "storage_inv s \<Longrightarrow> run_steps s (fst (reconcile_expired now limit order k s))"
proof (induction order arbitrary: k s)
  case (Cons rid order)
  have more: "run_steps s (fst (reconcile_expired now limit order k' t))" if "run_steps s t" for k' t
    by (rule run_steps_trans [OF that Cons.IH [OF run_steps_inv [OF that Cons.prems]]])
  show ?case
  proof (cases "ms_runs s rid")
    case (Some run)
    note stored = storedI [OF Cons.prems Some]
    have fin: "run_steps s (finalizeCancellation run now s)" if "recoverable now run" "run_Status run = RunCancelling"
      using that stored by (intro finalizeCancellation_steps) (auto simp: recoverable_def Let_def active_def)
    have lost: "run_steps s (fst (recoverLost now run s))" "snd (recoverLost now run s) = Inr ()"
      if "recoverable now run" "run_Status run \<noteq> RunCancelling"
      using that by (auto intro!: recoverLost_steps [OF stored _ _ Cons.prems] simp: recoverable_def Let_def)
    show ?thesis
      using Some Cons more fin lost
      by (cases "recoverLost now run s") auto
  qed (use Cons in simp)
qed simp

lemma Reconcile_steps:
  assumes "storage_inv s"
  shows "run_steps s (fst (Reconcile order1 order2 now limit s))"
proof -
  obtain t k where t: "reconcile_deadlines now limit order1 0 s = (t, k)" by fastforce
  with reconcile_deadlines_steps [OF assms, of now limit order1 0] have st: "run_steps s t" by simp
  from run_steps_trans [OF st reconcile_expired_steps [OF run_steps_inv [OF st assms]]]
  show ?thesis by (simp add: Reconcile_def t)
qed

section \<open>Submission\<close>

lemma idempotency_found:
  assumes "storage_inv s" "ms_byIdempotency s scope = Some rid"
  shows "\<exists>run. rid \<noteq> [] \<and> ms_runs s rid = Some run \<and> run_scope run = scope"
proof -
  from assms obtain run where run: "ms_runs s rid = Some run" "run_scope run = scope"
    unfolding storage_inv_def idempotency_inv_def by blast
  then have "rid \<in> issued s ''run''" using assms(1) by (auto simp: storage_inv_def ids_inv_def)
  with run show ?thesis by (auto simp: issued_def)
qed

definition request_scope :: "Request \<Rightarrow> string" where
  "request_scope request =
     idempotencyScope (rq_TenantID request) (rq_ProjectID request) (rq_IdempotencyKey request)"

definition submitted :: "Request \<Rightarrow> Run \<Rightarrow> MemoryStorage \<Rightarrow> MemoryStorage" where
  "submitted request run s = (setRun run (s\<lparr>w_drawn := Suc (Suc (w_drawn s))\<rparr>))\<lparr>
      ms_attemptHistory := (ms_attemptHistory s)(run_ID run := [run_Attempt run]),
      ms_requests := (ms_requests s)(run_ID run \<mapsto> request),
      ms_byIdempotency := (ms_byIdempotency s)(run_scope run \<mapsto> run_ID run)\<rparr>"

definition next_run :: "Request \<Rightarrow> MemoryStorage \<Rightarrow> Run" where
  "next_run request s = newRun request (w_clock s (w_ticks s)) (id_text ''run'' (draw s 12 (w_drawn s)))
     (id_text ''attempt'' (draw s 12 (Suc (w_drawn s))))"

lemma newRun_simps:
  "run_ID (newRun request now rid aid) = rid"
  "run_scope (newRun request now rid aid) = idempotencyScope (rq_TenantID request) (rq_ProjectID request) (rq_IdempotencyKey request)"
  "run_Status (newRun request now rid aid) = RunQueued"
  "run_TenantID (newRun request now rid aid) = rq_TenantID request"
  "run_ProjectID (newRun request now rid aid) = rq_ProjectID request"
  by (simp_all add: newRun_def Let_def run_scope_def)

lemma Submit_known:
  assumes "storage_inv s" "ms_byIdempotency s (request_scope request) = Some rid"
  obtains run where "ms_runs s rid = Some run" "run_scope run = request_scope request"
    "Submit request s = (s, Inr run)"
  using idempotency_found [OF assms] assms(2) by (auto simp: Submit_def request_scope_def)

lemma Submit_new:
  assumes "ms_byIdempotency s (request_scope request) = None"
  shows "Submit request s =
    (appendEvent (next_run request s) ''attempt.queued'' (GoVal (JObj [(''number'', JNum ''1'')]))
      (appendEvent (next_run request s) ''run.created'' (GoVal (str_obj [(''status'', RunStatus_text RunQueued)]))
        (submitted request (next_run request s) (s\<lparr>w_ticks := Suc (w_ticks s)\<rparr>))),
     Inr (next_run request s))"
  using assms
  by (simp add: Submit_def request_scope_def storage_simps Let_def draw_def next_run_def submitted_def newRun_simps)

lemma next_run_simps [simp]:
  "run_ID (next_run request s) = id_text ''run'' (draw s 12 (w_drawn s))"
  "run_scope (next_run request s) = request_scope request"
  "run_Status (next_run request s) = RunQueued"
  "run_TenantID (next_run request s) = rq_TenantID request"
  "run_ProjectID (next_run request s) = rq_ProjectID request"
  by (simp_all add: next_run_def newRun_simps request_scope_def)

lemma Submit_steps:
  assumes "storage_inv s"
  shows "lifecycle_step\<^sup>*\<^sup>* s (fst (Submit request s))"
proof (cases "ms_byIdempotency s (request_scope request)")
  case None
  let ?t = "s\<lparr>w_ticks := Suc (w_ticks s)\<rparr>"
  let ?u = "submitted request (next_run request s) ?t"
  have "submit_step ?t (submitted request (next_run request s) ?t)"
    unfolding submitted_def
    by (rule submit_step.submit [where available = "Some (w_clock s (w_ticks s))"])
      (simp_all add: None, simp_all add: next_run_def newRun_def draw_def Let_def)
  then have "lifecycle_step s ?t" "lifecycle_step ?t ?u"
    by (auto simp: lifecycle_step_def intro: run_step.tick)
  then have u: "lifecycle_step\<^sup>*\<^sup>* s ?u" by (meson rtranclp.rtrancl_into_rtrancl rtranclp.rtrancl_refl)
  have "lifecycle_step\<^sup>*\<^sup>* s (appendEvent run ty x v)"
    if "lifecycle_step\<^sup>*\<^sup>* s v" "ms_runs v (run_ID run) \<noteq> None" for run ty x v
    using that(1) run_step.event [OF that(2)] by (auto simp: lifecycle_step_def intro: rtranclp.rtrancl_into_rtrancl)
  with u show ?thesis by (simp add: Submit_new [OF None]) (simp add: submitted_def)
next
  case (Some rid)
  then show ?thesis by (rule Submit_known [OF assms]) simp
qed

section \<open>The methods' step relation\<close>

text \<open>
  One rule per method that can change the state. \<open>RegisterNode\<close> is called by the service, which
  refuses an empty node ID; nothing is assumed of the other arguments.
\<close>

inductive storage_step :: "('v, 'c) semver \<Rightarrow> MemoryStorage \<Rightarrow> MemoryStorage \<Rightarrow> bool"
  for sv :: "('v, 'c) semver" where
  "reg_ID registration \<noteq> [] \<Longrightarrow> storage_step sv s (fst (RegisterNode registration s))"
| "storage_step sv s (fst (Heartbeat nodeID s))"
| "storage_step sv s (fst (Submit request s))"
| "storage_step sv s (fst (Claim sv order1 order2 nodeID ttl s))"
| "storage_step sv s (fst (Renew assignment ttl s))"
| "storage_step sv s (fst (Reconcile order1 order2 now limit s))"
| "storage_step sv s (fst (CancelRun runID request' s))"
| "storage_step sv s (fst (AcknowledgeCancellation assignment s))"
| "storage_step sv s (fst (Start assignment s))"
| "storage_step sv s (fst (AppendEvent runID attemptID lease eventType data eventIDs s))"
| "storage_step sv s (fst (Complete assignment result s))"
| "storage_step sv s (fst (Fail assignment cause s))"
| "storage_step sv s (fst (AddArtifact assignment artifact s))"
| "storage_step sv s (fst (ReserveCapability assignment key hash s))"
| "storage_step sv s (fst (FinishCapability order assignment reservation res cause s))"
| "storage_step sv s (fst (CreateInteraction assignment request'' s))"
| "storage_step sv s (fst (GetInteraction assignment interactionID s))"
| "storage_step sv s (fst (ResolveInteraction interactionID response tenant project s))"

lemma run_steps_lifecycle: "run_steps s t \<Longrightarrow> lifecycle_step\<^sup>*\<^sup>* s t"
  by (erule rtranclp_mono [THEN predicate2D, rotated]) (auto simp: lifecycle_step_def)

lemmas method_steps = RegisterNode_steps Heartbeat_steps Claim_steps Renew_steps Reconcile_steps CancelRun_steps
  AcknowledgeCancellation_steps Start_steps AppendEvent_steps Complete_steps Fail_steps AddArtifact_steps
  ReserveCapability_steps FinishCapability_steps CreateInteraction_steps GetInteraction_steps
  ResolveInteraction_steps

lemma storage_step_lifecycle:
  assumes "storage_step sv s s'" "storage_inv s"
  shows "lifecycle_step\<^sup>*\<^sup>* s s'"
  using assms
  by (induction rule: storage_step.induct) (auto intro: run_steps_lifecycle method_steps Submit_steps)

text \<open>Lifting the safety properties to sequences of transitions.\<close>

lemma lifecycle_world:
  "lifecycle_step\<^sup>*\<^sup>* s s' \<Longrightarrow> w_rand s' = w_rand s \<and> w_drawn s \<le> w_drawn s'"
  by (induction rule: rtranclp_induct) (auto dest: lifecycle_step_world)

lemma lifecycle_no_collision: "lifecycle_step\<^sup>*\<^sup>* s s' \<Longrightarrow> no_collision s' \<Longrightarrow> no_collision s"
  using lifecycle_world no_collision_mono by blast

lemma lifecycle_induct [consumes 3, case_names refl step]:
  assumes "lifecycle_step\<^sup>*\<^sup>* s s'" "no_collision s'" "storage_inv s"
    and "P s" "\<And>t u. lifecycle_step t u \<Longrightarrow> no_collision u \<Longrightarrow> storage_inv t \<Longrightarrow> P t \<Longrightarrow> P u"
  shows "storage_inv s' \<and> P s'"
  using assms(1,2)
proof (induction rule: rtranclp_induct)
  case (step t u)
  then have "no_collision t" using lifecycle_no_collision [of t u] by blast
  with step show ?case using assms(5) lifecycle_step_inv by blast
qed (use assms in blast)

lemma lifecycle_inv: "lifecycle_step\<^sup>*\<^sup>* s s' \<Longrightarrow> no_collision s' \<Longrightarrow> storage_inv s \<Longrightarrow> storage_inv s'"
  using lifecycle_induct [of s s' "\<lambda>_. True"] by blast

lemma lifecycle_frozen:
  assumes "lifecycle_step\<^sup>*\<^sup>* s s'" "no_collision s'" "storage_inv s" "ms_runs s rid = Some run" "frozen run"
  shows "ms_runs s' rid = Some run"
  using lifecycle_induct [OF assms(1-3), of "\<lambda>t. ms_runs t rid = Some run"] assms(4,5) lifecycle_step_frozen
  by blast

lemma lifecycle_stale:
  assumes "lifecycle_step\<^sup>*\<^sup>* s s'" "no_collision s'" "storage_inv s" "stale s rid token"
  shows "stale s' rid token"
  using lifecycle_induct [OF assms(1-3), of "\<lambda>t. stale t rid token"] assms(4) lifecycle_step_stale by blast

lemma lifecycle_events:
  assumes "lifecycle_step\<^sup>*\<^sup>* s s'"
  shows "\<exists>new. ms_events s' rid = ms_events s rid @ new"
  using assms
proof (induction rule: rtranclp_induct)
  case (step t u)
  then show ?case using lifecycle_step_events [of t u rid] by auto
qed simp

lemma lifecycle_same_run:
  assumes "lifecycle_step\<^sup>*\<^sup>* s s'" "no_collision s'" "storage_inv s" "ms_runs s rid = Some run"
  shows "\<exists>run'. ms_runs s' rid = Some run' \<and> same_run run run'"
  using lifecycle_induct [OF assms(1-3), of "\<lambda>t. \<exists>run'. ms_runs t rid = Some run' \<and> same_run run run'"] assms(4)
    lifecycle_step_same_run same_run_trans same_run_refl
  by meson

section \<open>Reachable states\<close>

text \<open>
  The executions in which the entropy source has not handed out the same 96-bit value twice. (Without
  that, two runs could share an identifier.)
\<close>

inductive reachable :: "('v, 'c) semver \<Rightarrow> MemoryStorage \<Rightarrow> bool" for sv :: "('v, 'c) semver" where
  start: "w_drawn w = 0 \<Longrightarrow> reachable sv (NewMemoryStorage w)"
| step: "reachable sv s \<Longrightarrow> storage_step sv s s' \<Longrightarrow> no_collision s' \<Longrightarrow> reachable sv s'"

lemma reachable_inv: "reachable sv s \<Longrightarrow> storage_inv s"
  by (induction rule: reachable.induct)
    (auto intro: storage_inv_NewMemoryStorage lifecycle_inv storage_step_lifecycle)

text \<open>What happens after a reachable state.\<close>

inductive leads_to :: "('v, 'c) semver \<Rightarrow> MemoryStorage \<Rightarrow> MemoryStorage \<Rightarrow> bool" for sv :: "('v, 'c) semver" where
  here: "leads_to sv s s"
| later: "leads_to sv s t \<Longrightarrow> storage_step sv t u \<Longrightarrow> no_collision u \<Longrightarrow> leads_to sv s u"

lemma leads_to_reachable: "leads_to sv s t \<Longrightarrow> reachable sv s \<Longrightarrow> reachable sv t"
  by (induction rule: leads_to.induct) (auto intro: reachable.step)

lemma leads_to_induct [consumes 2, case_names here later]:
  assumes "leads_to sv s t" "storage_inv s" "P s"
    and "\<And>t u. lifecycle_step\<^sup>*\<^sup>* t u \<Longrightarrow> no_collision u \<Longrightarrow> storage_inv t \<Longrightarrow> P t \<Longrightarrow> P u"
  shows "storage_inv t \<and> P t"
  using assms
proof (induction rule: leads_to.induct)
  case (later s t u)
  then have t: "storage_inv t \<and> P t" by blast
  then have "lifecycle_step\<^sup>*\<^sup>* t u" using later.hyps(2) storage_step_lifecycle by blast
  with t later.hyps(3) later.prems(3) show ?case using lifecycle_inv by blast
qed blast

lemma leads_to_frozen:
  assumes "leads_to sv s t" "storage_inv s" "ms_runs s rid = Some run" "frozen run"
  shows "ms_runs t rid = Some run"
  using leads_to_induct [OF assms(1,2), of "\<lambda>t. ms_runs t rid = Some run"] assms(3,4) lifecycle_frozen by blast

lemma leads_to_stale:
  assumes "leads_to sv s t" "storage_inv s" "stale s rid token"
  shows "stale t rid token"
  using leads_to_induct [OF assms(1,2), of "\<lambda>t. stale t rid token"] assms(3) lifecycle_stale by blast

lemma leads_to_same_run:
  assumes "leads_to sv s t" "storage_inv s" "ms_runs s rid = Some run"
  shows "\<exists>run'. ms_runs t rid = Some run' \<and> same_run run run'"
  using leads_to_induct [OF assms(1,2), of "\<lambda>t. \<exists>run'. ms_runs t rid = Some run' \<and> same_run run run'"] assms(3)
    lifecycle_same_run same_run_trans same_run_refl
  by meson

lemma leads_to_events:
  assumes "leads_to sv s t" "storage_inv s"
  shows "\<exists>new. ms_events t rid = ms_events s rid @ new"
proof -
  have "\<exists>new. ms_events u rid = ms_events s rid @ new"
    if "lifecycle_step\<^sup>*\<^sup>* t u" "\<exists>new. ms_events t rid = ms_events s rid @ new" for t u
    using that lifecycle_events [of t u rid] by fastforce
  then show ?thesis
    using leads_to_induct [OF assms, of "\<lambda>t. \<exists>new. ms_events t rid = ms_events s rid @ new"] by blast
qed

end
