(* ===== verification/Memory_Scenario.thy ===== *)
theory Memory_Scenario
  imports Memory_Refinement
begin

text \<open>
  One concrete execution, used to exhibit reachable states: a node registers, a run is submitted, the
  node claims and starts it, and the run completes; or it is cancelled while leased and the node
  comes back after its lease expired. Identifiers stay symbolic (\<open>demo_id\<close>), so the states are
  evaluated by rewriting.
\<close>

definition demo_world :: world where
  "demo_world = \<lparr>w_clock = int, w_ticks = 0, w_rand = (\<lambda>k i. if i = 11 then word_of_nat k else 0), w_drawn = 0\<rparr>"
definition demo_semver :: "(unit, unit) semver" where
  "demo_semver = \<lparr>sv_NewVersion = (\<lambda>_. None), sv_NewConstraint = (\<lambda>_. None), sv_Check = (\<lambda>_ _. False)\<rparr>"
definition demo_registration :: NodeRegistration where
  "demo_registration = \<lparr>reg_ID = ''n1'', reg_Version = ''1'', reg_ProtocolVersion = ''1'', reg_Labels = [],
     reg_Runtimes = [\<lparr>rt_ID = ''n1/p'', rt_Provider = ''p'', rt_Version = [], rt_State = ''ready'', rt_Message = [],
       rt_DefaultModel = [], rt_Models = [], rt_ModelCatalog = [], rt_CheckedAt = None\<rparr>],
     reg_Capabilities = [], reg_Capacity = 1\<rparr>"
definition demo_request :: Request where
  "demo_request = zero_Request\<lparr>rq_TenantID := ''t'', rq_IdempotencyKey := ''k'',
     rq_Runtime := \<lparr>rr_ID = [], rr_Provider = ''p'', rr_Model = [], rr_Version = [], rr_Labels = []\<rparr>,
     rq_Retry := \<lparr>rp_MaxAttempts = 2, rp_Backoff = []\<rparr>\<rparr>"

definition demo_id :: "string \<Rightarrow> nat \<Rightarrow> string" where
  "demo_id prefix k = id_text prefix (draw demo_world 12 k)"

lemma demo_id_nonempty [simp]: "demo_id p k \<noteq> []" "[] \<noteq> demo_id p k"
  by (simp_all add: demo_id_def id_text_def)

text \<open>A state of the scenario: the entropy and the clock are those of \<open>demo_world\<close>.\<close>

definition demo_state :: "MemoryStorage \<Rightarrow> nat \<Rightarrow> nat \<Rightarrow> bool" where
  "demo_state s ticks drawn \<longleftrightarrow> w_clock s = int \<and> w_ticks s = ticks \<and> w_rand s = w_rand demo_world \<and> w_drawn s = drawn"

lemma demo_draw: "demo_state s m n \<Longrightarrow> id_text p (draw s 12 k) = demo_id p k"
  by (simp add: demo_state_def demo_id_def draw_def)

lemma demo_draw_inj: "inj_on (draw demo_world 12) {..<256}"
proof (rule inj_onI)
  fix j k assume jk: "j \<in> {..<256}" "k \<in> {..<256}" and eq: "draw demo_world 12 j = draw demo_world 12 k"
  from eq have "draw demo_world 12 j ! 11 = draw demo_world 12 k ! 11" by simp
  then have "(word_of_nat j :: 8 word) = word_of_nat k" by (simp add: draw_def demo_world_def)
  then have "unat (word_of_nat j :: 8 word) = unat (word_of_nat k :: 8 word)" by simp
  with jk show "j = k" by (simp add: unat_of_nat)
qed

lemma demo_no_collision: "demo_state s m n \<Longrightarrow> n \<le> 256 \<Longrightarrow> no_collision s"
  using demo_draw_inj draw_cong [of s demo_world]
  by (auto simp: no_collision_def demo_state_def intro: inj_on_subset)

definition at_start :: MemoryStorage where "at_start = NewMemoryStorage demo_world"
definition at_registered :: MemoryStorage where "at_registered = fst (RegisterNode demo_registration at_start)"
definition at_submitted :: MemoryStorage where "at_submitted = fst (Submit demo_request at_registered)"
definition demo_node :: Node where
  "demo_node = \<lparr>node_Registration = demo_registration, node_Active = 0, node_LastSeen = 0, node_State = []\<rparr>"

lemma at_start: "demo_state at_start 0 0" "ms_runs at_start = Map.empty" "ms_nodes at_start = Map.empty" "ms_byIdempotency at_start = Map.empty"
  "ms_events at_start = (\<lambda>_. [])" "ms_requests at_start = Map.empty" "ms_attemptHistory at_start = (\<lambda>_. [])"
  by (simp_all add: at_start_def demo_state_def NewMemoryStorage_def world.defs demo_world_def)

lemma at_registered: "demo_state at_registered 1 0" "ms_runs at_registered = Map.empty" "ms_nodes at_registered = [''n1'' \<mapsto> demo_node]" "ms_byIdempotency at_registered = Map.empty"
  "ms_events at_registered = (\<lambda>_. [])" "ms_requests at_registered = Map.empty" "ms_attemptHistory at_registered = (\<lambda>_. [])"
  using at_start by (simp_all add: at_registered_def demo_state_def RegisterNode_def storage_simps Let_def demo_registration_def demo_node_def)

definition demo_run :: Run where
  "demo_run = newRun demo_request 1 (demo_id ''run'' 0) (demo_id ''attempt'' 1)"

lemma demo_timeout: "duration_or_zero (rq_Timeout demo_request) = 0"
  by code_simp

lemma demo_run_simps [simp]:
  "run_ID demo_run = demo_id ''run'' 0" "run_Status demo_run = RunQueued" "run_DeadlineAt demo_run = None"
  "run_CancelRequestedAt demo_run = None" "run_Attempt demo_run = zero_Attempt\<lparr>att_ID := demo_id ''attempt'' 1, att_Number := 1,
     att_Status := AttemptQueued, att_AvailableAt := Some 1\<rparr>"
  using demo_timeout by (simp_all add: demo_run_def newRun_def Let_def)

lemma at_submitted_next: "next_run demo_request at_registered = demo_run"
  using at_registered(1) by (simp add: next_run_def demo_draw demo_state_def demo_draw [OF at_registered(1)] demo_run_def)

lemma at_submitted: "demo_state at_submitted 4 4" "ms_runs at_submitted = [demo_id ''run'' 0 \<mapsto> demo_run]"
   "ms_nodes at_submitted = [''n1'' \<mapsto> demo_node]" "ms_requests at_submitted = [demo_id ''run'' 0 \<mapsto> demo_request]"
  using at_registered by (simp_all add: at_submitted_def Submit_new at_submitted_next demo_state_def submitted_def)

definition at_leased_result :: "int \<Rightarrow> MemoryStorage \<times> Assignment result" where
  "at_leased_result ttl = Claim demo_semver [demo_id ''run'' 0] [demo_id ''run'' 0] ''n1'' ttl at_submitted"
definition at_leased :: "int \<Rightarrow> MemoryStorage" where "at_leased ttl = fst (at_leased_result ttl)"

definition leased_run :: "int \<Rightarrow> Run" where
  "leased_run ttl = demo_run\<lparr>run_Attempt := (run_Attempt demo_run)\<lparr>att_Status := AttemptLeased, att_NodeID := ''n1'',
     att_LeaseToken := demo_id ''lease'' 4, att_LeaseExpiresAt := Some (4 + ttl)\<rparr>\<rparr>"

definition demo_asg :: "int \<Rightarrow> Assignment" where
  "demo_asg ttl = \<lparr>as_RunID = demo_id ''run'' 0, as_AttemptID = demo_id ''attempt'' 1, as_LeaseToken = demo_id ''lease'' 4,
     as_LeaseExpiresAt = 4 + ttl, as_Request = demo_request\<rparr>"

lemma demo_match: "nodeMatches demo_semver demo_node demo_request"
  by code_simp

lemma at_leased_eq:
  "at_leased_result ttl = leaseRun ''n1'' ttl 4 demo_node demo_run (at_submitted\<lparr>w_ticks := 5\<rparr>)"
proof -
  have sweep: "claim_sweep now [demo_id ''run'' 0] (at_submitted\<lparr>w_ticks := m\<rparr>) = at_submitted\<lparr>w_ticks := m\<rparr>" for now m
    using at_submitted by (simp add: claim_sweep_def claim_sweep_one_def reached_def requeueExpired_def Let_def)
  show ?thesis
    using at_submitted demo_match
    by (simp add: at_leased_result_def Claim_def storage_simps demo_state_def sweep claimable_def request_of_def)
      (simp add: demo_node_def demo_registration_def)
qed

lemma at_leased: "demo_state (at_leased ttl) 6 6" "ms_runs (at_leased ttl) = [demo_id ''run'' 0 \<mapsto> leased_run ttl]"
   "ms_nodes (at_leased ttl) = [''n1'' \<mapsto> demo_node\<lparr>node_Active := 1\<rparr>]" "ms_requests (at_leased ttl) = [demo_id ''run'' 0 \<mapsto> demo_request]"
   "snd (at_leased_result ttl) = Inr (demo_asg ttl)"
proof -
  have st: "demo_state (at_submitted\<lparr>w_ticks := 5\<rparr>) 5 4" using at_submitted by (simp add: demo_state_def)
  show "demo_state (at_leased ttl) 6 6" "ms_runs (at_leased ttl) = [demo_id ''run'' 0 \<mapsto> leased_run ttl]"
   "ms_nodes (at_leased ttl) = [''n1'' \<mapsto> demo_node\<lparr>node_Active := 1\<rparr>]" "ms_requests (at_leased ttl) = [demo_id ''run'' 0 \<mapsto> demo_request]"
   "snd (at_leased_result ttl) = Inr (demo_asg ttl)"
    using at_submitted demo_draw [OF st]
    by (simp_all add: at_leased_def at_leased_eq leaseRun_def Let_def storage_simps demo_state_def leased_run_def
        demo_asg_def request_of_def demo_node_def)
qed

definition at_running :: MemoryStorage where "at_running = fst (Start (demo_asg 100) (at_leased 100))"
definition demo_result :: Result where "demo_result = \<lparr>res_Summary = ''ok'', res_Output = None, res_Artifacts = []\<rparr>"
definition at_done :: MemoryStorage where "at_done = fst (Complete (demo_asg 100) demo_result at_running)"

definition running_run :: Run where
  "running_run = (leased_run 100)\<lparr>run_Status := RunRunning, run_StartedAt := Some 8,
     run_Attempt := (run_Attempt (leased_run 100))\<lparr>att_Status := AttemptRunning, att_StartedAt := Some 8\<rparr>\<rparr>"

lemma at_running: "demo_state at_running 11 8" "ms_runs at_running = [demo_id ''run'' 0 \<mapsto> running_run]"
  "ms_nodes at_running = [''n1'' \<mapsto> demo_node\<lparr>node_Active := 1\<rparr>]" "ms_requests at_running = [demo_id ''run'' 0 \<mapsto> demo_request]"
  "snd (Start (demo_asg 100) (at_leased 100)) = Inr ()"
  using at_leased [of 100]
  by (simp_all add: at_running_def Start_def authorize_def Let_def storage_simps demo_state_def demo_asg_def leased_run_def running_run_def)

definition done_run :: Run where
  "done_run = running_run\<lparr>run_Status := RunSucceeded, run_Result := Some demo_result, run_CompletedAt := Some 12,
     run_Attempt := (run_Attempt running_run)\<lparr>att_Status := AttemptSucceeded, att_CompletedAt := Some 12\<rparr>\<rparr>"

lemma at_done: "demo_state at_done 15 10" "ms_runs at_done = [demo_id ''run'' 0 \<mapsto> done_run]"
  "ms_nodes at_done = [''n1'' \<mapsto> demo_node]" "ms_requests at_done = [demo_id ''run'' 0 \<mapsto> demo_request]"
  "snd (Complete (demo_asg 100) demo_result at_running) = Inr ()"
  using at_running
  by (simp_all add: at_done_def Complete_def Let_def storage_simps demo_state_def demo_asg_def leased_run_def running_run_def
     done_run_def release_def demo_node_def)

definition at_cancelling :: MemoryStorage where
  "at_cancelling = fst (CancelRun (demo_id ''run'' 0) \<lparr>cq_Reason = ''stop'', cq_RequestedBy = ''u''\<rparr> (at_leased 2))"
definition at_stuck :: MemoryStorage where "at_stuck = fst (Renew (demo_asg 2) 100 at_cancelling)"

definition cancelling_run :: Run where
  "cancelling_run = (leased_run 2)\<lparr>run_CancelRequestedAt := Some 6, run_CancelReason := ''stop'', run_Status := RunCancelling\<rparr>"

lemma at_cancelling: "demo_state at_cancelling 8 7" "ms_runs at_cancelling = [demo_id ''run'' 0 \<mapsto> cancelling_run]"
  using at_leased [of 2] by (simp_all add: at_cancelling_def CancelRun_def cancelRunLocked_def Let_def storage_simps demo_state_def leased_run_def cancelling_run_def terminalRun_def)

definition stuck_run :: Run where
  "stuck_run = cancelling_run\<lparr>run_Attempt := (run_Attempt cancelling_run)\<lparr>att_Status := AttemptQueued, att_NodeID := [],
     att_LeaseToken := [], att_LeaseExpiresAt := None\<rparr>\<rparr>"

lemma at_stuck: "demo_state at_stuck 11 8" "ms_runs at_stuck = [demo_id ''run'' 0 \<mapsto> stuck_run]"
  using at_cancelling by (simp_all add: at_stuck_def Renew_def authorize_def Let_def storage_simps demo_state_def demo_asg_def leased_run_def
    cancelling_run_def stuck_run_def requeueExpired_def reached_def)

lemma demo_reachable:
  "reachable demo_semver at_start" "reachable demo_semver at_registered" "reachable demo_semver at_submitted" "reachable demo_semver (at_leased ttl)" "reachable demo_semver at_running"
  "reachable demo_semver at_done" "reachable demo_semver at_cancelling" "reachable demo_semver at_stuck"
proof -
  show r0: "reachable demo_semver at_start" unfolding at_start_def by (rule reachable.start) (simp add: demo_world_def)
  show r1: "reachable demo_semver at_registered"
    unfolding at_registered_def by (rule reachable.step [OF r0 storage_step.intros(1)]) (simp_all add: demo_registration_def demo_no_collision [OF at_registered(1) [unfolded at_registered_def demo_registration_def]])
  show r2: "reachable demo_semver at_submitted"
    unfolding at_submitted_def by (rule reachable.step [OF r1 storage_step.intros(3)]) (simp add: demo_no_collision [OF at_submitted(1) [unfolded at_submitted_def]])
  show r3: "reachable demo_semver (at_leased ttl)" for ttl
    unfolding at_leased_def at_leased_result_def by (rule reachable.step [OF r2 storage_step.intros(4)]) (simp add: demo_no_collision [OF at_leased(1) [unfolded at_leased_def at_leased_result_def]])
  show r4: "reachable demo_semver at_running"
    unfolding at_running_def by (rule reachable.step [OF r3 storage_step.intros(9)]) (simp add: demo_no_collision [OF at_running(1) [unfolded at_running_def]])
  show "reachable demo_semver at_done"
    unfolding at_done_def by (rule reachable.step [OF r4 storage_step.intros(11)]) (simp add: demo_no_collision [OF at_done(1) [unfolded at_done_def]])
  show rc: "reachable demo_semver at_cancelling"
    unfolding at_cancelling_def by (rule reachable.step [OF r3 storage_step.intros(7)]) (simp add: demo_no_collision [OF at_cancelling(1) [unfolded at_cancelling_def]])
  show "reachable demo_semver at_stuck"
    unfolding at_stuck_def by (rule reachable.step [OF rc storage_step.intros(5)]) (simp add: demo_no_collision [OF at_stuck(1) [unfolded at_stuck_def]])
qed
lemma demo_issued: "demo_state s m n \<Longrightarrow> k < n \<Longrightarrow> demo_id p k \<in> issued s p"
  using demo_draw [of s m n p k] by (auto simp: issued_def demo_state_def intro!: exI [of _ k])

lemma demo_leads_to:
  "leads_to demo_semver (at_leased 100) at_done" "leads_to demo_semver at_submitted at_done"
proof -
  have "leads_to demo_semver (at_leased 100) at_running"
    unfolding at_running_def
    by (rule leads_to.later [OF leads_to.here storage_step.intros(9)])
      (simp add: demo_no_collision [OF at_running(1) [unfolded at_running_def]])
  then show l: "leads_to demo_semver (at_leased 100) at_done"
    unfolding at_done_def
    by (rule leads_to.later [OF _ storage_step.intros(11)])
      (simp add: demo_no_collision [OF at_done(1) [unfolded at_done_def]])
  have a: "leads_to demo_semver at_submitted (at_leased 100)"
    unfolding at_leased_def at_leased_result_def
    by (rule leads_to.later [OF leads_to.here storage_step.intros(4)])
      (simp add: demo_no_collision [OF at_leased(1) [unfolded at_leased_def at_leased_result_def]])
  from l a show "leads_to demo_semver at_submitted at_done"
    by (induction rule: leads_to.induct) (auto intro: leads_to.later)
qed

lemma demo_submit: "Submit demo_request at_registered = (at_submitted, Inr demo_run)"
  using Submit_new [of at_registered demo_request] at_registered(4)
  by (simp add: at_submitted_next) (simp add: at_submitted_def Submit_new at_submitted_next)

lemma running_run_facts:
  "run_Status running_run = RunRunning" "run_ID running_run = demo_id ''run'' 0" "run_CancelRequestedAt running_run = None"
  "\<not> terminalRun (run_Status running_run)" "att_Status (run_Attempt running_run) = AttemptRunning"
  "att_ID (run_Attempt running_run) = demo_id ''attempt'' 1" "att_LeaseToken (run_Attempt running_run) = demo_id ''lease'' 4"
  "att_LeaseExpiresAt (run_Attempt running_run) = Some 104" "att_NodeID (run_Attempt running_run) = ''n1''"
  "run_DeadlineAt running_run = None" "att_Number (run_Attempt running_run) = 1"
  by (simp_all add: running_run_def leased_run_def terminalRun_def)

end
