(* ===== verification/Memory_Properties.thy ===== *)
theory Memory_Properties
  imports Memory_Scenario
begin

text \<open>
  The properties of the in-memory control plane: what holds in every reachable state, what stays
  true from then on, and what each operation guarantees. Each statement is about the methods of
  \<open>Memory_Storage\<close>; the proofs rest on the lifecycle transitions.
\<close>

section \<open>Authorization\<close>

lemma authorize_mismatch:
  assumes "ms_runs s rid = Some run" "att_LeaseToken (run_Attempt run) \<noteq> lease"
  shows "authorize rid aid lease s = (s, Inl ErrInvalidLease)"
  using assms by (simp add: authorize_def)

lemma authorize_valid:
  assumes "ms_runs s rid = Some run" "att_ID (run_Attempt run) = aid" "att_LeaseToken (run_Attempt run) = lease"
    "lease \<noteq> []" "att_LeaseExpiresAt (run_Attempt run) = Some e" "w_clock s (w_ticks s) < e"
  shows "authorize rid aid lease s = (s\<lparr>w_ticks := Suc (w_ticks s)\<rparr>, Inr run)"
  using assms by (simp add: authorize_def storage_simps Let_def)

text \<open>The methods that check the lease before anything else, applied with a lease the run does not carry.\<close>

lemma fenced_methods:
  assumes "ms_runs s (as_RunID a) = Some run" "att_LeaseToken (run_Attempt run) \<noteq> as_LeaseToken a"
  shows "Renew a ttl s = (s, Inl ErrInvalidLease)" "Start a s = (s, Inl ErrInvalidLease)"
    "AppendEvent (as_RunID a) (as_AttemptID a) (as_LeaseToken a) ty data ids s = (s, Inl ErrInvalidLease)"
    "Complete a res s = (s, Inl ErrInvalidLease)" "Fail a cause s = (s, Inl ErrInvalidLease)"
    "AcknowledgeCancellation a s = (s, Inl ErrInvalidLease)" "AddArtifact a art s = (s, Inl ErrInvalidLease)"
    "ReserveCapability a key hash s = (s, Inl ErrInvalidLease)"
    "FinishCapability order a rsv result' cause s = (s, Inl ErrInvalidLease)"
    "CreateInteraction a ireq s = (s, Inl ErrInvalidLease)" "GetInteraction a iid s = (s, Inl ErrInvalidLease)"
  using authorize_mismatch [OF assms] assms
  by (simp_all add: Renew_def Start_def AppendEvent_def Complete_def Fail_def AcknowledgeCancellation_def
      AddArtifact_def ReserveCapability_def FinishCapability_def CreateInteraction_def GetInteraction_def)

section \<open>Events\<close>

lemma events_inv_nth:
  assumes "storage_inv s" "i < length (ms_events s rid)"
  shows "ev_Sequence (ms_events s rid ! i) = int i + 1" "ev_RunID (ms_events s rid ! i) = rid"
  using assms by (auto simp: storage_inv_def events_inv_def)

lemma events_index_filter:
  assumes "\<And>i. i < length es \<Longrightarrow> ev_Sequence (es ! i) = int k + int i + 1"
  shows "drop (events_index after es) es = filter (\<lambda>e. after < ev_Sequence e) es"
  using assms
proof (induction es arbitrary: k)
  case (Cons e es)
  have head: "ev_Sequence e = int k + 1" using Cons.prems [of 0] by simp
  have tail: "ev_Sequence (es ! i) = int (Suc k) + int i + 1" if "i < length es" for i
    using Cons.prems [of "Suc i"] that by simp
  show ?case
  proof (cases "ev_Sequence e \<le> after")
    case True
    then show ?thesis using Cons.IH [OF tail] by simp
  next
    case False
    have "after < ev_Sequence x" if "x \<in> set es" for x
      using that tail head False by (auto simp: in_set_conv_nth)
    with False show ?thesis by (simp add: filter_id_conv)
  qed
qed simp

lemma find_event_append:
  "find_event eid (es @ es') = (case find_event eid es of Some e \<Rightarrow> Some e | None \<Rightarrow> find_event eid es')"
  by (induction es) auto

lemma find_event_id: "find_event eid es = Some e \<Longrightarrow> ev_ID e = eid"
  by (induction es) (auto split: if_splits)

section \<open>Claiming\<close>

text \<open>The sweep does not touch a run that is claimable and not past its deadline.\<close>

lemma requeueExpired_other:
  assumes "rid \<noteq> run_ID run"
  shows "ms_runs (requeueExpired run now s) rid = ms_runs s rid"
  using assms by (simp add: requeueExpired_def Let_def)

lemma finalizeCancellation_other:
  assumes "rid \<noteq> run_ID run"
  shows "ms_runs (finalizeCancellation run now s) rid = ms_runs s rid"
  using assms by (simp add: finalizeCancellation_def Let_def)

lemma cancelRunLocked_other:
  assumes "rid \<noteq> run_ID run"
  shows "ms_runs (cancelRunLocked run request now s) rid = ms_runs s rid"
  using assms by (simp add: cancelRunLocked_def Let_def finalizeCancellation_other)

definition expires_unstarted :: "time \<Rightarrow> Run \<Rightarrow> bool" where
  "expires_unstarted now run \<longleftrightarrow> run_Status run = RunQueued \<and> att_Status (run_Attempt run) = AttemptLeased \<and>
     reached (att_LeaseExpiresAt (run_Attempt run)) now"

lemma claim_sweep_one_claimable:
  assumes inv: "storage_inv s" and run: "ms_runs s rid = Some run" "claimable now run"
    and dl: "\<not> reached (run_DeadlineAt run) now"
  shows "ms_runs (claim_sweep_one now rid' s) rid = Some run"
proof (cases "rid' = rid")
  case True
  with run dl show ?thesis
    by (auto simp: claim_sweep_one_def claimable_def requeueExpired_def Let_def)
next
  case False
  show ?thesis
  proof (cases "ms_runs s rid'")
    case (Some run')
    note id' = storage_inv_run(1) [OF inv Some]
    let ?t = "if reached (run_DeadlineAt run') now \<and> run_CancelRequestedAt run' = None
      then cancelRunLocked run' timeoutRequest now s else s"
    have steps: "run_steps s ?t" using cancelRunLocked_steps [OF storedI [OF inv Some]] by simp
    have keep: "ms_runs ?t rid = Some run" using False run id' by (simp add: cancelRunLocked_other)
    have id2: "run_ID run2 = rid'" if "ms_runs ?t rid' = Some run2" for run2
      by (rule storage_inv_run(1) [OF run_steps_inv [OF steps inv] that])
    show ?thesis
      using False keep id2
      by (auto simp: claim_sweep_one_def Some Let_def finalizeCancellation_other requeueExpired_other split: option.split)
  qed (simp add: claim_sweep_one_def run)
qed

lemma claim_sweep_claimable:
  assumes "storage_inv s" "ms_runs s rid = Some run" "claimable now run" "\<not> reached (run_DeadlineAt run) now"
  shows "ms_runs (claim_sweep now order s) rid = Some run"
  using assms
proof (induction order arbitrary: s)
  case (Cons r order)
  then show ?case
    using claim_sweep_one_claimable [OF Cons.prems, of r] run_steps_inv [OF claim_sweep_one_steps]
    by (simp add: claim_sweep_def)
qed (simp add: claim_sweep_def)

text \<open>Transitions keep the registrations.\<close>

lemma release_registration:
  "map_option node_Registration (release n nodes m) = map_option node_Registration (nodes m)"
  by (auto simp: release_def split: option.split)

definition same_registrations :: "MemoryStorage \<Rightarrow> MemoryStorage \<Rightarrow> bool" where
  "same_registrations s t \<longleftrightarrow> (\<forall>n. map_option node_Registration (ms_nodes t n) = map_option node_Registration (ms_nodes s n)) \<and>
     ms_requests t = ms_requests s"

lemma same_registrations_refl [simp]: "same_registrations s s"
  by (simp add: same_registrations_def)

lemma same_registrations_trans:
  "same_registrations s t \<Longrightarrow> same_registrations t u \<Longrightarrow> same_registrations s u"
  by (simp add: same_registrations_def)

lemma requeueExpired_registrations: "same_registrations s (requeueExpired run now s)"
  by (simp add: same_registrations_def requeueExpired_def Let_def release_registration)

lemma finalizeCancellation_registrations: "same_registrations s (finalizeCancellation run now s)"
  by (simp add: same_registrations_def finalizeCancellation_def Let_def release_registration)

lemma cancelRunLocked_registrations: "same_registrations s (cancelRunLocked run request now s)"
  by (simp add: same_registrations_def cancelRunLocked_def finalizeCancellation_def Let_def release_registration)

lemma claim_sweep_one_registrations: "same_registrations s (claim_sweep_one now rid s)"
  by (auto simp: claim_sweep_one_def Let_def split: option.split
      intro: requeueExpired_registrations finalizeCancellation_registrations cancelRunLocked_registrations
        same_registrations_trans)

lemma claim_sweep_registrations: "same_registrations s (claim_sweep now order s)"
proof (induction order arbitrary: s)
  case (Cons r order)
  show ?case
    using same_registrations_trans [OF claim_sweep_one_registrations Cons.IH] by (simp add: claim_sweep_def)
qed (simp add: claim_sweep_def)

text \<open>\<open>nodeMatches\<close> looks at the registration only.\<close>

lemma nodeMatches_registration:
  "node_Registration a = node_Registration b \<Longrightarrow> nodeMatches sv a r = nodeMatches sv b r"
  by (simp add: nodeMatches_def)

lemma claim_pick_Inr:
  assumes "claim_pick sv n ttl now order s = (t, Inr asg)"
  shows "\<exists>rid run node. rid \<in> set order \<and> ms_runs s rid = Some run \<and> ms_nodes s n = Some node \<and> claimable now run \<and>
    nodeMatches sv node (request_of s (run_ID run)) \<and> leaseRun n ttl now node run s = (t, Inr asg)"
  using assms
proof (induction order)
  case (Cons r order)
  then show ?case
    by (auto split: option.splits if_splits)
qed simp

lemma leaseRun_Inr:
  assumes "leaseRun n ttl now node run s = (t, Inr asg)"
  shows "w_rand t = w_rand s" "w_drawn s < w_drawn t" "as_RunID asg = run_ID run"
    "as_AttemptID asg = att_ID (run_Attempt run)" "as_LeaseToken asg = id_text ''lease'' (draw s 12 (w_drawn s))"
    "as_Request asg = request_of s (run_ID run)"
    "ms_runs t (run_ID run) = Some (run\<lparr>run_Attempt := (run_Attempt run)\<lparr>att_Status := AttemptLeased,
       att_NodeID := n, att_LeaseToken := as_LeaseToken asg, att_LeaseExpiresAt := Some (now + ttl)\<rparr>\<rparr>)"
  using assms by (auto simp: leaseRun_def storage_simps Let_def)

lemma claim_pick_live:
  assumes "ms_runs s rid = Some run" "rid \<in> set order" "claimable now run" "ms_nodes s n = Some node"
    "nodeMatches sv node (request_of s (run_ID run))"
  shows "\<exists>asg. snd (claim_pick sv n ttl now order s) = Inr asg"
  using assms
proof (induction order)
  case (Cons r order)
  then show ?case
    by (cases "rid = r") (auto simp: leaseRun_def storage_simps Let_def split: option.split)
qed simp

section \<open>Every reachable state\<close>

text \<open>
  C1: in every state that the storage's methods can reach, in any order and with any arguments, the
  storage invariant holds: run and attempt statuses agree, an attempt has a node, a token and an
  expiry exactly while it is leased or running, node counters are exact, event sequences are dense,
  attempt histories are numbered, the idempotency index is a bijection, and identifiers were drawn.
\<close>

theorem memory_invariant:
  assumes "reachable sv s"
  shows "storage_inv s"
  using assms by (rule reachable_inv)

theorem memory_invariant_witness: "storage_inv at_running"
  by (rule memory_invariant [OF demo_reachable(5)])

text \<open>
  a node's \<open>Active\<close> counter is always the number of runs whose attempt it holds: no path, failed,
  expired or cancelled ones included, leaks or double-releases a slot.
\<close>

theorem node_accounting:
  assumes "reachable sv s" "ms_nodes s n = Some node"
  shows "node_Active node = int (card {rid. \<exists>run. ms_runs s rid = Some run \<and>
    att_Status (run_Attempt run) \<in> {AttemptLeased, AttemptRunning} \<and> att_NodeID (run_Attempt run) = n})"
  using storage_invD(2) [OF reachable_inv [OF assms(1)]] assms(2)
  by (simp add: nodes_inv_def holders_def holds_def active_def)

theorem node_accounting_witness:
  "node_Active (demo_node\<lparr>node_Active := 1\<rparr>) = int (card {rid. \<exists>run. ms_runs at_running rid = Some run \<and>
    att_Status (run_Attempt run) \<in> {AttemptLeased, AttemptRunning} \<and> att_NodeID (run_Attempt run) = ''n1''})"
  by (rule node_accounting [OF demo_reachable(5)]) (simp add: at_running)

text \<open>
  C3: a run that succeeded, failed or was cancelled never changes again, whatever is called later:
  no late completion, cancellation, lease or reconciliation touches it.
\<close>

theorem terminal_runs_final:
  assumes "reachable sv s" "leads_to sv s t" "ms_runs s rid = Some run" "terminalRun (run_Status run)"
  shows "ms_runs t rid = Some run"
  using assms reachable_inv by (blast intro: leads_to_frozen [unfolded frozen_def])

theorem terminal_runs_final_witness: "ms_runs at_done (demo_id ''run'' 0) = Some done_run"
  by (rule terminal_runs_final [OF demo_reachable(6) leads_to.here])
    (simp_all add: at_done(2), simp add: done_run_def terminalRun_def)



text \<open>
  C10: a run never has more attempts than its retry policy allows (at least one), and \<open>Attempts\<close>
  lists them all, numbered 1, 2, ..., with the current one last.
\<close>

theorem attempts_bounded:
  assumes "reachable sv s" "ms_runs s rid = Some run"
  shows "\<exists>as. Attempts rid s = Inr as \<and> as \<noteq> [] \<and> last as = run_Attempt run \<and>
    int (length as) \<le> max 1 (rp_MaxAttempts (rq_Retry (request_of s rid))) \<and>
    (\<forall>i < length as. att_Number (as ! i) = int i + 1)"
proof -
  let ?h = "ms_attemptHistory s rid"
  from storage_invD(4) [OF reachable_inv [OF assms(1)]] assms(2)
  have h: "?h \<noteq> []" "int (length ?h) = att_Number (run_Attempt run)"
    "att_Number (run_Attempt run) \<le> max_attempts (request_of s rid)"
    "\<forall>i < length ?h. att_Number (?h ! i) = int i + 1"
    by (auto simp: history_inv_def)
  then have "att_Number ((butlast ?h @ [run_Attempt run]) ! i) = int i + 1" if "i < length ?h" for i
    using that by (auto simp: nth_append nth_butlast of_nat_diff Suc_le_eq)
  with h assms(2) show ?thesis
    by (intro exI [of _ "butlast ?h @ [run_Attempt run]"]) (simp add: Attempts_def Let_def max_attempts_def)
qed

theorem attempts_bounded_witness:
  "\<exists>as. Attempts (demo_id ''run'' 0) at_running = Inr as \<and> as \<noteq> [] \<and> last as = run_Attempt running_run \<and>
    int (length as) \<le> max 1 (rp_MaxAttempts (rq_Retry (request_of at_running (demo_id ''run'' 0)))) \<and>
    (\<forall>i < length as. att_Number (as ! i) = int i + 1)"
  by (rule attempts_bounded [OF demo_reachable(5)]) (simp add: at_running)

text \<open>
  C5: the event log of a run is append-only and densely numbered: what a reader saw stays a prefix of
  what any later reader sees, and the events carry the sequence numbers 1, 2, 3, ... of that run.
\<close>

theorem event_log_append_only:
  assumes "reachable sv s" "leads_to sv s t" "ms_runs s rid = Some run"
  shows "\<exists>old new. EventsAfter rid 0 s = Inr old \<and> EventsAfter rid 0 t = Inr (old @ new) \<and>
    (\<forall>i < length (old @ new). ev_Sequence ((old @ new) ! i) = int i + 1 \<and> ev_RunID ((old @ new) ! i) = rid)"
proof -
  have inv: "storage_inv s" "storage_inv t"
    using reachable_inv assms(1,2) leads_to_reachable by blast+
  have all: "drop (events_index 0 (ms_events u rid)) (ms_events u rid) = ms_events u rid" if "storage_inv u" for u
  proof -
    have "filter (\<lambda>e. 0 < ev_Sequence e) (ms_events u rid) = ms_events u rid"
      using events_inv_nth(1) [OF that, of _ rid] by (auto simp: filter_id_conv in_set_conv_nth)
    then show ?thesis
      using events_index_filter [of "ms_events u rid" 0 0] events_inv_nth(1) [OF that, of _ rid] by simp
  qed
  obtain run' where "ms_runs t rid = Some run'" using leads_to_same_run [OF assms(2) inv(1) assms(3)] by blast
  moreover obtain new where "ms_events t rid = ms_events s rid @ new" using leads_to_events [OF assms(2) inv(1)] by blast
  ultimately show ?thesis
    using assms(3) all [OF inv(1)] all [OF inv(2)] events_inv_nth [OF inv(2), of _ rid]
    by (intro exI [of _ "ms_events s rid"] exI [of _ new]) (simp add: EventsAfter_def)
qed

theorem event_log_append_only_witness:
  "\<exists>old new. EventsAfter (demo_id ''run'' 0) 0 (at_leased 100) = Inr old \<and> EventsAfter (demo_id ''run'' 0) 0 at_done = Inr (old @ new) \<and>
    (\<forall>i < length (old @ new). ev_Sequence ((old @ new) ! i) = int i + 1 \<and> ev_RunID ((old @ new) ! i) = demo_id ''run'' 0)"
  by (rule event_log_append_only [OF demo_reachable(4) demo_leads_to(1)]) (simp add: at_leased)

text \<open>
  Resuming a stream after sequence number \<open>after\<close> returns exactly the events with a greater
  sequence number, in order: nothing is repeated and nothing is skipped.
\<close>

theorem events_resume:
  assumes "reachable sv s" "ms_runs s rid = Some run"
  shows "EventsAfter rid after s = Inr (filter (\<lambda>e. after < ev_Sequence e) (ms_events s rid))"
  using events_index_filter [of "ms_events s rid" 0 after] events_inv_nth(1) [OF reachable_inv [OF assms(1)], of _ rid]
  by (simp add: EventsAfter_def assms(2))

theorem events_resume_witness:
  "EventsAfter (demo_id ''run'' 0) 2 at_done =
     Inr (filter (\<lambda>e. 2 < ev_Sequence e) (ms_events at_done (demo_id ''run'' 0)))"
  by (rule events_resume [OF demo_reachable(6)]) (simp add: at_done)

section \<open>Submission\<close>

lemma Submit_result:
  assumes "storage_inv s" "Submit request s = (t, Inr run)" "no_collision t"
  shows "ms_byIdempotency t (request_scope request) = Some (run_ID run) \<and> ms_runs t (run_ID run) = Some run \<and>
    run_scope run = request_scope request \<and> storage_inv t"
proof (cases "ms_byIdempotency s (request_scope request)")
  case None
  note new = Submit_new [OF None, unfolded assms(2)]
  have "storage_inv t" using lifecycle_inv [OF Submit_steps [OF assms(1)], of request] assms by simp
  with new show ?thesis by (simp add: submitted_def)
next
  case (Some rid)
  then show ?thesis
    by (rule Submit_known [OF assms(1)]) (use assms Some storage_inv_run(1) in auto)
qed

lemma leads_to_index:
  assumes "leads_to sv s t" "storage_inv s" "ms_byIdempotency s scope = Some rid"
  shows "ms_byIdempotency t scope = Some rid"
proof -
  obtain run where run: "ms_runs s rid = Some run" "run_scope run = scope"
    using idempotency_found [OF assms(2,3)] by blast
  then obtain run' where run': "ms_runs t rid = Some run'" "same_run run run'"
    using leads_to_same_run [OF assms(1,2)] by blast
  have "storage_inv t" using leads_to_induct [OF assms(1,2), of "\<lambda>_. True"] by blast
  then have "ms_byIdempotency t (run_scope run') = Some rid"
    using run'(1) by (auto simp: storage_inv_def idempotency_inv_def)
  with run' run show ?thesis by (simp add: same_run_def run_scope_def)
qed

text \<open>
  C4: submission is idempotent. After a submission returned a run, any later submission with the same
  tenant, project and idempotency key returns that same run (in its current state) and changes
  nothing, whatever happened in between.
\<close>

theorem submit_idempotent:
  assumes "reachable sv s" "Submit request s = (s1, Inr run)" "no_collision s1" "leads_to sv s1 t"
    and "rq_TenantID again = rq_TenantID request" "rq_ProjectID again = rq_ProjectID request"
      "rq_IdempotencyKey again = rq_IdempotencyKey request"
  shows "\<exists>run'. Submit again t = (t, Inr run') \<and> run_ID run' = run_ID run \<and> ms_runs t (run_ID run) = Some run'"
proof -
  note inv = reachable_inv [OF assms(1)]
  note res = Submit_result [OF inv assms(2,3)]
  have t: "storage_inv t" using leads_to_induct [OF assms(4), of "\<lambda>_. True"] res by blast
  have scope: "request_scope again = request_scope request" using assms(5-7) by (simp add: request_scope_def)
  have "ms_byIdempotency t (request_scope again) = Some (run_ID run)"
    unfolding scope using leads_to_index [OF assms(4)] res by blast
  then show ?thesis by (rule Submit_known [OF t]) (use storage_inv_run(1) [OF t] in auto)
qed

theorem submit_idempotent_witness:
  "\<exists>run'. Submit demo_request at_done = (at_done, Inr run') \<and> run_ID run' = run_ID demo_run \<and>
     ms_runs at_done (run_ID demo_run) = Some run'"
  by (rule submit_idempotent [OF demo_reachable(2) demo_submit demo_no_collision [OF at_submitted(1)] demo_leads_to(2)])
    simp_all

lemma scope_inj:
  assumes "CHR 0x00 \<notin> set t" "CHR 0x00 \<notin> set t'" "CHR 0x00 \<notin> set p" "CHR 0x00 \<notin> set p'"
    and "idempotencyScope t p k = idempotencyScope t' p' k'"
  shows "t = t' \<and> p = p' \<and> k = k'"
proof -
  have eq: "t @ CHR 0x00 # (p @ CHR 0x00 # k) = t' @ CHR 0x00 # (p' @ CHR 0x00 # k')"
    using assms(5) by (simp add: idempotencyScope_def)
  have "t = t' \<and> p @ CHR 0x00 # k = p' @ CHR 0x00 # k'" by (rule append_sep_inj [OF assms(1,2) eq])
  then show ?thesis using append_sep_inj [OF assms(3,4), of k k'] by blast
qed

text \<open>
  A submission never returns another tenant's run, as long as tenant and project names contain no
  NUL byte (the index key joins the three parts with NUL): the run returned has the tenant, the
  project and the idempotency key of the request.
\<close>

theorem submit_own_run:
  assumes "reachable sv s" "Submit request s = (t, Inr run)" "no_collision t"
    and "\<forall>rid run. ms_runs s rid = Some run \<longrightarrow> CHR 0x00 \<notin> set (run_TenantID run) \<and> CHR 0x00 \<notin> set (run_ProjectID run)"
    and "CHR 0x00 \<notin> set (rq_TenantID request)" "CHR 0x00 \<notin> set (rq_ProjectID request)"
  shows "run_TenantID run = rq_TenantID request \<and> run_ProjectID run = rq_ProjectID request \<and>
    run_IdempotencyKey run = rq_IdempotencyKey request"
proof -
  note inv = reachable_inv [OF assms(1)]
  have scope: "run_scope run = request_scope request" using Submit_result [OF inv assms(2,3)] by blast
  have "CHR 0x00 \<notin> set (run_TenantID run) \<and> CHR 0x00 \<notin> set (run_ProjectID run)"
  proof (cases "ms_byIdempotency s (request_scope request)")
    case None
    from Submit_new [OF None, unfolded assms(2)] show ?thesis using assms(5,6) by simp
  next
    case (Some rid)
    then show ?thesis by (rule Submit_known [OF inv]) (use assms(2,4) in auto)
  qed
  then show ?thesis
    using scope scope_inj assms(5,6) unfolding run_scope_def request_scope_def by blast
qed

theorem submit_own_run_witness: "run_TenantID demo_run = ''t'' \<and> run_ProjectID demo_run = [] \<and>
    run_IdempotencyKey demo_run = ''k''"
  using submit_own_run [OF demo_reachable(2) demo_submit demo_no_collision [OF at_submitted(1)]]
  by (simp add: at_registered demo_request_def zero_Request_def)

section \<open>Claims\<close>



text \<open>
  C7: no starvation by iteration order. If a node is below its capacity and some run is queued,
  available, before its deadline and matched by the node, then \<open>Claim\<close> succeeds, whatever the order in
  which the map is visited.
\<close>

theorem claim_live:
  assumes "reachable sv s" "ms_nodes s n = Some node" "node_Active node < reg_Capacity (node_Registration node)"
    and "ms_runs s rid = Some run" "claimable (w_clock s (w_ticks s)) run"
      "\<not> reached (run_DeadlineAt run) (w_clock s (w_ticks s))" "nodeMatches sv node (request_of s rid)"
    and "set order2 = dom (ms_runs s)"
  shows "\<exists>asg. snd (Claim sv order1 order2 n ttl s) = Inr asg"
proof -
  note inv = reachable_inv [OF assms(1)]
  let ?now = "w_clock s (w_ticks s)" and ?s1 = "s\<lparr>w_ticks := Suc (w_ticks s)\<rparr>"
  let ?u = "claim_sweep ?now order1 ?s1"
  have run: "ms_runs ?u rid = Some run" by (rule claim_sweep_claimable) (use inv assms in simp_all)
  have regs: "same_registrations s ?u"
    using claim_sweep_registrations [of ?s1 ?now order1] by (simp add: same_registrations_def)
  from regs have "map_option node_Registration (ms_nodes ?u n) = Some (node_Registration node)"
    using assms(2) by (simp add: same_registrations_def)
  then obtain node' where node': "ms_nodes ?u n = Some node'" "node_Registration node' = node_Registration node"
    by (auto simp: map_option_eq_Some)
  have "request_of ?u rid = request_of s rid" using regs by (simp add: same_registrations_def request_of_def)
  then have "nodeMatches sv node' (request_of ?u (run_ID run))"
    using assms(7) nodeMatches_registration [OF node'(2), of sv] storage_inv_run(1) [OF inv assms(4)] by simp
  with run node' assms(4,5,8) have "\<exists>asg. snd (claim_pick sv n ttl ?now order2 ?u) = Inr asg"
    by (intro claim_pick_live) auto
  then show ?thesis using assms(2,3) by (simp add: Claim_def storage_simps Let_def)
qed

theorem claim_live_witness: "\<exists>asg. snd (Claim demo_semver [] [demo_id ''run'' 0] ''n1'' 100 at_submitted) = Inr asg"
  by (rule claim_live [OF demo_reachable(3), of "''n1''" demo_node "demo_id ''run'' 0" demo_run])
    (use at_submitted demo_match in \<open>simp_all add: demo_state_def claimable_def reached_def request_of_def\<close>,
     simp add: demo_node_def demo_registration_def)

section \<open>Completion and failure\<close>

lemma Complete_Inr:
  assumes "Complete a res s = (t, Inr ())" "storage_inv s"
  shows "\<exists>run committed. ms_runs t (as_RunID a) = Some run \<and> run_Status run = RunSucceeded \<and>
    att_Status (run_Attempt run) = AttemptSucceeded \<and> att_ID (run_Attempt run) = as_AttemptID a \<and>
    as_LeaseToken a \<noteq> [] \<and> att_LeaseToken (run_Attempt run) = as_LeaseToken a \<and>
    run_Result run = Some committed \<and> SameValue (Result_json committed) (Result_json res)"
proof -
  from assms obtain run where run: "ms_runs s (as_RunID a) = Some run"
    by (auto simp: Complete_def split: option.splits)
  note rid = storage_inv_run(1) [OF assms(2) run]
  show ?thesis
    using assms(1) run rid
    by (auto simp: Complete_def storage_simps Let_def split: option.splits if_splits)
qed

lemma Complete_again:
  assumes "ms_runs s (as_RunID a) = Some run" "run_Status run = RunSucceeded"
    "att_Status (run_Attempt run) = AttemptSucceeded" "att_ID (run_Attempt run) = as_AttemptID a"
    "as_LeaseToken a \<noteq> []" "att_LeaseToken (run_Attempt run) = as_LeaseToken a" "run_Result run = Some committed"
  shows "Complete a res s = (s, if SameValue (Result_json committed) (Result_json res) then Inr ()
    else Inl (wrap ErrInvalidTransition ''completion result differs from the committed result''))"
  using assms by (simp add: Complete_def Let_def)

lemma SameValue_sym_trans: "SameValue a b \<Longrightarrow> SameValue a c = SameValue b c"
  by (simp add: SameValue_def)

text \<open>
  completion is idempotent and final. After \<open>Complete\<close> succeeded, the same node may repeat it at
  any later time, even after its lease expired: an equal result (up to the order of JSON members) is
  acknowledged, a different one is refused, and the state never changes.
\<close>

theorem complete_idempotent:
  assumes "reachable sv s" "Complete a res s = (s1, Inr ())" "no_collision s1" "leads_to sv s1 t"
  shows "Complete a res' t = (t, if SameValue (Result_json res) (Result_json res') then Inr ()
    else Inl (wrap ErrInvalidTransition ''completion result differs from the committed result''))"
proof -
  note inv = reachable_inv [OF assms(1)]
  obtain run committed where run: "ms_runs s1 (as_RunID a) = Some run" "run_Status run = RunSucceeded"
    "att_Status (run_Attempt run) = AttemptSucceeded" "att_ID (run_Attempt run) = as_AttemptID a"
    "as_LeaseToken a \<noteq> []" "att_LeaseToken (run_Attempt run) = as_LeaseToken a" "run_Result run = Some committed"
    and same: "SameValue (Result_json committed) (Result_json res)"
    using Complete_Inr [OF assms(2) inv] by blast
  have "storage_inv s1" using run_steps_inv [OF Complete_steps [OF inv, of a res] inv] assms(2) by simp
  then have "ms_runs t (as_RunID a) = Some run"
    by (rule leads_to_frozen [OF assms(4) _ run(1)]) (simp add: frozen_def terminalRun_def run)
  from Complete_again [OF this run(2-7)] SameValue_sym_trans [OF same] show ?thesis by simp
qed

theorem complete_idempotent_witness: "Complete (demo_asg 100) demo_result at_done = (at_done, Inr ())"
proof -
  have "Complete (demo_asg 100) demo_result at_running = (at_done, Inr ())"
    using at_done(5) by (simp add: at_done_def prod_eq_iff)
  from complete_idempotent [OF demo_reachable(5) this demo_no_collision [OF at_done(1)] leads_to.here, of demo_result]
  show ?thesis by simp
qed

lemma Fail_Inr:
  assumes "Fail a cause s = (t, Inr ())" "storage_inv s"
  shows "\<exists>run. ms_runs t (as_RunID a) = Some run \<and> run_Status run = RunFailed \<and>
    att_Status (run_Attempt run) = AttemptFailed \<and> att_ID (run_Attempt run) = as_AttemptID a \<and>
    as_LeaseToken a \<noteq> [] \<and> att_LeaseToken (run_Attempt run) = as_LeaseToken a \<and> run_Error run = cause"
proof -
  from assms obtain run where run: "ms_runs s (as_RunID a) = Some run"
    by (auto simp: Fail_def split: option.splits)
  note rid = storage_inv_run(1) [OF assms(2) run]
  show ?thesis
    using assms(1) run rid
    by (auto simp: Fail_def storage_simps Let_def split: option.splits if_splits)
qed

text \<open>
  Reporting a failure is idempotent and final in the same way: repeated with the same cause it is
  acknowledged, with another cause it is refused, and a completion after it is refused too.
\<close>

theorem fail_idempotent:
  assumes "reachable sv s" "Fail a cause s = (s1, Inr ())" "no_collision s1" "leads_to sv s1 t"
  shows "Fail a cause' t = (t, if cause = cause' then Inr ()
      else Inl (wrap ErrInvalidTransition ''failure cause differs from the committed cause'')) \<and>
    (\<exists>e. snd (Complete a res t) = Inl e \<and> (errors_Is e InvalidLease \<or> errors_Is e InvalidTransition))"
proof -
  note inv = reachable_inv [OF assms(1)]
  obtain run where run: "ms_runs s1 (as_RunID a) = Some run" "run_Status run = RunFailed"
    "att_Status (run_Attempt run) = AttemptFailed" "att_ID (run_Attempt run) = as_AttemptID a"
    "as_LeaseToken a \<noteq> []" "att_LeaseToken (run_Attempt run) = as_LeaseToken a" "run_Error run = cause"
    using Fail_Inr [OF assms(2) inv] by blast
  have "storage_inv s1" using run_steps_inv [OF Fail_steps [OF inv, of a cause] inv] assms(2) by simp
  then have "ms_runs t (as_RunID a) = Some run"
    by (rule leads_to_frozen [OF assms(4) _ run(1)]) (simp add: frozen_def terminalRun_def run)
  with run show ?thesis
    by (simp add: Fail_def Complete_def Let_def storage_simps errors_Is_def controlplane_errors split: option.split)
qed

definition at_failed :: MemoryStorage where "at_failed = fst (Fail (demo_asg 100) ''boom'' at_running)"

lemma at_failed: "demo_state at_failed 15 10" "snd (Fail (demo_asg 100) ''boom'' at_running) = Inr ()"
  using at_running
  by (simp_all add: at_failed_def Fail_def Let_def storage_simps demo_state_def demo_asg_def leased_run_def
      running_run_def)

theorem fail_idempotent_witness: "Fail (demo_asg 100) ''boom'' at_failed = (at_failed, Inr ())"
proof -
  have "Fail (demo_asg 100) ''boom'' at_running = (at_failed, Inr ())"
    using at_failed(2) by (simp add: at_failed_def prod_eq_iff)
  from fail_idempotent [OF demo_reachable(5) this demo_no_collision [OF at_failed(1)] leads_to.here, of "''boom''"]
  show ?thesis by simp
qed

end
