(* ===== verification/Memory_Recovery.thy ===== *)
theory Memory_Recovery
  imports Memory_Properties
begin

text \<open>
  Cancellation and reconciliation of the in-memory control plane: the two phases of a cancellation,
  what the reconciler does with lost attempts and overdue runs, and the two states from which the
  code does not recover.
\<close>

section \<open>Cancellation\<close>

text \<open>
  Cancelling a run that is not finished records the reason; a run nobody holds is cancelled at
  once, and a leased or running one only changes to \<open>cancelling\<close>: its attempt, its lease and the
  node's slot are left as they are until the node acknowledges.
\<close>

theorem cancel_two_phase:
  assumes "reachable sv s" "ms_runs s rid = Some run" "\<not> terminalRun (run_Status run)" "run_CancelRequestedAt run = None"
  shows "\<exists>t run'. CancelRun rid request s = (t, Inr run') \<and> ms_runs t rid = Some run' \<and>
    run_CancelReason run' = cq_Reason request \<and> run_CancelRequestedAt run' = Some (w_clock s (w_ticks s)) \<and>
    (if att_Status (run_Attempt run) = AttemptQueued
     then run_Status run' = RunCancelled \<and> att_Status (run_Attempt run') = AttemptCancelled
     else run_Status run' = RunCancelling \<and> run_Attempt run' = run_Attempt run \<and> ms_nodes t = ms_nodes s)"
proof -
  have rid: "run_ID run = rid" by (rule storage_inv_run(1) [OF reachable_inv [OF assms(1)] assms(2)])
  moreover have "run_Status run \<noteq> RunCancelled" using assms(3) by (auto simp: terminalRun_def)
  ultimately show ?thesis
    using assms
    by (cases "att_Status (run_Attempt run) = AttemptQueued")
      (simp_all add: CancelRun_def cancelRunLocked_def finalizeCancellation_def storage_simps Let_def)
qed

theorem cancel_two_phase_witness:
  "\<exists>t run'. CancelRun (demo_id ''run'' 0) \<lparr>cq_Reason = ''stop'', cq_RequestedBy = []\<rparr> at_running = (t, Inr run') \<and>
     run_Status run' = RunCancelling \<and> run_Attempt run' = run_Attempt running_run"
proof -
  have "ms_runs at_running (demo_id ''run'' 0) = Some running_run" by (simp add: at_running)
  from cancel_two_phase [OF demo_reachable(5) this]
  have "\<exists>t run'. CancelRun (demo_id ''run'' 0) \<lparr>cq_Reason = ''stop'', cq_RequestedBy = []\<rparr> at_running = (t, Inr run') \<and>
     (if att_Status (run_Attempt running_run) = AttemptQueued
     then run_Status run' = RunCancelled \<and> att_Status (run_Attempt run') = AttemptCancelled
     else run_Status run' = RunCancelling \<and> run_Attempt run' = run_Attempt running_run \<and> ms_nodes t = ms_nodes at_running)"
    by (metis (no_types, lifting) running_run_facts)
  then show ?thesis by (auto simp: running_run_facts)
qed

text \<open>
  C9: while a run is cancelling, the node that holds a valid lease learns of it on its next renewal
  (with the reason), cannot complete the run any more (\<open>ErrRunCancelled\<close>, nothing changes), and
  ends the cancellation by acknowledging it, which gives its slot back.
\<close>

theorem cancelling_protocol:
  assumes "reachable sv s" "ms_runs s (as_RunID a) = Some run" "run_Status run = RunCancelling"
    and "att_ID (run_Attempt run) = as_AttemptID a" "att_LeaseToken (run_Attempt run) = as_LeaseToken a"
      "as_LeaseToken a \<noteq> []" "att_LeaseExpiresAt (run_Attempt run) = Some e"
      "w_clock s (w_ticks s) < e" "w_clock s (Suc (w_ticks s)) < e"
  shows "(\<exists>t u. Renew a ttl s = (t, Inr u) \<and> lu_CancelRequested u \<and> lu_CancelReason u = run_CancelReason run) \<and>
    (att_Status (run_Attempt run) = AttemptRunning \<longrightarrow>
      (\<exists>t. Complete a res s = (t, Inl ErrRunCancelled) \<and> ms_runs t = ms_runs s \<and> ms_nodes t = ms_nodes s)) \<and>
    (\<exists>t run'. AcknowledgeCancellation a s = (t, Inr ()) \<and> ms_runs t (as_RunID a) = Some run' \<and>
      run_Status run' = RunCancelled \<and> ms_nodes t = release (att_NodeID (run_Attempt run)) (ms_nodes s))"
proof -
  note inv = reachable_inv [OF assms(1)]
  note run = storage_inv_run [OF inv assms(2)]
  have act: "active (run_Attempt run)"
    using authorized_active [OF run(2) _ assms(3)] assms(5,6) by simp
  have req: "run_CancelRequestedAt run \<noteq> None" using run(2) assms(3) by (auto simp: run_ok_simps)
  note auth = authorize_valid [OF assms(2,4,5,6,7,8)]
  have "\<exists>t u. Renew a ttl s = (t, Inr u) \<and> lu_CancelRequested u \<and> lu_CancelReason u = run_CancelReason run"
    using act req assms(7,9) by (auto simp: Renew_def auth Let_def storage_simps active_def reached_def)
  moreover have "att_Status (run_Attempt run) = AttemptRunning \<longrightarrow>
      (\<exists>t. Complete a res s = (t, Inl ErrRunCancelled) \<and> ms_runs t = ms_runs s \<and> ms_nodes t = ms_nodes s)"
    using assms by (auto simp: Complete_def Let_def storage_simps)
  moreover have "\<exists>t run'. AcknowledgeCancellation a s = (t, Inr ()) \<and> ms_runs t (as_RunID a) = Some run' \<and>
      run_Status run' = RunCancelled \<and> ms_nodes t = release (att_NodeID (run_Attempt run)) (ms_nodes s)"
    using assms(3) run(1)
    by (simp add: AcknowledgeCancellation_def auth Let_def storage_simps finalizeCancellation_def)
  ultimately show ?thesis by blast
qed

definition at_cancelling_running :: MemoryStorage where
  "at_cancelling_running = fst (CancelRun (demo_id ''run'' 0) \<lparr>cq_Reason = ''stop'', cq_RequestedBy = []\<rparr> at_running)"

lemma at_cancelling_running:
  "demo_state at_cancelling_running 13 9"
  "ms_runs at_cancelling_running = [demo_id ''run'' 0 \<mapsto> running_run\<lparr>run_CancelRequestedAt := Some 11,
     run_CancelReason := ''stop'', run_Status := RunCancelling\<rparr>]"
  "reachable demo_semver at_cancelling_running"
proof -
  show st: "demo_state at_cancelling_running 13 9"
    using at_running by (simp add: at_cancelling_running_def CancelRun_def cancelRunLocked_def Let_def storage_simps
        demo_state_def running_run_facts terminalRun_def)
  show "ms_runs at_cancelling_running = [demo_id ''run'' 0 \<mapsto> running_run\<lparr>run_CancelRequestedAt := Some 11,
     run_CancelReason := ''stop'', run_Status := RunCancelling\<rparr>]"
    using at_running by (simp add: at_cancelling_running_def CancelRun_def cancelRunLocked_def Let_def storage_simps
        demo_state_def running_run_facts terminalRun_def)
  show "reachable demo_semver at_cancelling_running"
    unfolding at_cancelling_running_def
    by (rule reachable.step [OF demo_reachable(5) storage_step.intros(7)])
      (simp add: demo_no_collision [OF st [unfolded at_cancelling_running_def]])
qed

theorem cancelling_protocol_witness:
  "\<exists>t. AcknowledgeCancellation (demo_asg 100) at_cancelling_running = (t, Inr ())"
proof -
  let ?run = "running_run\<lparr>run_CancelRequestedAt := Some 11, run_CancelReason := ''stop'', run_Status := RunCancelling\<rparr>"
  have "ms_runs at_cancelling_running (as_RunID (demo_asg 100)) = Some ?run"
    by (simp add: at_cancelling_running demo_asg_def)
  from cancelling_protocol [OF at_cancelling_running(3) this, of 104] show ?thesis
    using at_cancelling_running(1)
    by (simp add: demo_asg_def running_run_facts demo_state_def) blast
qed

text \<open>
  A run left \<open>cancelling\<close> with a queued attempt is never cancelled: no sequence of calls changes
  it. The state is reachable: a leased run is cancelled, the lease expires, and the node's next
  renewal, start or event makes \<open>authorize\<close> requeue the attempt. The reconciler, which should finish
  the cancellation of an expired lease, does not see it any more.
\<close>

theorem cancelling_stuck:
  assumes "reachable sv s" "ms_runs s rid = Some run" "run_Status run = RunCancelling"
    "att_Status (run_Attempt run) = AttemptQueued" "leads_to sv s t"
  shows "ms_runs t rid = Some run"
  using assms reachable_inv by (blast intro: leads_to_frozen [unfolded frozen_def])

theorem cancelling_stuck_witness:
  "ms_runs at_stuck (demo_id ''run'' 0) = Some stuck_run \<and> run_Status stuck_run = RunCancelling \<and>
   ms_runs (fst (Reconcile [] [demo_id ''run'' 0] 1000 10 at_stuck)) (demo_id ''run'' 0) = Some stuck_run"
proof -
  have stuck: "ms_runs at_stuck (demo_id ''run'' 0) = Some stuck_run" "run_Status stuck_run = RunCancelling"
    "att_Status (run_Attempt stuck_run) = AttemptQueued"
    by (simp_all add: at_stuck stuck_run_def cancelling_run_def)
  have same: "fst (Reconcile [] [demo_id ''run'' 0] 1000 10 at_stuck) = at_stuck"
    using stuck by (simp add: Reconcile_def recoverable_def)
  with cancelling_stuck [OF demo_reachable(8) stuck leads_to.here] stuck(2) show ?thesis by simp
qed

section \<open>Reconciliation\<close>

definition overdue :: "time \<Rightarrow> Run \<Rightarrow> bool" where
  "overdue now run \<longleftrightarrow> reached (run_DeadlineAt run) now \<and> \<not> terminalRun (run_Status run) \<and>
     run_CancelRequestedAt run = None"

text \<open>\<open>recoverLost\<close> and the cancellations write the run they are given.\<close>

lemma recoverLost_other:
  "rid \<noteq> run_ID run \<Longrightarrow> ms_runs (fst (recoverLost now run s)) rid = ms_runs s rid"
  by (simp add: recoverLost_def Let_def storage_simps)

lemma recoverLost_run:
  assumes "ms_attemptHistory s (run_ID run) \<noteq> []"
  shows "\<exists>run'. ms_runs (fst (recoverLost now run s)) (run_ID run) = Some run' \<and>
    run_DeadlineAt run' = run_DeadlineAt run \<and> (run_Status run' = RunFailed \<or> run_Status run' = RunQueued)"
  using assms by (simp add: recoverLost_def Let_def storage_simps)

lemma cancelRunLocked_run:
  assumes "\<not> terminalRun (run_Status run)" "run_CancelRequestedAt run = None" "ms_runs s (run_ID run) = Some run"
  shows "\<exists>run'. ms_runs (cancelRunLocked run request now s) (run_ID run) = Some run' \<and> run_CancelRequestedAt run' \<noteq> None"
proof -
  have "run_Status run \<noteq> RunCancelled" using assms(1) by (auto simp: terminalRun_def)
  with assms show ?thesis by (simp add: cancelRunLocked_def finalizeCancellation_def Let_def)
qed

lemma finalizeCancellation_run:
  "run_Status run \<noteq> RunCancelled \<Longrightarrow> \<exists>run'. ms_runs (finalizeCancellation run now s) (run_ID run) = Some run' \<and>
     run_Status run' = RunCancelled"
  by (simp add: finalizeCancellation_def Let_def)

lemma reconcile_deadlines_count:
  "reconcile_deadlines now limit order k s = (t, k') \<Longrightarrow> k \<le> k' \<and> (k \<le> limit \<longrightarrow> k' \<le> limit) \<and> (limit \<le> k \<longrightarrow> k' = k)"
proof (induction order arbitrary: k s)
  case (Cons rid order)
  then show ?case by (fastforce split: option.splits if_splits)
qed simp

lemma reconcile_expired_count:
  "storage_inv s \<Longrightarrow> \<exists>k'. snd (reconcile_expired now limit order k s) = Inr k' \<and> k \<le> k' \<and>
     (k \<le> limit \<longrightarrow> k' \<le> limit) \<and> (limit \<le> k \<longrightarrow> k' = k)"
proof (induction order arbitrary: k s)
  case (Cons rid order)
  show ?case
  proof (cases "ms_runs s rid")
    case (Some run)
    note stored = storedI [OF Cons.prems Some]
    consider (skip) "limit \<le> k \<or> \<not> recoverable now run"
      | (cancel) "k < limit" "recoverable now run" "run_Status run = RunCancelling"
      | (lost) "k < limit" "recoverable now run" "run_Status run \<noteq> RunCancelling"
      by linarith
    then show ?thesis
    proof cases
      case skip
      then show ?thesis using Cons Some by auto
    next
      case cancel
      have "run_steps s (finalizeCancellation run now s)"
        using cancel stored by (intro finalizeCancellation_steps) (auto simp: recoverable_def Let_def active_def)
      from Cons.IH [OF run_steps_inv [OF this Cons.prems], of "k + 1"] show ?thesis
        using cancel Some by auto
    next
      case lost
      then have "run_steps s (fst (recoverLost now run s))" "snd (recoverLost now run s) = Inr ()"
        by (auto intro!: recoverLost_steps [OF stored _ _ Cons.prems] simp: recoverable_def Let_def)
      with Cons.IH [OF run_steps_inv [OF this(1) Cons.prems], of "k + 1"] show ?thesis
        using lost Some by (cases "recoverLost now run s") auto
    qed
  qed (use Cons in simp)
qed simp

text \<open>
  \<open>Reconcile\<close> never fails, and the number of runs it reports as recovered is between 0 and its
  limit.
\<close>

theorem reconcile_bounded:
  assumes "reachable sv s" "0 \<le> limit"
  shows "\<exists>k. snd (Reconcile order1 order2 now limit s) = Inr k \<and> 0 \<le> k \<and> k \<le> limit"
proof -
  note inv = reachable_inv [OF assms(1)]
  obtain t k where t: "reconcile_deadlines now limit order1 0 s = (t, k)" by fastforce
  from reconcile_deadlines_steps [OF inv, of now limit order1 0] have st: "run_steps s t" by (simp add: t)
  from reconcile_expired_count [OF run_steps_inv [OF st inv], of now limit order2 k] reconcile_deadlines_count [OF t] assms(2) t
  show ?thesis by (auto simp: Reconcile_def)
qed

theorem reconcile_bounded_witness:
  "\<exists>k. snd (Reconcile [] [demo_id ''run'' 0] 500 10 at_running) = Inr k \<and> 0 \<le> k \<and> k \<le> (10 :: int)"
  by (rule reconcile_bounded [OF demo_reachable(5)]) simp

lemma cancelRunLocked_inv:
  assumes "storage_inv s" "ms_runs s rid = Some run"
  shows "storage_inv (cancelRunLocked run request now s)"
  by (rule run_steps_inv [OF cancelRunLocked_steps [OF storedI [OF assms]] assms(1)])

lemma cancelRunLocked_not_overdue:
  assumes "storage_inv s" "ms_runs s r = Some run" "overdue now run" "ms_runs s rid = Some x \<Longrightarrow> r \<noteq> rid \<Longrightarrow> \<not> overdue now x"
    and "ms_runs (cancelRunLocked run timeoutRequest now s) rid = Some x"
  shows "\<not> overdue now x"
proof (cases "r = rid")
  case True
  with assms(1,2,3,5) cancelRunLocked_run [of run s timeoutRequest now] storage_inv_run(1) [OF assms(1,2)] show ?thesis
    by (auto simp: overdue_def)
next
  case False
  with assms storage_inv_run(1) [OF assms(1,2)] show ?thesis by (simp add: cancelRunLocked_other)
qed

text \<open>A run that is not overdue stays so; a run the loop visits is not overdue afterwards.\<close>

lemma reconcile_deadlines_keep:
  assumes "reconcile_deadlines now limit order k s = (t, k')" "storage_inv s"
    "\<forall>run. ms_runs s rid = Some run \<longrightarrow> \<not> overdue now run"
  shows "\<forall>run. ms_runs t rid = Some run \<longrightarrow> \<not> overdue now run"
  using assms
proof (induction order arbitrary: k s)
  case (Cons r order)
  show ?case
  proof (cases "\<exists>run. k < limit \<and> ms_runs s r = Some run \<and> overdue now run")
    case True
    then obtain run where run: "k < limit" "ms_runs s r = Some run" "overdue now run" by blast
    show ?thesis
      by (rule Cons.IH [of "k + 1" "cancelRunLocked run timeoutRequest now s"])
        (use Cons.prems run cancelRunLocked_not_overdue [OF Cons.prems(2) run(2,3)]
          cancelRunLocked_inv [OF Cons.prems(2) run(2)] in \<open>auto simp: overdue_def\<close>)
  next
    case False
    then have "reconcile_deadlines now limit order k s = (t, k') \<or> t = s"
      using Cons.prems(1) by (auto simp: overdue_def split: option.splits if_splits)
    then show ?thesis using Cons.IH [OF _ Cons.prems(2,3)] Cons.prems(3) by blast
  qed
qed simp

lemma reconcile_deadlines_done:
  assumes "reconcile_deadlines now limit order k s = (t, k')" "k' < limit" "storage_inv s" "rid \<in> set order"
  shows "\<forall>run. ms_runs t rid = Some run \<longrightarrow> \<not> overdue now run"
  using assms
proof (induction order arbitrary: k s)
  case (Cons r order)
  have kl: "k < limit" using reconcile_deadlines_count [OF Cons.prems(1)] Cons.prems(2) by linarith
  show ?case
  proof (cases "\<exists>run. ms_runs s r = Some run \<and> overdue now run")
    case True
    then obtain run where run: "ms_runs s r = Some run" "overdue now run" by blast
    let ?s1 = "cancelRunLocked run timeoutRequest now s"
    have rec: "reconcile_deadlines now limit order (k + 1) ?s1 = (t, k')"
      using Cons.prems(1) kl run by (simp add: overdue_def)
    have inv: "storage_inv ?s1" by (rule cancelRunLocked_inv [OF Cons.prems(3) run(1)])
    show ?thesis
    proof (cases "rid \<in> set order")
      case False
      with Cons.prems(4) have "r = rid" by simp
      then show ?thesis
        using cancelRunLocked_not_overdue [OF Cons.prems(3) run]
        by (intro reconcile_deadlines_keep [OF rec inv]) blast
    qed (rule Cons.IH [OF rec Cons.prems(2) inv])
  next
    case False
    then have rec: "reconcile_deadlines now limit order k s = (t, k')"
      using Cons.prems(1) kl by (auto simp: overdue_def split: option.splits if_splits)
    show ?thesis
      using Cons.IH [OF rec Cons.prems(2,3)] reconcile_deadlines_keep [OF rec Cons.prems(3)] False Cons.prems(4)
      by auto
  qed
qed simp

text \<open>The same for the second loop.\<close>

definition settled :: "time \<Rightarrow> MemoryStorage \<Rightarrow> string \<Rightarrow> bool" where
  "settled now s rid \<longleftrightarrow> (\<forall>run. ms_runs s rid = Some run \<longrightarrow> \<not> recoverable now run \<and> \<not> overdue now run)"

text \<open>What the second loop does with one run.\<close>

definition recover_one :: "time \<Rightarrow> Run \<Rightarrow> MemoryStorage \<Rightarrow> MemoryStorage" where
  "recover_one now run s = (if run_Status run = RunCancelling then finalizeCancellation run now s
     else fst (recoverLost now run s))"

lemma recover_one:
  assumes inv: "storage_inv s" and run: "ms_runs s rid = Some run" "recoverable now run"
  shows "run_steps s (recover_one now run s)" "storage_inv (recover_one now run s)"
    "run_Status run \<noteq> RunCancelling \<Longrightarrow> snd (recoverLost now run s) = Inr ()"
    "r \<noteq> rid \<Longrightarrow> ms_runs (recover_one now run s) r = ms_runs s r"
    "\<not> overdue now run \<Longrightarrow> settled now (recover_one now run s) rid"
proof -
  note stored = storedI [OF inv run(1)]
  note rid = storage_inv_run [OF inv run(1)]
  have lost: "run_steps s (fst (recoverLost now run s))" "snd (recoverLost now run s) = Inr ()"
    if "run_Status run \<noteq> RunCancelling"
    using that run by (auto intro!: recoverLost_steps [OF stored _ _ inv] simp: recoverable_def Let_def)
  then show steps: "run_steps s (recover_one now run s)"
    using finalizeCancellation_steps [OF stored] run by (auto simp: recover_one_def recoverable_def Let_def active_def)
  show "storage_inv (recover_one now run s)" by (rule run_steps_inv [OF steps inv])
  show "run_Status run \<noteq> RunCancelling \<Longrightarrow> snd (recoverLost now run s) = Inr ()" by (rule lost)
  show "r \<noteq> rid \<Longrightarrow> ms_runs (recover_one now run s) r = ms_runs s r"
    using rid(1) by (simp add: recover_one_def finalizeCancellation_other recoverLost_other)
  have hist: "ms_attemptHistory s (run_ID run) \<noteq> []"
    using storage_invD(4) [OF inv] run(1) rid(1) by (auto simp: history_inv_def)
  have dl: "\<not> overdue now run \<Longrightarrow> run_Status run \<noteq> RunCancelling \<Longrightarrow> \<not> reached (run_DeadlineAt run) now"
    using run(2) rid(2) by (auto simp: overdue_def recoverable_def Let_def run_ok_simps)
  show "settled now (recover_one now run s) rid" if "\<not> overdue now run"
  proof (cases "run_Status run = RunCancelling")
    case True
    with finalizeCancellation_run [of run now s] obtain run' where
      "ms_runs (recover_one now run s) rid = Some run'" "run_Status run' = RunCancelled"
      using rid(1) by (auto simp: recover_one_def)
    then show ?thesis by (simp add: settled_def recoverable_def overdue_def Let_def terminalRun_def)
  next
    case False
    with recoverLost_run [OF hist, of now] obtain run' where
      "ms_runs (recover_one now run s) rid = Some run'" "run_DeadlineAt run' = run_DeadlineAt run"
      "run_Status run' = RunFailed \<or> run_Status run' = RunQueued"
      using rid(1) by (auto simp: recover_one_def)
    then show ?thesis using dl [OF that False] by (auto simp: settled_def recoverable_def overdue_def Let_def)
  qed
qed

lemma reconcile_expired_Cons:
  assumes "storage_inv s"
  shows "reconcile_expired now limit (rid # order) k s =
    (case ms_runs s rid of None \<Rightarrow> reconcile_expired now limit order k s
     | Some run \<Rightarrow> if k \<ge> limit \<or> \<not> recoverable now run then reconcile_expired now limit order k s
                   else reconcile_expired now limit order (k + 1) (recover_one now run s))"
proof (cases "ms_runs s rid")
  case (Some run)
  then show ?thesis
    using recover_one(3) [OF assms Some, of now]
    by (cases "recoverLost now run s") (auto simp: recover_one_def)
qed simp

lemma reconcile_expired_keep:
  assumes "reconcile_expired now limit order k s = (t, Inr k')" "storage_inv s" "settled now s rid"
  shows "settled now t rid"
  using assms
proof (induction order arbitrary: k s)
  case (Cons r order)
  have "settled now (recover_one now run s) rid" "storage_inv (recover_one now run s)"
    if "ms_runs s r = Some run" "recoverable now run" for run
  proof -
    have "r \<noteq> rid" using that Cons.prems(3) by (auto simp: settled_def)
    then show "settled now (recover_one now run s) rid"
      using recover_one(4) [OF Cons.prems(2) that, of rid] Cons.prems(3) by (simp add: settled_def)
    show "storage_inv (recover_one now run s)" by (rule recover_one(2) [OF Cons.prems(2) that])
  qed
  then show ?case
    using Cons unfolding reconcile_expired_Cons [OF Cons.prems(2)] by (simp split: option.splits if_splits)
qed simp

lemma reconcile_expired_mono:
  assumes "storage_inv s" "reconcile_expired now limit order k s = (t, Inr k')"
  shows "k \<le> k'"
  using reconcile_expired_count [OF assms(1), of now limit order k] assms(2) by auto

lemma reconcile_expired_done:
  assumes "reconcile_expired now limit order k s = (t, Inr k')" "k' < limit" "storage_inv s"
    "\<forall>r run. ms_runs s r = Some run \<longrightarrow> \<not> overdue now run" "rid \<in> set order"
  shows "settled now t rid"
  using assms
proof (induction order arbitrary: k s)
  case (Cons r order)
  have kl: "k < limit" using reconcile_expired_mono [OF Cons.prems(3,1)] Cons.prems(2) by linarith
  show ?case
  proof (cases "\<exists>run. ms_runs s r = Some run \<and> recoverable now run")
    case True
    then obtain run where run: "ms_runs s r = Some run" "recoverable now run" by blast
    let ?s1 = "recover_one now run s"
    note one = recover_one [OF Cons.prems(3) run]
    have rec: "reconcile_expired now limit order (k + 1) ?s1 = (t, Inr k')"
      using Cons.prems(1) kl run unfolding reconcile_expired_Cons [OF Cons.prems(3)] by simp
    have set_r: "settled now ?s1 r" using one(5) Cons.prems(4) run(1) by blast
    then have ov: "\<forall>q x. ms_runs ?s1 q = Some x \<longrightarrow> \<not> overdue now x"
      using one(4) Cons.prems(4) unfolding settled_def by (metis (no_types))
    show ?thesis
      using Cons.IH [OF rec Cons.prems(2) one(2) ov] reconcile_expired_keep [OF rec one(2) set_r] Cons.prems(5) by auto
  next
    case False
    then have rec: "reconcile_expired now limit order k s = (t, Inr k')"
      using Cons.prems(1) unfolding reconcile_expired_Cons [OF Cons.prems(3)] by (auto split: option.splits if_splits)
    have "settled now s r" using False Cons.prems(4) by (auto simp: settled_def)
    then show ?thesis
      using Cons.IH [OF rec Cons.prems(2,3,4)] reconcile_expired_keep [OF rec Cons.prems(3)] Cons.prems(5) by auto
  qed
qed simp


lemma demo_reconcile:
  "\<exists>t run. Reconcile [demo_id ''run'' 0] [demo_id ''run'' 0] 500 10 at_running = (t, Inr 1) \<and>
     ms_runs t (demo_id ''run'' 0) = Some run \<and> run_Status run = RunQueued \<and> att_Number (run_Attempt run) = 2"
proof -
  have hist: "ms_attemptHistory at_running (demo_id ''run'' 0) \<noteq> []"
    using storage_invD(4) [OF reachable_inv [OF demo_reachable(5)]] at_running(2) by (auto simp: history_inv_def)
  have req: "request_of at_running (demo_id ''run'' 0) = demo_request" by (simp add: request_of_def at_running)
  have rec: "recoverable 500 running_run"
    by (simp add: recoverable_def running_run_facts Let_def reached_def)
  have two: "rp_MaxAttempts (rq_Retry demo_request) = 2" by (simp add: demo_request_def)
  have "snd (recoverLost 500 running_run at_running) = Inr ()"
    "\<exists>run. ms_runs (fst (recoverLost 500 running_run at_running)) (demo_id ''run'' 0) = Some run \<and>
       run_Status run = RunQueued \<and> att_Number (run_Attempt run) = 2"
    by (simp_all add: recoverLost_def Let_def storage_simps hist running_run_facts req two)
  then show ?thesis
    using at_running(2) rec
    by (cases "recoverLost 500 running_run at_running")
      (auto simp: Reconcile_def running_run_facts reached_def)
qed


text \<open>
  A lost attempt. When the lease of a running attempt expired, the run is retried as a new attempt
  (a fresh identifier, the next number, available after the back-off, the lost attempt kept in the
  history) while the retry policy allows it, and fails for good otherwise; the node's slot is
  released either way.
\<close>

theorem lost_attempt:
  assumes "reachable sv s" "ms_runs s rid = Some run" "run_Status run = RunRunning" "recoverable now run"
    and "no_collision (fst (recoverLost now run s))"
  shows "\<exists>t run'. recoverLost now run s = (t, Inr ()) \<and> ms_runs t rid = Some run' \<and>
    ms_nodes t = release (att_NodeID (run_Attempt run)) (ms_nodes s) \<and>
    (if att_Number (run_Attempt run) < rp_MaxAttempts (rq_Retry (request_of s rid))
     then run_Status run' = RunQueued \<and> att_Status (run_Attempt run') = AttemptQueued \<and>
       att_Number (run_Attempt run') = att_Number (run_Attempt run) + 1 \<and>
       att_ID (run_Attempt run') \<notin> issued s ''attempt'' \<and>
       att_AvailableAt (run_Attempt run') = Some (now + retryBackoff (rq_Retry (request_of s rid))) \<and>
       ms_attemptHistory t rid = butlast (ms_attemptHistory s rid) @
         [(run_Attempt run)\<lparr>att_Status := AttemptLost, att_CompletedAt := Some now\<rparr>, run_Attempt run']
     else run_Status run' = RunFailed \<and> att_Status (run_Attempt run') = AttemptLost \<and>
       run_Error run' = ''attempt lease expired'')"
proof -
  note inv = reachable_inv [OF assms(1)]
  have rid: "run_ID run = rid" by (rule storage_inv_run(1) [OF inv assms(2)])
  have hist: "ms_attemptHistory s rid \<noteq> []" using storage_invD(4) [OF inv] assms(2) by (auto simp: history_inv_def)
  show ?thesis
  proof (cases "att_Number (run_Attempt run) < rp_MaxAttempts (rq_Retry (request_of s rid))")
    case True
    then have "id_text ''attempt'' (draw s 12 (Suc (w_drawn s))) \<notin> issued s ''attempt''"
      using assms(5) hist rid
      by (intro draw_fresh [OF no_collision_draws [OF assms(5), of s "Suc (Suc (w_drawn s))"]])
        (simp_all add: recoverLost_def Let_def storage_simps)
    with True hist rid show ?thesis
      by (simp add: recoverLost_def Let_def storage_simps draw_def) 
  qed (use rid in \<open>simp add: recoverLost_def Let_def storage_simps\<close>)
qed

theorem lost_attempt_witness:
  "\<exists>t run'. recoverLost 500 running_run at_running = (t, Inr ()) \<and> ms_runs t (demo_id ''run'' 0) = Some run' \<and>
     run_Status run' = RunQueued \<and> att_Number (run_Attempt run') = 2"
proof -
  let ?t = "fst (recoverLost 500 running_run at_running)"
  have run: "ms_runs at_running (demo_id ''run'' 0) = Some running_run" by (simp add: at_running)
  have rec: "recoverable 500 running_run" by (simp add: recoverable_def running_run_facts Let_def reached_def)
  have hist: "ms_attemptHistory at_running (demo_id ''run'' 0) \<noteq> []"
    using storage_invD(4) [OF reachable_inv [OF demo_reachable(5)]] run by (auto simp: history_inv_def)
  have req: "request_of at_running (demo_id ''run'' 0) = demo_request" by (simp add: request_of_def at_running)
  have "demo_state ?t 13 11"
    using at_running(1)
    by (simp add: recoverLost_def Let_def storage_simps hist running_run_facts req demo_state_def demo_request_def)
  from lost_attempt [OF demo_reachable(5) run running_run_facts(1) rec demo_no_collision [OF this]]
  show ?thesis by (auto simp: running_run_facts req demo_request_def)
qed

section \<open>A lease that nobody reclaims\<close>

lemma reconcile_deadlines_untouched:
  assumes "storage_inv s" "ms_runs s rid = Some run" "\<not> overdue now run"
  shows "ms_runs (fst (reconcile_deadlines now limit order k s)) rid = Some run"
  using assms
proof (induction order arbitrary: k s)
  case (Cons r order)
  have "ms_runs (fst (reconcile_deadlines now limit order k' (cancelRunLocked x timeoutRequest now s))) rid = Some run"
    if "ms_runs s r = Some x" "overdue now x" for x k'
  proof (rule Cons.IH)
    have "r \<noteq> rid" using that Cons.prems by auto
    then show "ms_runs (cancelRunLocked x timeoutRequest now s) rid = Some run"
      using Cons.prems storage_inv_run(1) [OF Cons.prems(1) that(1)] by (simp add: cancelRunLocked_other)
  qed (use cancelRunLocked_inv [OF Cons.prems(1) that(1)] Cons.prems in auto)
  then show ?case using Cons by (simp add: overdue_def split: option.split)
qed simp

lemma reconcile_expired_untouched:
  assumes "storage_inv s" "ms_runs s rid = Some run" "\<not> recoverable now run"
  shows "ms_runs (fst (reconcile_expired now limit order k s)) rid = Some run"
  using assms
proof (induction order arbitrary: k s)
  case (Cons r order)
  have "ms_runs (fst (reconcile_expired now limit order k' (recover_one now x s))) rid = Some run"
    if "ms_runs s r = Some x" "recoverable now x" for x k'
  proof (rule Cons.IH)
    have "r \<noteq> rid" using that Cons.prems by auto
    then show "ms_runs (recover_one now x s) rid = Some run"
      using recover_one(4) [OF Cons.prems(1) that, of rid] Cons.prems by simp
  qed (use recover_one(2) [OF Cons.prems(1) that] Cons.prems in auto)
  then show ?case using Cons unfolding reconcile_expired_Cons [OF Cons.prems(1)] by (simp split: option.split)
qed simp

text \<open>
  A node that took a lease it never started, and has no spare capacity, cannot get it back and
  nobody reclaims it for the node: \<open>Claim\<close> by that node answers \<open>ErrNoAssignment\<close> before it sweeps
  expired leases, and \<open>Reconcile\<close> leaves a queued run with a leased attempt alone, however long ago
  the lease expired. Only another node's \<open>Claim\<close> frees the slot.
\<close>

theorem expired_lease_blocks_node:
  assumes "reachable sv s" "ms_nodes s n = Some node" "reg_Capacity (node_Registration node) \<le> node_Active node"
    and "ms_runs s rid = Some run" "run_Status run = RunQueued" "\<not> reached (run_DeadlineAt run) now"
  shows "Claim sv order1 order2 n ttl s = (s, Inl ErrNoAssignment) \<and>
    ms_runs (fst (Reconcile order1 order2 now limit s)) rid = Some run"
proof
  note inv = reachable_inv [OF assms(1)]
  show "Claim sv order1 order2 n ttl s = (s, Inl ErrNoAssignment)" using assms(2,3) by (simp add: Claim_def)
  obtain u k where u: "reconcile_deadlines now limit order1 0 s = (u, k)" by fastforce
  have "ms_runs u rid = Some run"
    using reconcile_deadlines_untouched [OF inv assms(4), of now limit order1 0] assms(6) by (simp add: overdue_def u)
  moreover have "storage_inv u"
    using run_steps_inv [OF reconcile_deadlines_steps [OF inv, of now limit order1 0] inv] by (simp add: u)
  moreover have "\<not> recoverable now run" using assms(5) by (simp add: recoverable_def)
  ultimately show "ms_runs (fst (Reconcile order1 order2 now limit s)) rid = Some run"
    by (simp add: Reconcile_def u reconcile_expired_untouched)
qed

theorem expired_lease_blocks_node_witness:
  "Claim demo_semver [] [demo_id ''run'' 0] ''n1'' 60 (at_leased 2) = (at_leased 2, Inl ErrNoAssignment) \<and>
   ms_runs (fst (Reconcile [] [demo_id ''run'' 0] 1000 10 (at_leased 2))) (demo_id ''run'' 0) = Some (leased_run 2) \<and>
   att_LeaseExpiresAt (run_Attempt (leased_run 2)) = Some 6"
  using expired_lease_blocks_node [OF demo_reachable(4) [of 2], of "''n1''" "demo_node\<lparr>node_Active := 1\<rparr>"
      "demo_id ''run'' 0" "leased_run 2" 1000 "[]" "[demo_id ''run'' 0]" 60 10]
  by (simp add: at_leased leased_run_def demo_node_def demo_registration_def reached_def)


end
