(* ===== verification/Memory_Calls.thy ===== *)
theory Memory_Calls
  imports Memory_Recovery
begin

text \<open>
  Producer events, capability reservations, interactions and listings of the in-memory control plane.
\<close>

section \<open>Producer events\<close>

lemma AppendEvent_authorized:
  assumes "authorize rid aid lease s = (s', Inr run)" "att_Status (run_Attempt run) = AttemptRunning"
    and "find_event (EventIdentity aid lease ids) (ms_events s' rid) = Some e" "EventIdentity aid lease ids \<noteq> []"
  shows "AppendEvent rid aid lease ty data ids s =
    (s', case SameEvent (ev_Type e) (ev_Data e) ty data of None \<Rightarrow> Inr () | Some x \<Rightarrow> Inl x)"
  using assms by (simp add: AppendEvent_def Let_def)

lemma AppendEvent_recorded:
  assumes "storage_inv s" "AppendEvent rid aid lease ty data ids s = (s1, Inr ())" "EventIdentity aid lease ids \<noteq> []"
  shows "\<exists>e. find_event (EventIdentity aid lease ids) (ms_events s1 rid) = Some e \<and>
    SameEvent (ev_Type e) (ev_Data e) ty data = None \<and> ev_Type e = ty"
proof -
  let ?id = "EventIdentity aid lease ids"
  from assms(2) obtain s' run where auth: "authorize rid aid lease s = (s', Inr run)"
    and run: "att_Status (run_Attempt run) = AttemptRunning"
    by (auto simp: AppendEvent_def split: prod.splits sum.splits if_splits)
  have rid: "run_ID run = rid" by (rule storage_inv_run(1) [OF assms(1) authorize_Inr(2) [OF auth]])
  show ?thesis
  proof (cases "find_event ?id (ms_events s' rid)")
    case (Some e)
    from AppendEvent_authorized [OF auth run Some assms(3), of ty data] assms(2) Some show ?thesis
      by (auto simp: SameEvent_def split: option.splits sum.splits if_splits)
  next
    case None
    with assms(2,3) auth run obtain j where j: "json_Marshal data = Inr j"
      and s1: "s1 = rename_last rid ?id (appendEvent run ty data s')"
      by (auto simp: AppendEvent_def Let_def split: sum.splits)
    have "SameEvent ty (case data of GoNil \<Rightarrow> None | GoVal j \<Rightarrow> Some j | GoBad \<Rightarrow> None) ty data = None"
      using j by (cases data) (auto simp: SameEvent_def json_Marshal_def raw_json_def)
    then show ?thesis
      using None rid rename_last_events [of run ?id ty data s']
      by (simp add: s1 find_event_append new_event_def)
  qed
qed

text \<open>
  A producer may repeat an event. After \<open>AppendEvent\<close> recorded an event under a producer identity,
  a repetition of it under the same lease, at any later time, is acknowledged without a second
  event, and the reuse of the identity for another event type is refused; either way only the clock is
  read.
\<close>

theorem append_event_idempotent:
  assumes "reachable sv s" "AppendEvent rid aid lease ty data (eid # ids) s = (s1, Inr ())" "eid \<noteq> []"
    and "no_collision s1" "leads_to sv s1 t"
    and "authorize rid aid lease t = (t', Inr run)" "att_Status (run_Attempt run) = AttemptRunning"
  shows "AppendEvent rid aid lease ty data (eid # ids') t = (t\<lparr>w_ticks := Suc (w_ticks t)\<rparr>, Inr ()) \<and>
    (ty' \<noteq> ty \<longrightarrow> (\<exists>e. AppendEvent rid aid lease ty' data' (eid # ids') t = (t\<lparr>w_ticks := Suc (w_ticks t)\<rparr>, Inl e)))"
proof -
  note inv = reachable_inv [OF assms(1)]
  let ?id = "EventIdentity aid lease (eid # ids)"
  have id: "?id \<noteq> []" "EventIdentity aid lease (eid # ids') = ?id" using assms(3) by (simp_all add: EventIdentity_def)
  obtain e where e: "find_event ?id (ms_events s1 rid) = Some e" "SameEvent (ev_Type e) (ev_Data e) ty data = None"
    "ev_Type e = ty"
    using AppendEvent_recorded [OF inv assms(2) id(1)] by blast
  have inv1: "storage_inv s1" using run_steps_inv [OF AppendEvent_steps [OF inv] inv] assms(2) by (metis fst_conv)
  obtain new where "ms_events t rid = ms_events s1 rid @ new" using leads_to_events [OF assms(5) inv1] by blast
  with e authorize_Inr(1) [OF assms(6)] have found: "find_event (EventIdentity aid lease (eid # ids')) (ms_events t' rid) = Some e"
    by (simp add: id find_event_append)
  have "SameEvent (ev_Type e) (ev_Data e) ty' data' \<noteq> None" if "ty' \<noteq> ty"
    using that e(3) by (simp add: SameEvent_def split: sum.split)
  with e(2) AppendEvent_authorized [OF assms(6,7) found] id authorize_Inr(1) [OF assms(6)] show ?thesis
    by (auto split: option.split) blast
qed

definition at_logged :: MemoryStorage where
  "at_logged = fst (AppendEvent (demo_id ''run'' 0) (demo_id ''attempt'' 1) (demo_id ''lease'' 4) ''note'' GoNil [''e1''] at_running)"

lemma demo_authorize:
  assumes "demo_state s m n" "m < 100" "ms_runs s = [demo_id ''run'' 0 \<mapsto> running_run]"
  shows "authorize (demo_id ''run'' 0) (demo_id ''attempt'' 1) (demo_id ''lease'' 4) s =
    (s\<lparr>w_ticks := Suc m\<rparr>, Inr running_run)"
  using assms by (simp add: authorize_def storage_simps running_run_facts demo_state_def)

lemma find_event_none: "\<forall>e \<in> set es. ev_ID e \<noteq> eid \<Longrightarrow> find_event eid es = None"
  by (induction es) auto

definition plain_ids :: "(string \<Rightarrow> Event list) \<Rightarrow> bool" where
  "plain_ids events \<longleftrightarrow> (\<forall>rid. \<forall>e \<in> set (events rid). hd (ev_ID e) = CHR ''e'')"

lemma plain_ids_new: "plain_ids events \<Longrightarrow> plain_ids (events(rid := events rid @ [new_event run ty v s]))"
  "plain_ids events \<Longrightarrow> plain_ids (events(rid := events rid @ [new_event run ty v s, new_event run' ty' v' s']))"
  by (auto simp: plain_ids_def new_event_def id_text_def)

lemma demo_event_ids: "plain_ids (ms_events at_running)"
proof -
  have "plain_ids (\<lambda>_. [])" by (simp add: plain_ids_def)
  then have 1: "plain_ids (ms_events at_submitted)"
    using at_registered(4,5)
    by (simp only: at_submitted_def Submit_new fst_conv appendEvent_events)
      (intro plain_ids_new(1), simp add: submitted_def)
  have 2: "plain_ids (ms_events (at_leased 100))"
    using plain_ids_new(1) [OF 1] by (simp add: at_leased_def at_leased_eq leaseRun_def Let_def storage_simps)
  then show ?thesis
    using at_leased [of 100] plain_ids_new(2) [OF 2]
    by (simp add: at_running_def Start_def authorize_def Let_def storage_simps demo_state_def demo_asg_def leased_run_def)
qed

lemma at_logged: "AppendEvent (demo_id ''run'' 0) (demo_id ''attempt'' 1) (demo_id ''lease'' 4) ''note'' GoNil [''e1''] at_running
    = (at_logged, Inr ())" "demo_state at_logged 13 9" "ms_runs at_logged = [demo_id ''run'' 0 \<mapsto> running_run]"
proof -
  let ?id = "EventIdentity (demo_id ''attempt'' 1) (demo_id ''lease'' 4) [''e1'']"
  have id: "hd ?id = CHR ''p''" "?id \<noteq> []" by (simp_all add: EventIdentity_def)
  have "find_event ?id (ms_events at_running (demo_id ''run'' 0)) = None"
    using demo_event_ids id(1) by (intro find_event_none) (fastforce simp: plain_ids_def)
  then have eq: "AppendEvent (demo_id ''run'' 0) (demo_id ''attempt'' 1) (demo_id ''lease'' 4) ''note'' GoNil [''e1''] at_running =
      (rename_last (demo_id ''run'' 0) ?id (appendEvent running_run ''note'' GoNil (at_running\<lparr>w_ticks := 12\<rparr>)), Inr ())"
    using demo_authorize [OF at_running(1) _ at_running(2)] id(2)
    by (simp add: AppendEvent_def Let_def running_run_facts json_Marshal_def)
  show "AppendEvent (demo_id ''run'' 0) (demo_id ''attempt'' 1) (demo_id ''lease'' 4) ''note'' GoNil [''e1''] at_running
    = (at_logged, Inr ())" by (simp only: at_logged_def eq fst_conv)
  show "demo_state at_logged 13 9" "ms_runs at_logged = [demo_id ''run'' 0 \<mapsto> running_run]"
    unfolding at_logged_def eq using at_running by (simp_all add: demo_state_def)
qed

theorem append_event_idempotent_witness:
  "AppendEvent (demo_id ''run'' 0) (demo_id ''attempt'' 1) (demo_id ''lease'' 4) ''note'' GoNil [''e1''] at_logged =
     (at_logged\<lparr>w_ticks := Suc (w_ticks at_logged)\<rparr>, Inr ())"
  using append_event_idempotent [OF demo_reachable(5) at_logged(1) _ demo_no_collision [OF at_logged(2)] leads_to.here
      demo_authorize [OF at_logged(2) _ at_logged(3)]] running_run_facts(5)
  by simp

section \<open>Capability reservations\<close>

lemma ReserveCapability_known:
  assumes "authorize (as_RunID a) (as_AttemptID a) (as_LeaseToken a) s = (s', Inr run)"
    "att_Status (run_Attempt run) = AttemptRunning" "ms_capabilityCalls s' (as_RunID a @ nul @ key) = Some old"
  shows "ReserveCapability a key hash s =
    (s', if mcc_hash old \<noteq> hash then Inl ErrIdempotencyConflict else Inr (mcc_reservation old))"
  using assms by (simp add: ReserveCapability_def Let_def)

lemma ReserveCapability_Inr:
  assumes "ReserveCapability a key hash s = (s1, Inr rsv)"
  shows "ms_capabilityCalls s1 (as_RunID a @ nul @ key) = Some \<lparr>mcc_hash = hash, mcc_reservation = rsv\<rparr>"
  using assms
  by (auto simp: ReserveCapability_def storage_simps Let_def split: prod.splits sum.splits if_splits option.splits)

text \<open>
  A capability call is reserved once per run and idempotency key. While the call is not finished, a
  repeated reservation with the same request hash returns the same call identifier and the same
  reservation, still marked for execution; another hash under the same key is a conflict. Neither adds a call.
\<close>

theorem reserve_capability_once:
  assumes "ReserveCapability a key hash s = (s1, Inr rsv)"
    and "authorize (as_RunID a) (as_AttemptID a) (as_LeaseToken a) s1 = (s2, Inr run)"
      "att_Status (run_Attempt run) = AttemptRunning"
  shows "ReserveCapability a key hash s1 = (s2, Inr rsv) \<and> ms_capabilityCalls s2 = ms_capabilityCalls s1 \<and>
    (hash' \<noteq> hash \<longrightarrow> ReserveCapability a key hash' s1 = (s2, Inl ErrIdempotencyConflict))"
proof -
  have calls: "ms_capabilityCalls s2 = ms_capabilityCalls s1" using authorize_Inr(1) [OF assms(2)] by simp
  then have "ms_capabilityCalls s2 (as_RunID a @ nul @ key) = Some \<lparr>mcc_hash = hash, mcc_reservation = rsv\<rparr>"
    using ReserveCapability_Inr [OF assms(1)] by simp
  from ReserveCapability_known [OF assms(2,3) this] calls show ?thesis by simp
qed

definition at_reserved :: MemoryStorage where
  "at_reserved = fst (ReserveCapability (demo_asg 100) ''k1'' ''h'' at_running)"

definition demo_reservation :: CapabilityReservation where
  "demo_reservation = \<lparr>rsv_CallID = demo_id ''call'' 8, rsv_Execute = True, rsv_Result = None, rsv_Error = []\<rparr>"

lemma at_running_calls: "ms_capabilityCalls at_running = Map.empty"
proof -
  have "ms_capabilityCalls at_start = Map.empty"
    by (simp add: at_start_def NewMemoryStorage_def world.defs)
  then have "ms_capabilityCalls at_submitted = Map.empty"
    using at_registered by (simp add: at_submitted_def Submit_new submitted_def at_registered_def RegisterNode_def storage_simps Let_def)
  then have "ms_capabilityCalls (at_leased 100) = Map.empty"
    by (simp add: at_leased_def at_leased_eq leaseRun_def Let_def storage_simps)
  then show ?thesis
    using at_leased [of 100]
    by (simp add: at_running_def Start_def authorize_def Let_def storage_simps demo_state_def demo_asg_def leased_run_def)
qed

lemma at_reserved: "ReserveCapability (demo_asg 100) ''k1'' ''h'' at_running = (at_reserved, Inr demo_reservation)"
  "demo_state at_reserved 12 9" "ms_runs at_reserved = [demo_id ''run'' 0 \<mapsto> running_run]"
proof -
  have "ReserveCapability (demo_asg 100) ''k1'' ''h'' at_running =
    (at_running\<lparr>w_ticks := 12, w_drawn := 9, ms_capabilityCalls := [demo_id ''run'' 0 @ nul @ ''k1'' \<mapsto>
       \<lparr>mcc_hash = ''h'', mcc_reservation = demo_reservation\<rparr>]\<rparr>, Inr demo_reservation)"
    using at_running demo_draw [OF at_running(1), of "''call''" 8]
    by (simp add: ReserveCapability_def authorize_def storage_simps Let_def demo_asg_def running_run_facts demo_state_def
        at_running_calls demo_reservation_def draw_def)
  note eq = this
  show "ReserveCapability (demo_asg 100) ''k1'' ''h'' at_running = (at_reserved, Inr demo_reservation)"
    by (simp only: at_reserved_def eq fst_conv)
  show "demo_state at_reserved 12 9" "ms_runs at_reserved = [demo_id ''run'' 0 \<mapsto> running_run]"
    unfolding at_reserved_def eq using at_running by (simp_all add: demo_state_def)
qed

theorem reserve_capability_once_witness:
  "\<exists>t. ReserveCapability (demo_asg 100) ''k1'' ''h'' at_reserved = (t, Inr demo_reservation) \<and> rsv_Execute demo_reservation"
proof -
  have auth: "authorize (as_RunID (demo_asg 100)) (as_AttemptID (demo_asg 100)) (as_LeaseToken (demo_asg 100)) at_reserved =
      (at_reserved\<lparr>w_ticks := Suc 12\<rparr>, Inr running_run)"
    using demo_authorize [OF at_reserved(2) _ at_reserved(3)] by (simp add: demo_asg_def)
  from reserve_capability_once [OF at_reserved(1) auth running_run_facts(5)] show ?thesis
    by (auto simp: demo_reservation_def)
qed

section \<open>Interactions\<close>

text \<open>
  An interaction is answered once, by a host that may see its run. A successful
  \<open>ResolveInteraction\<close> means that the interaction was pending and its run belongs to the caller's
  tenant and project; it stores the response, and any second answer is refused without a change.
\<close>

theorem resolve_interaction_once:
  assumes "ResolveInteraction iid response tenant project s = (s1, Inr v)"
  shows "\<exists>old run. ms_interactions s iid = Some old \<and> ia_State old = ''pending'' \<and> ms_runs s (ia_RunID old) = Some run \<and>
    (tenant = [] \<or> run_TenantID run = tenant) \<and> (project = [] \<or> run_ProjectID run = project) \<and>
    v = old\<lparr>ia_State := ''resolved'', ia_Response := response, ia_ResolvedAt := Some (w_clock s (w_ticks s))\<rparr> \<and>
    ms_interactions s1 iid = Some v \<and> ms_runs s1 = ms_runs s \<and>
    ResolveInteraction iid response' tenant project s1 = (s1, Inl ErrInvalidTransition)"
  using assms
  by (auto simp: ResolveInteraction_def storage_simps Let_def split: option.splits if_splits)

definition at_asked :: MemoryStorage where
  "at_asked = fst (CreateInteraction (demo_asg 100) \<lparr>ir_Kind = InteractionInput, ir_Prompt = ''ok?'', ir_Data = None\<rparr> at_running)"

theorem resolve_interaction_once_witness:
  "\<exists>s1 v. ResolveInteraction (demo_id ''interaction'' 8) None [] [] at_asked = (s1, Inr v) \<and>
     ResolveInteraction (demo_id ''interaction'' 8) None [] [] s1 = (s1, Inl ErrInvalidTransition)"
proof -
  have asked: "\<exists>old. ms_interactions at_asked (demo_id ''interaction'' 8) = Some old \<and> ia_State old = ''pending'' \<and>
      ia_RunID old = demo_id ''run'' 0" "ms_runs at_asked (demo_id ''run'' 0) = Some running_run"
    using at_running demo_draw [OF at_running(1), of "''interaction''" 8]
    by (simp_all add: at_asked_def CreateInteraction_def authorize_def storage_simps Let_def demo_asg_def running_run_facts
        demo_state_def draw_def)
  then obtain s1 v where r: "ResolveInteraction (demo_id ''interaction'' 8) None [] [] at_asked = (s1, Inr v)"
    by (auto simp: ResolveInteraction_def storage_simps Let_def)
  with resolve_interaction_once [OF r, of None] show ?thesis by blast
qed

section \<open>Listing\<close>

definition listed :: "string \<Rightarrow> string \<Rightarrow> string \<Rightarrow> Run \<Rightarrow> bool" where
  "listed tenant project session run \<longleftrightarrow> (tenant = [] \<or> run_TenantID run = tenant) \<and>
     (project = [] \<or> run_ProjectID run = project) \<and> (session = [] \<or> run_SessionID run = session)"

lemma set_map_filter: "set (List.map_filter f xs) = {y. \<exists>x \<in> set xs. f x = Some y}"
  by (induction xs) (auto simp: List.map_filter_simps split: option.splits)

lemma sorted_take_drop:
  assumes "sorted (map f xs)" "x \<in> set (take n xs)" "y \<in> set (drop n xs)"
  shows "f x \<le> f y"
proof -
  have "sorted (map f (take n xs) @ map f (drop n xs))" using assms(1) by (simp flip: map_append)
  with assms(2,3) show ?thesis by (auto simp: sorted_append)
qed

text \<open>
  \<open>ListRuns\<close> returns the newest runs of the requested tenant, project and session, newest first,
  at most 200 (50 by default): only stored, matching runs, and a matching run is left out only when
  the page is full of runs that are at least as new.
\<close>

theorem list_runs_page:
  assumes "ListRuns order tenant project session limit s = Inr rs" "set order = dom (ms_runs s)"
  defines "page \<equiv> if limit \<le> 0 \<or> limit > 200 then 50 else limit"
  shows "sorted_wrt (\<lambda>a b. run_CreatedAt b \<le> run_CreatedAt a) rs \<and> int (length rs) \<le> page \<and>
    (\<forall>run \<in> set rs. (\<exists>rid. ms_runs s rid = Some run) \<and> listed tenant project session run) \<and>
    (\<forall>rid run. ms_runs s rid = Some run \<and> listed tenant project session run \<and> run \<notin> set rs \<longrightarrow>
       int (length rs) = page \<and> (\<forall>x \<in> set rs. run_CreatedAt run \<le> run_CreatedAt x))"
proof -
  let ?all = "filter (listed tenant project session) (List.map_filter (ms_runs s) order)"
  let ?sorted = "sort_key (\<lambda>run. - run_CreatedAt run) ?all"
  have "listed tenant project session = (\<lambda>run. (tenant = [] \<or> run_TenantID run = tenant) \<and>
     (project = [] \<or> run_ProjectID run = project) \<and> (session = [] \<or> run_SessionID run = session))"
    by (simp add: fun_eq_iff listed_def)
  then have rs: "rs = take (nat page) ?sorted"
    using assms(1) unfolding page_def by (simp only: ListRuns_def Let_def sum.inject)
  have pos: "0 < page" by (auto simp: page_def)
  have sorted: "sorted (map (\<lambda>run. - run_CreatedAt run) ?sorted)" by (rule sorted_sort_key)
  then have "sorted (map (\<lambda>run. - run_CreatedAt run) rs)" unfolding rs take_map [symmetric] by (rule sorted_wrt_take)
  then have 1: "sorted_wrt (\<lambda>a b. run_CreatedAt b \<le> run_CreatedAt a) rs" by (simp add: sorted_map)
  have mem: "set ?sorted = {run. (\<exists>rid. ms_runs s rid = Some run) \<and> listed tenant project session run}"
    using assms(2) by (auto simp: set_map_filter domI)
  have 2: "int (length rs) \<le> page" using pos by (simp add: rs)
  have 3: "\<forall>run \<in> set rs. (\<exists>rid. ms_runs s rid = Some run) \<and> listed tenant project session run"
    using mem set_take_subset [of "nat page" ?sorted] unfolding rs by blast
  have 4: "int (length rs) = page \<and> (\<forall>x \<in> set rs. run_CreatedAt run \<le> run_CreatedAt x)"
    if "ms_runs s rid = Some run" "listed tenant project session run" "run \<notin> set rs" for rid run
  proof -
    have "run \<in> set ?sorted" using that mem by blast
    then have drop: "run \<in> set (drop (nat page) ?sorted)" using that(3) unfolding rs by (metis append_take_drop_id Un_iff set_append)
    then have "nat page < length ?sorted" by (metis drop_all in_set_conv_nth length_0_conv less_nat_zero_code not_le_imp_less list.set(1) empty_iff)
    then have "int (length rs) = page" using pos by (simp add: rs)
    moreover have "\<forall>x \<in> set rs. run_CreatedAt run \<le> run_CreatedAt x"
      using sorted_take_drop [OF sorted _ drop] unfolding rs by fastforce
    ultimately show ?thesis by blast
  qed
  show ?thesis using 1 2 3 4 by blast
qed

theorem list_runs_page_witness:
  "\<exists>rs. ListRuns [demo_id ''run'' 0] ''t'' [] [] 10 at_done = Inr rs \<and> int (length rs) \<le> 10"
proof -
  obtain rs where rs: "ListRuns [demo_id ''run'' 0] ''t'' [] [] 10 at_done = Inr rs" by (simp add: ListRuns_def Let_def)
  from list_runs_page [OF rs] rs show ?thesis by (simp add: at_done)
qed

end
