(* ===== verification/Blob_Stores.thy ===== *)
theory Blob_Stores
  imports Go_Files Relay_Types
begin

text \<open>
  \<open>BlobStore\<close> (\<open>controlplane/service.go\<close>) as an interface: its operations as a record, its contract as
  a locale, and the two implementations of the repository that keep the bytes themselves:
  \<open>MemoryBlobStore\<close> (\<open>blob.go\<close>) and \<open>FileBlobStore\<close> (\<open>file_blob.go\<close>).

  An \<open>io.Reader\<close> is what it will deliver: its bytes, then end of file or an error. \<open>Put\<close> also returns
  the bytes it has read, which is what an \<open>io.TeeReader\<close> around the reader sees.
\<close>

type_synonym reader = "string \<times> error option"

definition io_ReadAll :: "reader \<Rightarrow> string result" where
  "io_ReadAll r = (case snd r of None \<Rightarrow> Inr (fst r) | Some e \<Rightarrow> Inl e)"

record 'b BlobStore =
  bs_Put :: "string \<Rightarrow> reader \<Rightarrow> 'b \<Rightarrow> 'b \<times> string \<times> int result"
  bs_Open :: "string \<Rightarrow> 'b \<Rightarrow> string result"
  bs_Delete :: "string \<Rightarrow> 'b \<Rightarrow> 'b \<times> unit result"

section \<open>The contract\<close>

locale blob_store =
  fixes store :: "'b BlobStore"
    and content :: "'b \<Rightarrow> string \<Rightarrow> string option"
    and ok_key :: "string \<Rightarrow> bool"
    and readable :: "'b \<Rightarrow> string \<Rightarrow> bool"
  assumes Put_ok: "bs_Put store key r b = (b', read, Inr n) \<Longrightarrow> ok_key key \<Longrightarrow>
      read = fst r \<and> n = int (length read) \<and> content b' key = Some read"
    and Put_other: "bs_Put store key r b = (b', read, res) \<Longrightarrow> ok_key k \<Longrightarrow> k \<noteq> key \<Longrightarrow> content b' k = content b k"
    and Put_err: "bs_Put store key r b = (b', read, Inl e) \<Longrightarrow> ok_key k \<Longrightarrow> content b' k = content b k"
    and Open_sound: "bs_Open store key b = Inr v \<Longrightarrow> ok_key key \<Longrightarrow> content b key = Some v"
    and Open_complete: "content b key = Some v \<Longrightarrow> ok_key key \<Longrightarrow> readable b key \<Longrightarrow> bs_Open store key b = Inr v"
    and Open_missing: "content b key = None \<Longrightarrow> ok_key key \<Longrightarrow> bs_Open store key b = Inl ErrNotFound"
    and Delete_ok: "bs_Delete store key b = (b', Inr ()) \<Longrightarrow> ok_key key \<Longrightarrow> content b' key = None"
    and Delete_err: "bs_Delete store key b = (b', Inl e) \<Longrightarrow> ok_key k \<Longrightarrow> content b' k = content b k"
    and Delete_other: "bs_Delete store key b = (b', done) \<Longrightarrow> ok_key k \<Longrightarrow> k \<noteq> key \<Longrightarrow> content b' k = content b k"
begin

text \<open>Storing a blob under an unused key and deleting it again leaves no trace.\<close>

lemma put_delete:
  assumes "bs_Put store key r b = (b1, read, Inr n)" "bs_Delete store key b1 = (b2, Inr ())"
    and "content b key = None" "ok_key key" "ok_key k"
  shows "content b2 k = content b k"
  using assms Put_other [of key r b b1 read "Inr n" k] Delete_other [of key b1 b2 "Inr ()" k] Delete_ok [of key b1 b2]
  by (cases "k = key") auto

lemma put_open:
  assumes "bs_Put store key r b = (b1, read, Inr n)" "ok_key key" "readable b1 key"
  shows "bs_Open store key b1 = Inr (fst r)" "n = int (length (fst r))"
  using Put_ok [OF assms(1,2)] Open_complete [OF _ assms(2,3)] by auto

end

section \<open>MemoryBlobStore\<close>

type_synonym MemoryBlobStore = "string \<Rightarrow> string option"

definition MemoryBlobStore_Put :: "string \<Rightarrow> reader \<Rightarrow> MemoryBlobStore \<Rightarrow> MemoryBlobStore \<times> string \<times> int result" where
  "MemoryBlobStore_Put key r values =
    (case io_ReadAll r of Inl e \<Rightarrow> (values, fst r, Inl e)
     | Inr value \<Rightarrow> (values(key \<mapsto> value), value, Inr (int (length value))))"

definition MemoryBlobStore_Open :: "string \<Rightarrow> MemoryBlobStore \<Rightarrow> string result" where
  "MemoryBlobStore_Open key values = (case values key of None \<Rightarrow> Inl ErrNotFound | Some value \<Rightarrow> Inr value)"

definition MemoryBlobStore_Delete :: "string \<Rightarrow> MemoryBlobStore \<Rightarrow> MemoryBlobStore \<times> unit result" where
  "MemoryBlobStore_Delete key values =
    (case values key of None \<Rightarrow> (values, Inl (errors_New ''relay blob: not found''))
     | Some _ \<Rightarrow> (values(key := None), Inr ()))"

definition memoryBlobs :: "MemoryBlobStore BlobStore" where
  "memoryBlobs = \<lparr>bs_Put = MemoryBlobStore_Put, bs_Open = MemoryBlobStore_Open, bs_Delete = MemoryBlobStore_Delete\<rparr>"

lemmas memoryBlobs_simps = memoryBlobs_def MemoryBlobStore_Put_def MemoryBlobStore_Open_def MemoryBlobStore_Delete_def
  io_ReadAll_def

interpretation mem_blobs: blob_store memoryBlobs "\<lambda>b. b" "\<lambda>_. True" "\<lambda>_ _. True"
  by unfold_locales (auto simp: memoryBlobs_simps split: option.splits)

section \<open>FileBlobStore\<close>

text \<open>The files are those of the directory \<open>Root\<close>.\<close>

definition blob_key_ok :: "string \<Rightarrow> bool" where
  "blob_key_ok key \<longleftrightarrow> \<not> (key = [] \<or> CHR ''/'' \<in> set key \<or> CHR 0x5C \<in> set key \<or> key = ''.'' \<or> key = ''..'')"

definition invalid_key :: error where
  "invalid_key = errors_New ''relay blob: invalid key''"

definition tempName :: "string \<Rightarrow> string" where
  "tempName digits = ''.upload-'' @ digits"

text \<open>
  \<open>Put\<close>: create the temporary file, copy, close, rename it over the final name; the deferred
  \<open>os.Remove\<close> of the temporary name runs on every path after its creation. A copy that fails while
  writing has read a part of the bytes only: \<open>dir_calls\<close> many of them, an arbitrary amount.
\<close>

definition FileBlobStore_Put :: "string \<Rightarrow> reader \<Rightarrow> directory \<Rightarrow> directory \<times> string \<times> int result" where
  "FileBlobStore_Put key r d =
    (if \<not> blob_key_ok key then (d, [], Inl invalid_key)
     else case os_call d of
       (d, Some e) \<Rightarrow> (d, [], Inl e)
     | (d, None) \<Rightarrow>
       let tmp = tempName (dir_temp d);
           d = d\<lparr>dir_files := (dir_files d)(tmp \<mapsto> [])\<rparr>;
           (d, writeErr) = os_call d;
           read = (case writeErr of Some _ \<Rightarrow> take (dir_calls d) (fst r) | None \<Rightarrow> fst r);
           d = d\<lparr>dir_files := (dir_files d)(tmp \<mapsto> read)\<rparr>;
           copyErr = (case writeErr of Some e \<Rightarrow> Some e | None \<Rightarrow> snd r);
           (d, closeErr) = os_call d
       in case copyErr of Some e \<Rightarrow> (fst (os_Remove tmp d), read, Inl e)
       | None \<Rightarrow>
         (case closeErr of Some e \<Rightarrow> (fst (os_Remove tmp d), read, Inl e)
          | None \<Rightarrow>
            (case os_call d of
               (d, Some e) \<Rightarrow> (fst (os_Remove tmp d), read, Inl e)
             | (d, None) \<Rightarrow>
               let d = d\<lparr>dir_files := (dir_files d)(tmp := None, key \<mapsto> read)\<rparr>
               in (fst (os_Remove tmp d), read, Inr (int (length read))))))"

definition FileBlobStore_Open :: "string \<Rightarrow> directory \<Rightarrow> string result" where
  "FileBlobStore_Open key d =
    (if \<not> blob_key_ok key then Inl invalid_key
     else case dir_files d key of None \<Rightarrow> Inl ErrNotFound
     | Some value \<Rightarrow> (case dir_unreadable d key of None \<Rightarrow> Inr value | Some e \<Rightarrow> Inl e))"

definition FileBlobStore_Delete :: "string \<Rightarrow> directory \<Rightarrow> directory \<times> unit result" where
  "FileBlobStore_Delete key d =
    (if \<not> blob_key_ok key then (d, Inl invalid_key)
     else case os_Remove key d of (d, None) \<Rightarrow> (d, Inr ()) | (d, Some e) \<Rightarrow> (d, Inl e))"

definition fileBlobs :: "directory BlobStore" where
  "fileBlobs = \<lparr>bs_Put = FileBlobStore_Put, bs_Open = FileBlobStore_Open, bs_Delete = FileBlobStore_Delete\<rparr>"

text \<open>
  The contract holds for the keys that are not names of temporary files: a failed removal may leave
  one of those behind, never a half-written blob under a key.
\<close>

definition file_key :: "string \<Rightarrow> bool" where
  "file_key key \<longleftrightarrow> blob_key_ok key \<and> \<not> HasPrefix key ''.upload-''"

lemma file_key_temp [simp]: "file_key k \<Longrightarrow> k \<noteq> tempName x" "file_key k \<Longrightarrow> tempName x \<noteq> k"
  by (auto simp: file_key_def tempName_def HasPrefix_def)

lemma FileBlobStore_Put_files:
  assumes "FileBlobStore_Put key r d = (d', read, res)" "file_key k"
  shows "dir_files d' k = (if (\<exists>n. res = Inr n) \<and> k = key then Some read else dir_files d k)"
    "\<And>n. res = Inr n \<Longrightarrow> read = fst r \<and> n = int (length read)"
  using assms
  by (auto simp: FileBlobStore_Put_def os_call_def Let_def split: option.splits if_splits)

interpretation file_blobs: blob_store fileBlobs dir_files file_key "\<lambda>d key. dir_unreadable d key = None"
proof unfold_locales
  fix key r b b' read n
  assume "bs_Put fileBlobs key r b = (b', read, Inr n)" "file_key key"
  with FileBlobStore_Put_files [of key r b b' read "Inr n" key]
  show "read = fst r \<and> n = int (length read) \<and> dir_files b' key = Some read" by (simp add: fileBlobs_def)
next
  fix key r b b' read res k
  assume "bs_Put fileBlobs key r b = (b', read, res)" "file_key k" "k \<noteq> key"
  then show "dir_files b' k = dir_files b k" by (simp add: fileBlobs_def FileBlobStore_Put_files(1))
next
  fix key r b b' read e k
  assume "bs_Put fileBlobs key r b = (b', read, Inl e)" "file_key k"
  then show "dir_files b' k = dir_files b k" by (simp add: fileBlobs_def FileBlobStore_Put_files(1))
qed (auto simp: fileBlobs_def FileBlobStore_Open_def FileBlobStore_Delete_def os_Remove_def os_call_def file_key_def
      split: option.splits if_splits prod.splits)

end
