(* ===== verification/Service.thy ===== *)
theory Service
  imports Memory_Calls Blob_Stores
begin

text \<open>
  \<open>controlplane/service.go\<close>: the service in front of a storage and a blob store. Both are interfaces of
  the source; here they are records of operations (\<open>Storage\<close>, \<open>BlobStore\<close>), and what the service
  relies on is the locale \<open>artifact_storage\<close>, which the in-memory storage interprets. The service reads
  the clock and the entropy source itself for node states and artifact identifiers.
\<close>

record 's Storage =
  st_RegisterNode :: "NodeRegistration \<Rightarrow> 's \<Rightarrow> 's \<times> Node result"
  st_Heartbeat :: "string \<Rightarrow> 's \<Rightarrow> 's \<times> Node result"
  st_Submit :: "Request \<Rightarrow> 's \<Rightarrow> 's \<times> Run result"
  st_Claim :: "string \<Rightarrow> duration \<Rightarrow> 's \<Rightarrow> 's \<times> Assignment result"
  st_Renew :: "Assignment \<Rightarrow> duration \<Rightarrow> 's \<Rightarrow> 's \<times> LeaseUpdate result"
  st_Reconcile :: "time \<Rightarrow> int \<Rightarrow> 's \<Rightarrow> 's \<times> int result"
  st_CancelRun :: "string \<Rightarrow> CancelRequest \<Rightarrow> 's \<Rightarrow> 's \<times> Run result"
  st_AcknowledgeCancellation :: "Assignment \<Rightarrow> 's \<Rightarrow> 's \<times> unit result"
  st_Start :: "Assignment \<Rightarrow> 's \<Rightarrow> 's \<times> unit result"
  st_AppendEvent :: "string \<Rightarrow> string \<Rightarrow> string \<Rightarrow> string \<Rightarrow> goany \<Rightarrow> string list \<Rightarrow> 's \<Rightarrow> 's \<times> unit result"
  st_Complete :: "Assignment \<Rightarrow> Result \<Rightarrow> 's \<Rightarrow> 's \<times> unit result"
  st_Fail :: "Assignment \<Rightarrow> string \<Rightarrow> 's \<Rightarrow> 's \<times> unit result"
  st_GetRun :: "string \<Rightarrow> 's \<Rightarrow> Run result"
  st_Events :: "string \<Rightarrow> 's \<Rightarrow> Event list result"
  st_EventsAfter :: "string \<Rightarrow> int \<Rightarrow> 's \<Rightarrow> Event list result"
  st_Nodes :: "'s \<Rightarrow> Node list result"
  st_AddArtifact :: "Assignment \<Rightarrow> Artifact \<Rightarrow> 's \<Rightarrow> 's \<times> unit result"
  st_Artifacts :: "string \<Rightarrow> 's \<Rightarrow> Artifact list result"
  st_Artifact :: "string \<Rightarrow> 's \<Rightarrow> Artifact result"
  st_ReserveCapability :: "Assignment \<Rightarrow> string \<Rightarrow> string \<Rightarrow> CapabilityRequest \<Rightarrow> 's \<Rightarrow> 's \<times> CapabilityReservation result"
  st_FinishCapability :: "Assignment \<Rightarrow> CapabilityReservation \<Rightarrow> CapabilityResult \<Rightarrow> string \<Rightarrow> 's \<Rightarrow> 's \<times> unit result"
  st_ListRuns :: "string \<Rightarrow> string \<Rightarrow> string \<Rightarrow> int \<Rightarrow> 's \<Rightarrow> Run list result"
  st_Attempts :: "string \<Rightarrow> 's \<Rightarrow> Attempt list result"
  st_CreateInteraction :: "Assignment \<Rightarrow> InteractionRequest \<Rightarrow> 's \<Rightarrow> 's \<times> Interaction result"
  st_GetInteraction :: "Assignment \<Rightarrow> string \<Rightarrow> 's \<Rightarrow> 's \<times> Interaction result"
  st_Interactions :: "string \<Rightarrow> 's \<Rightarrow> Interaction list result"
  st_ResolveInteraction :: "string \<Rightarrow> json option \<Rightarrow> string \<Rightarrow> string \<Rightarrow> 's \<Rightarrow> 's \<times> Interaction result"

record ('s, 'b) Service =
  sv_storage :: "'s Storage"
  sv_leaseTTL :: duration
  sv_nodeOfflineAfter :: duration
  sv_blobs :: "'b BlobStore"

text \<open>The state behind a service: its own readings of the environment, the storage, the blobs.\<close>

record ('s, 'b) service_state = world +
  ss_storage :: 's
  ss_blobs :: 'b

lemma service_state_frame [simp]:
  "ss_storage (w\<lparr>w_drawn := n\<rparr>) = ss_storage (w :: ('s, 'b) service_state)"
  "ss_storage (w\<lparr>w_ticks := n\<rparr>) = ss_storage w"
  "ss_blobs (w\<lparr>w_drawn := n\<rparr>) = ss_blobs w" "ss_blobs (w\<lparr>w_ticks := n\<rparr>) = ss_blobs w"
  by simp_all

definition second :: duration where "second = 1000000000"

text \<open>\<open>NewWithOptions\<close> with a storage and a blob store given (nil options are replaced by its caller here).\<close>

definition NewWithOptions :: "'s Storage \<Rightarrow> duration \<Rightarrow> duration \<Rightarrow> 'b BlobStore \<Rightarrow> ('s, 'b) Service" where
  "NewWithOptions storage leaseTTL nodeOfflineAfter blobs =
    \<lparr>sv_storage = storage,
     sv_leaseTTL = (if leaseTTL \<le> 0 then 30 * second else leaseTTL),
     sv_nodeOfflineAfter = (if nodeOfflineAfter \<le> 0 then 15 * second else nodeOfflineAfter),
     sv_blobs = blobs\<rparr>"

definition NewWithStorage :: "'s Storage \<Rightarrow> duration \<Rightarrow> ('s, MemoryBlobStore) Service" where
  "NewWithStorage storage leaseTTL = NewWithOptions storage leaseTTL 0 memoryBlobs"

text \<open>A storage operation lifted to the service's state.\<close>

definition on_storage :: "('s \<Rightarrow> 's \<times> 'a) \<Rightarrow> ('s, 'b) service_state \<Rightarrow> ('s, 'b) service_state \<times> 'a" where
  "on_storage f w = (case f (ss_storage w) of (s, r) \<Rightarrow> (w\<lparr>ss_storage := s\<rparr>, r))"

section \<open>Nodes\<close>

definition ProtocolVersion :: string where "ProtocolVersion = ''1''"

text \<open>The loop that names the runtime instances; \<open>None\<close> when two have the same ID.\<close>

fun nameRuntimes :: "string \<Rightarrow> string list \<Rightarrow> Runtime list \<Rightarrow> Runtime list option" where
  "nameRuntimes nodeID seen [] = Some []"
| "nameRuntimes nodeID seen (runtime # rest) =
    (let runtime = (if rt_ID runtime = [] then runtime\<lparr>rt_ID := RuntimeInstanceID nodeID (rt_Provider runtime)\<rparr> else runtime)
     in if rt_ID runtime \<in> set seen then None
        else map_option ((#) runtime) (nameRuntimes nodeID (rt_ID runtime # seen) rest))"

definition Service_RegisterNode :: "('s, 'b) Service \<Rightarrow> NodeRegistration \<Rightarrow> ('s, 'b) service_state
    \<Rightarrow> ('s, 'b) service_state \<times> Node result" where
  "Service_RegisterNode svc registration w =
    (if reg_ProtocolVersion registration \<noteq> ProtocolVersion
     then (w, Inl (wrap ErrIncompatibleProtocol
            (''server='' @ ProtocolVersion @ '' node='' @ quot @ reg_ProtocolVersion registration @ quot)))
     else if reg_ID registration = [] \<or> reg_Runtimes registration = []
     then (w, Inl (errors_New ''node ID and at least one runtime are required''))
     else
       let registration = (if reg_Capacity registration \<le> 0 then registration\<lparr>reg_Capacity := 1\<rparr> else registration)
       in case nameRuntimes (reg_ID registration) [] (reg_Runtimes registration) of
            None \<Rightarrow> (w, Inl (errors_New ''runtime instance IDs must be unique within a node''))
          | Some runtimes \<Rightarrow>
              on_storage (st_RegisterNode (sv_storage svc) (registration\<lparr>reg_Runtimes := runtimes\<rparr>)) w)"

definition Service_Heartbeat :: "('s, 'b) Service \<Rightarrow> string \<Rightarrow> ('s, 'b) service_state
    \<Rightarrow> ('s, 'b) service_state \<times> Node result" where
  "Service_Heartbeat svc nodeID w = on_storage (st_Heartbeat (sv_storage svc) nodeID) w"

definition Service_Nodes :: "('s, 'b) Service \<Rightarrow> ('s, 'b) service_state \<Rightarrow> ('s, 'b) service_state \<times> Node list result" where
  "Service_Nodes svc w =
    (case st_Nodes (sv_storage svc) (ss_storage w) of Inl e \<Rightarrow> (w, Inl e)
     | Inr nodes \<Rightarrow>
       let (now, w) = time_Now w
       in (w, Inr (map (\<lambda>node. node\<lparr>node_State := (if now - node_LastSeen node > sv_nodeOfflineAfter svc
              then NodeOffline else NodeOnline)\<rparr>) nodes)))"

section \<open>Runs\<close>

definition Service_Submit :: "('s, 'b) Service \<Rightarrow> ctx \<Rightarrow> Request \<Rightarrow> ('s, 'b) service_state
    \<Rightarrow> ('s, 'b) service_state \<times> Run result" where
  "Service_Submit svc ctx request w =
    (let request = (case ctx of
             Some scope \<Rightarrow> if sc_Kind scope = AccessHost
               then request\<lparr>rq_TenantID := sc_TenantID scope, rq_ProjectID := sc_ProjectID scope\<rparr> else request
           | None \<Rightarrow> request)
     in if rq_AgentID request = [] \<or> rq_IdempotencyKey request = [] \<or> in_Prompt (rq_Input request) = [] \<or>
           rr_Provider (rq_Runtime request) = []
        then (w, Inl (errors_New ''agent ID, idempotency key, prompt, and runtime provider are required''))
        else
          let request = (if rp_MaxAttempts (rq_Retry request) \<le> 0
                then request\<lparr>rq_Retry := (rq_Retry request)\<lparr>rp_MaxAttempts := 1\<rparr>\<rparr> else request)
          in if rp_Backoff (rq_Retry request) \<noteq> [] \<and> ParseDuration (rp_Backoff (rq_Retry request)) = None
             then (w, Inl (errors_New ''retry backoff must be a valid duration''))
             else if rq_Timeout request \<noteq> [] \<and>
               (case ParseDuration (rq_Timeout request) of None \<Rightarrow> True | Some duration \<Rightarrow> duration \<le> 0)
             then (w, Inl (errors_New ''timeout must be a positive duration''))
             else on_storage (st_Submit (sv_storage svc) request) w)"

definition Service_Claim :: "('s, 'b) Service \<Rightarrow> string \<Rightarrow> ('s, 'b) service_state
    \<Rightarrow> ('s, 'b) service_state \<times> Assignment result" where
  "Service_Claim svc nodeID w = on_storage (st_Claim (sv_storage svc) nodeID (sv_leaseTTL svc)) w"

definition Service_Start :: "('s, 'b) Service \<Rightarrow> Assignment \<Rightarrow> ('s, 'b) service_state
    \<Rightarrow> ('s, 'b) service_state \<times> unit result" where
  "Service_Start svc assignment w = on_storage (st_Start (sv_storage svc) assignment) w"

definition Service_Renew :: "('s, 'b) Service \<Rightarrow> Assignment \<Rightarrow> ('s, 'b) service_state
    \<Rightarrow> ('s, 'b) service_state \<times> LeaseUpdate result" where
  "Service_Renew svc assignment w = on_storage (st_Renew (sv_storage svc) assignment (sv_leaseTTL svc)) w"

definition Service_Reconcile :: "('s, 'b) Service \<Rightarrow> int \<Rightarrow> ('s, 'b) service_state
    \<Rightarrow> ('s, 'b) service_state \<times> int result" where
  "Service_Reconcile svc limit w =
    (let limit = (if limit \<le> 0 then 100 else limit); (now, w) = time_Now w
     in on_storage (st_Reconcile (sv_storage svc) now limit) w)"

definition Service_GetRun :: "('s, 'b) Service \<Rightarrow> ctx \<Rightarrow> string \<Rightarrow> ('s, 'b) service_state \<Rightarrow> Run result" where
  "Service_GetRun svc ctx runID w =
    (case st_GetRun (sv_storage svc) runID (ss_storage w) of Inl e \<Rightarrow> Inl e
     | Inr run \<Rightarrow> (case authorizeRunScope ctx run of Some e \<Rightarrow> Inl e | None \<Rightarrow> Inr run))"

definition Service_CancelRun :: "('s, 'b) Service \<Rightarrow> ctx \<Rightarrow> string \<Rightarrow> CancelRequest \<Rightarrow> ('s, 'b) service_state
    \<Rightarrow> ('s, 'b) service_state \<times> Run result" where
  "Service_CancelRun svc ctx runID request w =
    (case st_GetRun (sv_storage svc) runID (ss_storage w) of Inl e \<Rightarrow> (w, Inl e)
     | Inr run \<Rightarrow> (case authorizeRunScope ctx run of Some e \<Rightarrow> (w, Inl e)
         | None \<Rightarrow> on_storage (st_CancelRun (sv_storage svc) runID request) w))"

definition Service_AcknowledgeCancellation :: "('s, 'b) Service \<Rightarrow> Assignment \<Rightarrow> ('s, 'b) service_state
    \<Rightarrow> ('s, 'b) service_state \<times> unit result" where
  "Service_AcknowledgeCancellation svc assignment w = on_storage (st_AcknowledgeCancellation (sv_storage svc) assignment) w"

definition Service_AppendEvent :: "('s, 'b) Service \<Rightarrow> string \<Rightarrow> string \<Rightarrow> string \<Rightarrow> string \<Rightarrow> goany \<Rightarrow> string list
    \<Rightarrow> ('s, 'b) service_state \<Rightarrow> ('s, 'b) service_state \<times> unit result" where
  "Service_AppendEvent svc runID attemptID lease eventType data eventIDs w =
    on_storage (st_AppendEvent (sv_storage svc) runID attemptID lease eventType data eventIDs) w"

definition Service_Complete :: "('s, 'b) Service \<Rightarrow> Assignment \<Rightarrow> Result \<Rightarrow> ('s, 'b) service_state
    \<Rightarrow> ('s, 'b) service_state \<times> unit result" where
  "Service_Complete svc assignment result w = on_storage (st_Complete (sv_storage svc) assignment result) w"

definition Service_Fail :: "('s, 'b) Service \<Rightarrow> Assignment \<Rightarrow> string \<Rightarrow> ('s, 'b) service_state
    \<Rightarrow> ('s, 'b) service_state \<times> unit result" where
  "Service_Fail svc assignment cause w = on_storage (st_Fail (sv_storage svc) assignment cause) w"

text \<open>A read that is allowed to whoever may see the run.\<close>

definition guarded :: "('s, 'b) Service \<Rightarrow> ctx \<Rightarrow> string \<Rightarrow> 'a result \<Rightarrow> ('s, 'b) service_state \<Rightarrow> 'a result" where
  "guarded svc ctx runID value w = (case Service_GetRun svc ctx runID w of Inl e \<Rightarrow> Inl e | Inr _ \<Rightarrow> value)"

definition Service_Events :: "('s, 'b) Service \<Rightarrow> ctx \<Rightarrow> string \<Rightarrow> ('s, 'b) service_state \<Rightarrow> Event list result" where
  "Service_Events svc ctx runID w = guarded svc ctx runID (st_Events (sv_storage svc) runID (ss_storage w)) w"

definition Service_EventsAfter :: "('s, 'b) Service \<Rightarrow> ctx \<Rightarrow> string \<Rightarrow> int \<Rightarrow> ('s, 'b) service_state \<Rightarrow> Event list result" where
  "Service_EventsAfter svc ctx runID after w =
    guarded svc ctx runID (st_EventsAfter (sv_storage svc) runID after (ss_storage w)) w"

definition Service_Artifacts :: "('s, 'b) Service \<Rightarrow> ctx \<Rightarrow> string \<Rightarrow> ('s, 'b) service_state \<Rightarrow> Artifact list result" where
  "Service_Artifacts svc ctx runID w = guarded svc ctx runID (st_Artifacts (sv_storage svc) runID (ss_storage w)) w"

definition Service_Attempts :: "('s, 'b) Service \<Rightarrow> ctx \<Rightarrow> string \<Rightarrow> ('s, 'b) service_state \<Rightarrow> Attempt list result" where
  "Service_Attempts svc ctx runID w = guarded svc ctx runID (st_Attempts (sv_storage svc) runID (ss_storage w)) w"

definition Service_Interactions :: "('s, 'b) Service \<Rightarrow> ctx \<Rightarrow> string \<Rightarrow> ('s, 'b) service_state \<Rightarrow> Interaction list result" where
  "Service_Interactions svc ctx runID w = guarded svc ctx runID (st_Interactions (sv_storage svc) runID (ss_storage w)) w"

text \<open>\<open>scope, _ := AccessFrom(ctx)\<close>: no scope is the zero scope.\<close>

definition scope_tenant :: "ctx \<Rightarrow> string" where
  "scope_tenant ctx = (case ctx of None \<Rightarrow> [] | Some scope \<Rightarrow> sc_TenantID scope)"

definition scope_project :: "ctx \<Rightarrow> string" where
  "scope_project ctx = (case ctx of None \<Rightarrow> [] | Some scope \<Rightarrow> sc_ProjectID scope)"

definition Service_ListRuns :: "('s, 'b) Service \<Rightarrow> ctx \<Rightarrow> int \<Rightarrow> ('s, 'b) service_state \<Rightarrow> Run list result" where
  "Service_ListRuns svc ctx limit w =
    st_ListRuns (sv_storage svc) (scope_tenant ctx) (scope_project ctx) [] limit (ss_storage w)"

definition Service_SessionRuns :: "('s, 'b) Service \<Rightarrow> ctx \<Rightarrow> string \<Rightarrow> int \<Rightarrow> ('s, 'b) service_state \<Rightarrow> Run list result" where
  "Service_SessionRuns svc ctx sessionID limit w =
    st_ListRuns (sv_storage svc) (scope_tenant ctx) (scope_project ctx) sessionID limit (ss_storage w)"

section \<open>Artifacts\<close>

definition Service_UploadArtifact :: "('s, 'b) Service \<Rightarrow> Assignment \<Rightarrow> Artifact \<Rightarrow> reader \<Rightarrow> ('s, 'b) service_state
    \<Rightarrow> ('s, 'b) service_state \<times> Artifact result" where
  "Service_UploadArtifact svc assignment artifact reader w =
    (let (artifactID, w) = newControlPlaneID ''artifact'' w;
         artifact = artifact\<lparr>art_ID := artifactID, art_RunID := as_RunID assignment,
                             art_Ref := ''/v1/artifacts/'' @ artifactID\<rparr>
     in case bs_Put (sv_blobs svc) artifactID reader (ss_blobs w) of
          (b, _, Inl e) \<Rightarrow> (w\<lparr>ss_blobs := b\<rparr>, Inl e)
        | (b, read, Inr written) \<Rightarrow>
          let artifact = artifact\<lparr>art_Size := written, art_SHA256 := sha256_hex read\<rparr>
          in case st_AddArtifact (sv_storage svc) assignment artifact (ss_storage w) of
               (s, Inl e) \<Rightarrow> (w\<lparr>ss_storage := s, ss_blobs := fst (bs_Delete (sv_blobs svc) artifactID b)\<rparr>, Inl e)
             | (s, Inr _) \<Rightarrow> (w\<lparr>ss_storage := s, ss_blobs := b\<rparr>, Inr artifact))"

definition Service_OpenArtifact :: "('s, 'b) Service \<Rightarrow> ctx \<Rightarrow> string \<Rightarrow> ('s, 'b) service_state
    \<Rightarrow> (Artifact \<times> string) result" where
  "Service_OpenArtifact svc ctx artifactID w =
    (case st_Artifact (sv_storage svc) artifactID (ss_storage w) of Inl e \<Rightarrow> Inl e
     | Inr metadata \<Rightarrow>
       (case Service_GetRun svc ctx (art_RunID metadata) w of Inl e \<Rightarrow> Inl e
        | Inr _ \<Rightarrow> (case bs_Open (sv_blobs svc) artifactID (ss_blobs w) of Inl e \<Rightarrow> Inl e
            | Inr bytes \<Rightarrow> Inr (metadata, bytes))))"

section \<open>Capabilities and interactions\<close>

definition Service_ReserveCapability :: "('s, 'b) Service \<Rightarrow> Assignment \<Rightarrow> string \<Rightarrow> string \<Rightarrow> CapabilityRequest
    \<Rightarrow> ('s, 'b) service_state \<Rightarrow> ('s, 'b) service_state \<times> CapabilityReservation result" where
  "Service_ReserveCapability svc a key hash request w = on_storage (st_ReserveCapability (sv_storage svc) a key hash request) w"

definition Service_FinishCapability :: "('s, 'b) Service \<Rightarrow> Assignment \<Rightarrow> CapabilityReservation \<Rightarrow> CapabilityResult
    \<Rightarrow> string \<Rightarrow> ('s, 'b) service_state \<Rightarrow> ('s, 'b) service_state \<times> unit result" where
  "Service_FinishCapability svc a reservation result cause w =
    on_storage (st_FinishCapability (sv_storage svc) a reservation result cause) w"

definition Service_CreateInteraction :: "('s, 'b) Service \<Rightarrow> Assignment \<Rightarrow> InteractionRequest \<Rightarrow> ('s, 'b) service_state
    \<Rightarrow> ('s, 'b) service_state \<times> Interaction result" where
  "Service_CreateInteraction svc a r w =
    (if ir_Kind r \<noteq> InteractionInput \<and> ir_Kind r \<noteq> InteractionApproval
     then (w, Inl (errors_New ''interaction kind must be input or approval''))
     else on_storage (st_CreateInteraction (sv_storage svc) a r) w)"

definition Service_GetInteraction :: "('s, 'b) Service \<Rightarrow> Assignment \<Rightarrow> string \<Rightarrow> ('s, 'b) service_state
    \<Rightarrow> ('s, 'b) service_state \<times> Interaction result" where
  "Service_GetInteraction svc a interactionID w = on_storage (st_GetInteraction (sv_storage svc) a interactionID) w"

definition Service_ResolveInteraction :: "('s, 'b) Service \<Rightarrow> ctx \<Rightarrow> string \<Rightarrow> json option \<Rightarrow> ('s, 'b) service_state
    \<Rightarrow> ('s, 'b) service_state \<times> Interaction result" where
  "Service_ResolveInteraction svc ctx interactionID response w =
    on_storage (st_ResolveInteraction (sv_storage svc) interactionID response (scope_tenant ctx) (scope_project ctx)) w"

section \<open>The in-memory storage as a provider\<close>

text \<open>The record of methods of \<open>MemoryStorage\<close>; \<open>it k\<close> is the iteration order of loop \<open>k\<close> in a state.\<close>

definition memoryStorage :: "('v, 'c) semver \<Rightarrow> (nat \<Rightarrow> MemoryStorage \<Rightarrow> string list) \<Rightarrow> MemoryStorage Storage" where
  "memoryStorage sv it =
    \<lparr>st_RegisterNode = RegisterNode, st_Heartbeat = Heartbeat, st_Submit = Submit,
     st_Claim = (\<lambda>nodeID ttl s. Claim sv (it 0 s) (it 1 s) nodeID ttl s), st_Renew = Renew,
     st_Reconcile = (\<lambda>now limit s. Reconcile (it 0 s) (it 1 s) now limit s), st_CancelRun = CancelRun,
     st_AcknowledgeCancellation = AcknowledgeCancellation, st_Start = Start, st_AppendEvent = AppendEvent,
     st_Complete = Complete, st_Fail = Fail, st_GetRun = GetRun, st_Events = Events, st_EventsAfter = EventsAfter,
     st_Nodes = (\<lambda>s. Nodes (it 0 s) s), st_AddArtifact = AddArtifact, st_Artifacts = Artifacts,
     st_Artifact = Artifact_get, st_ReserveCapability = (\<lambda>a key hash _. ReserveCapability a key hash),
     st_FinishCapability = (\<lambda>a rsv res cause s. FinishCapability (it 0 s) a rsv res cause s),
     st_ListRuns = (\<lambda>tenant project session limit s. ListRuns (it 0 s) tenant project session limit s),
     st_Attempts = Attempts, st_CreateInteraction = CreateInteraction, st_GetInteraction = GetInteraction,
     st_Interactions = (\<lambda>runID s. Interactions (it 0 s) runID s), st_ResolveInteraction = ResolveInteraction\<rparr>"

end
