(* ===== verification/Service_Properties.thy ===== *)
theory Service_Properties
  imports Service
begin

text \<open>
  Properties of the service: admission of nodes and requests, tenant isolation, and artifacts, whose
  metadata (storage) and bytes (blob store) must stay together. The artifact lemmas are proved once from
  the contracts of the two interfaces and used for the implementations.
\<close>

section \<open>Artifacts over the two contracts\<close>

locale artifact_storage =
  fixes st :: "'s Storage"
    and run_of :: "'s \<Rightarrow> string \<Rightarrow> Run option"
    and art_of :: "'s \<Rightarrow> string \<Rightarrow> Artifact option"
  assumes GetRun_law: "st_GetRun st rid s = (case run_of s rid of Some run \<Rightarrow> Inr run | None \<Rightarrow> Inl ErrNotFound)"
    and Artifact_law: "st_Artifact st aid s = (case art_of s aid of Some a \<Rightarrow> Inr a | None \<Rightarrow> Inl ErrNotFound)"
    and Add_ok: "st_AddArtifact st a art s = (s', Inr ()) \<Longrightarrow>
      art_of s' = (art_of s)(art_ID art \<mapsto> art) \<and> run_of s' = run_of s \<and> run_of s (as_RunID a) \<noteq> None"
    and Add_err: "st_AddArtifact st a art s = (s', Inl e) \<Longrightarrow> art_of s' = art_of s"

locale artifact_service = artifact_storage st run_of art_of + blob_store store content ok_key readable
  for st :: "'s Storage" and run_of art_of and store :: "'b BlobStore" and content ok_key readable +
  fixes svc :: "('s, 'b) Service"
  assumes svc: "sv_storage svc = st" "sv_blobs svc = store"
begin

text \<open>What was uploaded can be read back by whoever may see the run, with its size and digest.\<close>

lemma upload_open:
  assumes "Service_UploadArtifact svc asg artifact (bytes, eof) w = (w', Inr art)"
    and "ok_key (art_ID art)" "readable (ss_blobs w') (art_ID art)"
    and "run_of (ss_storage w') (as_RunID asg) = Some run" "authorizeRunScope ctx run = None"
  shows "Service_OpenArtifact svc ctx (art_ID art) w' = Inr (art, bytes) \<and> art_RunID art = as_RunID asg \<and>
    art_Size art = int (length bytes) \<and> art_SHA256 art = sha256_hex bytes"
proof -
  let ?id = "id_text ''artifact'' (draw w 12 (w_drawn w))"
  obtain b read n s where put: "bs_Put store ?id (bytes, eof) (ss_blobs w) = (b, read, Inr n)"
    and art: "art = artifact\<lparr>art_ID := ?id, art_RunID := as_RunID asg, art_Ref := ''/v1/artifacts/'' @ ?id,
      art_Size := n, art_SHA256 := sha256_hex read\<rparr>"
    and add: "st_AddArtifact st asg art (ss_storage w) = (s, Inr ())" and w': "ss_storage w' = s" "ss_blobs w' = b"
    using assms(1)
    by (auto simp: Service_UploadArtifact_def newControlPlaneID_eq svc Let_def split: prod.splits sum.splits)
  have key: "ok_key ?id" "readable b ?id" using assms(2,3) w' by (simp_all add: art)
  note stored = Put_ok [OF put key(1)] put_open [OF put key]
  note added = Add_ok [OF add]
  have fields: "art_ID art = ?id" "art_RunID art = as_RunID asg" "art_Size art = n" "art_SHA256 art = sha256_hex read"
    by (simp_all add: art)
  have "st_Artifact st (art_ID art) s = Inr art" using added by (simp add: Artifact_law)
  moreover have "st_GetRun st (as_RunID asg) s = Inr run" using assms(4) w' by (simp add: GetRun_law)
  moreover have "bs_Open store (art_ID art) b = Inr bytes" using stored(2) by (simp only: fields fst_conv)
  ultimately have "Service_OpenArtifact svc ctx (art_ID art) w' = Inr (art, bytes)"
    using assms(5)
    by (simp only: Service_OpenArtifact_def Service_GetRun_def svc w' fields(2) sum.case option.case)
  moreover from stored(1) have "read = bytes" "n = int (length bytes)" by (elim conjE, simp only: fst_conv)+
  ultimately show ?thesis by (simp only: fields(2-4) simp_thms)
qed

text \<open>
  A failed upload leaves no artifact behind: the metadata are unchanged, and so are the bytes when the
  key was unused and the compensating delete works.
\<close>

lemma upload_rollback:
  assumes "Service_UploadArtifact svc asg artifact r w = (w', Inl e)"
    and "ok_key (id_text ''artifact'' (draw w 12 (w_drawn w)))"
      "content (ss_blobs w) (id_text ''artifact'' (draw w 12 (w_drawn w))) = None"
    and delete: "\<And>b read n. bs_Put store (id_text ''artifact'' (draw w 12 (w_drawn w))) r (ss_blobs w) = (b, read, Inr n) \<Longrightarrow>
      snd (bs_Delete store (id_text ''artifact'' (draw w 12 (w_drawn w))) b) = Inr ()"
    and "ok_key k"
  shows "art_of (ss_storage w') = art_of (ss_storage w)" "content (ss_blobs w') k = content (ss_blobs w) k"
proof -
  let ?id = "id_text ''artifact'' (draw w 12 (w_drawn w))"
  obtain b read res where put: "bs_Put store ?id r (ss_blobs w) = (b, read, res)" using prod_cases3 by blast
  have "art_of (ss_storage w') = art_of (ss_storage w) \<and> content (ss_blobs w') k = content (ss_blobs w) k"
  proof (cases res)
    case (Inl e')
    with assms(1) put show ?thesis
      using Put_err [of ?id r "ss_blobs w" b read e' k] assms(5)
      by (auto simp: Service_UploadArtifact_def newControlPlaneID_eq svc Let_def)
  next
    case (Inr n)
    obtain b2 where del: "bs_Delete store ?id b = (b2, Inr ())"
      using delete put Inr by (metis prod.collapse)
    from assms(1) put Inr del obtain s art where add: "st_AddArtifact st asg art (ss_storage w) = (s, Inl e)"
      and w': "ss_storage w' = s" "ss_blobs w' = b2"
      by (auto simp: Service_UploadArtifact_def newControlPlaneID_eq svc Let_def split: prod.splits sum.splits)
    show ?thesis
      using Add_err [OF add] put_delete [OF put [unfolded Inr] del assms(3,2,5)] by (simp add: w')
  qed
  then show "art_of (ss_storage w') = art_of (ss_storage w)" "content (ss_blobs w') k = content (ss_blobs w) k" by auto
qed

end

lemma AddArtifact_memory:
  "AddArtifact a art s = (s', Inr ()) \<Longrightarrow> ms_artifacts s' = (ms_artifacts s)(art_ID art \<mapsto> art) \<and> ms_runs s' = ms_runs s \<and>
     ms_runs s (as_RunID a) \<noteq> None"
  "AddArtifact a art s = (s', Inl e) \<Longrightarrow> ms_artifacts s' = ms_artifacts s"
  by (auto simp: AddArtifact_def authorize_def requeueExpired_def storage_simps Let_def
      split: prod.splits sum.splits if_splits option.splits)

interpretation mem_artifacts: artifact_storage "memoryStorage sv it" ms_runs ms_artifacts
  by unfold_locales
    (auto simp: memoryStorage_def GetRun_def Artifact_get_def AddArtifact_memory dest: AddArtifact_memory(2)
      split: option.splits)

text \<open>The service over the in-memory storage with each of the blob stores.\<close>

definition memoryService :: "('v, 'c) semver \<Rightarrow> (nat \<Rightarrow> MemoryStorage \<Rightarrow> string list) \<Rightarrow> duration
    \<Rightarrow> (MemoryStorage, MemoryBlobStore) Service" where
  "memoryService sv it ttl = NewWithStorage (memoryStorage sv it) ttl"

interpretation mem_service: artifact_service "memoryStorage sv it" ms_runs ms_artifacts memoryBlobs "\<lambda>b. b" "\<lambda>_. True" "\<lambda>_ _. True"
  "memoryService sv it ttl"
  by unfold_locales (simp_all add: memoryService_def NewWithStorage_def NewWithOptions_def)

interpretation file_service: artifact_service "memoryStorage sv it" ms_runs ms_artifacts fileBlobs dir_files file_key
  "\<lambda>d key. dir_unreadable d key = None" "NewWithOptions (memoryStorage sv it) ttl offline fileBlobs"
  by unfold_locales (simp_all add: NewWithOptions_def)

text \<open>
  C30: an uploaded artifact can be read back. After a successful upload, whoever may see the run gets
  exactly the bytes that were sent and the metadata returned to the uploader, whose size and SHA-256
  are those of the bytes.
\<close>

theorem artifact_round_trip:
  assumes "Service_UploadArtifact (memoryService sv it ttl) asg artifact (bytes, eof) w = (w', Inr art)"
    and "ms_runs (ss_storage w') (as_RunID asg) = Some run" "authorizeRunScope ctx run = None"
  shows "Service_OpenArtifact (memoryService sv it ttl) ctx (art_ID art) w' = Inr (art, bytes) \<and>
    art_RunID art = as_RunID asg \<and> art_Size art = int (length bytes) \<and> art_SHA256 art = sha256_hex bytes"
  by (rule mem_service.upload_open [OF assms(1) _ _ assms(2,3)]) simp_all

text \<open>
  C31: a failed upload leaves nothing behind: neither metadata nor bytes, even when the bytes had been
  stored before the metadata were refused (stale lease, finished run).
\<close>

theorem artifact_rollback:
  assumes "Service_UploadArtifact (memoryService sv it ttl) asg artifact r w = (w', Inl e)"
    and "ss_blobs w (id_text ''artifact'' (draw w 12 (w_drawn w))) = None"
  shows "ms_artifacts (ss_storage w') = ms_artifacts (ss_storage w) \<and> ss_blobs w' = ss_blobs w"
proof -
  have del: "snd (bs_Delete memoryBlobs key b) = Inr ()" if "bs_Put memoryBlobs key r' b0 = (b, read, Inr n)" for key r' b0 b read n
    using that by (auto simp: memoryBlobs_simps split: option.splits)
  show ?thesis
    using mem_service.upload_rollback [OF assms(1) TrueI assms(2) del TrueI] by (auto simp: fun_eq_iff)
qed

section \<open>Tenant isolation\<close>

lemma service_storage [simp]: "sv_storage (memoryService sv it ttl) = memoryStorage sv it"
  by (simp add: memoryService_def NewWithStorage_def NewWithOptions_def)

lemma Service_GetRun_memory:
  "Service_GetRun (memoryService sv it ttl) ctx rid w =
    (case ms_runs (ss_storage w) rid of None \<Rightarrow> Inl ErrNotFound
     | Some run \<Rightarrow> (case authorizeRunScope ctx run of Some e \<Rightarrow> Inl e | None \<Rightarrow> Inr run))"
  by (simp add: Service_GetRun_def memoryStorage_def GetRun_def split: option.split)

text \<open>
  C29: tenant isolation. To a host, a run of another tenant or project is indistinguishable from a run
  that does not exist: every operation on it answers \<open>ErrNotFound\<close>, and a cancellation changes nothing.
\<close>

theorem tenant_isolation:
  assumes "sc_Kind scope = AccessHost" "\<forall>run. ms_runs (ss_storage w) rid = Some run \<longrightarrow> \<not> in_scope scope run"
    and "svc = memoryService sv it ttl"
  shows "Service_GetRun svc (Some scope) rid w = Inl ErrNotFound \<and> Service_Events svc (Some scope) rid w = Inl ErrNotFound \<and>
    Service_EventsAfter svc (Some scope) rid after w = Inl ErrNotFound \<and>
    Service_Attempts svc (Some scope) rid w = Inl ErrNotFound \<and> Service_Artifacts svc (Some scope) rid w = Inl ErrNotFound \<and>
    Service_Interactions svc (Some scope) rid w = Inl ErrNotFound \<and>
    Service_CancelRun svc (Some scope) rid request w = (w, Inl ErrNotFound) \<and>
    (\<forall>art. ms_artifacts (ss_storage w) aid = Some art \<and> art_RunID art = rid \<longrightarrow>
       Service_OpenArtifact svc (Some scope) aid w = Inl ErrNotFound)"
proof -
  have get: "Service_GetRun svc (Some scope) rid w = Inl ErrNotFound"
    using assms(2) authorizeRunScope_host [OF assms(1)]
    by (auto simp: assms(3) Service_GetRun_memory split: option.split)
  moreover have "Service_CancelRun svc (Some scope) rid request w = (w, Inl ErrNotFound)"
    using assms(2) authorizeRunScope_host [OF assms(1)]
    by (auto simp: assms(3) Service_CancelRun_def memoryStorage_def GetRun_def split: option.split)
  moreover have "Service_OpenArtifact svc (Some scope) aid w = Inl ErrNotFound"
    if "ms_artifacts (ss_storage w) aid = Some art" "art_RunID art = rid" for art
    using that get by (simp add: assms(3) Service_OpenArtifact_def memoryStorage_def Artifact_get_def)
  ultimately show ?thesis
    by (auto simp: Service_Events_def Service_EventsAfter_def Service_Attempts_def Service_Artifacts_def
        Service_Interactions_def guarded_def)
qed

definition demo_scope :: AccessScope where
  "demo_scope = \<lparr>sc_Kind = AccessHost, sc_Subject = [], sc_TenantID = ''other'', sc_ProjectID = []\<rparr>"

definition demo_service_state :: "MemoryStorage \<Rightarrow> (MemoryStorage, MemoryBlobStore) service_state" where
  "demo_service_state s = world.extend demo_world \<lparr>ss_storage = s, ss_blobs = Map.empty\<rparr>"

lemma demo_service_state [simp]: "ss_storage (demo_service_state s) = s" "ss_blobs (demo_service_state s) = Map.empty"
  by (simp_all add: demo_service_state_def world.defs)

theorem tenant_isolation_witness:
  "Service_GetRun (memoryService demo_semver (\<lambda>_ _. []) 30) (Some demo_scope) (demo_id ''run'' 0) (demo_service_state at_done) =
     Inl ErrNotFound"
proof -
  have "run_TenantID done_run = ''t''"
    by (simp add: done_run_def running_run_def leased_run_def demo_run_def newRun_simps demo_request_def)
  then have "\<forall>run. ms_runs (ss_storage (demo_service_state at_done)) (demo_id ''run'' 0) = Some run \<longrightarrow> \<not> in_scope demo_scope run"
    by (simp add: at_done in_scope_def demo_scope_def)
  moreover have "sc_Kind demo_scope = AccessHost" by (simp add: demo_scope_def)
  ultimately show ?thesis using tenant_isolation [OF _ _ refl] by blast
qed

text \<open>
  A host submits into its own scope only. Whatever tenant and project the request names, the run
  that is returned is the one under the host's tenant and project and the request's key, and the
  request kept with a new run allows at least one attempt.
\<close>

theorem submit_scoped:
  assumes "reachable sv (ss_storage w)" "sc_Kind scope = AccessHost"
    and "Service_Submit (memoryService sv it ttl) (Some scope) request w = (w', Inr run)" "no_collision (ss_storage w')"
  shows "run_scope run = idempotencyScope (sc_TenantID scope) (sc_ProjectID scope) (rq_IdempotencyKey request) \<and>
    ms_runs (ss_storage w') (run_ID run) = Some run \<and>
    (ms_runs (ss_storage w) (run_ID run) = None \<longrightarrow> 1 \<le> rp_MaxAttempts (rq_Retry (request_of (ss_storage w') (run_ID run))))"
proof -
  let ?r1 = "request\<lparr>rq_TenantID := sc_TenantID scope, rq_ProjectID := sc_ProjectID scope\<rparr>"
  let ?r = "if rp_MaxAttempts (rq_Retry request) \<le> 0 then ?r1\<lparr>rq_Retry := (rq_Retry request)\<lparr>rp_MaxAttempts := 1\<rparr>\<rparr> else ?r1"
  note inv = reachable_inv [OF assms(1)]
  from assms(2,3) have sub: "Submit ?r (ss_storage w) = (ss_storage w', Inr run)"
    by (auto simp: Service_Submit_def Let_def on_storage_def memoryStorage_def split: if_splits prod.splits)
  note res = Submit_result [OF inv sub assms(4)]
  have "1 \<le> rp_MaxAttempts (rq_Retry (request_of (ss_storage w') (run_ID run)))" if "ms_runs (ss_storage w) (run_ID run) = None"
  proof (cases "ms_byIdempotency (ss_storage w) (request_scope ?r)")
    case None
    from Submit_new [OF None] sub show ?thesis by (auto simp: request_of_def submitted_def)
  next
    case (Some rid)
    then show ?thesis
      by (rule Submit_known [OF inv]) (use sub that storage_inv_run(1) [OF inv] in auto)
  qed
  with res show ?thesis by (auto simp: request_scope_def)
qed

text \<open>
  A host lists only runs of its own tenant and project.
\<close>

theorem list_runs_scoped:
  assumes "Service_ListRuns (memoryService sv it ttl) (Some scope) limit w = Inr rs" "run \<in> set rs"
  shows "in_scope scope run"
  using assms
  by (auto simp: Service_ListRuns_def memoryStorage_def ListRuns_def Let_def scope_tenant_def scope_project_def in_scope_def
      dest!: in_set_takeD)

section \<open>Node admission\<close>

lemma RuntimeInstanceID_nonempty: "RuntimeInstanceID n p \<noteq> []"
  by (simp add: RuntimeInstanceID_def)

lemma nameRuntimes_spec:
  assumes "nameRuntimes n seen rts = Some rts'"
  shows "distinct (map rt_ID rts') \<and> set (map rt_ID rts') \<inter> set seen = {} \<and> [] \<notin> set (map rt_ID rts') \<and>
    map rt_Provider rts' = map rt_Provider rts \<and>
    (\<forall>i < length rts. rt_ID (rts' ! i) = (if rt_ID (rts ! i) = [] then RuntimeInstanceID n (rt_Provider (rts ! i)) else rt_ID (rts ! i)))"
  using assms
proof (induction rts arbitrary: seen rts')
  case (Cons rt rts)
  let ?rt = "if rt_ID rt = [] then rt\<lparr>rt_ID := RuntimeInstanceID n (rt_Provider rt)\<rparr> else rt"
  from Cons.prems obtain rest where fresh: "rt_ID ?rt \<notin> set seen"
    and rest: "nameRuntimes n (rt_ID ?rt # seen) rts = Some rest" "rts' = ?rt # rest"
    by (auto simp: Let_def split: if_splits)
  show ?case
    using Cons.IH [OF rest(1)] fresh RuntimeInstanceID_nonempty [of n "rt_Provider rt"] RuntimeInstanceID_nonempty [of n "rt_Provider rt", symmetric]
    by (auto simp: rest(2) nth_Cons' split: if_splits)
qed simp


section \<open>Witnesses\<close>

abbreviation demo_service :: "(MemoryStorage, MemoryBlobStore) Service" where
  "demo_service \<equiv> memoryService demo_semver (\<lambda>_ _. [demo_id ''run'' 0]) 30"

lemma demo_blobs: "sv_blobs demo_service = memoryBlobs"
  by (simp add: memoryService_def NewWithStorage_def NewWithOptions_def)

theorem artifact_round_trip_witness:
  "\<exists>w art. Service_UploadArtifact demo_service (demo_asg 100) zero_Artifact (''data'', None) (demo_service_state at_running) = (w, Inr art) \<and>
     Service_OpenArtifact demo_service None (art_ID art) w = Inr (art, ''data'') \<and> art_Size art = 4"
proof -
  let ?up = "Service_UploadArtifact demo_service (demo_asg 100) zero_Artifact (''data'', None) (demo_service_state at_running)"
  have auth: "authorize (as_RunID (demo_asg 100)) (as_AttemptID (demo_asg 100)) (as_LeaseToken (demo_asg 100)) at_running =
      (at_running\<lparr>w_ticks := 12\<rparr>, Inr running_run)"
    using demo_authorize [OF at_running(1) _ at_running(2)] by (simp add: demo_asg_def)
  have add: "\<exists>s. AddArtifact (demo_asg 100) a at_running = (s, Inr ()) \<and> ms_runs s = [demo_id ''run'' 0 \<mapsto> running_run]" for a
    by (simp add: AddArtifact_def auth running_run_facts Let_def at_running)
  obtain w art where up: "?up = (w, Inr art)"
    and runs: "ms_runs (ss_storage w) (as_RunID (demo_asg 100)) = Some running_run"
  proof -
    obtain w0 id where id: "newControlPlaneID ''artifact'' (demo_service_state at_running) = (id, w0)"
      "ss_storage w0 = at_running" "ss_blobs w0 = Map.empty"
      by (simp add: newControlPlaneID_eq)
    let ?a = "zero_Artifact\<lparr>art_ID := id, art_RunID := as_RunID (demo_asg 100), art_Ref := ''/v1/artifacts/'' @ id,
      art_Size := 4, art_SHA256 := sha256_hex ''data''\<rparr>"
    obtain s where s: "AddArtifact (demo_asg 100) ?a at_running = (s, Inr ())" "ms_runs s = [demo_id ''run'' 0 \<mapsto> running_run]"
      using add [of ?a] by blast
    have "?up = (w0\<lparr>ss_storage := s, ss_blobs := [id \<mapsto> ''data'']\<rparr>, Inr ?a)"
      using s(1) by (simp add: Service_UploadArtifact_def id Let_def demo_blobs memoryBlobs_simps memoryStorage_def)
    then show thesis by (rule that) (simp add: s(2) demo_asg_def)
  qed
  from artifact_round_trip [OF up runs, of None] up show ?thesis
    by (auto simp: authorizeRunScope_def)
qed

theorem artifact_rollback_witness:
  "\<exists>w e. Service_UploadArtifact demo_service (demo_asg 2) zero_Artifact (''data'', None) (demo_service_state at_stuck) = (w, Inl e) \<and>
     ss_blobs w = Map.empty"
proof -
  let ?up = "Service_UploadArtifact demo_service (demo_asg 2) zero_Artifact (''data'', None) (demo_service_state at_stuck)"
  have "AddArtifact (demo_asg 2) a at_stuck = (at_stuck, Inl ErrInvalidLease)" for a
    by (rule fenced_methods) (simp_all add: at_stuck(2) demo_asg_def, simp add: stuck_run_def)
  then obtain w where up: "?up = (w, Inl ErrInvalidLease)"
    by (simp add: Service_UploadArtifact_def newControlPlaneID_eq Let_def demo_blobs memoryBlobs_simps memoryStorage_def)
  from artifact_rollback [OF up] up show ?thesis by simp
qed

theorem submit_scoped_witness:
  "\<exists>w run. Service_Submit demo_service (Some demo_scope) (demo_request\<lparr>rq_AgentID := ''a'',
        rq_Input := \<lparr>in_Type = [], in_Version = [], in_Prompt = ''p'', in_Data = None\<rparr>\<rparr>) (demo_service_state at_registered) = (w, Inr run) \<and>
     run_scope run = idempotencyScope ''other'' [] ''k''"
proof -
  let ?req = "demo_request\<lparr>rq_AgentID := ''a'', rq_Input := \<lparr>in_Type = [], in_Version = [], in_Prompt = ''p'', in_Data = None\<rparr>\<rparr>"
  let ?req' = "?req\<lparr>rq_TenantID := ''other'', rq_ProjectID := []\<rparr>"
  have new: "Submit ?req' at_registered = (fst (Submit ?req' at_registered), Inr (next_run ?req' at_registered))"
    by (subst Submit_new, simp add: at_registered)+ (simp add: Submit_new at_registered)
  have "Service_Submit demo_service (Some demo_scope) ?req (demo_service_state at_registered) =
      ((demo_service_state at_registered)\<lparr>ss_storage := fst (Submit ?req' at_registered)\<rparr>, Inr (next_run ?req' at_registered))"
    by (simp add: Service_Submit_def demo_scope_def Let_def on_storage_def memoryStorage_def demo_request_def zero_Request_def)
      (subst new [unfolded demo_request_def zero_Request_def, simplified], simp)
  note sub = this
  have "demo_state (fst (Submit ?req' at_registered)) 4 4"
    using at_registered by (simp add: Submit_new demo_state_def submitted_def)
  then have "no_collision (ss_storage ((demo_service_state at_registered)\<lparr>ss_storage := fst (Submit ?req' at_registered)\<rparr>))"
    by (simp add: demo_no_collision)
  from submit_scoped [OF _ _ sub this] demo_reachable(2) sub show ?thesis
    by (auto simp: demo_scope_def demo_request_def)
qed

theorem list_runs_scoped_witness:
  "\<exists>rs. Service_ListRuns demo_service (Some (demo_scope\<lparr>sc_TenantID := ''t''\<rparr>)) 10 (demo_service_state at_done) = Inr rs \<and>
     done_run \<in> set rs \<and> in_scope (demo_scope\<lparr>sc_TenantID := ''t''\<rparr>) done_run"
proof -
  have "run_TenantID done_run = ''t''"
    by (simp add: done_run_def running_run_def leased_run_def demo_run_def newRun_simps demo_request_def)
  then have rs: "Service_ListRuns demo_service (Some (demo_scope\<lparr>sc_TenantID := ''t''\<rparr>)) 10 (demo_service_state at_done) = Inr [done_run]"
    by (simp add: Service_ListRuns_def memoryStorage_def ListRuns_def scope_tenant_def scope_project_def demo_scope_def
        at_done List.map_filter_simps)
  from list_runs_scoped [OF rs] rs show ?thesis by simp
qed


end
