(* ===== verification/Http_Server.thy ===== *)
theory Http_Server
  imports Service
begin

text \<open>
  \<open>transport/httpapi/auth.go\<close> and \<open>handler.go\<close>: authentication, routing, and one handler per endpoint, over a
  service. An HTTP body is the value it denotes, one constructor of \<open>payload\<close> per Go type that is
  marshalled; \<open>encoding/json\<close> reads back the type it wrote, but for the fields tagged \<open>"-"\<close>, which
  \<open>wire_Run\<close> and its companions clear. Any other body is an error to the decoder.

  A path is the list of its unescaped segments. What \<open>net/http\<close> answers by itself (no pattern
  matches, the path is not clean, static console files) is a parameter of the handler, as are the lengths
  of encoded bodies. The event stream is the subject of \<open>Http_Stream\<close>.
\<close>

section \<open>Messages\<close>

record BuildInfo =
  bi_Version :: string
  bi_ProtocolVersion :: string

datatype payload = PNone | PBytes reader | PText string | PError string | PStatus string | PBuild BuildInfo | PToken string
  | PRequest Request | PRun Run | PRuns "Run list" | PAttempts "Attempt list" | PInteraction Interaction
  | PInteractions "Interaction list" | PResolve "json option" | PCreateInteraction Assignment InteractionRequest
  | PEvents "Event list" | PArtifact Artifact | PArtifacts "Artifact list" | PCancel CancelRequest
  | PNode Node | PNodes "Node list" | PRegistration NodeRegistration | PEmptyObject
  | PAssignment Assignment | PLeaseUpdate LeaseUpdate | PAppendEvent string string string string "json option"
  | PReserve Assignment string string CapabilityRequest | PReservation CapabilityReservation
  | PFinish Assignment CapabilityReservation CapabilityResult string | PComplete Assignment Result | PFail Assignment string

text \<open>What marshalling loses.\<close>

definition wire_Artifact :: "Artifact \<Rightarrow> Artifact" where
  "wire_Artifact a = a\<lparr>art_RunID := []\<rparr>"
definition wire_Result :: "Result \<Rightarrow> Result" where
  "wire_Result r = r\<lparr>res_Artifacts := map wire_Artifact (res_Artifacts r)\<rparr>"
definition wire_Attempt :: "Attempt \<Rightarrow> Attempt" where
  "wire_Attempt a = a\<lparr>att_LeaseToken := []\<rparr>"
definition wire_Run :: "Run \<Rightarrow> Run" where
  "wire_Run r = r\<lparr>run_Attempt := wire_Attempt (run_Attempt r), run_Result := map_option wire_Result (run_Result r)\<rparr>"

record http_request =
  hq_Method :: string
  hq_Path :: "string list"
  hq_Query :: "(string \<times> string) list"
  hq_Authorization :: string
  hq_Cookie :: "string option"
  hq_LeaseToken :: string
  hq_LastEventID :: string
  hq_ContentType :: string
  hq_Body :: payload

record http_response =
  hp_Status :: nat
  hp_Cookie :: "string option"
  hp_ContentType :: string
  hp_Filename :: string
  hp_Length :: "int option"
  hp_Body :: payload

definition url_Path :: "http_request \<Rightarrow> string" where
  "url_Path r = concat (map (\<lambda>seg. ''/'' @ seg) (hq_Path r))"

definition query_Get :: "http_request \<Rightarrow> string \<Rightarrow> string" where
  "query_Get r key = (case map_of (hq_Query r) key of None \<Rightarrow> [] | Some v \<Rightarrow> v)"

definition body_limit :: nat where "body_limit = 8 * 1024 * 1024"
definition artifact_limit :: nat where "artifact_limit = 256 * 1024 * 1024"

section \<open>Responses\<close>

definition writeJSON :: "nat \<Rightarrow> payload \<Rightarrow> http_response" where
  "writeJSON status value = \<lparr>hp_Status = status, hp_Cookie = None, hp_ContentType = ''application/json'', hp_Filename = [], hp_Length = None,
     hp_Body = value\<rparr>"

definition no_content :: http_response where
  "no_content = \<lparr>hp_Status = 204, hp_Cookie = None, hp_ContentType = [], hp_Filename = [], hp_Length = None, hp_Body = PNone\<rparr>"

definition writeError :: "error \<Rightarrow> http_response" where
  "writeError err =
    (let status = 400;
         status = (if errors_Is err NotFound then 404 else status);
         status = (if errors_Is err InvalidLease then 401 else status);
         status = (if errors_Is err InvalidTransition then 409 else status);
         status = (if errors_Is err RunCancelledErr then 410 else status);
         status = (if errors_Is err IncompatibleProtocol then 426 else status)
     in writeJSON status (PError (err_text err)))"

definition respond :: "nat \<Rightarrow> ('a \<Rightarrow> payload) \<Rightarrow> 'a result \<Rightarrow> http_response" where
  "respond status encode value = (case value of Inl err \<Rightarrow> writeError err | Inr v \<Rightarrow> writeJSON status (encode v))"

text \<open>A nil slice is answered as an empty list, so an endpoint of a list never answers \<open>null\<close>.\<close>

definition respondList :: "nat \<Rightarrow> ('a list \<Rightarrow> payload) \<Rightarrow> 'a list result \<Rightarrow> http_response" where
  "respondList status encode value = respond status encode value"

definition respondEmpty :: "unit result \<Rightarrow> http_response" where
  "respondEmpty value = (case value of Inl err \<Rightarrow> writeError err | Inr _ \<Rightarrow> no_content)"

definition mismatch :: "string \<Rightarrow> http_response" where
  "mismatch msg = writeError (errors_New msg)"

text \<open>
  \<open>decode\<close>: the body read up to the limit and decoded into the handler's target; \<open>as\<close> picks the
  constructor of the target's type.
\<close>

definition decode :: "(payload \<Rightarrow> nat) \<Rightarrow> (payload \<Rightarrow> 'a option) \<Rightarrow> http_request \<Rightarrow> http_response + 'a" where
  "decode size_of as r =
    (if size_of (hq_Body r) > body_limit then Inl (writeJSON 400 (PError ''http: request body too large''))
     else case as (hq_Body r) of None \<Rightarrow> Inl (writeJSON 400 (PError ''json: cannot decode the request''))
          | Some v \<Rightarrow> Inr v)"

definition as_Token :: "payload \<Rightarrow> string option" where
  "as_Token p = (case p of PToken t \<Rightarrow> Some t | _ \<Rightarrow> None)"
definition as_Request :: "payload \<Rightarrow> Request option" where
  "as_Request p = (case p of PRequest r \<Rightarrow> Some r | _ \<Rightarrow> None)"
definition as_Resolve :: "payload \<Rightarrow> json option option" where
  "as_Resolve p = (case p of PResolve j \<Rightarrow> Some j | _ \<Rightarrow> None)"
definition as_CreateInteraction :: "payload \<Rightarrow> (Assignment \<times> InteractionRequest) option" where
  "as_CreateInteraction p = (case p of PCreateInteraction a i \<Rightarrow> Some (a, i) | _ \<Rightarrow> None)"
definition as_Cancel :: "payload \<Rightarrow> CancelRequest option" where
  "as_Cancel p = (case p of PCancel c \<Rightarrow> Some c | _ \<Rightarrow> None)"
definition as_Registration :: "payload \<Rightarrow> NodeRegistration option" where
  "as_Registration p = (case p of PRegistration n \<Rightarrow> Some n | _ \<Rightarrow> None)"
definition as_Assignment :: "payload \<Rightarrow> Assignment option" where
  "as_Assignment p = (case p of PAssignment a \<Rightarrow> Some a | _ \<Rightarrow> None)"
definition as_AppendEvent :: "payload \<Rightarrow> (string \<times> string \<times> string \<times> string \<times> json option) option" where
  "as_AppendEvent p = (case p of PAppendEvent i r l t d \<Rightarrow> Some (i, r, l, t, d) | _ \<Rightarrow> None)"
definition as_Reserve :: "payload \<Rightarrow> (Assignment \<times> string \<times> string \<times> CapabilityRequest) option" where
  "as_Reserve p = (case p of PReserve a k h r \<Rightarrow> Some (a, k, h, r) | _ \<Rightarrow> None)"
definition as_Finish :: "payload \<Rightarrow> (Assignment \<times> CapabilityReservation \<times> CapabilityResult \<times> string) option" where
  "as_Finish p = (case p of PFinish a v r e \<Rightarrow> Some (a, v, r, e) | _ \<Rightarrow> None)"
definition as_Complete :: "payload \<Rightarrow> (Assignment \<times> Result) option" where
  "as_Complete p = (case p of PComplete a r \<Rightarrow> Some (a, r) | _ \<Rightarrow> None)"
definition as_Fail :: "payload \<Rightarrow> (Assignment \<times> string) option" where
  "as_Fail p = (case p of PFail a e \<Rightarrow> Some (a, e) | _ \<Rightarrow> None)"

lemmas as_defs = as_Token_def as_Request_def as_Resolve_def as_CreateInteraction_def as_Cancel_def as_Registration_def
  as_Assignment_def as_AppendEvent_def as_Reserve_def as_Finish_def as_Complete_def as_Fail_def

section \<open>Authentication\<close>

record Token =
  tok_Value :: string
  tok_Scope :: AccessScope

fun StaticTokens_Authenticate :: "Token list \<Rightarrow> string \<Rightarrow> AccessScope option" where
  "StaticTokens_Authenticate [] value = None"
| "StaticTokens_Authenticate (candidate # tokens) value =
    (if value = tok_Value candidate then Some (tok_Scope candidate) else StaticTokens_Authenticate tokens value)"

definition open_path :: "string \<Rightarrow> bool" where
  "open_path path \<longleftrightarrow> path = ''/health'' \<or> path = ''/version'' \<or> path = ''/console'' \<or> HasPrefix path ''/console/'' \<or>
     path = ''/v1/console/session''"

definition presented_token :: "http_request \<Rightarrow> string" where
  "presented_token r =
    (if HasPrefix (hq_Authorization r) ''Bearer '' then TrimSpace (drop (length ''Bearer '') (hq_Authorization r))
     else case hq_Cookie r of Some value \<Rightarrow> value | None \<Rightarrow> [])"

text \<open>The request goes on with a context, or it is answered here.\<close>

definition authenticate :: "(string \<Rightarrow> AccessScope option) option \<Rightarrow> http_request \<Rightarrow> http_response + ctx" where
  "authenticate auth r =
    (case auth of None \<Rightarrow> Inr None
     | Some Authenticate \<Rightarrow>
       if open_path (url_Path r) then Inr None
       else let value = presented_token r in
         if value = [] then Inl (writeJSON 401 (PError ''bearer token is required''))
         else case Authenticate value of None \<Rightarrow> Inl (writeJSON 401 (PError ''invalid bearer token''))
         | Some scope \<Rightarrow>
           let nodeRoute = (HasPrefix (url_Path r) ''/v1/attempts/'' \<or> (hq_Method r = ''POST'' \<and> HasPrefix (url_Path r) ''/v1/nodes/''))
           in if nodeRoute \<and> sc_Kind scope \<noteq> AccessNode then Inl (writeJSON 403 (PError ''node token is required''))
           else if \<not> nodeRoute \<and> sc_Kind scope \<noteq> AccessHost then Inl (writeJSON 403 (PError ''host token is required''))
           else if sc_Kind scope = AccessNode \<and> HasPrefix (url_Path r) ''/v1/nodes/'' \<and>
             (let parts = Split1 CHR ''/'' (url_Path r) in
              length parts > 3 \<and> parts ! 3 \<noteq> ''register'' \<and> sc_Subject scope \<noteq> [] \<and> parts ! 3 \<noteq> sc_Subject scope)
           then Inl (writeJSON 403 (PError ''node identity mismatch''))
           else Inr (Some scope))"

section \<open>The handlers\<close>

record ('s, 'b) Handler =
  hd_service :: "('s, 'b) Service"
  hd_auth :: "(string \<Rightarrow> AccessScope option) option"
  hd_version :: string
  hd_size :: "payload \<Rightarrow> nat"
  hd_other :: "http_request \<Rightarrow> http_response"

type_synonym ('s, 'b) endpoint_fun = "('s, 'b) Handler \<Rightarrow> ctx \<Rightarrow> http_request \<Rightarrow> ('s, 'b) service_state
  \<Rightarrow> ('s, 'b) service_state \<times> http_response"

definition limit_of :: "http_request \<Rightarrow> int" where
  "limit_of r = fst (Atoi (query_Get r ''limit''))"

definition decoded :: "('s, 'b) Handler \<Rightarrow> (payload \<Rightarrow> 'a option) \<Rightarrow> http_request \<Rightarrow> ('s, 'b) service_state
    \<Rightarrow> ('a \<Rightarrow> ('s, 'b) service_state \<times> http_response) \<Rightarrow> ('s, 'b) service_state \<times> http_response" where
  "decoded h as r w continue = (case decode (hd_size h) as r of Inl response \<Rightarrow> (w, response) | Inr value \<Rightarrow> continue value)"

definition consoleSession :: "('s, 'b) endpoint_fun" where
  "consoleSession h ctx r w = decoded h as_Token r w (\<lambda>token.
    if (case hd_auth h of None \<Rightarrow> False
        | Some Authenticate \<Rightarrow> (case Authenticate token of None \<Rightarrow> True | Some scope \<Rightarrow> sc_Kind scope \<noteq> AccessHost))
    then (w, writeJSON 401 (PError ''invalid host token''))
    else (w, no_content\<lparr>hp_Cookie := Some token\<rparr>))"

definition http_listRuns :: "('s, 'b) endpoint_fun" where
  "http_listRuns h ctx r w = (w, respondList 200 (PRuns \<circ> map wire_Run) (Service_ListRuns (hd_service h) ctx (limit_of r) w))"

definition http_sessionRuns :: "string \<Rightarrow> ('s, 'b) endpoint_fun" where
  "http_sessionRuns sessionID h ctx r w =
    (w, respondList 200 (PRuns \<circ> map wire_Run) (Service_SessionRuns (hd_service h) ctx sessionID (limit_of r) w))"

definition http_attempts :: "string \<Rightarrow> ('s, 'b) endpoint_fun" where
  "http_attempts runID h ctx r w = (w, respondList 200 (PAttempts \<circ> map wire_Attempt) (Service_Attempts (hd_service h) ctx runID w))"

definition http_interactions :: "string \<Rightarrow> ('s, 'b) endpoint_fun" where
  "http_interactions runID h ctx r w = (w, respondList 200 PInteractions (Service_Interactions (hd_service h) ctx runID w))"

definition http_resolveInteraction :: "string \<Rightarrow> ('s, 'b) endpoint_fun" where
  "http_resolveInteraction interactionID h ctx r w = decoded h as_Resolve r w (\<lambda>response.
    apsnd (respond 200 PInteraction) (Service_ResolveInteraction (hd_service h) ctx interactionID response w))"

definition http_createInteraction :: "string \<Rightarrow> ('s, 'b) endpoint_fun" where
  "http_createInteraction attemptID h ctx r w = decoded h as_CreateInteraction r w (\<lambda>(assignment, request).
    if as_AttemptID assignment \<noteq> attemptID then (w, mismatch ''attempt ID mismatch'')
    else apsnd (respond 201 PInteraction) (Service_CreateInteraction (hd_service h) assignment request w))"

text \<open>The assignment of an endpoint that takes it from the URL and the lease header.\<close>

definition header_assignment :: "string \<Rightarrow> http_request \<Rightarrow> Assignment" where
  "header_assignment attemptID r = \<lparr>as_RunID = query_Get r ''run_id'', as_AttemptID = attemptID, as_LeaseToken = hq_LeaseToken r,
     as_LeaseExpiresAt = 0, as_Request = zero_Request\<rparr>"

definition http_getInteraction :: "string \<Rightarrow> string \<Rightarrow> ('s, 'b) endpoint_fun" where
  "http_getInteraction attemptID interactionID h ctx r w =
    apsnd (respond 200 PInteraction) (Service_GetInteraction (hd_service h) (header_assignment attemptID r) interactionID w)"

definition http_artifacts :: "string \<Rightarrow> ('s, 'b) endpoint_fun" where
  "http_artifacts runID h ctx r w = (w, respondList 200 (PArtifacts \<circ> map wire_Artifact) (Service_Artifacts (hd_service h) ctx runID w))"

definition http_downloadArtifact :: "string \<Rightarrow> ('s, 'b) endpoint_fun" where
  "http_downloadArtifact artifactID h ctx r w =
    (w, case Service_OpenArtifact (hd_service h) ctx artifactID w of Inl err \<Rightarrow> writeError err
        | Inr (metadata, bytes) \<Rightarrow> \<lparr>hp_Status = 200, hp_Cookie = None, hp_ContentType = art_ContentType metadata,
            hp_Filename = art_Name metadata, hp_Length = Some (art_Size metadata), hp_Body = PBytes (bytes, None)\<rparr>)"

definition http_submit :: "('s, 'b) endpoint_fun" where
  "http_submit h ctx r w = decoded h as_Request r w (\<lambda>request.
    apsnd (respond 202 (PRun \<circ> wire_Run)) (Service_Submit (hd_service h) ctx request w))"

definition http_getRun :: "string \<Rightarrow> ('s, 'b) endpoint_fun" where
  "http_getRun runID h ctx r w = (w, respond 200 (PRun \<circ> wire_Run) (Service_GetRun (hd_service h) ctx runID w))"

definition http_events :: "string \<Rightarrow> ('s, 'b) endpoint_fun" where
  "http_events runID h ctx r w = (w, respondList 200 PEvents (Service_Events (hd_service h) ctx runID w))"

definition http_cancelRun :: "string \<Rightarrow> ('s, 'b) endpoint_fun" where
  "http_cancelRun runID h ctx r w = decoded h as_Cancel r w (\<lambda>request.
    apsnd (respond 200 (PRun \<circ> wire_Run)) (Service_CancelRun (hd_service h) ctx runID request w))"

definition http_nodes :: "('s, 'b) endpoint_fun" where
  "http_nodes h ctx r w = apsnd (respondList 200 PNodes) (Service_Nodes (hd_service h) w)"

definition http_register :: "('s, 'b) endpoint_fun" where
  "http_register h ctx r w = decoded h as_Registration r w (\<lambda>registration.
    if (case ctx of None \<Rightarrow> False
        | Some scope \<Rightarrow> sc_Kind scope = AccessNode \<and> sc_Subject scope \<noteq> [] \<and> sc_Subject scope \<noteq> reg_ID registration)
    then (w, writeJSON 403 (PError ''node identity mismatch''))
    else apsnd (respond 200 PNode) (Service_RegisterNode (hd_service h) registration w))"

definition http_heartbeat :: "string \<Rightarrow> ('s, 'b) endpoint_fun" where
  "http_heartbeat nodeID h ctx r w = apsnd (respond 200 PNode) (Service_Heartbeat (hd_service h) nodeID w)"

definition http_claim :: "string \<Rightarrow> ('s, 'b) endpoint_fun" where
  "http_claim nodeID h ctx r w = apsnd (\<lambda>value.
      case value of Inl err \<Rightarrow> if errors_Is err NoAssignment then no_content else respond 200 PAssignment value
      | Inr _ \<Rightarrow> respond 200 PAssignment value) (Service_Claim (hd_service h) nodeID w)"

text \<open>The endpoints whose body is the assignment.\<close>

definition for_attempt :: "('s, 'b) Handler \<Rightarrow> string \<Rightarrow> http_request \<Rightarrow> ('s, 'b) service_state
    \<Rightarrow> (Assignment \<Rightarrow> ('s, 'b) service_state \<times> http_response) \<Rightarrow> ('s, 'b) service_state \<times> http_response" where
  "for_attempt h attemptID r w continue = decoded h as_Assignment r w (\<lambda>assignment.
    if as_AttemptID assignment \<noteq> attemptID then (w, mismatch ''attempt ID mismatch'') else continue assignment)"

definition http_start :: "string \<Rightarrow> ('s, 'b) endpoint_fun" where
  "http_start attemptID h ctx r w = for_attempt h attemptID r w (\<lambda>assignment.
    apsnd respondEmpty (Service_Start (hd_service h) assignment w))"

definition http_renew :: "string \<Rightarrow> ('s, 'b) endpoint_fun" where
  "http_renew attemptID h ctx r w = for_attempt h attemptID r w (\<lambda>assignment.
    apsnd (respond 200 PLeaseUpdate) (Service_Renew (hd_service h) assignment w))"

definition http_acknowledgeCancellation :: "string \<Rightarrow> ('s, 'b) endpoint_fun" where
  "http_acknowledgeCancellation attemptID h ctx r w = for_attempt h attemptID r w (\<lambda>assignment.
    apsnd respondEmpty (Service_AcknowledgeCancellation (hd_service h) assignment w))"

definition http_appendEvent :: "string \<Rightarrow> ('s, 'b) endpoint_fun" where
  "http_appendEvent attemptID h ctx r w = decoded h as_AppendEvent r w (\<lambda>(eventID, runID, lease, eventType, data).
    apsnd respondEmpty (Service_AppendEvent (hd_service h) runID attemptID lease eventType (GoVal (raw_json data)) [eventID] w))"

definition MaxBytesReader :: "nat \<Rightarrow> reader \<Rightarrow> reader" where
  "MaxBytesReader n r = (if length (fst r) > n then (take n (fst r), Some (errors_New ''http: request body too large'')) else r)"

definition body_reader :: "payload \<Rightarrow> reader" where
  "body_reader p = (case p of PBytes r \<Rightarrow> r | _ \<Rightarrow> ([], None))"

definition http_uploadArtifact :: "string \<Rightarrow> ('s, 'b) endpoint_fun" where
  "http_uploadArtifact attemptID h ctx r w =
    (let assignment = header_assignment attemptID r;
         artifact = zero_Artifact\<lparr>art_Type := query_Get r ''type'', art_Name := query_Get r ''name'', art_ContentType := hq_ContentType r\<rparr>
     in if as_RunID assignment = [] \<or> as_LeaseToken assignment = [] \<or> art_Type artifact = []
        then (w, writeJSON 400 (PError ''run_id, lease token, and artifact type are required''))
        else apsnd (respond 201 (PArtifact \<circ> wire_Artifact))
          (Service_UploadArtifact (hd_service h) assignment artifact (MaxBytesReader artifact_limit (body_reader (hq_Body r))) w))"

definition http_reserveCapability :: "string \<Rightarrow> ('s, 'b) endpoint_fun" where
  "http_reserveCapability attemptID h ctx r w = decoded h as_Reserve r w (\<lambda>(assignment, key, hash, request).
    if as_AttemptID assignment \<noteq> attemptID then (w, mismatch ''attempt ID mismatch'')
    else apsnd (respond 200 PReservation) (Service_ReserveCapability (hd_service h) assignment key hash request w))"

definition http_finishCapability :: "string \<Rightarrow> string \<Rightarrow> ('s, 'b) endpoint_fun" where
  "http_finishCapability attemptID callID h ctx r w = decoded h as_Finish r w (\<lambda>(assignment, reservation, result, cause).
    if as_AttemptID assignment \<noteq> attemptID \<or> rsv_CallID reservation \<noteq> callID
    then (w, mismatch ''capability call identity mismatch'')
    else apsnd respondEmpty (Service_FinishCapability (hd_service h) assignment reservation result cause w))"

definition http_complete :: "string \<Rightarrow> ('s, 'b) endpoint_fun" where
  "http_complete attemptID h ctx r w = decoded h as_Complete r w (\<lambda>(assignment, result).
    if as_AttemptID assignment \<noteq> attemptID then (w, mismatch ''attempt ID mismatch'')
    else apsnd respondEmpty (Service_Complete (hd_service h) assignment result w))"

definition http_fail :: "string \<Rightarrow> ('s, 'b) endpoint_fun" where
  "http_fail attemptID h ctx r w = decoded h as_Fail r w (\<lambda>(assignment, cause).
    if as_AttemptID assignment \<noteq> attemptID then (w, mismatch ''attempt ID mismatch'')
    else apsnd respondEmpty (Service_Fail (hd_service h) assignment cause w))"

section \<open>Routing\<close>

datatype segment = Lit string | Var

datatype endpoint = EConsole | EConsoleSession | EHealth | EVersion | ESubmit | EListRuns | ESessionRuns | EGetRun | EAttempts
  | EInteractions | EResolveInteraction | EEvents | EStreamEvents | EArtifacts | EDownloadArtifact | ECancelRun | ENodes
  | ERegister | EHeartbeat | EClaim | EStart | ERenew | EAppendEvent | EUploadArtifact | EReserveCapability | EFinishCapability
  | ECreateInteraction | EGetInteraction | EComplete | EFail | EAcknowledgeCancellation

definition routes :: "(string \<times> segment list \<times> endpoint) list" where
  "routes =
    [(''GET'', [Lit ''console''], EConsole),
     (''POST'', [Lit ''v1'', Lit ''console'', Lit ''session''], EConsoleSession),
     (''GET'', [Lit ''health''], EHealth),
     (''GET'', [Lit ''version''], EVersion),
     (''POST'', [Lit ''v1'', Lit ''runs''], ESubmit),
     (''GET'', [Lit ''v1'', Lit ''runs''], EListRuns),
     (''GET'', [Lit ''v1'', Lit ''sessions'', Var, Lit ''runs''], ESessionRuns),
     (''GET'', [Lit ''v1'', Lit ''runs'', Var], EGetRun),
     (''GET'', [Lit ''v1'', Lit ''runs'', Var, Lit ''attempts''], EAttempts),
     (''GET'', [Lit ''v1'', Lit ''runs'', Var, Lit ''interactions''], EInteractions),
     (''POST'', [Lit ''v1'', Lit ''interactions'', Var, Lit ''resolve''], EResolveInteraction),
     (''GET'', [Lit ''v1'', Lit ''runs'', Var, Lit ''events''], EEvents),
     (''GET'', [Lit ''v1'', Lit ''runs'', Var, Lit ''events'', Lit ''stream''], EStreamEvents),
     (''GET'', [Lit ''v1'', Lit ''runs'', Var, Lit ''artifacts''], EArtifacts),
     (''GET'', [Lit ''v1'', Lit ''artifacts'', Var], EDownloadArtifact),
     (''POST'', [Lit ''v1'', Lit ''runs'', Var, Lit ''cancel''], ECancelRun),
     (''GET'', [Lit ''v1'', Lit ''nodes''], ENodes),
     (''POST'', [Lit ''v1'', Lit ''nodes'', Lit ''register''], ERegister),
     (''POST'', [Lit ''v1'', Lit ''nodes'', Var, Lit ''heartbeat''], EHeartbeat),
     (''POST'', [Lit ''v1'', Lit ''nodes'', Var, Lit ''claim''], EClaim),
     (''POST'', [Lit ''v1'', Lit ''attempts'', Var, Lit ''start''], EStart),
     (''POST'', [Lit ''v1'', Lit ''attempts'', Var, Lit ''renew''], ERenew),
     (''POST'', [Lit ''v1'', Lit ''attempts'', Var, Lit ''events''], EAppendEvent),
     (''POST'', [Lit ''v1'', Lit ''attempts'', Var, Lit ''artifacts''], EUploadArtifact),
     (''POST'', [Lit ''v1'', Lit ''attempts'', Var, Lit ''capability-calls'', Lit ''reserve''], EReserveCapability),
     (''POST'', [Lit ''v1'', Lit ''attempts'', Var, Lit ''capability-calls'', Var, Lit ''finish''], EFinishCapability),
     (''POST'', [Lit ''v1'', Lit ''attempts'', Var, Lit ''interactions''], ECreateInteraction),
     (''GET'', [Lit ''v1'', Lit ''attempts'', Var, Lit ''interactions'', Var], EGetInteraction),
     (''POST'', [Lit ''v1'', Lit ''attempts'', Var, Lit ''complete''], EComplete),
     (''POST'', [Lit ''v1'', Lit ''attempts'', Var, Lit ''fail''], EFail),
     (''POST'', [Lit ''v1'', Lit ''attempts'', Var, Lit ''cancelled''], EAcknowledgeCancellation)]"

text \<open>The path values of a match; a variable matches one segment that is not empty.\<close>

fun match_path :: "segment list \<Rightarrow> string list \<Rightarrow> string list option" where
  "match_path [] [] = Some []"
| "match_path (Lit s # pat) (seg # path) = (if seg = s then match_path pat path else None)"
| "match_path (Var # pat) (seg # path) = (if seg = [] then None else map_option ((#) seg) (match_path pat path))"
| "match_path _ _ = None"

definition method_matches :: "string \<Rightarrow> string \<Rightarrow> bool" where
  "method_matches pat m \<longleftrightarrow> m = pat \<or> (pat = ''GET'' \<and> m = ''HEAD'')"

text \<open>
  \<open>http.ServeMux\<close>: no two of the patterns match the same request, so the first match is the match. A
  path with a segment \<open>.\<close> or \<open>..\<close> or an empty one is answered by the mux itself.
\<close>

fun find_route :: "(string \<times> segment list \<times> endpoint) list \<Rightarrow> string \<Rightarrow> string list \<Rightarrow> (endpoint \<times> string list) option" where
  "find_route [] m path = None"
| "find_route ((pm, pat, e) # rest) m path =
    (if method_matches pm m then (case match_path pat path of Some vs \<Rightarrow> Some (e, vs) | None \<Rightarrow> find_route rest m path)
     else find_route rest m path)"

definition clean_path :: "string list \<Rightarrow> bool" where
  "clean_path path \<longleftrightarrow> list_all (\<lambda>seg. seg \<noteq> [] \<and> seg \<noteq> ''.'' \<and> seg \<noteq> ''..'') path"

definition mux :: "string \<Rightarrow> string list \<Rightarrow> (endpoint \<times> string list) option" where
  "mux m path = (if clean_path path then find_route routes m path else None)"

definition CurrentBuild :: "string \<Rightarrow> BuildInfo" where
  "CurrentBuild version = \<lparr>bi_Version = version, bi_ProtocolVersion = ProtocolVersion\<rparr>"

definition dispatch :: "endpoint \<Rightarrow> string list \<Rightarrow> ('s, 'b) endpoint_fun" where
  "dispatch e vs h ctx r w =
    (case e of
       EConsole \<Rightarrow> (w, hd_other h r)
     | EConsoleSession \<Rightarrow> consoleSession h ctx r w
     | EHealth \<Rightarrow> (w, writeJSON 200 (PStatus ''ok''))
     | EVersion \<Rightarrow> (w, writeJSON 200 (PBuild (CurrentBuild (hd_version h))))
     | ESubmit \<Rightarrow> http_submit h ctx r w
     | EListRuns \<Rightarrow> http_listRuns h ctx r w
     | ESessionRuns \<Rightarrow> http_sessionRuns (vs ! 0) h ctx r w
     | EGetRun \<Rightarrow> http_getRun (vs ! 0) h ctx r w
     | EAttempts \<Rightarrow> http_attempts (vs ! 0) h ctx r w
     | EInteractions \<Rightarrow> http_interactions (vs ! 0) h ctx r w
     | EResolveInteraction \<Rightarrow> http_resolveInteraction (vs ! 0) h ctx r w
     | EEvents \<Rightarrow> http_events (vs ! 0) h ctx r w
     | EStreamEvents \<Rightarrow> (w, hd_other h r)
     | EArtifacts \<Rightarrow> http_artifacts (vs ! 0) h ctx r w
     | EDownloadArtifact \<Rightarrow> http_downloadArtifact (vs ! 0) h ctx r w
     | ECancelRun \<Rightarrow> http_cancelRun (vs ! 0) h ctx r w
     | ENodes \<Rightarrow> http_nodes h ctx r w
     | ERegister \<Rightarrow> http_register h ctx r w
     | EHeartbeat \<Rightarrow> http_heartbeat (vs ! 0) h ctx r w
     | EClaim \<Rightarrow> http_claim (vs ! 0) h ctx r w
     | EStart \<Rightarrow> http_start (vs ! 0) h ctx r w
     | ERenew \<Rightarrow> http_renew (vs ! 0) h ctx r w
     | EAppendEvent \<Rightarrow> http_appendEvent (vs ! 0) h ctx r w
     | EUploadArtifact \<Rightarrow> http_uploadArtifact (vs ! 0) h ctx r w
     | EReserveCapability \<Rightarrow> http_reserveCapability (vs ! 0) h ctx r w
     | EFinishCapability \<Rightarrow> http_finishCapability (vs ! 0) (vs ! 1) h ctx r w
     | ECreateInteraction \<Rightarrow> http_createInteraction (vs ! 0) h ctx r w
     | EGetInteraction \<Rightarrow> http_getInteraction (vs ! 0) (vs ! 1) h ctx r w
     | EComplete \<Rightarrow> http_complete (vs ! 0) h ctx r w
     | EFail \<Rightarrow> http_fail (vs ! 0) h ctx r w
     | EAcknowledgeCancellation \<Rightarrow> http_acknowledgeCancellation (vs ! 0) h ctx r w)"

text \<open>The body of a response to \<open>HEAD\<close> is dropped by \<open>net/http\<close>; every other request is served as routed.\<close>

definition ServeHTTP :: "('s, 'b) Handler \<Rightarrow> http_request \<Rightarrow> ('s, 'b) service_state \<Rightarrow> ('s, 'b) service_state \<times> http_response" where
  "ServeHTTP h r w =
    (case authenticate (hd_auth h) r of Inl response \<Rightarrow> (w, response)
     | Inr ctx \<Rightarrow>
       (case mux (hq_Method r) (hq_Path r) of None \<Rightarrow> (w, hd_other h r)
        | Some (e, vs) \<Rightarrow>
          apsnd (\<lambda>response. if hq_Method r = ''HEAD'' then response\<lparr>hp_Body := PNone\<rparr> else response) (dispatch e vs h ctx r w)))"

end
