(* ===== verification/Http_Client.thy ===== *)
theory Http_Client
  imports Http_Server
begin

text \<open>
  \<open>transport/httpapi/client.go\<close>: the client, over any transport \<open>cl_Do\<close>. Composed with the handler of
  \<open>Http_Server\<close> every method is the method of the service, up to the fields that are not marshalled and
  with the sentinel errors restored from status and text.
\<close>

section \<open>The client\<close>

record 'w Client =
  cl_Token :: string
  cl_Do :: "http_request \<Rightarrow> 'w \<Rightarrow> 'w \<times> http_response result"
  cl_size :: "payload \<Rightarrow> nat"
  cl_text :: "payload \<Rightarrow> string"
  cl_status :: "nat \<Rightarrow> string"

definition Client_authorize :: "'w Client \<Rightarrow> http_request \<Rightarrow> http_request" where
  "Client_authorize c r = (if cl_Token c \<noteq> [] then r\<lparr>hq_Authorization := ''Bearer '' @ cl_Token c\<rparr> else r)"

definition new_request :: "string \<Rightarrow> string list \<Rightarrow> (string \<times> string) list \<Rightarrow> payload \<Rightarrow> http_request" where
  "new_request m path query body = \<lparr>hq_Method = m, hq_Path = path, hq_Query = query, hq_Authorization = [], hq_Cookie = None,
     hq_LeaseToken = [], hq_LastEventID = [], hq_ContentType = (if body = PNone then [] else ''application/json''), hq_Body = body\<rparr>"

text \<open>The body of a response, read up to the limit: what is cut off no longer decodes.\<close>

definition read_body :: "'w Client \<Rightarrow> http_response \<Rightarrow> payload" where
  "read_body c response =
    (if cl_size c (hp_Body response) > body_limit then PText (take body_limit (cl_text c (hp_Body response))) else hp_Body response)"

definition failure_message :: "'w Client \<Rightarrow> payload \<Rightarrow> string" where
  "failure_message c body =
    (let message = (case body of PError m \<Rightarrow> m | _ \<Rightarrow> []) in if message = [] then cl_text c body else message)"

definition protocol_error :: "nat \<Rightarrow> string \<Rightarrow> error option" where
  "protocol_error status message =
    (if status = 404 \<and> HasPrefix message (err_text ErrNotFound) then Some ErrNotFound
     else if status = 401 \<and> HasPrefix message (err_text ErrInvalidLease) then Some ErrInvalidLease
     else if status = 409 \<and> HasPrefix message (err_text ErrInvalidTransition) then Some ErrInvalidTransition
     else if status = 410 \<and> HasPrefix message (err_text ErrRunCancelled) then Some ErrRunCancelled
     else if status = 426 \<and> HasPrefix message (err_text ErrIncompatibleProtocol) then Some ErrIncompatibleProtocol
     else None)"

definition http_failure :: "'w Client \<Rightarrow> nat \<Rightarrow> string \<Rightarrow> error" where
  "http_failure c status message = errors_New (''relay HTTP '' @ cl_status c status @ '': '' @ message)"

text \<open>
  \<open>do\<close>: \<open>as\<close> decodes the output, which is \<open>zero\<close> when there is none. \<open>strings.Contains(path, "/claim")\<close>
  looks at the escaped path, where a slash is always a separator.
\<close>

definition Client_do :: "'w Client \<Rightarrow> string \<Rightarrow> string list \<Rightarrow> (string \<times> string) list \<Rightarrow> payload
    \<Rightarrow> (payload \<Rightarrow> 'a option) \<Rightarrow> 'a \<Rightarrow> 'w \<Rightarrow> 'w \<times> 'a result" where
  "Client_do c m path query input as zero w =
    (case cl_Do c (Client_authorize c (new_request m path query input)) w of
       (w, Inl err) \<Rightarrow> (w, Inl err)
     | (w, Inr response) \<Rightarrow>
       (w, if hp_Status response = 204 then
             (if list_ex (\<lambda>seg. HasPrefix seg ''claim'') path then Inl ErrNoAssignment else Inr zero)
           else let body = read_body c response; status = hp_Status response in
             if status < 200 \<or> status \<ge> 300 then
               let message = failure_message c body in
               case protocol_error status message of
                 Some e \<Rightarrow> Inl (wrap e message)
               | None \<Rightarrow> Inl (http_failure c status message)
             else if body = PNone then Inr zero
             else case as body of None \<Rightarrow> Inl (errors_New ''decode Relay response: unexpected value'') | Some v \<Rightarrow> Inr v))"

text \<open>A call whose output is discarded.\<close>

definition Client_send :: "'w Client \<Rightarrow> string \<Rightarrow> string list \<Rightarrow> payload \<Rightarrow> 'w \<Rightarrow> 'w \<times> unit result" where
  "Client_send c m path input w = Client_do c m path [] input (\<lambda>_. Some ()) () w"

section \<open>Decoding responses\<close>

definition out_Run :: "payload \<Rightarrow> Run option option" where
  "out_Run p = (case p of PRun r \<Rightarrow> Some (Some r) | _ \<Rightarrow> None)"
definition out_Runs :: "payload \<Rightarrow> Run list option" where
  "out_Runs p = (case p of PRuns r \<Rightarrow> Some r | _ \<Rightarrow> None)"
definition out_Attempts :: "payload \<Rightarrow> Attempt list option" where
  "out_Attempts p = (case p of PAttempts r \<Rightarrow> Some r | _ \<Rightarrow> None)"
definition out_Interactions :: "payload \<Rightarrow> Interaction list option" where
  "out_Interactions p = (case p of PInteractions r \<Rightarrow> Some r | _ \<Rightarrow> None)"
definition out_Interaction :: "payload \<Rightarrow> Interaction option option" where
  "out_Interaction p = (case p of PInteraction r \<Rightarrow> Some (Some r) | _ \<Rightarrow> None)"
definition out_Events :: "payload \<Rightarrow> Event list option" where
  "out_Events p = (case p of PEvents r \<Rightarrow> Some r | _ \<Rightarrow> None)"
definition out_Artifacts :: "payload \<Rightarrow> Artifact list option" where
  "out_Artifacts p = (case p of PArtifacts r \<Rightarrow> Some r | _ \<Rightarrow> None)"
definition out_Node :: "payload \<Rightarrow> Node option option" where
  "out_Node p = (case p of PNode r \<Rightarrow> Some (Some r) | _ \<Rightarrow> None)"
definition out_Nodes :: "payload \<Rightarrow> Node list option" where
  "out_Nodes p = (case p of PNodes r \<Rightarrow> Some r | _ \<Rightarrow> None)"
definition out_Assignment :: "payload \<Rightarrow> Assignment option option" where
  "out_Assignment p = (case p of PAssignment r \<Rightarrow> Some (Some r) | _ \<Rightarrow> None)"
definition out_LeaseUpdate :: "payload \<Rightarrow> LeaseUpdate option option" where
  "out_LeaseUpdate p = (case p of PLeaseUpdate r \<Rightarrow> Some (Some r) | _ \<Rightarrow> None)"
definition out_Reservation :: "payload \<Rightarrow> CapabilityReservation option option" where
  "out_Reservation p = (case p of PReservation r \<Rightarrow> Some (Some r) | _ \<Rightarrow> None)"

lemmas out_defs = out_Run_def out_Runs_def out_Attempts_def out_Interactions_def out_Interaction_def out_Events_def
  out_Artifacts_def out_Node_def out_Nodes_def out_Assignment_def out_LeaseUpdate_def out_Reservation_def

section \<open>Methods\<close>

text \<open>A zero struct, which a method returns when the server sent no body, is \<open>None\<close>.\<close>

definition Client_Health :: "'w Client \<Rightarrow> 'w \<Rightarrow> 'w \<times> unit result" where
  "Client_Health c w =
    (case Client_do c ''GET'' [''health''] [] PNone (\<lambda>p. case p of PStatus s \<Rightarrow> Some s | _ \<Rightarrow> None) [] w of
       (w, Inl err) \<Rightarrow> (w, Inl err)
     | (w, Inr status) \<Rightarrow> (w, if status \<noteq> ''ok'' then Inl (errors_New (''relay HTTP: unhealthy server status '' @ quot @ status @ quot)) else Inr ()))"

definition Client_BuildInfo :: "'w Client \<Rightarrow> 'w \<Rightarrow> 'w \<times> BuildInfo result" where
  "Client_BuildInfo c w = Client_do c ''GET'' [''version''] [] PNone (\<lambda>p. case p of PBuild b \<Rightarrow> Some b | _ \<Rightarrow> None)
     \<lparr>bi_Version = [], bi_ProtocolVersion = []\<rparr> w"

definition Client_Submit :: "'w Client \<Rightarrow> Request \<Rightarrow> 'w \<Rightarrow> 'w \<times> Run option result" where
  "Client_Submit c request w = Client_do c ''POST'' [''v1'', ''runs''] [] (PRequest request) out_Run None w"

definition Client_GetRun :: "'w Client \<Rightarrow> string \<Rightarrow> 'w \<Rightarrow> 'w \<times> Run option result" where
  "Client_GetRun c runID w = Client_do c ''GET'' [''v1'', ''runs'', runID] [] PNone out_Run None w"

definition Client_ListRuns :: "'w Client \<Rightarrow> int \<Rightarrow> 'w \<Rightarrow> 'w \<times> Run list result" where
  "Client_ListRuns c limit w = Client_do c ''GET'' [''v1'', ''runs''] [(''limit'', Itoa limit)] PNone out_Runs [] w"

definition Client_SessionRuns :: "'w Client \<Rightarrow> string \<Rightarrow> int \<Rightarrow> 'w \<Rightarrow> 'w \<times> Run list result" where
  "Client_SessionRuns c sessionID limit w =
    Client_do c ''GET'' [''v1'', ''sessions'', sessionID, ''runs''] [(''limit'', Itoa limit)] PNone out_Runs [] w"

definition Client_Attempts :: "'w Client \<Rightarrow> string \<Rightarrow> 'w \<Rightarrow> 'w \<times> Attempt list result" where
  "Client_Attempts c runID w = Client_do c ''GET'' [''v1'', ''runs'', runID, ''attempts''] [] PNone out_Attempts [] w"

definition Client_Interactions :: "'w Client \<Rightarrow> string \<Rightarrow> 'w \<Rightarrow> 'w \<times> Interaction list result" where
  "Client_Interactions c runID w = Client_do c ''GET'' [''v1'', ''runs'', runID, ''interactions''] [] PNone out_Interactions [] w"

definition Client_ResolveInteraction :: "'w Client \<Rightarrow> string \<Rightarrow> json option \<Rightarrow> 'w \<Rightarrow> 'w \<times> Interaction option result" where
  "Client_ResolveInteraction c interactionID response w =
    Client_do c ''POST'' [''v1'', ''interactions'', interactionID, ''resolve''] [] (PResolve (Some (raw_json response))) out_Interaction None w"

definition Client_CreateInteraction :: "'w Client \<Rightarrow> Assignment \<Rightarrow> InteractionRequest \<Rightarrow> 'w \<Rightarrow> 'w \<times> Interaction option result" where
  "Client_CreateInteraction c a request w =
    Client_do c ''POST'' [''v1'', ''attempts'', as_AttemptID a, ''interactions''] [] (PCreateInteraction a request) out_Interaction None w"

text \<open>The methods that do not go through \<open>do\<close>: their failures carry no sentinel.\<close>

definition raw_response :: "'w Client \<Rightarrow> http_response \<Rightarrow> payload result" where
  "raw_response c response =
    (if hp_Status response < 200 \<or> hp_Status response \<ge> 300
     then Inl (http_failure c (hp_Status response) (TrimSpace (cl_text c (read_body c response)))) else Inr (hp_Body response))"

definition Client_GetInteraction :: "'w Client \<Rightarrow> Assignment \<Rightarrow> string \<Rightarrow> 'w \<Rightarrow> 'w \<times> Interaction result" where
  "Client_GetInteraction c a interactionID w =
    (case cl_Do c (Client_authorize c ((new_request ''GET'' [''v1'', ''attempts'', as_AttemptID a, ''interactions'', interactionID]
         [(''run_id'', as_RunID a)] PNone)\<lparr>hq_LeaseToken := as_LeaseToken a\<rparr>)) w of
       (w, Inl err) \<Rightarrow> (w, Inl err)
     | (w, Inr response) \<Rightarrow>
       (w, case raw_response c response of Inl err \<Rightarrow> Inl err
           | Inr _ \<Rightarrow> (case out_Interaction (read_body c response) of
               Some (Some v) \<Rightarrow> Inr v | _ \<Rightarrow> Inl (errors_New ''json: cannot decode the response''))))"

definition Client_Events :: "'w Client \<Rightarrow> string \<Rightarrow> 'w \<Rightarrow> 'w \<times> Event list result" where
  "Client_Events c runID w = Client_do c ''GET'' [''v1'', ''runs'', runID, ''events''] [] PNone out_Events [] w"

definition Client_Artifacts :: "'w Client \<Rightarrow> string \<Rightarrow> 'w \<Rightarrow> 'w \<times> Artifact list result" where
  "Client_Artifacts c runID w = Client_do c ''GET'' [''v1'', ''runs'', runID, ''artifacts''] [] PNone out_Artifacts [] w"

definition Client_OpenArtifact :: "'w Client \<Rightarrow> string \<Rightarrow> 'w \<Rightarrow> 'w \<times> reader result" where
  "Client_OpenArtifact c artifactID w =
    (case cl_Do c (Client_authorize c (new_request ''GET'' [''v1'', ''artifacts'', artifactID] [] PNone)) w of
       (w, Inl err) \<Rightarrow> (w, Inl err)
     | (w, Inr response) \<Rightarrow> (w, map_sum (\<lambda>e. e) body_reader (raw_response c response)))"

definition Client_UploadArtifact :: "'w Client \<Rightarrow> Assignment \<Rightarrow> Artifact \<Rightarrow> reader \<Rightarrow> 'w \<Rightarrow> 'w \<times> Artifact result" where
  "Client_UploadArtifact c assignment artifact reader w =
    (case cl_Do c (Client_authorize c ((new_request ''POST'' [''v1'', ''attempts'', as_AttemptID assignment, ''artifacts'']
         [(''run_id'', as_RunID assignment), (''type'', art_Type artifact), (''name'', art_Name artifact)] (PBytes reader))
         \<lparr>hq_LeaseToken := as_LeaseToken assignment, hq_ContentType := art_ContentType artifact\<rparr>)) w of
       (w, Inl err) \<Rightarrow> (w, Inl err)
     | (w, Inr response) \<Rightarrow>
       (w, case raw_response c response of Inl err \<Rightarrow> Inl err
           | Inr _ \<Rightarrow> (case read_body c response of PArtifact v \<Rightarrow> Inr v | _ \<Rightarrow> Inl (errors_New ''json: cannot decode the response''))))"

definition Client_ReserveCapability :: "'w Client \<Rightarrow> Assignment \<Rightarrow> string \<Rightarrow> string \<Rightarrow> CapabilityRequest \<Rightarrow> 'w
    \<Rightarrow> 'w \<times> CapabilityReservation option result" where
  "Client_ReserveCapability c a key hash request w =
    Client_do c ''POST'' [''v1'', ''attempts'', as_AttemptID a, ''capability-calls'', ''reserve''] []
      (PReserve a key hash request) out_Reservation None w"

definition Client_FinishCapability :: "'w Client \<Rightarrow> Assignment \<Rightarrow> CapabilityReservation \<Rightarrow> CapabilityResult \<Rightarrow> string \<Rightarrow> 'w
    \<Rightarrow> 'w \<times> unit result" where
  "Client_FinishCapability c a reservation result cause w =
    Client_send c ''POST'' [''v1'', ''attempts'', as_AttemptID a, ''capability-calls'', rsv_CallID reservation, ''finish'']
      (PFinish a reservation result cause) w"

definition Client_CancelRun :: "'w Client \<Rightarrow> string \<Rightarrow> CancelRequest \<Rightarrow> 'w \<Rightarrow> 'w \<times> Run option result" where
  "Client_CancelRun c runID request w = Client_do c ''POST'' [''v1'', ''runs'', runID, ''cancel''] [] (PCancel request) out_Run None w"

definition Client_Nodes :: "'w Client \<Rightarrow> 'w \<Rightarrow> 'w \<times> Node list result" where
  "Client_Nodes c w = Client_do c ''GET'' [''v1'', ''nodes''] [] PNone out_Nodes [] w"

definition Client_RegisterNode :: "'w Client \<Rightarrow> NodeRegistration \<Rightarrow> 'w \<Rightarrow> 'w \<times> Node option result" where
  "Client_RegisterNode c value w = Client_do c ''POST'' [''v1'', ''nodes'', ''register''] [] (PRegistration value) out_Node None w"

definition Client_Heartbeat :: "'w Client \<Rightarrow> string \<Rightarrow> 'w \<Rightarrow> 'w \<times> Node option result" where
  "Client_Heartbeat c nodeID w = Client_do c ''POST'' [''v1'', ''nodes'', nodeID, ''heartbeat''] [] PEmptyObject out_Node None w"

definition Client_Claim :: "'w Client \<Rightarrow> string \<Rightarrow> 'w \<Rightarrow> 'w \<times> Assignment option result" where
  "Client_Claim c nodeID w = Client_do c ''POST'' [''v1'', ''nodes'', nodeID, ''claim''] [] PEmptyObject out_Assignment None w"

definition Client_Start :: "'w Client \<Rightarrow> Assignment \<Rightarrow> 'w \<Rightarrow> 'w \<times> unit result" where
  "Client_Start c value w = Client_send c ''POST'' [''v1'', ''attempts'', as_AttemptID value, ''start''] (PAssignment value) w"

definition Client_Renew :: "'w Client \<Rightarrow> Assignment \<Rightarrow> 'w \<Rightarrow> 'w \<times> LeaseUpdate option result" where
  "Client_Renew c value w =
    Client_do c ''POST'' [''v1'', ''attempts'', as_AttemptID value, ''renew''] [] (PAssignment value) out_LeaseUpdate None w"

definition Client_AppendEvent :: "'w Client \<Rightarrow> string \<Rightarrow> string \<Rightarrow> string \<Rightarrow> string \<Rightarrow> goany \<Rightarrow> string list \<Rightarrow> 'w \<Rightarrow> 'w \<times> unit result" where
  "Client_AppendEvent c runID attemptID lease eventType data eventIDs w =
    (let eventID = (case eventIDs of [] \<Rightarrow> [] | x # _ \<Rightarrow> x) in
     case json_Marshal data of Inl err \<Rightarrow> (w, Inl err)
     | Inr value \<Rightarrow>
       Client_send c ''POST'' [''v1'', ''attempts'', attemptID, ''events''] (PAppendEvent eventID runID lease eventType (Some value)) w)"

definition Client_Complete :: "'w Client \<Rightarrow> Assignment \<Rightarrow> Result \<Rightarrow> 'w \<Rightarrow> 'w \<times> unit result" where
  "Client_Complete c value result w =
    Client_send c ''POST'' [''v1'', ''attempts'', as_AttemptID value, ''complete''] (PComplete value (wire_Result result)) w"

definition Client_Fail :: "'w Client \<Rightarrow> Assignment \<Rightarrow> string \<Rightarrow> 'w \<Rightarrow> 'w \<times> unit result" where
  "Client_Fail c value cause w = Client_send c ''POST'' [''v1'', ''attempts'', as_AttemptID value, ''fail''] (PFail value cause) w"

definition Client_AcknowledgeCancellation :: "'w Client \<Rightarrow> Assignment \<Rightarrow> 'w \<Rightarrow> 'w \<times> unit result" where
  "Client_AcknowledgeCancellation c value w =
    Client_send c ''POST'' [''v1'', ''attempts'', as_AttemptID value, ''cancelled''] (PAssignment value) w"

end
