(* ===== verification/Http_Transparency.thy ===== *)
theory Http_Transparency
  imports Http_Client
begin

text \<open>
  The client of \<open>Http_Client\<close> connected to the handler of \<open>Http_Server\<close>: every method is the method of the
  service behind the handler, in the scope of the client's token.
\<close>

section \<open>A connection\<close>

definition connected :: "(('s, 'b) service_state) Client \<Rightarrow> ('s, 'b) Handler \<Rightarrow> bool" where
  "connected c h \<longleftrightarrow> cl_Do c = (\<lambda>r w. apsnd Inr (ServeHTTP h r w)) \<and> cl_size c = hd_size h \<and> (\<forall>p. hd_size h p \<le> body_limit)"

definition holds_token :: "'w Client \<Rightarrow> ('s, 'b) Handler \<Rightarrow> AccessScope \<Rightarrow> bool" where
  "holds_token c h scope \<longleftrightarrow> (\<exists>Authenticate. hd_auth h = Some Authenticate \<and> Authenticate (cl_Token c) = Some scope) \<and>
     cl_Token c \<noteq> [] \<and> TrimSpace (cl_Token c) = cl_Token c"

text \<open>An identifier that is one clean segment of a path.\<close>

definition plain :: "string \<Rightarrow> bool" where
  "plain seg \<longleftrightarrow> seg \<noteq> [] \<and> seg \<noteq> ''.'' \<and> seg \<noteq> ''..'' \<and> CHR ''/'' \<notin> set seg"

text \<open>The error a caller gets for an error of the service.\<close>

definition error_status :: "error \<Rightarrow> nat" where
  "error_status err = hp_Status (writeError err)"

definition client_error :: "'w Client \<Rightarrow> error \<Rightarrow> error" where
  "client_error c err =
    (let message = failure_message c (PError (err_text err)) in
     case protocol_error (error_status err) message of
       Some e \<Rightarrow> wrap e message | None \<Rightarrow> http_failure c (error_status err) message)"

definition transmit :: "'w Client \<Rightarrow> ('a \<Rightarrow> 'c) \<Rightarrow> 'a result \<Rightarrow> 'c result" where
  "transmit c f value = map_sum (client_error c) f value"

section \<open>The pieces\<close>

lemma mux_routes:
  assumes "plain i" "plain j"
  shows "mux ''GET'' [''health''] = Some (EHealth, [])"
    "mux ''GET'' [''version''] = Some (EVersion, [])"
    "mux ''POST'' [''v1'', ''runs''] = Some (ESubmit, [])"
    "mux ''GET'' [''v1'', ''runs''] = Some (EListRuns, [])"
    "mux ''GET'' [''v1'', ''sessions'', i, ''runs''] = Some (ESessionRuns, [i])"
    "mux ''GET'' [''v1'', ''runs'', i] = Some (EGetRun, [i])"
    "mux ''GET'' [''v1'', ''runs'', i, ''attempts''] = Some (EAttempts, [i])"
    "mux ''GET'' [''v1'', ''runs'', i, ''interactions''] = Some (EInteractions, [i])"
    "mux ''POST'' [''v1'', ''interactions'', i, ''resolve''] = Some (EResolveInteraction, [i])"
    "mux ''GET'' [''v1'', ''runs'', i, ''events''] = Some (EEvents, [i])"
    "mux ''GET'' [''v1'', ''runs'', i, ''artifacts''] = Some (EArtifacts, [i])"
    "mux ''GET'' [''v1'', ''artifacts'', i] = Some (EDownloadArtifact, [i])"
    "mux ''POST'' [''v1'', ''runs'', i, ''cancel''] = Some (ECancelRun, [i])"
    "mux ''GET'' [''v1'', ''nodes''] = Some (ENodes, [])"
    "mux ''POST'' [''v1'', ''nodes'', ''register''] = Some (ERegister, [])"
    "mux ''POST'' [''v1'', ''nodes'', i, ''heartbeat''] = Some (EHeartbeat, [i])"
    "mux ''POST'' [''v1'', ''nodes'', i, ''claim''] = Some (EClaim, [i])"
    "mux ''POST'' [''v1'', ''attempts'', i, ''start''] = Some (EStart, [i])"
    "mux ''POST'' [''v1'', ''attempts'', i, ''renew''] = Some (ERenew, [i])"
    "mux ''POST'' [''v1'', ''attempts'', i, ''events''] = Some (EAppendEvent, [i])"
    "mux ''POST'' [''v1'', ''attempts'', i, ''artifacts''] = Some (EUploadArtifact, [i])"
    "mux ''POST'' [''v1'', ''attempts'', i, ''capability-calls'', ''reserve''] = Some (EReserveCapability, [i])"
    "mux ''POST'' [''v1'', ''attempts'', i, ''capability-calls'', j, ''finish''] = Some (EFinishCapability, [i, j])"
    "mux ''POST'' [''v1'', ''attempts'', i, ''interactions''] = Some (ECreateInteraction, [i])"
    "mux ''GET'' [''v1'', ''attempts'', i, ''interactions'', j] = Some (EGetInteraction, [i, j])"
    "mux ''POST'' [''v1'', ''attempts'', i, ''complete''] = Some (EComplete, [i])"
    "mux ''POST'' [''v1'', ''attempts'', i, ''fail''] = Some (EFail, [i])"
    "mux ''POST'' [''v1'', ''attempts'', i, ''cancelled''] = Some (EAcknowledgeCancellation, [i])"
  using assms by (simp_all add: mux_def clean_path_def routes_def method_matches_def plain_def)

lemma authenticate_host:
  assumes "holds_token c h scope" "sc_Kind scope = AccessHost" "\<not> open_path (url_Path r)"
    "\<not> HasPrefix (url_Path r) ''/v1/attempts/''" "\<not> (hq_Method r = ''POST'' \<and> HasPrefix (url_Path r) ''/v1/nodes/'')"
    "hq_Authorization r = ''Bearer '' @ cl_Token c"
  shows "authenticate (hd_auth h) r = Inr (Some scope)"
  using assms by (auto simp: holds_token_def authenticate_def presented_token_def HasPrefix_def Let_def)

lemma authenticate_node:
  assumes "holds_token c h scope" "sc_Kind scope = AccessNode" "\<not> open_path (url_Path r)"
    "HasPrefix (url_Path r) ''/v1/attempts/'' \<or> (hq_Method r = ''POST'' \<and> HasPrefix (url_Path r) ''/v1/nodes/'')"
    "\<not> (HasPrefix (url_Path r) ''/v1/nodes/'' \<and> parts ! 3 \<noteq> ''register'' \<and> sc_Subject scope \<noteq> [] \<and> parts ! 3 \<noteq> sc_Subject scope)"
    "Split1 CHR ''/'' (url_Path r) = parts" "hq_Authorization r = ''Bearer '' @ cl_Token c"
  shows "authenticate (hd_auth h) r = Inr (Some scope)"
proof -
  have "presented_token r = cl_Token c"
    using assms(1,7) by (simp add: presented_token_def holds_token_def HasPrefix_def)
  with assms show ?thesis unfolding holds_token_def authenticate_def Let_def by auto
qed

text \<open>What a method makes of a response.\<close>

definition client_result :: "'w Client \<Rightarrow> string list \<Rightarrow> (payload \<Rightarrow> 'a option) \<Rightarrow> 'a \<Rightarrow> http_response \<Rightarrow> 'a result" where
  "client_result c path as zero response =
    (if hp_Status response = 204 then
       (if list_ex (\<lambda>seg. HasPrefix seg ''claim'') path then Inl ErrNoAssignment else Inr zero)
     else if hp_Status response < 200 \<or> hp_Status response \<ge> 300 then
       (let message = failure_message c (hp_Body response) in
        case protocol_error (hp_Status response) message of
          Some e \<Rightarrow> Inl (wrap e message) | None \<Rightarrow> Inl (http_failure c (hp_Status response) message))
     else if hp_Body response = PNone then Inr zero
     else case as (hp_Body response) of None \<Rightarrow> Inl (errors_New ''decode Relay response: unexpected value'') | Some v \<Rightarrow> Inr v)"

lemma connected_small: "connected c h \<Longrightarrow> \<not> body_limit < hd_size h p"
  by (simp add: connected_def not_less)

lemma do_connected:
  assumes "connected c h" "mux m path = Some (e, vs)" "m \<noteq> ''HEAD''"
    "authenticate (hd_auth h) (Client_authorize c (new_request m path query input)) = Inr ctx"
  shows "Client_do c m path query input as zero w =
    apsnd (client_result c path as zero) (dispatch e vs h ctx (Client_authorize c (new_request m path query input)) w)"
proof -
  let ?r = "Client_authorize c (new_request m path query input)"
  have r: "hq_Method ?r = m" "hq_Path ?r = path" by (simp_all add: Client_authorize_def new_request_def)
  have "ServeHTTP h ?r w = dispatch e vs h ctx ?r w"
    using assms(2-4) by (simp add: ServeHTTP_def r split_beta apsnd_def map_prod_def)
  moreover have "read_body c response = hp_Body response" for response
    using assms(1) connected_small [OF assms(1)] by (simp add: read_body_def connected_def)
  ultimately show ?thesis
    using assms(1) unfolding Client_do_def client_result_def
    by (auto simp: connected_def Let_def split_beta apsnd_def map_prod_def)
qed

lemma error_status_range: "error_status err \<noteq> 204" "error_status err \<ge> 300"
  by (simp_all add: error_status_def writeError_def writeJSON_def)

lemma result_writeError: "client_result c path as zero (writeError err) = Inl (client_error c err)"
proof -
  have "hp_Body (writeError err) = PError (err_text err)" by (simp add: writeError_def writeJSON_def Let_def)
  then show ?thesis
    using error_status_range [of err]
    by (auto simp: client_result_def client_error_def error_status_def [symmetric] Let_def split: option.split)
qed

lemma result_respond:
  assumes "200 \<le> status" "status < 300" "status \<noteq> 204" "\<And>x. encode x \<noteq> PNone" "\<And>x. as (encode x) = Some (f x)"
  shows "client_result c path as zero (respond status encode value) = transmit c f value"
proof (cases "value")
  case (Inl err)
  then show ?thesis by (simp add: respond_def transmit_def result_writeError)
next
  case (Inr v)
  with assms show ?thesis by (simp add: respond_def transmit_def client_result_def writeJSON_def)
qed

lemma result_respondEmpty:
  assumes "\<not> list_ex (\<lambda>seg. HasPrefix seg ''claim'') path"
  shows "client_result c path as zero (respondEmpty value) = transmit c (\<lambda>_. zero) value"
proof (cases "value")
  case (Inl err)
  then show ?thesis by (simp add: respondEmpty_def transmit_def result_writeError)
next
  case (Inr v)
  with assms show ?thesis by (simp add: respondEmpty_def transmit_def client_result_def no_content_def)
qed

lemmas result_simps = result_respond respondList_def result_respondEmpty out_defs apsnd_compose

lemma request_frame [simp]:
  "hq_Method (Client_authorize c r) = hq_Method r" "hq_Path (Client_authorize c r) = hq_Path r" "hq_Query (Client_authorize c r) = hq_Query r"
  "hq_Body (Client_authorize c r) = hq_Body r" "hq_LeaseToken (Client_authorize c r) = hq_LeaseToken r"
  "hq_ContentType (Client_authorize c r) = hq_ContentType r"
  "hq_Method (new_request m path query body) = m" "hq_Path (new_request m path query body) = path"
  "hq_Query (new_request m path query body) = query" "hq_Body (new_request m path query body) = body"
  by (simp_all add: Client_authorize_def new_request_def)

lemma decoded_connected:
  assumes "connected c h" "as (hq_Body r) = Some v"
  shows "decoded h as r w continue = continue v"
  using connected_small [OF assms(1)] assms(2) by (simp add: decoded_def decode_def)

lemma do_host:
  assumes "connected c h" "holds_token c h scope" "sc_Kind scope = AccessHost" "mux m path = Some (e, vs)"
    "m = ''GET'' \<or> m = ''POST'' \<and> hd (tl path) \<noteq> ''nodes''" "tl path \<noteq> []" "hd path = ''v1''"
    "hd (tl path) \<in> {''runs'', ''sessions'', ''interactions'', ''artifacts'', ''nodes''}" "hd (tl path) = ''nodes'' \<longrightarrow> tl (tl path) = []"
  shows "Client_do c m path query input as zero w =
    apsnd (client_result c path as zero) (dispatch e vs h (Some scope) (Client_authorize c (new_request m path query input)) w)"
proof (rule do_connected [OF assms(1,4)])
  show "m \<noteq> ''HEAD''" using assms(5) by auto
  let ?r = "Client_authorize c (new_request m path query input)"
  obtain x rest where path: "path = ''v1'' # x # rest" using assms(6,7) by (cases path; cases "tl path") auto
  have x: "x \<in> {''runs'', ''sessions'', ''interactions'', ''artifacts'', ''nodes''}" using assms(8) path by simp
  have url: "url_Path ?r = ''/v1/'' @ x @ concat (map ((#) CHR ''/'') rest)" by (simp add: url_Path_def path)
  show "authenticate (hd_auth h) ?r = Inr (Some scope)"
  proof (rule authenticate_host [OF assms(2,3)])
    show "\<not> open_path (url_Path ?r)" "\<not> HasPrefix (url_Path ?r) ''/v1/attempts/''"
      unfolding url using x by (auto simp: open_path_def HasPrefix_def)
    show "\<not> (hq_Method ?r = ''POST'' \<and> HasPrefix (url_Path ?r) ''/v1/nodes/'')"
    proof
      assume "hq_Method ?r = ''POST'' \<and> HasPrefix (url_Path ?r) ''/v1/nodes/''"
      then have "HasPrefix (''/v1/'' @ x @ concat (map ((#) CHR ''/'') rest)) ''/v1/nodes/''" "x \<noteq> ''nodes''"
        using assms(5) path unfolding url by simp_all
      with x show False by (auto simp: HasPrefix_def)
    qed
    show "hq_Authorization ?r = ''Bearer '' @ cl_Token c"
      using assms(2) by (simp add: Client_authorize_def holds_token_def)
  qed
qed

section \<open>The host's methods\<close>

lemmas host_simps = mux_routes do_host dispatch_def decoded_connected as_defs result_simps

lemma host_methods:
  assumes c: "connected c h" "holds_token c h scope" "sc_Kind scope = AccessHost" and i: "plain i"
  shows "Client_Submit c request w = apsnd (transmit c (\<lambda>r. Some (wire_Run r))) (Service_Submit (hd_service h) (Some scope) request w)"
    "Client_GetRun c i w = (w, transmit c (\<lambda>r. Some (wire_Run r)) (Service_GetRun (hd_service h) (Some scope) i w))"
    "Client_Attempts c i w = (w, transmit c (map wire_Attempt) (Service_Attempts (hd_service h) (Some scope) i w))"
    "Client_Interactions c i w = (w, transmit c (\<lambda>x. x) (Service_Interactions (hd_service h) (Some scope) i w))"
    "Client_Events c i w = (w, transmit c (\<lambda>x. x) (Service_Events (hd_service h) (Some scope) i w))"
    "Client_Artifacts c i w = (w, transmit c (map wire_Artifact) (Service_Artifacts (hd_service h) (Some scope) i w))"
    "Client_CancelRun c i cancel w = apsnd (transmit c (\<lambda>r. Some (wire_Run r))) (Service_CancelRun (hd_service h) (Some scope) i cancel w)"
    "Client_ResolveInteraction c i response w =
       apsnd (transmit c Some) (Service_ResolveInteraction (hd_service h) (Some scope) i (Some (raw_json response)) w)"
    "Client_Nodes c w = apsnd (transmit c (\<lambda>x. x)) (Service_Nodes (hd_service h) w)"
  using assms
  by (simp_all add: Client_Submit_def Client_GetRun_def Client_Attempts_def Client_Interactions_def Client_Events_def
      Client_Artifacts_def Client_CancelRun_def Client_ResolveInteraction_def Client_Nodes_def
      http_submit_def http_getRun_def http_attempts_def http_interactions_def http_events_def http_artifacts_def
      http_cancelRun_def http_resolveInteraction_def http_nodes_def host_simps)

lemma host_lists:
  assumes "connected c h" "holds_token c h scope" "sc_Kind scope = AccessHost" "plain i" "- (2 ^ 63) \<le> limit" "limit < 2 ^ 63"
  shows "Client_ListRuns c limit w = (w, transmit c (map wire_Run) (Service_ListRuns (hd_service h) (Some scope) limit w))"
    "Client_SessionRuns c i limit w = (w, transmit c (map wire_Run) (Service_SessionRuns (hd_service h) (Some scope) i limit w))"
  using assms
  by (simp_all add: Client_ListRuns_def Client_SessionRuns_def http_listRuns_def http_sessionRuns_def limit_of_def query_Get_def
      Atoi_Itoa host_simps)

section \<open>The node's methods\<close>

lemma Split1_url:
  assumes "\<forall>seg \<in> set segs. CHR ''/'' \<notin> set seg" "segs \<noteq> []"
  shows "Split1 CHR ''/'' (concat (map ((#) CHR ''/'') segs)) = [] # segs"
proof -
  have "Split1 CHR ''/'' (s @ concat (map ((#) CHR ''/'') segs)) = s # segs" if "CHR ''/'' \<notin> set s" "\<forall>seg \<in> set segs. CHR ''/'' \<notin> set seg" for s segs
    using that
  proof (induction segs arbitrary: s)
    case Nil
    then show ?case by (simp add: Split1_none)
  next
    case (Cons seg segs)
    then show ?case by (simp add: Split1_append)
  qed
  from this [of "[]" segs] assms show ?thesis by simp
qed

lemma do_node:
  assumes c: "connected c h" "holds_token c h scope" "sc_Kind scope = AccessNode" "mux m path = Some (e, vs)"
    and m: "m = ''POST'' \<or> m = ''GET'' \<and> hd (tl path) = ''attempts''"
    and path: "path = ''v1'' # x # i # rest" "x = ''attempts'' \<or> x = ''nodes'' \<and> (i = ''register'' \<or> sc_Subject scope = [] \<or> sc_Subject scope = i)"
      "CHR ''/'' \<notin> set i" "\<forall>seg \<in> set rest. CHR ''/'' \<notin> set seg"
  shows "Client_do c m path query input as zero w =
    apsnd (client_result c path as zero) (dispatch e vs h (Some scope) (Client_authorize c (new_request m path query input)) w)"
proof (rule do_connected [OF c(1,4)])
  show "m \<noteq> ''HEAD''" using m by auto
  let ?r = "Client_authorize c (new_request m path query input)"
  have url: "url_Path ?r = concat (map ((#) CHR ''/'') path)" by (simp add: url_Path_def)
  have parts: "Split1 CHR ''/'' (url_Path ?r) = [] # path" unfolding url
    by (rule Split1_url) (use path in auto)
  have "\<not> open_path (url_Path ?r)" unfolding url using path(2) by (auto simp: path(1) open_path_def HasPrefix_def)
  moreover have "HasPrefix (url_Path ?r) ''/v1/attempts/'' \<or> (hq_Method ?r = ''POST'' \<and> HasPrefix (url_Path ?r) ''/v1/nodes/'')"
    unfolding url using path(2) m by (auto simp: path(1) HasPrefix_def)
  moreover have "\<not> (HasPrefix (url_Path ?r) ''/v1/nodes/'' \<and> i \<noteq> ''register'' \<and> sc_Subject scope \<noteq> [] \<and> i \<noteq> sc_Subject scope)"
    unfolding url using path(2) by (auto simp: path(1) HasPrefix_def)
  moreover have "hq_Authorization ?r = ''Bearer '' @ cl_Token c"
    using c(2) by (simp add: Client_authorize_def holds_token_def)
  ultimately show "authenticate (hd_auth h) ?r = Inr (Some scope)"
    using authenticate_node [OF c(2,3), of ?r "[] # path"] parts path(1) by simp
qed

definition claim_error :: "'w Client \<Rightarrow> error \<Rightarrow> error" where
  "claim_error c err = (if errors_Is err NoAssignment then ErrNoAssignment else client_error c err)"

lemma result_claim:
  "client_result c [''v1'', ''nodes'', i, ''claim''] out_Assignment None
     (case value of Inl err \<Rightarrow> if errors_Is err NoAssignment then no_content else respond 200 PAssignment value
      | Inr _ \<Rightarrow> respond 200 PAssignment value) = map_sum (claim_error c) Some value"
proof (cases "value")
  case (Inl err)
  have "client_result c [''v1'', ''nodes'', i, ''claim''] out_Assignment None no_content = Inl ErrNoAssignment"
    by (simp add: client_result_def no_content_def HasPrefix_def)
  with Inl show ?thesis by (simp add: respond_def result_writeError claim_error_def)
next
  case (Inr v)
  then show ?thesis by (simp add: respond_def client_result_def writeJSON_def out_defs)
qed

lemma node_methods:
  assumes "connected c h" "holds_token c h scope" "sc_Kind scope = AccessNode" "plain i" "sc_Subject scope = [] \<or> sc_Subject scope = i"
    "sc_Subject scope = [] \<or> sc_Subject scope = reg_ID reg"
  shows "Client_RegisterNode c reg w = apsnd (transmit c Some) (Service_RegisterNode (hd_service h) reg w)"
    "Client_Heartbeat c i w = apsnd (transmit c Some) (Service_Heartbeat (hd_service h) i w)"
    "Client_Claim c i w = apsnd (map_sum (claim_error c) Some) (Service_Claim (hd_service h) i w)"
  using assms mux_routes(15-17) [of i i]
  by (auto simp: Client_RegisterNode_def Client_Heartbeat_def Client_Claim_def http_register_def http_heartbeat_def http_claim_def
      do_node dispatch_def decoded_connected as_defs result_simps result_claim plain_def)

lemma no_claim: "\<not> HasPrefix seg ''claim''" if "seg \<in> {''v1'', ''attempts'', ''start'', ''renew'', ''events'', ''interactions'', ''complete'',
    ''fail'', ''cancelled'', ''capability-calls'', ''reserve'', ''finish''}"
  using that by (auto simp: HasPrefix_def)

lemma attempt_methods:
  assumes "connected c h" "holds_token c h scope" "sc_Kind scope = AccessNode" "plain (as_AttemptID a)" "plain (rsv_CallID rsv)"
    "\<not> HasPrefix (as_AttemptID a) ''claim''" "\<not> HasPrefix (rsv_CallID rsv) ''claim''"
  shows "Client_Start c a w = apsnd (transmit c (\<lambda>_. ())) (Service_Start (hd_service h) a w)"
    "Client_Renew c a w = apsnd (transmit c Some) (Service_Renew (hd_service h) a w)"
    "Client_Complete c a result w = apsnd (transmit c (\<lambda>_. ())) (Service_Complete (hd_service h) a (wire_Result result) w)"
    "Client_Fail c a cause w = apsnd (transmit c (\<lambda>_. ())) (Service_Fail (hd_service h) a cause w)"
    "Client_AcknowledgeCancellation c a w = apsnd (transmit c (\<lambda>_. ())) (Service_AcknowledgeCancellation (hd_service h) a w)"
    "Client_CreateInteraction c a ask w = apsnd (transmit c Some) (Service_CreateInteraction (hd_service h) a ask w)"
    "Client_ReserveCapability c a key hash request w = apsnd (transmit c Some) (Service_ReserveCapability (hd_service h) a key hash request w)"
    "Client_FinishCapability c a rsv res cause w = apsnd (transmit c (\<lambda>_. ())) (Service_FinishCapability (hd_service h) a rsv res cause w)"
    "Client_AppendEvent c runID (as_AttemptID a) lease eventType (GoVal j) [eventID] w =
       apsnd (transmit c (\<lambda>_. ())) (Service_AppendEvent (hd_service h) runID (as_AttemptID a) lease eventType (GoVal j) [eventID] w)"
  using assms mux_routes(18-28) [of "as_AttemptID a" "rsv_CallID rsv"]
  by (simp_all add: Client_Start_def Client_Renew_def Client_Complete_def Client_Fail_def Client_AcknowledgeCancellation_def
      Client_CreateInteraction_def Client_ReserveCapability_def Client_FinishCapability_def Client_AppendEvent_def Client_send_def
      http_start_def http_renew_def http_complete_def http_fail_def http_acknowledgeCancellation_def http_createInteraction_def
      http_reserveCapability_def http_finishCapability_def http_appendEvent_def for_attempt_def json_Marshal_def raw_json_def
      do_node dispatch_def decoded_connected as_defs result_simps plain_def no_claim)

section \<open>Errors\<close>

definition sentinels :: "error list" where
  "sentinels = [ErrNotFound, ErrInvalidLease, ErrInvalidTransition, ErrRunCancelled, ErrIncompatibleProtocol]"

lemma sentinel_is:
  "err_is ErrNotFound = [NotFound]" "err_is ErrInvalidLease = [InvalidLease]" "err_is ErrInvalidTransition = [InvalidTransition]"
  "err_is ErrRunCancelled = [RunCancelledErr]" "err_is ErrIncompatibleProtocol = [IncompatibleProtocol]"
  by (simp_all add: controlplane_errors)

lemma sentinel_text:
  "err_text ErrNotFound \<noteq> []" "err_text ErrInvalidLease \<noteq> []" "err_text ErrInvalidTransition \<noteq> []"
  "err_text ErrRunCancelled \<noteq> []" "err_text ErrIncompatibleProtocol \<noteq> []"
  by (simp_all add: controlplane_errors)

text \<open>An error of the service that is a sentinel or wraps one, as \<open>fmt.Errorf("%w: ...")\<close> does.\<close>

definition wraps :: "error \<Rightarrow> error \<Rightarrow> bool" where
  "wraps err E \<longleftrightarrow> err_is err = err_is E \<and> HasPrefix (err_text err) (err_text E)"

lemma error_status_is: "error_status err =
    (if errors_Is err IncompatibleProtocol then 426 else if errors_Is err RunCancelledErr then 410
     else if errors_Is err InvalidTransition then 409 else if errors_Is err InvalidLease then 401
     else if errors_Is err NotFound then 404 else 400)"
  by (simp add: error_status_def writeError_def writeJSON_def)

lemma client_error_sentinel:
  assumes E: "E \<in> set sentinels" and err: "wraps err E"
  shows "client_error c err = wrap E (err_text err)"
proof -
  have pre: "HasPrefix (err_text err) (err_text E)" and same: "err_is err = err_is E" using err by (auto simp: wraps_def)
  have "err_text E \<noteq> []" using E sentinel_text by (auto simp: sentinels_def)
  with pre have "err_text err \<noteq> []" by (auto simp: HasPrefix_iff)
  then have msg: "failure_message c (PError (err_text err)) = err_text err" by (simp add: failure_message_def)
  from E have "protocol_error (error_status err) (err_text err) = Some E"
    unfolding sentinels_def using pre same
    by (auto simp: protocol_error_def error_status_is errors_Is_def sentinel_is)
  then show ?thesis by (simp add: client_error_def msg)
qed

lemma client_error_other:
  assumes "err_is err = []"
  shows "err_is (client_error c err) = []"
  using assms by (simp add: client_error_def error_status_is errors_Is_def protocol_error_def http_failure_def errors_New_def Let_def)

section \<open>Properties\<close>

text \<open>The scenario: a handler in front of the in-memory service, one token, and a client that holds it.\<close>

definition demo_scope :: "AccessKind \<Rightarrow> AccessScope" where
  "demo_scope kind = \<lparr>sc_Kind = kind, sc_Subject = [], sc_TenantID = ''t'', sc_ProjectID = ''p''\<rparr>"
definition demo_handler :: "('s, 'b) Service \<Rightarrow> AccessKind \<Rightarrow> ('s, 'b) Handler" where
  "demo_handler svc kind = \<lparr>hd_service = svc, hd_auth = Some (StaticTokens_Authenticate [\<lparr>tok_Value = ''secret'', tok_Scope = demo_scope kind\<rparr>]),
     hd_version = ''dev'', hd_size = (\<lambda>_. 0), hd_other = (\<lambda>_. writeJSON 404 (PText ''404 page not found''))\<rparr>"
definition demo_client :: "('s, 'b) Handler \<Rightarrow> (('s, 'b) service_state) Client" where
  "demo_client h = \<lparr>cl_Token = ''secret'', cl_Do = (\<lambda>r w. apsnd Inr (ServeHTTP h r w)), cl_size = (\<lambda>_. 0),
     cl_text = (\<lambda>_. []), cl_status = Itoa \<circ> int\<rparr>"

definition demo_http_service :: "(MemoryStorage, MemoryBlobStore) Service" where
  "demo_http_service = NewWithStorage (memoryStorage demo_semver (\<lambda>_ _. [])) 0"

lemma demo_connected: "connected (demo_client (demo_handler svc kind)) (demo_handler svc kind)"
  by (simp add: connected_def demo_client_def demo_handler_def)

lemma TrimSpace_secret: "TrimSpace ''secret'' = ''secret''"
  by (simp add: TrimSpace_def trim_right_def trim_left.simps spaces_def HasPrefix_def)

lemma demo_token: "holds_token (demo_client (demo_handler svc kind)) (demo_handler svc kind) (demo_scope kind)"
  by (simp add: holds_token_def demo_client_def demo_handler_def TrimSpace_secret)

lemma demo_facts: "sc_Kind (demo_scope kind) = kind" "sc_Subject (demo_scope kind) = []" "hd_service (demo_handler svc kind) = svc"
  by (simp_all add: demo_scope_def demo_handler_def)

lemma demo_plain: "plain ''x''" "\<not> HasPrefix ''x'' ''claim''"
  by (simp_all add: plain_def HasPrefix_def)







text \<open>What the tokens allow, for requests that are not open to everyone.\<close>

definition node_route :: "http_request \<Rightarrow> bool" where
  "node_route r \<longleftrightarrow> HasPrefix (url_Path r) ''/v1/attempts/'' \<or> (hq_Method r = ''POST'' \<and> HasPrefix (url_Path r) ''/v1/nodes/'')"

definition refused :: "('s, 'b) Handler \<Rightarrow> http_request \<Rightarrow> nat \<Rightarrow> bool" where
  "refused h r status \<longleftrightarrow> (\<exists>msg. \<forall>w. ServeHTTP h r w = (w, writeJSON status (PError msg)))"

lemma authenticate_refuses:
  assumes "authenticate (hd_auth h) r = Inl (writeJSON status (PError msg))"
  shows "refused h r status"
  using assms by (auto simp: refused_def ServeHTTP_def)



text \<open>
  The check of the node's identity looks at the decoded path, the router at the escaped one: an identifier with an escaped
  slash gets past it, and the node \<open>a\<close> claims work as the node \<open>a/b\<close>.
\<close>

lemma identity_slash:
  assumes "hd_auth h = Some Authenticate" "presented_token r \<noteq> []" "Authenticate (presented_token r) = Some scope" "sc_Kind scope = AccessNode"
    "sc_Subject scope = ''a''" "hq_Method r = ''POST''" "hq_Path r = [''v1'', ''nodes'', ''a/b'', ''claim'']"
  shows "ServeHTTP h r w = http_claim ''a/b'' h (Some scope) r w"
proof -
  have url: "url_Path r = ''/v1/nodes/a/b/claim''" by (simp add: url_Path_def assms(7))
  have "authenticate (hd_auth h) r = Inr (Some scope)"
    using assms by (simp add: authenticate_def Let_def url open_path_def HasPrefix_def)
  moreover have "mux (hq_Method r) (hq_Path r) = Some (EClaim, [''a/b''])"
    by (simp add: assms(6,7) mux_def clean_path_def routes_def method_matches_def)
  ultimately show ?thesis using assms(6) by (simp add: ServeHTTP_def dispatch_def apsnd_def map_prod_def split_beta)
qed

end
