(* ===== verification/Http_Stream.thy ===== *)
theory Http_Stream
  imports Http_Client Service_Properties "HOL-Library.Sublist"
begin

text \<open>
  The event stream: \<open>streamEvents\<close> of \<open>handler.go\<close> and \<open>StreamEvents\<close> of \<open>client.go\<close>. A stream is the list of
  lines it has sent, a \<open>data:\<close> line carrying an event. The handler polls the service; \<open>rounds\<close> are the rounds of its loop, each
  with the states of the service at its reads and what its \<open>select\<close> woke for, so the log may grow in any way
  between any two reads. A connection delivers any prefix of the stream.
\<close>

section \<open>The server's side\<close>

datatype sse_line = SId int | SEvent string | SData Event | SBlank | SComment string

definition frame :: "Event \<Rightarrow> sse_line list" where
  "frame e = [SId (ev_Sequence e), SEvent ''relay.event'', SData e, SBlank]"

definition keepalive :: "sse_line list" where
  "keepalive = [SComment '' keepalive'', SBlank]"

text \<open>\<open>writeEvents\<close>: the lines written and the new value of \<open>after\<close>.\<close>

fun writeEvents :: "int \<Rightarrow> Event list \<Rightarrow> sse_line list \<times> int" where
  "writeEvents after [] = ([], after)"
| "writeEvents after (e # es) =
    (if ev_Sequence e \<le> after then writeEvents after es
     else case writeEvents (ev_Sequence e) es of (lines, after') \<Rightarrow> (frame e @ lines, after'))"

datatype wakeup = ContextEnd | KeepaliveTick | PollTick

definition streamTerminal :: "RunStatus \<Rightarrow> bool" where
  "streamTerminal status \<longleftrightarrow> status = RunSucceeded \<or> status = RunFailed \<or> status = RunCancelled"

fun stream_loop :: "('w \<Rightarrow> Run result) \<Rightarrow> (int \<Rightarrow> 'w \<Rightarrow> Event list result) \<Rightarrow> int \<Rightarrow> ('w \<times> 'w \<times> wakeup) list \<Rightarrow> sse_line list" where
  "stream_loop getRun eventsAfter after [] = []"
| "stream_loop getRun eventsAfter after ((w, w', wake) # rounds) =
    (case getRun w of Inl _ \<Rightarrow> []
     | Inr run \<Rightarrow>
       if streamTerminal (run_Status run) then
         (case eventsAfter after w' of Inl _ \<Rightarrow> [] | Inr values \<Rightarrow> fst (writeEvents after values))
       else (case wake of
           ContextEnd \<Rightarrow> []
         | KeepaliveTick \<Rightarrow> keepalive @ stream_loop getRun eventsAfter after rounds
         | PollTick \<Rightarrow>
           (case eventsAfter after w' of Inl _ \<Rightarrow> []
            | Inr values \<Rightarrow> (case writeEvents after values of (lines, after') \<Rightarrow>
                lines @ stream_loop getRun eventsAfter after' rounds))))"

definition stream_after :: "http_request \<Rightarrow> int option" where
  "stream_after r =
    (let afterValue = query_Get r ''after'';
         afterValue = (if afterValue = [] then hq_LastEventID r else afterValue)
     in if afterValue = [] then Some 0
        else case Atoi afterValue of (value, ok) \<Rightarrow> if \<not> ok \<or> value < 0 then None else Some value)"

text \<open>The first read of the log is in the state \<open>w\<close>.\<close>

definition streamEvents :: "string \<Rightarrow> ('s, 'b) Handler \<Rightarrow> ctx \<Rightarrow> http_request \<Rightarrow> ('s, 'b) service_state
    \<Rightarrow> (('s, 'b) service_state \<times> ('s, 'b) service_state \<times> wakeup) list \<Rightarrow> http_response + sse_line list" where
  "streamEvents runID h ctx r w rounds =
    (case stream_after r of
       None \<Rightarrow> Inl (writeJSON 400 (PError ''after must be a non-negative event sequence''))
     | Some after \<Rightarrow>
       (case Service_EventsAfter (hd_service h) ctx runID after w of Inl err \<Rightarrow> Inl (writeError err)
        | Inr events \<Rightarrow> (case writeEvents after events of (lines, after') \<Rightarrow>
            Inr (lines @ stream_loop (Service_GetRun (hd_service h) ctx runID) (Service_EventsAfter (hd_service h) ctx runID) after' rounds))))"

section \<open>The client's side\<close>

definition ErrEventStreamInterrupted :: error where
  "ErrEventStreamInterrupted = GoError [StreamInterrupted] ''relay HTTP: event stream ended before a terminal event''"

definition line_limit :: nat where "line_limit = 2 * 1024 * 1024"

definition terminal_event :: "Event \<Rightarrow> bool" where
  "terminal_event e \<longleftrightarrow> ev_Type e = ''run.succeeded'' \<or> ev_Type e = ''run.failed'' \<or> ev_Type e = ''run.cancelled''"

text \<open>
  The scan of the response: the events handed to \<open>handle\<close>, the last sequence number seen, and the result. \<open>width\<close> is
  the length of an event's \<open>data:\<close> line; \<open>end'\<close> is the error with which reading ends, if any.
\<close>

fun scan_stream :: "(Event \<Rightarrow> nat) \<Rightarrow> (Event \<Rightarrow> error option) \<Rightarrow> error option \<Rightarrow> int \<Rightarrow> Event list \<Rightarrow> bool \<Rightarrow> sse_line list
    \<Rightarrow> Event list \<times> int \<times> unit result" where
  "scan_stream width handle end' after data terminal [] =
    ([], after, case end' of Some e \<Rightarrow> Inl e | None \<Rightarrow> if terminal then Inr () else Inl ErrEventStreamInterrupted)"
| "scan_stream width handle end' after data terminal (line # lines) =
    (case line of
       SBlank \<Rightarrow>
         (case data of [] \<Rightarrow> scan_stream width handle end' after [] terminal lines
          | [event] \<Rightarrow>
            if ev_Sequence event > after then
              (case handle event of Some e \<Rightarrow> ([event], ev_Sequence event, Inl e)
               | None \<Rightarrow> (case scan_stream width handle end' (ev_Sequence event) [] (terminal \<or> terminal_event event) lines of
                   (handled, after', r) \<Rightarrow> (event # handled, after', r)))
            else scan_stream width handle end' after [] terminal lines
          | _ \<Rightarrow> ([], after, Inl (errors_New ''decode Relay event stream: invalid character after top-level value'')))
     | SData event \<Rightarrow>
         if width event \<ge> line_limit then ([], after, Inl (errors_New ''bufio.Scanner: token too long''))
         else scan_stream width handle end' after (data @ [event]) terminal lines
     | _ \<Rightarrow> scan_stream width handle end' after data terminal lines)"

text \<open>What the transport makes of the request: no response, a response that is no stream, or a stream.\<close>

datatype stream_reply = NoReply error | Refused http_response | Streaming "sse_line list" "error option"

definition stream_request :: "'w Client \<Rightarrow> string \<Rightarrow> int \<Rightarrow> http_request" where
  "stream_request c runID after =
    (Client_authorize c (new_request ''GET'' [''v1'', ''runs'', runID, ''events'', ''stream''] [(''after'', Itoa after)] PNone))
      \<lparr>hq_LastEventID := Itoa after\<rparr>"

definition Client_StreamEvents :: "'w Client \<Rightarrow> (Event \<Rightarrow> nat) \<Rightarrow> (Event \<Rightarrow> error option) \<Rightarrow> (http_request \<Rightarrow> stream_reply)
    \<Rightarrow> string \<Rightarrow> int \<Rightarrow> Event list \<times> int \<times> unit result" where
  "Client_StreamEvents c width handle stream runID after =
    (case stream (stream_request c runID after) of
          NoReply e \<Rightarrow> ([], after, Inl e)
        | Refused response \<Rightarrow>
            ([], after, Inl (if hp_Status response = 404 then wrap ErrNotFound (TrimSpace (cl_text c (read_body c response)))
               else http_failure c (hp_Status response) (TrimSpace (cl_text c (read_body c response)))))
        | Streaming lines end' \<Rightarrow> scan_stream width handle end' after [] False lines)"

section \<open>Slices of a log\<close>

text \<open>\<open>evs\<close> are the events after \<open>a\<close> up to \<open>b\<close> in the log \<open>L\<close>: none is missing, repeated or out of order.\<close>

definition log_slice :: "Event list \<Rightarrow> int \<Rightarrow> int \<Rightarrow> Event list \<Rightarrow> bool" where
  "log_slice L a b evs \<longleftrightarrow> a \<le> b \<and> evs = take (nat b - nat a) (drop (nat a) L) \<and> length evs = nat b - nat a"

definition consecutive :: "int \<Rightarrow> Event list \<Rightarrow> bool" where
  "consecutive a evs \<longleftrightarrow> (\<forall>i < length evs. ev_Sequence (evs ! i) = a + int i + 1)"

lemma log_slice_self: "log_slice L a a []"
  by (simp add: log_slice_def)

lemma log_slice_append:
  assumes "log_slice L a b xs" "log_slice L b c ys" "0 \<le> a"
  shows "log_slice L a c (xs @ ys)"
proof -
  have le: "nat a \<le> nat b" "nat b \<le> nat c" using assms by (simp_all add: log_slice_def nat_mono)
  then have sizes: "nat c - nat a = (nat b - nat a) + (nat c - nat b)" "(nat b - nat a) + nat a = nat b" by simp_all
  have xs: "xs = take (nat b - nat a) (drop (nat a) L)" "length xs = nat b - nat a"
    and ys: "ys = take (nat c - nat b) (drop (nat b) L)" "length ys = nat c - nat b"
    using assms(1,2) unfolding log_slice_def by blast+
  have "take (nat c - nat a) (drop (nat a) L) =
      take (nat b - nat a) (drop (nat a) L) @ take (nat c - nat b) (drop (nat b - nat a) (drop (nat a) L))"
    unfolding sizes(1) by (rule take_add)
  then have "take (nat c - nat a) (drop (nat a) L) = xs @ ys"
    by (simp only: drop_drop sizes(2) xs(1) ys(1))
  moreover have "a \<le> c" using assms(1,2) unfolding log_slice_def by linarith
  moreover have "length (xs @ ys) = nat c - nat a" using xs(2) ys(2) sizes(1) by simp
  ultimately show ?thesis by (simp only: log_slice_def)
qed

lemma log_slice_prefix: "log_slice L a b xs \<Longrightarrow> prefix L L' \<Longrightarrow> log_slice L' a b xs"
proof -
  assume s: "log_slice L a b xs" and "prefix L L'"
  then obtain z where "L' = L @ z" by (auto simp: prefix_def)
  moreover have "nat b - nat a - (length L - nat a) = 0" using s by (auto simp: log_slice_def min_def split: if_splits)
  ultimately show "log_slice L' a b xs" using s by (simp add: log_slice_def)
qed

lemma log_slice_take:
  assumes "log_slice L a b xs" "k \<le> length xs" "0 \<le> a"
  shows "log_slice L a (a + int k) (take k xs)"
proof -
  have "nat (a + int k) - nat a = k" using assms(3) by simp
  with assms show ?thesis by (auto simp: log_slice_def)
qed

lemma log_slice_consecutive:
  assumes "log_slice L a b xs" "consecutive 0 L" "0 \<le> a"
  shows "consecutive a xs"
  unfolding consecutive_def
proof (intro allI impI)
  fix i assume i: "i < length xs"
  have xs: "xs = take (nat b - nat a) (drop (nat a) L)" using assms(1) by (simp add: log_slice_def)
  with i have "i < length L - nat a" by simp
  then have bound: "nat a + i < length L" by linarith
  with i have "xs ! i = L ! (nat a + i)" unfolding xs by simp
  note this bound
  then show "ev_Sequence (xs ! i) = a + int i + 1" using assms(2,3) by (simp add: consecutive_def)
qed

lemma consecutive_Cons: "consecutive a (e # evs) \<longleftrightarrow> ev_Sequence e = a + 1 \<and> consecutive (a + 1) evs"
  unfolding consecutive_def by (auto simp: nth_Cons' less_Suc_eq_0_disj)

lemma writeEvents_consecutive:
  "consecutive a evs \<Longrightarrow> writeEvents a evs = (concat (map frame evs), a + int (length evs))"
  by (induction evs arbitrary: a) (auto simp: consecutive_Cons)

section \<open>Lines as blocks\<close>

datatype block = Frame Event | Keep

fun lines_of :: "block list \<Rightarrow> sse_line list" where
  "lines_of [] = []"
| "lines_of (Frame e # bs) = frame e @ lines_of bs"
| "lines_of (Keep # bs) = keepalive @ lines_of bs"

fun events_of :: "block list \<Rightarrow> Event list" where
  "events_of [] = []"
| "events_of (Frame e # bs) = e # events_of bs"
| "events_of (Keep # bs) = events_of bs"

lemma lines_of_append [simp]: "lines_of (bs @ cs) = lines_of bs @ lines_of cs"
  by (induction bs rule: lines_of.induct) auto

lemma events_of_append [simp]: "events_of (bs @ cs) = events_of bs @ events_of cs"
  by (induction bs rule: events_of.induct) auto

lemma frames_blocks: "lines_of (map Frame evs) = concat (map frame evs)" "events_of (map Frame evs) = evs"
  by (induction evs) auto

text \<open>What the client makes of any part of a stream: it handles the events in order, up to where the part ends or it stops.\<close>

lemma scan_blocks:
  assumes "consecutive a (events_of bs)"
  shows "\<exists>k r. k \<le> length (events_of bs) \<and>
    scan_stream width handle end' a [] t (take n (lines_of bs)) = (take k (events_of bs), a + int k, r) \<and>
    (length (lines_of bs) \<le> n \<and> (\<forall>e \<in> set (events_of bs). width e < line_limit \<and> handle e = None) \<longrightarrow> k = length (events_of bs))"
  using assms
proof (induction bs arbitrary: a n t)
  case Nil
  then show ?case by simp
next
  case (Cons b bs)
  show ?case
  proof (cases b)
    case Keep
    with Cons.prems have "consecutive a (events_of bs)" by simp
    note IH = Cons.IH [OF this]
    consider "n = 0" | "n = 1" | m where "n = Suc (Suc m)" by (metis One_nat_def not0_implies_Suc)
    then show ?thesis
    proof cases
      case 3
      with IH [of t m] show ?thesis by (simp add: Keep keepalive_def)
    qed (simp_all add: Keep keepalive_def)
  next
    case (Frame e)
    with Cons.prems have e: "ev_Sequence e = a + 1" and "consecutive (a + 1) (events_of bs)" by (simp_all add: consecutive_Cons)
    note IH = Cons.IH [OF this(2)]
    consider "n = 0" | "n = 1" | "n = 2" | "n = 3" | m where "n = Suc (Suc (Suc (Suc m)))"
      by (metis One_nat_def Suc_1 not0_implies_Suc numeral_3_eq_3)
    then show ?thesis
    proof cases
      case (5 m)
      show ?thesis
      proof (cases "width e \<ge> line_limit \<or> handle e \<noteq> None")
        case True
        then show ?thesis
          by (cases "width e \<ge> line_limit") (auto simp: 5 Frame frame_def e intro: exI [of _ 0] exI [of _ 1])
      next
        case False
        from IH [of "t \<or> terminal_event e" m] obtain k r where k: "k \<le> length (events_of bs)"
          "scan_stream width handle end' (a + 1) [] (t \<or> terminal_event e) (take m (lines_of bs)) = (take k (events_of bs), a + 1 + int k, r)"
          "length (lines_of bs) \<le> m \<and> (\<forall>e \<in> set (events_of bs). width e < line_limit \<and> handle e = None) \<longrightarrow> k = length (events_of bs)"
          by blast
        with False show ?thesis by (auto simp: 5 Frame frame_def e intro!: exI [of _ "Suc k"])
      qed
    qed (auto simp: Frame frame_def numeral_2_eq_2 numeral_3_eq_3)
  qed
qed

section \<open>Reading a growing log\<close>

text \<open>The lines of one connection whose first read is in the state \<open>w\<close>.\<close>

definition connection_lines :: "('w \<Rightarrow> Run result) \<Rightarrow> (int \<Rightarrow> 'w \<Rightarrow> Event list result) \<Rightarrow> int \<Rightarrow> 'w
    \<Rightarrow> ('w \<times> 'w \<times> wakeup) list \<Rightarrow> sse_line list" where
  "connection_lines getRun eventsAfter after w rounds =
    (case eventsAfter after w of Inl _ \<Rightarrow> []
     | Inr vs \<Rightarrow> (case writeEvents after vs of (lines, after') \<Rightarrow> lines @ stream_loop getRun eventsAfter after' rounds))"

text \<open>The contract of the log behind a stream: numbered densely from 1, and only ever extended.\<close>

locale event_feed =
  fixes eventsAfter :: "int \<Rightarrow> 'w \<Rightarrow> Event list result" and log :: "'w \<Rightarrow> Event list" and valid :: "'w \<Rightarrow> bool" and later :: "'w \<Rightarrow> 'w \<Rightarrow> bool"
  assumes read: "valid w \<Longrightarrow> 0 \<le> after \<Longrightarrow> eventsAfter after w = Inr values \<Longrightarrow> values = drop (nat after) (log w)"
    and dense: "valid w \<Longrightarrow> consecutive 0 (log w)"
    and grows: "valid w \<Longrightarrow> later w w' \<Longrightarrow> prefix (log w) (log w')"
begin

lemma written:
  assumes "valid w" "later w final" "0 \<le> after" "eventsAfter after w = Inr values"
  shows "\<exists>after'. writeEvents after values = (lines_of (map Frame values), after') \<and> log_slice (log final) after after' values \<and> 0 \<le> after'"
proof -
  have v: "values = drop (nat after) (log w)" using read assms(1,3,4) by blast
  have "log_slice (log w) after (after + int (length values)) values"
  proof (cases "nat after \<le> length (log w)")
    case True
    have "nat (after + int (length values)) - nat after = length values" using assms(3) by simp
    with v assms(3) show ?thesis by (simp add: log_slice_def)
  next
    case False
    with v have "values = []" by simp
    then show ?thesis by (simp add: log_slice_self)
  qed
  moreover from this have "consecutive after values" using log_slice_consecutive dense assms(1,3) by blast
  moreover have "prefix (log w) (log final)" using grows assms(1,2) by blast
  ultimately show ?thesis
    using log_slice_prefix [of "log w"] assms(3) by (simp add: writeEvents_consecutive frames_blocks)
qed

lemma loop_blocks:
  assumes "\<forall>(w, w', wake) \<in> set rounds. valid w' \<and> later w' final" "0 \<le> after"
  shows "\<exists>bs b. stream_loop getRun eventsAfter after rounds = lines_of bs \<and> log_slice (log final) after b (events_of bs)"
  using assms
proof (induction rounds arbitrary: after)
  case Nil
  show ?case using log_slice_self [of "log final" after] by (intro exI [of _ "[]"]) auto
next
  case (Cons round rounds)
  obtain w w' wake where round: "round = (w, w', wake)" by (metis prod.exhaust)
  have w': "valid w'" "later w' final" using Cons.prems(1) round by auto
  have none: "\<exists>bs b. [] = lines_of bs \<and> log_slice (log final) after b (events_of bs)"
    using log_slice_self [of "log final" after] by (intro exI [of _ "[]"]) auto
  have rest: "\<exists>bs b. stream_loop getRun eventsAfter a rounds = lines_of bs \<and> log_slice (log final) a b (events_of bs)" if "0 \<le> a" for a
    using Cons.IH [OF _ that] Cons.prems(1) by simp
  show ?case
  proof (cases "getRun w")
    case (Inl e)
    with none show ?thesis by (simp add: round)
  next
    case (Inr run)
    show ?thesis
    proof (cases "eventsAfter after w'")
      case (Inl e)
      from rest [OF Cons.prems(2)] obtain bs b where "stream_loop getRun eventsAfter after rounds = lines_of bs"
        "log_slice (log final) after b (events_of bs)" by blast
      then have "\<exists>cs b. keepalive @ stream_loop getRun eventsAfter after rounds = lines_of cs \<and> log_slice (log final) after b (events_of cs)"
        by (intro exI [of _ "Keep # bs"]) auto
      with none show ?thesis by (cases wake) (simp_all add: round Inr Inl)
    next
      case vs: (Inr vs)
      from written [OF w' Cons.prems(2) vs] obtain after' where a': "writeEvents after vs = (lines_of (map Frame vs), after')"
        "log_slice (log final) after after' vs" "0 \<le> after'" by blast
      from rest [OF Cons.prems(2)] obtain bs b where bs: "stream_loop getRun eventsAfter after rounds = lines_of bs"
        "log_slice (log final) after b (events_of bs)" by blast
      from rest [OF a'(3)] obtain cs c where cs: "stream_loop getRun eventsAfter after' rounds = lines_of cs"
        "log_slice (log final) after' c (events_of cs)" by blast
      have keep: "\<exists>cs b. keepalive @ stream_loop getRun eventsAfter after rounds = lines_of cs \<and> log_slice (log final) after b (events_of cs)"
        using bs by (intro exI [of _ "Keep # bs"]) auto
      have poll: "\<exists>ds b. lines_of (map Frame vs) @ stream_loop getRun eventsAfter after' rounds = lines_of ds \<and>
          log_slice (log final) after b (events_of ds)"
        using cs log_slice_append [OF a'(2) cs(2) Cons.prems(2)]
        by (intro exI [of _ "map Frame vs @ cs"]) (auto simp: frames_blocks)
      have fin: "\<exists>ds b. lines_of (map Frame vs) = lines_of ds \<and> log_slice (log final) after b (events_of ds)"
        using a'(2) by (intro exI [of _ "map Frame vs"]) (auto simp: frames_blocks)
      from none keep poll fin show ?thesis by (cases wake) (simp_all add: round Inr vs a'(1))
    qed
  qed
qed

lemma connection_slice:
  assumes "valid w" "later w final" "\<forall>(w, w', wake) \<in> set rounds. valid w' \<and> later w' final" "0 \<le> after" "valid final"
    "scan_stream width handle end' after [] t (take n (connection_lines getRun eventsAfter after w rounds)) = (handled, after', r)"
  shows "log_slice (log final) after after' handled \<and>
    (length (connection_lines getRun eventsAfter after w rounds) \<le> n \<and> (\<forall>e. width e < line_limit \<and> handle e = None) \<and>
       eventsAfter after w = Inr vs \<longrightarrow> int (length (log w)) \<le> after')"
proof -
  have "\<exists>bs b. connection_lines getRun eventsAfter after w rounds = lines_of bs \<and> log_slice (log final) after b (events_of bs) \<and>
      (eventsAfter after w = Inr vs \<longrightarrow> length vs \<le> length (events_of bs))"
  proof (cases "eventsAfter after w")
    case (Inl e)
    then show ?thesis
      using log_slice_self [of "log final" after] by (intro exI [of _ "[]"]) (auto simp: connection_lines_def)
  next
    case (Inr us)
    from written [OF assms(1,2,4) Inr] obtain a' where a': "writeEvents after us = (lines_of (map Frame us), a')"
      "log_slice (log final) after a' us" "0 \<le> a'" by blast
    from loop_blocks [OF assms(3) a'(3), of getRun] obtain bs b where bs: "stream_loop getRun eventsAfter a' rounds = lines_of bs"
      "log_slice (log final) a' b (events_of bs)" by blast
    with log_slice_append [OF a'(2) bs(2) assms(4)] show ?thesis
      by (intro exI [of _ "map Frame us @ bs"]) (auto simp: connection_lines_def Inr a'(1) frames_blocks)
  qed
  then obtain bs b where bs: "connection_lines getRun eventsAfter after w rounds = lines_of bs" "log_slice (log final) after b (events_of bs)"
      "eventsAfter after w = Inr vs \<longrightarrow> length vs \<le> length (events_of bs)" by blast
  have "consecutive after (events_of bs)" by (rule log_slice_consecutive [OF bs(2) dense [OF assms(5)] assms(4)])
  from scan_blocks [OF this, of width handle end' t n] assms(6) bs(1)
  obtain k where k: "k \<le> length (events_of bs)" "handled = take k (events_of bs)" "after' = after + int k"
      "length (lines_of bs) \<le> n \<and> (\<forall>e \<in> set (events_of bs). width e < line_limit \<and> handle e = None) \<longrightarrow> k = length (events_of bs)" by auto
  have "int (length (log w)) \<le> after'" if "k = length (events_of bs)" "eventsAfter after w = Inr vs"
    using that bs(3) k(3) read [OF assms(1,4) that(2)] assms(4) by auto
  with k log_slice_take [OF bs(2) k(1) assms(4)] bs(1) show ?thesis by simp
qed

end

section \<open>Following a run\<close>

text \<open>
  \<open>StreamEvents\<close> over one connection to \<open>streamEvents\<close>: \<open>lines\<close> many lines arrive before the connection ends with \<open>broken\<close>.
\<close>

record ('s, 'b) connection =
  cn_first :: "('s, 'b) service_state"
  cn_rounds :: "(('s, 'b) service_state \<times> ('s, 'b) service_state \<times> wakeup) list"
  cn_lines :: nat
  cn_broken :: "error option"

definition stream_reply_of :: "('s, 'b) Handler \<Rightarrow> string \<Rightarrow> ('s, 'b) connection \<Rightarrow> http_request \<Rightarrow> stream_reply" where
  "stream_reply_of h runID cn r =
    (case authenticate (hd_auth h) r of Inl response \<Rightarrow> Refused response
     | Inr ctx \<Rightarrow> (case streamEvents runID h ctx r (cn_first cn) (cn_rounds cn) of Inl response \<Rightarrow> Refused response
         | Inr lines \<Rightarrow> Streaming (take (cn_lines cn) lines) (cn_broken cn)))"

fun follow :: "'w Client \<Rightarrow> ('s, 'b) Handler \<Rightarrow> (Event \<Rightarrow> nat) \<Rightarrow> (Event \<Rightarrow> error option) \<Rightarrow> string \<Rightarrow> int
    \<Rightarrow> ('s, 'b) connection list \<Rightarrow> Event list \<times> int" where
  "follow c h width handle runID after [] = ([], after)"
| "follow c h width handle runID after (cn # cns) =
    (case Client_StreamEvents c width handle (stream_reply_of h runID cn) runID after of
       (handled, after', _) \<Rightarrow> (case follow c h width handle runID after' cns of (rest', last') \<Rightarrow> (handled @ rest', last')))"

interpretation memory_feed: event_feed "Service_EventsAfter (memoryService sv it ttl) ctx rid"
  "\<lambda>w. ms_events (ss_storage w) rid" "\<lambda>w. reachable sv (ss_storage w)" "\<lambda>w w'. leads_to sv (ss_storage w) (ss_storage w')"
  for sv it ttl ctx rid
proof
  fix w :: "(MemoryStorage, MemoryBlobStore) service_state" and after vs
  assume w: "reachable sv (ss_storage w)" and "0 \<le> after" and r: "Service_EventsAfter (memoryService sv it ttl) ctx rid after w = Inr vs"
  let ?L = "ms_events (ss_storage w) rid"
  have seq: "ev_Sequence (?L ! i) = int i + 1" if "i < length ?L" for i using events_inv_nth(1) [OF reachable_inv [OF w] that] .
  from r have "EventsAfter rid after (ss_storage w) = Inr vs"
    by (simp add: Service_EventsAfter_def guarded_def memoryService_def NewWithStorage_def NewWithOptions_def memoryStorage_def split: sum.splits)
  then have vs: "vs = filter (\<lambda>e. after < ev_Sequence e) ?L"
    using events_index_filter [of ?L 0 after] seq by (auto simp: EventsAfter_def split: option.splits)
  show "vs = drop (nat after) ?L"
  proof -
    have "filter (\<lambda>e. after < ev_Sequence e) (take (nat after) ?L) = []"
      using seq by (auto simp: filter_empty_conv in_set_conv_nth)
    moreover have "filter (\<lambda>e. after < ev_Sequence e) (drop (nat after) ?L) = drop (nat after) ?L"
      using seq \<open>0 \<le> after\<close> by (auto simp: filter_id_conv in_set_conv_nth)
    ultimately show ?thesis unfolding vs by (metis append_Nil append_take_drop_id filter_append)
  qed
next
  fix w :: "(MemoryStorage, MemoryBlobStore) service_state"
  assume w: "reachable sv (ss_storage w)"
  show "consecutive 0 (ms_events (ss_storage w) rid)"
    using events_inv_nth(1) [OF reachable_inv [OF w]] by (simp add: consecutive_def)
next
  fix w w' :: "(MemoryStorage, MemoryBlobStore) service_state"
  assume "reachable sv (ss_storage w)" "leads_to sv (ss_storage w) (ss_storage w')"
  then show "prefix (ms_events (ss_storage w) rid) (ms_events (ss_storage w') rid)"
    using leads_to_events [of sv "ss_storage w" "ss_storage w'" rid] reachable_inv by (auto simp: prefix_def)
qed

text \<open>The states that a connection reads are states the storage passed through on its way to \<open>final\<close>.\<close>

definition passes :: "('v, 'c) semver \<Rightarrow> MemoryStorage \<Rightarrow> (MemoryStorage, 'b) service_state \<Rightarrow> bool" where
  "passes sv final w \<longleftrightarrow> reachable sv (ss_storage w) \<and> leads_to sv (ss_storage w) final"

definition connection_passes :: "('v, 'c) semver \<Rightarrow> MemoryStorage \<Rightarrow> (MemoryStorage, 'b) connection \<Rightarrow> bool" where
  "connection_passes sv final cn \<longleftrightarrow> passes sv final (cn_first cn) \<and> (\<forall>(w, w', wake) \<in> set (cn_rounds cn). passes sv final w \<and> passes sv final w')"

lemma stream_after_client: "0 \<le> after \<Longrightarrow> after < 2 ^ 63 \<Longrightarrow> query_Get r ''after'' = Itoa after \<Longrightarrow> stream_after r = Some after"
  using Atoi_Itoa [of after] nat_text_digits [of "nat after"] by (simp add: stream_after_def Let_def Itoa_def)

text \<open>The connection is authorised, the run is visible, and everything the server sends arrives.\<close>

definition uncut :: "'w Client \<Rightarrow> ('s, 'b) Handler \<Rightarrow> string \<Rightarrow> int \<Rightarrow> ('s, 'b) connection \<Rightarrow> bool" where
  "uncut c h runID after cn \<longleftrightarrow> (\<exists>ctx lines. authenticate (hd_auth h) (stream_request c runID after) = Inr ctx \<and>
     streamEvents runID h ctx (stream_request c runID after) (cn_first cn) (cn_rounds cn) = Inr lines \<and> length lines \<le> cn_lines cn)"

lemma stream_slice:
  assumes svc: "hd_service h = memoryService sv it ttl" and cn: "connection_passes sv final cn" and final: "reachable sv final"
    and after: "0 \<le> after" "after < 2 ^ 63"
    and stream: "Client_StreamEvents c width handle (stream_reply_of h rid cn) rid after = (handled, after', r)"
  shows "log_slice (ms_events final rid) after after' handled \<and>
    (uncut c h rid after cn \<and> (\<forall>e. width e < line_limit \<and> handle e = None) \<longrightarrow>
       int (length (ms_events (ss_storage (cn_first cn)) rid)) \<le> after')"
proof -
  define q where "q = stream_request c rid after"
  have sa: "stream_after q = Some after"
    by (rule stream_after_client [OF after]) (simp add: q_def stream_request_def query_Get_def Client_authorize_def new_request_def)
  show ?thesis
  proof (cases "stream_reply_of h rid cn q")
    case (Streaming lines end')
    then obtain ctx where ctx: "authenticate (hd_auth h) q = Inr ctx" by (auto simp: stream_reply_of_def split: sum.splits)
    let ?get = "Service_GetRun (memoryService sv it ttl) ctx rid" and ?read = "Service_EventsAfter (memoryService sv it ttl) ctx rid"
    let ?lines = "connection_lines ?get ?read after (cn_first cn) (cn_rounds cn)"
    obtain vs where vs: "?read after (cn_first cn) = Inr vs"
      and server: "streamEvents rid h ctx q (cn_first cn) (cn_rounds cn) = Inr ?lines"
      using Streaming ctx sa unfolding stream_reply_of_def streamEvents_def connection_lines_def svc
      by (auto split: sum.splits prod.splits)
    have lines: "lines = take (cn_lines cn) ?lines" using Streaming ctx server by (simp add: stream_reply_of_def)
    have scan: "scan_stream width handle end' after [] False (take (cn_lines cn) ?lines) = (handled, after', r)"
      using stream Streaming lines by (simp add: Client_StreamEvents_def q_def)
    let ?final = "(cn_first cn)\<lparr>ss_storage := final\<rparr>"
    have states: "reachable sv (ss_storage (cn_first cn))" "leads_to sv (ss_storage (cn_first cn)) (ss_storage ?final)"
      "\<forall>(w, w', wake) \<in> set (cn_rounds cn). reachable sv (ss_storage w') \<and> leads_to sv (ss_storage w') (ss_storage ?final)"
      using cn by (auto simp: connection_passes_def passes_def)
    have "uncut c h rid after cn \<Longrightarrow> length ?lines \<le> cn_lines cn" using ctx server by (auto simp: uncut_def q_def)
    with memory_feed.connection_slice [OF states after(1) _ scan, of vs] vs final show ?thesis by simp
  qed (use stream log_slice_self in \<open>auto simp: Client_StreamEvents_def q_def stream_reply_of_def uncut_def split: sum.splits\<close>)
qed

section \<open>Properties\<close>

text \<open>
  C33: A client that follows a run over any number of connections, each opened after the last event it has seen and cut anywhere,
  hands its callback every event of the run's log once, in order: what it has handled in the end is exactly
  the part of the log between the number it started from and the number it has reached, whatever the server's polling saw
  when and whatever the other users of the service did meanwhile.
\<close>
theorem stream_exactly_once:
  assumes "hd_service h = memoryService sv it ttl" "\<forall>cn \<in> set cns. connection_passes sv final cn" "reachable sv final"
    "0 \<le> after" "after < 2 ^ 63" "int (length (ms_events final rid)) < 2 ^ 63"
    "follow c h width handle rid after cns = (handled, last')"
  shows "after \<le> last' \<and> handled = take (nat last' - nat after) (drop (nat after) (ms_events final rid)) \<and>
    length handled = nat last' - nat after"
proof -
  have "log_slice (ms_events final rid) after last' handled"
    using assms(2,4,5,7)
  proof (induction cns arbitrary: after handled)
    case Nil
    then show ?case by (simp add: log_slice_self)
  next
    case (Cons cn cns)
    obtain h1 a1 r1 where first: "Client_StreamEvents c width handle (stream_reply_of h rid cn) rid after = (h1, a1, r1)" by (metis prod.exhaust)
    obtain h2 where rest: "follow c h width handle rid a1 cns = (h2, last')" "handled = h1 @ h2"
      using Cons.prems(4) first by (auto split: prod.splits)
    have s1: "log_slice (ms_events final rid) after a1 h1"
      using stream_slice [OF assms(1) _ assms(3) Cons.prems(2,3) first] Cons.prems(1) by simp
    then have a1: "0 \<le> a1" "a1 < 2 ^ 63"
      using Cons.prems(2,3) assms(6) by (auto simp: log_slice_def min_def split: if_splits)
    have "log_slice (ms_events final rid) a1 last' h2" using Cons.IH [OF _ a1 rest(1)] Cons.prems(1) by simp
    with log_slice_append [OF s1 _ Cons.prems(2)] rest(2) show ?case by simp
  qed
  then show ?thesis unfolding log_slice_def by blast
qed

text \<open>The scenario: a server without authentication, and a client that connects when the run has been submitted.\<close>

definition demo_stream_handler :: "(MemoryStorage, MemoryBlobStore) Handler" where
  "demo_stream_handler = \<lparr>hd_service = memoryService demo_semver (\<lambda>_ _. []) 100, hd_auth = None, hd_version = ''dev'', hd_size = (\<lambda>_. 0),
     hd_other = (\<lambda>_. writeJSON 404 (PText ''404 page not found''))\<rparr>"
definition demo_stream_client :: "unit Client" where
  "demo_stream_client = \<lparr>cl_Token = [], cl_Do = (\<lambda>_ w. (w, Inl go_panic)), cl_size = (\<lambda>_. 0), cl_text = (\<lambda>_. []), cl_status = (\<lambda>_. [])\<rparr>"
definition demo_connection :: "nat \<Rightarrow> (MemoryStorage, MemoryBlobStore) connection" where
  "demo_connection n = \<lparr>cn_first = demo_service_state at_submitted, cn_rounds = [], cn_lines = n, cn_broken = None\<rparr>"

lemma demo_connection: "connection_passes demo_semver at_submitted (demo_connection n)"
  by (simp add: connection_passes_def demo_connection_def passes_def demo_reachable leads_to.here)

lemma demo_log: "length (ms_events at_submitted (demo_id ''run'' 0)) \<le> 2"
  using at_registered by (simp add: at_submitted_def Submit_new at_submitted_next submitted_def demo_state_def storage_simps)

lemma demo_stream: "hd_service demo_stream_handler = memoryService demo_semver (\<lambda>_ _. []) 100" "authenticate (hd_auth demo_stream_handler) q = Inr None"
  by (simp_all add: demo_stream_handler_def authenticate_def)

theorem stream_exactly_once_witness:
  "\<exists>handled last'. follow demo_stream_client demo_stream_handler (\<lambda>_. 0) (\<lambda>_. None) (demo_id ''run'' 0) 0 [demo_connection 5, demo_connection 50] = (handled, last') \<and>
     0 \<le> last' \<and> handled = take (nat last') (ms_events at_submitted (demo_id ''run'' 0))"
proof -
  obtain handled last' where f: "follow demo_stream_client demo_stream_handler (\<lambda>_. 0) (\<lambda>_. None) (demo_id ''run'' 0) 0
      [demo_connection 5, demo_connection 50] = (handled, last')" by fastforce
  have "int (length (ms_events at_submitted (demo_id ''run'' 0))) < 2 ^ 63" using demo_log by simp
  moreover have "\<forall>cn \<in> set [demo_connection 5, demo_connection 50]. connection_passes demo_semver at_submitted cn" using demo_connection by simp
  ultimately show ?thesis using stream_exactly_once [OF demo_stream(1) _ demo_reachable(3) _ _ _ f] f by auto
qed

text \<open>
  A connection that is not cut delivers: the client reaches at least the last event that was in the log when it connected,
  provided that the callback accepts the events and none of their lines exceeds the scanner's limit.
\<close>
theorem stream_delivers:
  assumes "hd_service h = memoryService sv it ttl" "connection_passes sv final cn" "reachable sv final" "0 \<le> after" "after < 2 ^ 63"
    "uncut c h rid after cn" "\<forall>e. width e < line_limit \<and> handle e = None"
    "Client_StreamEvents c width handle (stream_reply_of h rid cn) rid after = (handled, after', r)"
  shows "int (length (ms_events (ss_storage (cn_first cn)) rid)) \<le> after'"
  using stream_slice [OF assms(1-5,8)] assms(6,7) by blast

lemma writeEvents_length: "length (fst (writeEvents a vs)) \<le> 4 * length vs"
  by (induction a vs rule: writeEvents.induct) (auto simp: frame_def split: prod.splits)

lemma demo_uncut: "uncut demo_stream_client demo_stream_handler (demo_id ''run'' 0) 0 (demo_connection 8)"
proof -
  let ?rid = "demo_id ''run'' 0" and ?w = "demo_service_state at_submitted"
  have sa: "stream_after (stream_request demo_stream_client ?rid 0) = Some 0"
    by (rule stream_after_client) (simp_all add: stream_request_def query_Get_def Client_authorize_def new_request_def)
  obtain vs where vs: "Service_EventsAfter (memoryService demo_semver (\<lambda>_ _. []) 100) None ?rid 0 ?w = Inr vs"
    using at_submitted(2) by (simp add: Service_EventsAfter_def guarded_def Service_GetRun_def memoryService_def NewWithStorage_def
        NewWithOptions_def memoryStorage_def GetRun_def EventsAfter_def authorizeRunScope_def)
  have "vs = ms_events at_submitted ?rid"
    using memory_feed.read [of demo_semver ?w 0 "\<lambda>_ _. []" 100 None ?rid vs] vs demo_reachable(3) by simp
  then have "length (fst (writeEvents 0 vs)) \<le> 8" using writeEvents_length [of 0 vs] demo_log by simp
  then show ?thesis
    unfolding uncut_def demo_stream(2) using sa vs
    by (auto simp: streamEvents_def demo_stream(1) demo_connection_def split: prod.split)
qed

theorem stream_delivers_witness:
  "\<exists>handled after' r. Client_StreamEvents demo_stream_client (\<lambda>_. 0) (\<lambda>_. None) (stream_reply_of demo_stream_handler (demo_id ''run'' 0) (demo_connection 8))
      (demo_id ''run'' 0) 0 = (handled, after', r) \<and> int (length (ms_events at_submitted (demo_id ''run'' 0))) \<le> after'"
proof -
  obtain handled after' r where s: "Client_StreamEvents demo_stream_client (\<lambda>_. 0) (\<lambda>_. None)
      (stream_reply_of demo_stream_handler (demo_id ''run'' 0) (demo_connection 8)) (demo_id ''run'' 0) 0 = (handled, after', r)" by (metis prod.exhaust)
  have "\<forall>e. (\<lambda>_. 0) (e :: Event) < line_limit \<and> (\<lambda>_. None :: error option) e = None" by (simp add: line_limit_def)
  from stream_delivers [OF demo_stream(1) demo_connection demo_reachable(3) _ _ demo_uncut this s]
  have "int (length (ms_events at_submitted (demo_id ''run'' 0))) \<le> after'" by (simp add: demo_connection_def)
  with s show ?thesis by auto
qed

text \<open>
  An event whose line reaches the scanner's limit stops the stream for good: the server accepts events of up to 8 MiB, the
  client reads lines of up to 2 MiB, and every new connection begins with the same event.
\<close>

lemma scan_width:
  assumes "\<forall>e \<in> set data. width e < line_limit"
  shows "\<forall>e \<in> set (fst (scan_stream width handle end' a data t lines)). width e < line_limit"
  using assms
proof (induction lines arbitrary: a data t)
  case (Cons line lines)
  have IH: "\<forall>e \<in> set (fst (scan_stream width handle end' b [] t' lines)). width e < line_limit" for b t' by (rule Cons.IH) simp
  show ?case
  proof (cases line)
    case SBlank
    show ?thesis
    proof (cases data)
      case Nil
      with SBlank IH show ?thesis by simp
    next
      case (Cons e es)
      with SBlank Cons.prems IH show ?thesis
        by (cases es; cases "handle e") (auto split: prod.split simp: split_beta)
    qed
  next
    case (SData e)
    with Cons.prems have "\<forall>e \<in> set (fst (scan_stream width handle end' a (data @ [e]) t lines)). width e < line_limit"
      if "width e < line_limit" using that by (intro Cons.IH) auto
    with SData show ?thesis by auto
  qed (use Cons.IH Cons.prems in auto)
qed simp

theorem wide_event_blocks:
  assumes "hd_service h = memoryService sv it ttl" "connection_passes sv final cn" "reachable sv final" "0 \<le> after" "after < 2 ^ 63"
    "nat after < length (ms_events final rid)" "width (ms_events final rid ! nat after) \<ge> line_limit"
    "Client_StreamEvents c width handle (stream_reply_of h rid cn) rid after = (handled, after', r)"
  shows "handled = []"
proof (rule ccontr)
  assume ne: "handled \<noteq> []"
  have s: "log_slice (ms_events final rid) after after' handled" using stream_slice [OF assms(1-5,8)] by blast
  then have "handled = take (nat after' - nat after) (drop (nat after) (ms_events final rid))" unfolding log_slice_def by blast
  with ne assms(6) have "hd handled = ms_events final rid ! nat after" by (metis hd_conv_nth hd_drop_conv_nth hd_take take_eq_Nil gr0I)
  moreover have "\<forall>e \<in> set handled. width e < line_limit"
    using assms(8) scan_width [of "[]" width handle _ after False]
    by (cases "stream_reply_of h rid cn (stream_request c rid after)") (auto simp: Client_StreamEvents_def, metis fst_conv)
  ultimately show False using ne assms(7) by (metis hd_in_set not_less)
qed

end
