(* ===== verification/Bindings.thy ===== *)
theory Bindings
  imports Capabilities
begin

text \<open>
  \<open>binding\<close>: the registry that routes a capability request to a binding of the node's user, and the
  three kinds of bindings: a process (\<open>exec.go\<close>), an HTTP endpoint (\<open>http.go\<close>), an RPC client
  (\<open>rpc.go\<close>). Processes and endpoints are parameters with a state of any type \<open>'h\<close>; so is the
  decoder of their answers. A process is what it writes, in the pieces in which it writes it, and how it
  ends.
\<close>

type_synonym 'h provider = "CapabilityRequest \<Rightarrow> 'h \<Rightarrow> 'h \<times> json option result"

section \<open>The registry\<close>

definition ErrBindingNotFound :: error where
  "ErrBindingNotFound = GoError [BindingNotFound] ''relay: capability binding not found''"

record Descriptor =
  ds_Name :: string
  ds_Version :: string
  ds_Kind :: string

type_synonym 'h Registry = "string \<Rightarrow> (Descriptor \<times> 'h provider) option"

definition NewRegistry :: "'h Registry" where "NewRegistry = Map.empty"

definition binding_key :: "string \<Rightarrow> string \<Rightarrow> string" where
  "binding_key name version = name @ ''@'' @ version"

text \<open>A nil provider is \<open>None\<close>.\<close>

definition Registry_Register :: "Descriptor \<Rightarrow> 'h provider option \<Rightarrow> 'h Registry \<Rightarrow> 'h Registry \<times> error option" where
  "Registry_Register descriptor provider r =
    (case provider of
       Some p \<Rightarrow>
         if ds_Name descriptor = [] \<or> ds_Version descriptor = [] \<or> ds_Kind descriptor = []
         then (r, Some (errors_New ''relay: binding name, version, kind, and provider are required''))
         else (r(binding_key (ds_Name descriptor) (ds_Version descriptor) \<mapsto> (descriptor, p)), None)
     | None \<Rightarrow> (r, Some (errors_New ''relay: binding name, version, kind, and provider are required'')))"

definition Registry_Invoke :: "'h Registry \<Rightarrow> 'h provider" where
  "Registry_Invoke r request h =
    (case r (binding_key (cr_Name request) (cr_Version request)) of
       None \<Rightarrow> (h, Inl ErrBindingNotFound) | Some (_, invoke) \<Rightarrow> invoke request h)"

text \<open>The order is that of the iteration over the map.\<close>

definition Registry_Inventory :: "string list \<Rightarrow> 'h Registry \<Rightarrow> Descriptor list" where
  "Registry_Inventory order r = map (\<lambda>k. case r k of Some (d, _) \<Rightarrow> d | None \<Rightarrow> \<lparr>ds_Name = [], ds_Version = [], ds_Kind = []\<rparr>)
     (filter (\<lambda>k. r k \<noteq> None) order)"

lemma binding_key_inj:
  assumes "CHR ''@'' \<notin> set a" "CHR ''@'' \<notin> set a'"
  shows "binding_key a b = binding_key a' b' \<longleftrightarrow> a = a' \<and> b = b'"
  using append_sep_inj [OF assms, of b b'] by (auto simp: binding_key_def)

text \<open>
  A binding whose name contains the separator can take the requests of another one: version \<open>1@2\<close> of
  \<open>a\<close> and version \<open>2\<close> of \<open>a@1\<close> are one entry.
\<close>

lemma binding_key_clash: "binding_key ''a'' ''1@2'' = binding_key ''a@1'' ''2''"
  by (simp add: binding_key_def)

text \<open>The registry after a sequence of registrations.\<close>

definition register_all :: "(Descriptor \<times> 'h provider option) list \<Rightarrow> 'h Registry" where
  "register_all ds = foldl (\<lambda>r (d, p). fst (Registry_Register d p r)) NewRegistry ds"

definition admissible :: "Descriptor \<times> 'h provider option \<Rightarrow> bool" where
  "admissible e \<longleftrightarrow> (case e of (d, p) \<Rightarrow> p \<noteq> None \<and> ds_Name d \<noteq> [] \<and> ds_Version d \<noteq> [] \<and> ds_Kind d \<noteq> [])"

text \<open>The reference: the last admissible registration of the name and version.\<close>

definition last_binding :: "string \<Rightarrow> string \<Rightarrow> (Descriptor \<times> 'h provider option) list \<Rightarrow> (Descriptor \<times> 'h provider option) option" where
  "last_binding name version ds = find (\<lambda>e. admissible e \<and> ds_Name (fst e) = name \<and> ds_Version (fst e) = version) (rev ds)"

lemma register_all_lookup:
  assumes "\<forall>e \<in> set ds. CHR ''@'' \<notin> set (ds_Name (fst e))" "CHR ''@'' \<notin> set name"
  shows "register_all ds (binding_key name version) =
    map_option (\<lambda>(d, p). (d, the p)) (last_binding name version ds)"
  using assms(1)
proof (induction ds rule: rev_induct)
  case Nil
  then show ?case by (simp add: register_all_def NewRegistry_def last_binding_def)
next
  case (snoc e ds)
  obtain d p where e: "e = (d, p)" by (cases e)
  have step: "register_all (ds @ [e]) = fst (Registry_Register d p (register_all ds))"
    by (simp add: register_all_def e)
  have key: "binding_key (ds_Name d) (ds_Version d) = binding_key name version \<longleftrightarrow> ds_Name d = name \<and> ds_Version d = version"
    using snoc.prems assms(2) e by (intro binding_key_inj) auto
  have IH: "register_all ds (binding_key name version) = map_option (\<lambda>(d, p). (d, the p)) (last_binding name version ds)"
    using snoc by simp
  have last: "last_binding name version (ds @ [e]) =
      (if admissible e \<and> ds_Name d = name \<and> ds_Version d = version then Some (d, p) else last_binding name version ds)"
    by (simp add: last_binding_def e)
  show ?case
  proof (cases "admissible e")
    case True
    then obtain q where "p = Some q" "ds_Name d \<noteq> []" "ds_Version d \<noteq> []" "ds_Kind d \<noteq> []" by (auto simp: admissible_def e)
    then show ?thesis unfolding step last using IH key True by (auto simp: Registry_Register_def)
  next
    case False
    then have "fst (Registry_Register d p (register_all ds)) = register_all ds"
      by (auto simp: Registry_Register_def admissible_def e split: option.split)
    with False IH show ?thesis unfolding step last by simp
  qed
qed

text \<open>
  C23: the registry routes by name and version. When no name contains the separator, a request is
  handed, unchanged, to the provider that was registered last under its name and version, among the
  registrations that were not refused; if there is none the request is answered with
  \<open>ErrBindingNotFound\<close> and no provider is called.
\<close>

theorem registry_routes:
  assumes "\<forall>e \<in> set ds. CHR ''@'' \<notin> set (ds_Name (fst e))" "CHR ''@'' \<notin> set (cr_Name request)"
  shows "Registry_Invoke (register_all ds) request h =
    (case last_binding (cr_Name request) (cr_Version request) ds of
       Some (d, Some invoke) \<Rightarrow> invoke request h | _ \<Rightarrow> (h, Inl ErrBindingNotFound))"
proof -
  have "p \<noteq> None" if "last_binding (cr_Name request) (cr_Version request) ds = Some (d, p)" for d p
    using that by (auto simp: last_binding_def find_Some_iff admissible_def)
  then show ?thesis
    using register_all_lookup [OF assms, of "cr_Version request"]
    by (auto simp: Registry_Invoke_def split: option.split prod.split)
qed

definition demo_binding :: "string \<Rightarrow> Descriptor \<times> unit provider option" where
  "demo_binding out = (\<lparr>ds_Name = ''issue.read'', ds_Version = ''1'', ds_Kind = ''exec''\<rparr>, Some (\<lambda>_ h. (h, Inr (Some (JStr out)))))"

definition demo_capability_request :: CapabilityRequest where
  "demo_capability_request = \<lparr>cr_CallID = ''c'', cr_RunID = ''r'', cr_AgentID = ''a'', cr_Principal = \<lparr>pr_Type = [], pr_ID = [], pr_AccountableID = []\<rparr>,
     cr_Name = ''issue.read'', cr_Version = ''1'', cr_Effect = ''read'', cr_Resource = [], cr_Input = None\<rparr>"

theorem registry_routes_witness:
  "Registry_Invoke (register_all [demo_binding ''old'', demo_binding ''new'']) demo_capability_request () = ((), Inr (Some (JStr ''new'')))"
  using registry_routes [of "[demo_binding ''old'', demo_binding ''new'']" demo_capability_request "()"]
  by (simp add: demo_binding_def demo_capability_request_def last_binding_def admissible_def)

section \<open>Limited output\<close>

record limitedWriter =
  lw_buffer :: string
  lw_remaining :: int

definition limitedWriter_Write :: "string \<Rightarrow> limitedWriter \<Rightarrow> limitedWriter \<times> error option" where
  "limitedWriter_Write chunk w =
    (if int (length chunk) > lw_remaining w then (w, Some (errors_New ''relay: binding output limit exceeded''))
     else (w\<lparr>lw_buffer := lw_buffer w @ chunk, lw_remaining := lw_remaining w - int (length chunk)\<rparr>, None))"

text \<open>What \<open>os/exec\<close> copies from a pipe to the writer: it stops at the first error.\<close>

fun copy_output :: "string list \<Rightarrow> limitedWriter \<Rightarrow> limitedWriter \<times> error option" where
  "copy_output [] w = (w, None)"
| "copy_output (chunk # pieces) w =
    (case limitedWriter_Write chunk w of (w, Some e) \<Rightarrow> (w, Some e) | (w, None) \<Rightarrow> copy_output pieces w)"

lemma copy_output_spec:
  assumes "copy_output pieces w = (w', err)" "0 \<le> lw_remaining w"
  shows "0 \<le> lw_remaining w'" "int (length (lw_buffer w')) + lw_remaining w' = int (length (lw_buffer w)) + lw_remaining w"
    "err = None \<longleftrightarrow> int (length (concat pieces)) \<le> lw_remaining w" "err = None \<Longrightarrow> lw_buffer w' = lw_buffer w @ concat pieces"
proof -
  have "0 \<le> lw_remaining w' \<and> int (length (lw_buffer w')) + lw_remaining w' = int (length (lw_buffer w)) + lw_remaining w \<and>
    (err = None \<longleftrightarrow> int (length (concat pieces)) \<le> lw_remaining w) \<and> (err = None \<longrightarrow> lw_buffer w' = lw_buffer w @ concat pieces)"
    using assms
  proof (induction pieces w rule: copy_output.induct)
    case (2 chunk pieces w)
    show ?case
    proof (cases "int (length chunk) > lw_remaining w")
      case True
      with 2(2,3) show ?thesis by (auto simp: limitedWriter_Write_def)
    next
      case False
      let ?w = "w\<lparr>lw_buffer := lw_buffer w @ chunk, lw_remaining := lw_remaining w - int (length chunk)\<rparr>"
      have "limitedWriter_Write chunk w = (?w, None)" using False by (simp add: limitedWriter_Write_def)
      with 2(1) [of ?w None] 2(2) False show ?thesis by auto
    qed
  qed auto
  then show "0 \<le> lw_remaining w'" "int (length (lw_buffer w')) + lw_remaining w' = int (length (lw_buffer w)) + lw_remaining w"
    "err = None \<longleftrightarrow> int (length (concat pieces)) \<le> lw_remaining w" "err = None \<Longrightarrow> lw_buffer w' = lw_buffer w @ concat pieces" by blast+
qed

section \<open>Processes\<close>

record Exec =
  xc_Command :: string
  xc_Args :: "string list"
  xc_Env :: "(string \<times> string) list"
  xc_InheritEnv :: bool
  xc_MaxOutputBytes :: int

record execResponse =
  xr_Output :: "json option"
  xr_Error :: string

text \<open>
  A command about to run; a nil \<open>Env\<close> (\<open>None\<close>) is the environment of the current process, as
  \<open>exec.Cmd\<close> documents.
\<close>

record 'i command =
  cmd_Path :: string
  cmd_Args :: "string list"
  cmd_Stdin :: 'i
  cmd_Env :: "string list option"

record process =
  ps_Stdout :: "string list"
  ps_Stderr :: "string list"
  ps_Err :: "error option"

definition child_environ :: "string list \<Rightarrow> 'i command \<Rightarrow> string list" where
  "child_environ environ c = (case cmd_Env c of None \<Rightarrow> environ | Some env \<Rightarrow> env)"

text \<open>Appending to a nil or empty slice: the result is nil when nothing is appended to nil.\<close>

definition append_env :: "string list option \<Rightarrow> string list \<Rightarrow> string list option" where
  "append_env env new = (if env = None \<and> new = [] then None else Some ((case env of None \<Rightarrow> [] | Some e \<Rightarrow> e) @ new))"

definition exec_command :: "Exec \<Rightarrow> string list \<Rightarrow> CapabilityRequest \<Rightarrow> CapabilityRequest command" where
  "exec_command config environ request =
    \<lparr>cmd_Path = xc_Command config, cmd_Args = xc_Args config, cmd_Stdin = request,
     cmd_Env = append_env (if xc_InheritEnv config then Some environ else None)
       (map (\<lambda>(name, v). name @ ''='' @ v) (xc_Env config))\<rparr>"

text \<open>\<open>command.Run\<close>: the exit status of the process first, then the errors of the writers.\<close>

definition run_error :: "error option \<Rightarrow> error option \<Rightarrow> error option \<Rightarrow> error option" where
  "run_error status out err = (case status of Some e \<Rightarrow> Some e | None \<Rightarrow> (case out of Some e \<Rightarrow> Some e | None \<Rightarrow> err))"

definition output_limit :: "Exec \<Rightarrow> int" where
  "output_limit config = (if xc_MaxOutputBytes config \<le> 0 then 4 * 2 ^ 20 else xc_MaxOutputBytes config)"

text \<open>
  \<open>start\<close> runs a process in a given environment; \<open>unmarshal\<close> is \<open>json.Unmarshal\<close> into the response.
\<close>

definition ExecProvider_Invoke :: "(CapabilityRequest command \<Rightarrow> string list \<Rightarrow> 'h \<Rightarrow> 'h \<times> process) \<Rightarrow> (string \<Rightarrow> execResponse result)
    \<Rightarrow> string list \<Rightarrow> Exec \<Rightarrow> 'h provider" where
  "ExecProvider_Invoke start unmarshal environ config request h =
    (if xc_Command config = [] then (h, Inl (errors_New ''relay: exec binding command is required''))
     else
       let c = exec_command config environ request;
           limit = output_limit config;
           (h, p) = start c (child_environ environ c) h;
           (stdout, out) = copy_output (ps_Stdout p) \<lparr>lw_buffer = [], lw_remaining = limit\<rparr>;
           (stderr, err) = copy_output (ps_Stderr p) \<lparr>lw_buffer = [], lw_remaining = limit\<rparr>
       in (h, case run_error (ps_Err p) out err of
            Some e \<Rightarrow> Inl (GoError (err_is e) (''relay: exec binding failed: '' @ err_text e @ '': '' @ lw_buffer stderr))
          | None \<Rightarrow>
            (case unmarshal (lw_buffer stdout) of
               Inl e \<Rightarrow> Inl (GoError (err_is e) (''relay: invalid exec binding response: '' @ err_text e))
             | Inr response \<Rightarrow>
                 if xr_Error response \<noteq> [] then Inl (errors_New (''relay: exec binding: '' @ xr_Error response))
                 else Inr (xr_Output response))))"

text \<open>
  C24: what an exec binding returns. The process is started once, with the request on its standard
  input; a result is only ever what the \<open>complete\<close> output of a process that succeeded decodes to, and
  that output is no longer than the limit. Output beyond the limit, on either stream, makes the call
  fail; it is never cut short and then decoded.
\<close>

theorem exec_binding_complete:
  assumes "ExecProvider_Invoke start unmarshal environ config request h = (h', Inr out)"
  shows "\<exists>p response. start (exec_command config environ request) (child_environ environ (exec_command config environ request)) h = (h', p) \<and>
    ps_Err p = None \<and> int (length (concat (ps_Stdout p))) \<le> output_limit config \<and> int (length (concat (ps_Stderr p))) \<le> output_limit config \<and>
    unmarshal (concat (ps_Stdout p)) = Inr response \<and> xr_Error response = [] \<and> out = xr_Output response"
proof -
  let ?c = "exec_command config environ request" and ?w = "\<lparr>lw_buffer = [], lw_remaining = output_limit config\<rparr>"
  obtain h1 p where p: "start ?c (child_environ environ ?c) h = (h1, p)" by fastforce
  obtain o1 oe where so: "copy_output (ps_Stdout p) ?w = (o1, oe)" by fastforce
  obtain e1 ee where se: "copy_output (ps_Stderr p) ?w = (e1, ee)" by fastforce
  have "0 \<le> lw_remaining ?w" by (simp add: output_limit_def)
  note O = copy_output_spec [OF so this] and E = copy_output_spec [OF se this]
  from assms p so se have ok: "run_error (ps_Err p) oe ee = None" "h1 = h'"
    by (auto simp: ExecProvider_Invoke_def Let_def split: if_splits option.splits)
  then have none: "ps_Err p = None" "oe = None" "ee = None" by (auto simp: run_error_def split: option.splits)
  then have "lw_buffer o1 = concat (ps_Stdout p)" using O(4) by simp
  with assms p so se ok obtain response where "unmarshal (concat (ps_Stdout p)) = Inr response" "xr_Error response = []" "out = xr_Output response"
    by (auto simp: ExecProvider_Invoke_def Let_def split: if_splits sum.splits)
  with p ok none O(3) E(3) show ?thesis by simp
qed

definition demo_exec :: Exec where
  "demo_exec = \<lparr>xc_Command = ''cli'', xc_Args = [], xc_Env = [], xc_InheritEnv = False, xc_MaxOutputBytes = 10\<rparr>"

definition demo_process :: "CapabilityRequest command \<Rightarrow> string list \<Rightarrow> nat \<Rightarrow> nat \<times> process" where
  "demo_process c env n = (Suc n, \<lparr>ps_Stdout = [''ab'', ''cd''], ps_Stderr = [], ps_Err = None\<rparr>)"

definition demo_unmarshal :: "string \<Rightarrow> execResponse result" where
  "demo_unmarshal t = Inr \<lparr>xr_Output = Some (JStr t), xr_Error = []\<rparr>"

theorem exec_binding_complete_witness:
  "ExecProvider_Invoke demo_process demo_unmarshal [] demo_exec demo_capability_request 0 = (1, Inr (Some (JStr ''abcd''))) \<and>
   int (length (concat (ps_Stdout (snd (demo_process (exec_command demo_exec [] demo_capability_request) [] 0))))) \<le> output_limit demo_exec"
proof -
  have eq: "ExecProvider_Invoke demo_process demo_unmarshal [] demo_exec demo_capability_request 0 = (1, Inr (Some (JStr ''abcd'')))"
    by (simp add: ExecProvider_Invoke_def Let_def demo_exec_def demo_process_def demo_unmarshal_def limitedWriter_Write_def output_limit_def run_error_def)
  from exec_binding_complete [OF this] have "int (length (concat (ps_Stdout
      (snd (demo_process (exec_command demo_exec [] demo_capability_request) [] 0))))) \<le> output_limit demo_exec"
    by (auto simp: demo_process_def)
  with eq show ?thesis by simp
qed

text \<open>
  A binding configured without \<open>InheritEnv\<close> and without variables of its own does get the environment of
  the node: its \<open>Env\<close> stays nil.
\<close>

lemma exec_env_inherited:
  assumes "xc_Env config = []"
  shows "child_environ environ (exec_command config environ request) = environ"
  using assms by (simp add: child_environ_def exec_command_def append_env_def)

lemma exec_env_given:
  assumes "\<not> xc_InheritEnv config" "xc_Env config \<noteq> []"
  shows "child_environ environ (exec_command config environ request) = map (\<lambda>(name, v). name @ ''='' @ v) (xc_Env config)"
  using assms by (simp add: child_environ_def exec_command_def append_env_def)

section \<open>HTTP endpoints\<close>

record HTTPProvider =
  hx_Endpoint :: string
  hx_Token :: string

record binding_request =
  bq_Method :: string
  bq_URL :: string
  bq_Headers :: "(string \<times> string) list"
  bq_Body :: CapabilityRequest

record binding_response =
  br_StatusCode :: int
  br_Status :: string
  br_Body :: string
  br_ReadErr :: "error option"

definition body_limit_http :: nat where "body_limit_http = 4 * 2 ^ 20"

definition http_binding_request :: "HTTPProvider \<Rightarrow> CapabilityRequest \<Rightarrow> binding_request" where
  "http_binding_request p request =
    \<lparr>bq_Method = ''POST'', bq_URL = hx_Endpoint p,
     bq_Headers = (''Content-Type'', ''application/json'') # (if hx_Token p \<noteq> [] then [(''Authorization'', ''Bearer '' @ hx_Token p)] else []),
     bq_Body = request\<rparr>"

text \<open>\<open>newRequest\<close> is the check of the URL, \<open>send\<close> the client's round trip.\<close>

definition HTTPProvider_Invoke :: "(string \<Rightarrow> error option) \<Rightarrow> (binding_request \<Rightarrow> 'h \<Rightarrow> 'h \<times> binding_response result)
    \<Rightarrow> (string \<Rightarrow> execResponse result) \<Rightarrow> HTTPProvider \<Rightarrow> 'h provider" where
  "HTTPProvider_Invoke newRequest send unmarshal p request h =
    (case newRequest (hx_Endpoint p) of Some e \<Rightarrow> (h, Inl e)
     | None \<Rightarrow>
       (case send (http_binding_request p request) h of (h, Inl e) \<Rightarrow> (h, Inl e)
        | (h, Inr response) \<Rightarrow>
          (h, case br_ReadErr response of Some e \<Rightarrow> Inl e
            | None \<Rightarrow>
              let body = take body_limit_http (br_Body response)
              in if br_StatusCode response < 200 \<or> br_StatusCode response \<ge> 300
                 then Inl (errors_New (''relay: HTTP binding returned '' @ br_Status response @ '': '' @ body))
                 else case unmarshal body of
                   Inl e \<Rightarrow> Inl (GoError (err_is e) (''relay: invalid HTTP binding response: '' @ err_text e))
                 | Inr envelope \<Rightarrow>
                   if xr_Error envelope \<noteq> [] then Inl (errors_New (''relay: HTTP binding: '' @ xr_Error envelope))
                   else Inr (xr_Output envelope))))"

section \<open>RPC clients\<close>

definition RPCProvider_Invoke :: "'h provider \<Rightarrow> 'h provider" where
  "RPCProvider_Invoke client request h = client request h"

end
