(* ===== verification/Workspaces.thy ===== *)
theory Workspaces
  imports Relay_Types
begin

text \<open>
  \<open>workspace/manager.go\<close>: the directories in which attempts run. The operating system and the \<open>git\<close>
  program are a record of calls over a state of any type; paths are the byte strings of the source, with
  \<open>filepath.Clean\<close>, \<open>Join\<close> and \<open>Abs\<close>. The mutex around \<open>prepareGit\<close> and its clean-up makes each of them
  one function of the state.
\<close>

record 'h ws_os =
  os_Getwd :: "'h \<Rightarrow> string result"
  os_TempDir :: "'h \<Rightarrow> string"
  os_MkdirAll :: "string \<Rightarrow> 'h \<Rightarrow> 'h \<times> error option"
  os_IsDir :: "string \<Rightarrow> 'h \<Rightarrow> 'h \<times> bool result"
  os_RemoveAll :: "string \<Rightarrow> 'h \<Rightarrow> 'h \<times> error option"
  os_Git :: "string \<Rightarrow> string list \<Rightarrow> 'h \<Rightarrow> 'h \<times> string \<times> error option"

datatype cleanup = KeepDirectory | RemoveDirectory string | RemoveWorktree string string

record Prepared =
  pp_Dir :: string
  pp_Cleanup :: cleanup

section \<open>Paths\<close>

definition filepath_IsAbs :: "string \<Rightarrow> bool" where "filepath_IsAbs p \<longleftrightarrow> HasPrefix p ''/''"

definition filepath_Abs :: "'h ws_os \<Rightarrow> string \<Rightarrow> 'h \<Rightarrow> string result" where
  "filepath_Abs os p h =
    (if filepath_IsAbs p then Inr (filepath_Clean p)
     else case os_Getwd os h of Inl e \<Rightarrow> Inl e | Inr wd \<Rightarrow> Inr (filepath_Join [wd, p]))"

text \<open>\<open>filepath.Dir\<close> of a path: what precedes the last separator, cleaned.\<close>

definition filepath_Dir :: "string \<Rightarrow> string" where
  "filepath_Dir p = filepath_Clean (rev (dropWhile (\<lambda>c. c \<noteq> CHR ''/'') (rev p)))"

fun replace_slash :: "string \<Rightarrow> string" where
  "replace_slash [] = []"
| "replace_slash (c # s) = (if c = CHR ''/'' then CHR ''_'' else c) # replace_slash s"

fun replace_dots :: "string \<Rightarrow> string" where
  "replace_dots (c # d # s) = (if c = CHR ''.'' \<and> d = CHR ''.'' then CHR ''_'' # replace_dots s else c # replace_dots (d # s))"
| "replace_dots s = s"

definition safeSegment :: "string \<Rightarrow> string" where
  "safeSegment v = replace_dots (replace_slash v)"

section \<open>Preparing\<close>

definition runGit :: "'h ws_os \<Rightarrow> string \<Rightarrow> string list \<Rightarrow> 'h \<Rightarrow> 'h \<times> error option" where
  "runGit os dir args h =
    (case os_Git os dir args h of (h, out, err) \<Rightarrow>
       (h, map_option (\<lambda>e. GoError (err_is e) (''relay workspace: git '' @ (case args of [] \<Rightarrow> [] | a # _ \<Rightarrow> a) @ '': '' @ err_text e @ '': '' @ TrimSpace out)) err))"

definition preparedDirectory :: "'h ws_os \<Rightarrow> string \<Rightarrow> string \<Rightarrow> string \<Rightarrow> bool \<Rightarrow> 'h \<Rightarrow> 'h \<times> Prepared result" where
  "preparedDirectory os root dir subdir ephemeral h =
    (let target = (if subdir = [] then dir else filepath_Join [dir, filepath_Clean subdir])
     in case filepath_Abs os target h of Inl e \<Rightarrow> (h, Inl e)
     | Inr target \<Rightarrow>
       (case filepath_Abs os dir h of Inl e \<Rightarrow> (h, Inl e)
        | Inr base \<Rightarrow>
          if target \<noteq> base \<and> \<not> HasPrefix target (base @ ''/'') then (h, Inl (errors_New ''relay workspace: subdir escapes workspace''))
          else (case os_IsDir os target h of
              (h, Inr True) \<Rightarrow> (h, Inr \<lparr>pp_Dir = target, pp_Cleanup = (if ephemeral \<and> root \<noteq> [] then RemoveDirectory base else KeepDirectory)\<rparr>)
            | (h, _) \<Rightarrow> (h, Inl (errors_New (''relay workspace: subdir is not a directory: '' @ subdir))))))"

definition run_directory :: "string \<Rightarrow> string \<Rightarrow> string \<Rightarrow> string" where
  "run_directory root runID attemptID = filepath_Join [root, ''runs'', safeSegment runID, safeSegment attemptID]"

text \<open>The mirror of a repository: cloned when it is missing, fetched otherwise. A missing path is \<open>NotExist\<close>.\<close>

definition refresh_mirror :: "'h ws_os \<Rightarrow> string \<Rightarrow> string \<Rightarrow> 'h \<Rightarrow> 'h \<times> error option" where
  "refresh_mirror os mirror source h =
    (case os_IsDir os mirror h of
       (h, Inl e) \<Rightarrow>
         if errors_Is e NotExist then
           (case os_MkdirAll os (filepath_Dir mirror) h of (h, Some e) \<Rightarrow> (h, Some e)
            | (h, None) \<Rightarrow> runGit os [] [''clone'', ''--mirror'', ''--'', source, mirror] h)
         else (h, Some e)
     | (h, Inr _) \<Rightarrow> runGit os mirror [''fetch'', ''--prune'', ''origin''] h)"

definition prepareGit :: "'h ws_os \<Rightarrow> string \<Rightarrow> string \<Rightarrow> string \<Rightarrow> WorkspaceSpec \<Rightarrow> 'h \<Rightarrow> 'h \<times> Prepared result" where
  "prepareGit os root runID attemptID spec h =
    (let mirror = filepath_Join [root, ''git'', take 24 (sha256_hex (ws_Source spec)) @ ''.git''];
         worktree = run_directory root runID attemptID;
         ref = (if ws_Ref spec = [] then ''HEAD'' else ws_Ref spec)
     in case refresh_mirror os mirror (ws_Source spec) h of (h, Some e) \<Rightarrow> (h, Inl e)
     | (h, None) \<Rightarrow>
       (case os_MkdirAll os (filepath_Dir worktree) h of (h, Some e) \<Rightarrow> (h, Inl e)
        | (h, None) \<Rightarrow>
          let h = fst (os_RemoveAll os worktree h)
          in case runGit os mirror [''worktree'', ''add'', ''--detach'', worktree, ref] h of (h, Some e) \<Rightarrow> (h, Inl e)
          | (h, None) \<Rightarrow>
            (case preparedDirectory os root worktree (ws_Subdir spec) False h of
               (h, Inl e) \<Rightarrow> (fst (runGit os mirror [''worktree'', ''remove'', ''--force'', worktree] h), Inl e)
             | (h, Inr prepared) \<Rightarrow> (h, Inr (prepared\<lparr>pp_Cleanup := RemoveWorktree mirror worktree\<rparr>)))))"

definition Manager_Prepare :: "'h ws_os \<Rightarrow> string \<Rightarrow> string \<Rightarrow> string \<Rightarrow> WorkspaceSpec \<Rightarrow> 'h \<Rightarrow> 'h \<times> Prepared result" where
  "Manager_Prepare os root runID attemptID spec h =
    (let root = (if root = [] then filepath_Join [os_TempDir os h, ''relay-workspaces''] else root)
     in case filepath_Abs os root h of Inl e \<Rightarrow> (h, Inl e)
     | Inr root \<Rightarrow>
       if ws_Kind spec = [] \<or> ws_Kind spec = ''temp'' then
         (let dir = run_directory root runID attemptID
          in case os_MkdirAll os dir h of (h, Some e) \<Rightarrow> (h, Inl e)
             | (h, None) \<Rightarrow> preparedDirectory os root dir (ws_Subdir spec) (ws_Ephemeral spec \<or> ws_Kind spec = ''temp'') h)
       else if ws_Kind spec = ''local'' then
         (if ws_Source spec = [] \<or> \<not> filepath_IsAbs (ws_Source spec)
          then (h, Inl (errors_New ''relay workspace: local source must be an absolute path''))
          else case os_IsDir os (ws_Source spec) h of
              (h, Inr True) \<Rightarrow> preparedDirectory os [] (ws_Source spec) (ws_Subdir spec) False h
            | (h, _) \<Rightarrow> (h, Inl (errors_New (''relay workspace: local source is not a directory: '' @ ws_Source spec))))
       else if ws_Kind spec = ''git'' then
         (if ws_Source spec = [] then (h, Inl (errors_New ''relay workspace: git source is required''))
          else prepareGit os root runID attemptID spec h)
       else (h, Inl (errors_New (''relay workspace: unsupported kind '' @ quot @ ws_Kind spec @ quot))))"

definition run_cleanup :: "'h ws_os \<Rightarrow> cleanup \<Rightarrow> 'h \<Rightarrow> 'h \<times> error option" where
  "run_cleanup os c h =
    (case c of KeepDirectory \<Rightarrow> (h, None) | RemoveDirectory base \<Rightarrow> os_RemoveAll os base h
     | RemoveWorktree mirror worktree \<Rightarrow> runGit os mirror [''worktree'', ''remove'', ''--force'', worktree] h)"

section \<open>Absolute clean paths\<close>

text \<open>An element of a clean path, and the absolute path with given elements.\<close>

definition plain_element :: "string \<Rightarrow> bool" where
  "plain_element e \<longleftrightarrow> e \<noteq> [] \<and> e \<noteq> ''.'' \<and> e \<noteq> ''..'' \<and> CHR ''/'' \<notin> set e"

definition abs_path :: "string list \<Rightarrow> string" where
  "abs_path es = ''/'' @ Join es ''/''"

lemma abs_path_abs [simp]: "HasPrefix (abs_path es) ''/''"
  by (simp add: abs_path_def HasPrefix_def)

lemma abs_path_inj_prefix:
  assumes "list_all plain_element ts" "list_all plain_element es" "HasPrefix (abs_path ts) (abs_path es @ ''/'')"
  shows "\<exists>rest. ts = es @ rest"
proof (cases "es = []")
  case True
  then show ?thesis by simp
next
  case False
  from assms(3) obtain t where t: "Join ts ''/'' = Join es ''/'' @ CHR ''/'' # t" by (auto simp: HasPrefix_iff abs_path_def)
  then have "ts \<noteq> []" by auto
  with assms(1) have "ts = Split1 CHR ''/'' (Join ts ''/'')"
    by (subst Split1_Join) (auto simp: list_all_iff plain_element_def)
  also have "\<dots> = es @ Split1 CHR ''/'' t"
    using assms(2) False by (subst t) (simp add: Split1_sep Split1_Join list_all_iff plain_element_def)
  finally show ?thesis by blast
qed

lemma clean_elements_plain:
  assumes "list_all plain_element acc" "\<forall>e \<in> set es. CHR ''/'' \<notin> set e"
  shows "list_all plain_element (clean_elements True acc es)"
  using assms
proof (induction True acc es rule: clean_elements.induct)
  case (2 acc e es)
  then show ?case by (cases acc) (auto simp: plain_element_def)
qed (simp add: list_all_iff)

lemma clean_elements_keep: "list_all plain_element es \<Longrightarrow> clean_elements True acc (es @ more') = clean_elements True (rev es @ acc) more'"
  by (induction es arbitrary: acc) (auto simp: plain_element_def)

lemma Clean_abs:
  assumes "HasPrefix p ''/''"
  shows "\<exists>es. list_all plain_element es \<and> filepath_Clean p = abs_path es"
  using clean_elements_plain [of "[]" "Split1 CHR ''/'' p"] Split1_elements assms
  by (auto simp: filepath_Clean_def abs_path_def)

lemma Clean_abs_path:
  assumes "list_all plain_element es"
  shows "filepath_Clean (abs_path es) = abs_path es"
proof (cases "es = []")
  case True
  then show ?thesis by (simp add: filepath_Clean_def abs_path_def HasPrefix_def)
next
  case False
  have "Split1 CHR ''/'' (abs_path es) = [] # es"
    using False assms by (simp add: abs_path_def Split1_Join list_all_iff plain_element_def)
  with clean_elements_keep [OF assms, of "[]" "[]"] show ?thesis
    by (simp add: filepath_Clean_def abs_path_def HasPrefix_def)
qed

text \<open>Joining plain elements to an absolute clean path.\<close>

lemma filepath_Join_abs:
  assumes "list_all plain_element rs" "list_all plain_element es" "es \<noteq> []"
  shows "filepath_Join (abs_path rs # es) = abs_path (rs @ es)"
proof -
  have "filter (\<lambda>e. e \<noteq> []) (abs_path rs # es) = abs_path rs # es"
    using assms(2) by (auto simp: abs_path_def list_all_iff plain_element_def filter_id_conv)
  moreover have "filepath_Clean (Join (abs_path rs # es) ''/'') = abs_path (rs @ es)"
  proof (cases "rs = []")
    case True
    have "Split1 CHR ''/'' (Join (abs_path rs # es) ''/'') = [] # [] # es"
      using assms(2,3) True by (cases es) (auto simp: abs_path_def Split1_Join list_all_iff plain_element_def)
    with clean_elements_keep [OF assms(2), of "[]" "[]"] True show ?thesis
      using assms(3) by (cases es) (auto simp: filepath_Clean_def abs_path_def HasPrefix_def)
  next
    case False
    have "Join (abs_path rs # es) ''/'' = abs_path (rs @ es)"
      using assms(3) False by (cases es) (auto simp: abs_path_def Join_append_sep)
    with Clean_abs_path [of "rs @ es"] assms show ?thesis by simp
  qed
  ultimately show ?thesis by (simp add: filepath_Join_def)
qed

section \<open>Confinement\<close>

lemma replace_slash_free: "CHR ''/'' \<notin> set (replace_slash s)"
  by (induction s) auto

lemma replace_slash_cases: "replace_slash s = [] \<longleftrightarrow> s = []" "replace_slash s = ''.'' \<longleftrightarrow> s = ''.''"
  by (cases s; simp; cases "tl s"; auto)+

lemma replace_dots_facts:
  "CHR ''/'' \<notin> set s \<Longrightarrow> CHR ''/'' \<notin> set (replace_dots s)" "replace_dots s \<noteq> CHR ''.'' # CHR ''.'' # t"
  "replace_dots s = [] \<longleftrightarrow> s = []" "replace_dots s = ''.'' \<longleftrightarrow> s = ''.''"
proof -
  have head: "replace_dots (c # u) = CHR ''.'' # v \<Longrightarrow> c = CHR ''.''" for c u v by (cases u) (auto split: if_splits)
  show "CHR ''/'' \<notin> set s \<Longrightarrow> CHR ''/'' \<notin> set (replace_dots s)" by (induction s rule: replace_dots.induct) auto
  show "replace_dots s = [] \<longleftrightarrow> s = []" by (cases s rule: replace_dots.cases) auto
  have nil: "replace_dots (d # u) \<noteq> []" for d u by (cases u) auto
  show "replace_dots s = ''.'' \<longleftrightarrow> s = ''.''" using nil by (cases s rule: replace_dots.cases) auto
  show "replace_dots s \<noteq> CHR ''.'' # CHR ''.'' # t" using head by (cases s rule: replace_dots.cases) (auto split: if_splits)
qed

text \<open>An identifier other than the empty one and ``.'' becomes one element of a path.\<close>

lemma safeSegment_plain: "v \<noteq> [] \<Longrightarrow> v \<noteq> ''.'' \<Longrightarrow> plain_element (safeSegment v)"
  using replace_dots_facts(2) [of "replace_slash v" "[]"]
  by (auto simp: plain_element_def safeSegment_def replace_slash_cases replace_dots_facts(1,3,4) replace_slash_free)

lemma preparedDirectory_inside:
  assumes "HasPrefix dir ''/''" "preparedDirectory os root dir subdir eph h = (h', Inr p)"
    and "filepath_Clean dir = abs_path es" "list_all plain_element es"
  shows "\<exists>rest. list_all plain_element rest \<and> pp_Dir p = abs_path (es @ rest)" "os_IsDir os (pp_Dir p) h = (h', Inr True)"
    "pp_Cleanup p = (if eph \<and> root \<noteq> [] then RemoveDirectory (abs_path es) else KeepDirectory)"
proof -
  define t where "t = (if subdir = [] then dir else filepath_Join [dir, filepath_Clean subdir])"
  obtain d ds where dir: "dir = d # ds" "d = CHR ''/''" using assms(1) by (cases dir) (auto simp: HasPrefix_def)
  have "HasPrefix (Join (filter (\<lambda>e. e \<noteq> []) [dir, filepath_Clean subdir]) ''/'') ''/''" by (simp add: dir HasPrefix_def)
  from Clean_abs [OF this] have "\<exists>es. filepath_Join [dir, filepath_Clean subdir] = abs_path es"
    by (auto simp: filepath_Join_def Let_def dir split: if_splits)
  with assms(1) have "HasPrefix t ''/''" by (auto simp: t_def)
  then obtain ts where ts: "list_all plain_element ts" "filepath_Clean t = abs_path ts" and abs: "filepath_Abs os t h = Inr (abs_path ts)"
    using Clean_abs by (force simp: filepath_Abs_def filepath_IsAbs_def)
  have base: "filepath_Abs os dir h = Inr (abs_path es)" using assms(1,3) by (simp add: filepath_Abs_def filepath_IsAbs_def)
  have unf: "preparedDirectory os root dir subdir eph h =
     (if abs_path ts \<noteq> abs_path es \<and> \<not> HasPrefix (abs_path ts) (abs_path es @ ''/'') then (h, Inl (errors_New ''relay workspace: subdir escapes workspace''))
      else (case os_IsDir os (abs_path ts) h of
          (h, Inr True) \<Rightarrow> (h, Inr \<lparr>pp_Dir = abs_path ts, pp_Cleanup = (if eph \<and> root \<noteq> [] then RemoveDirectory (abs_path es) else KeepDirectory)\<rparr>)
        | (h, _) \<Rightarrow> (h, Inl (errors_New (''relay workspace: subdir is not a directory: '' @ subdir)))))"
    by (simp add: preparedDirectory_def t_def [symmetric] abs base Let_def)
  then have p: "pp_Dir p = abs_path ts" and "pp_Cleanup p = (if eph \<and> root \<noteq> [] then RemoveDirectory (abs_path es) else KeepDirectory)"
    and "os_IsDir os (abs_path ts) h = (h', Inr True)" and inside: "abs_path ts = abs_path es \<or> HasPrefix (abs_path ts) (abs_path es @ ''/'')"
    using assms(2) by (auto split: if_splits prod.splits sum.splits bool.splits)
  then show "os_IsDir os (pp_Dir p) h = (h', Inr True)"
    "pp_Cleanup p = (if eph \<and> root \<noteq> [] then RemoveDirectory (abs_path es) else KeepDirectory)" by simp_all
  show "\<exists>rest. list_all plain_element rest \<and> pp_Dir p = abs_path (es @ rest)"
  proof (cases "abs_path ts = abs_path es")
    case True
    with p show ?thesis by (intro exI [of _ "[]"]) simp
  next
    case False
    with inside abs_path_inj_prefix [OF ts(1) assms(4)] obtain rest where "ts = es @ rest" by blast
    with p ts(1) show ?thesis by (intro exI [of _ rest]) (simp add: list_all_iff)
  qed
qed

lemma run_directory_abs:
  assumes "list_all plain_element rs" "runID \<noteq> []" "runID \<noteq> ''.''" "attemptID \<noteq> []" "attemptID \<noteq> ''.''"
  shows "run_directory (abs_path rs) runID attemptID = abs_path (rs @ [''runs'', safeSegment runID, safeSegment attemptID])"
    "list_all plain_element (rs @ [''runs'', safeSegment runID, safeSegment attemptID])"
  using filepath_Join_abs [OF assms(1), of "[''runs'', safeSegment runID, safeSegment attemptID]"] assms safeSegment_plain
  by (simp_all add: run_directory_def plain_element_def)

lemma prepareGit_inside:
  assumes "list_all plain_element rs" "runID \<noteq> []" "runID \<noteq> ''.''" "attemptID \<noteq> []" "attemptID \<noteq> ''.''"
    and "prepareGit os (abs_path rs) runID attemptID spec h = (h', Inr p)"
  shows "(\<exists>rest. list_all plain_element rest \<and> pp_Dir p = abs_path ((rs @ [''runs'', safeSegment runID, safeSegment attemptID]) @ rest)) \<and>
    (\<exists>h1. os_IsDir os (pp_Dir p) h1 = (h', Inr True)) \<and>
    (\<exists>mirror. pp_Cleanup p = RemoveWorktree mirror (abs_path (rs @ [''runs'', safeSegment runID, safeSegment attemptID])))"
proof -
  note dir = run_directory_abs [OF assms(1-5)]
  obtain h1 q where q: "preparedDirectory os (abs_path rs) (run_directory (abs_path rs) runID attemptID) (ws_Subdir spec) False h1 = (h', Inr q)"
    and p: "pp_Dir p = pp_Dir q" "\<exists>mirror. pp_Cleanup p = RemoveWorktree mirror (run_directory (abs_path rs) runID attemptID)"
    using assms(6) by (auto simp: prepareGit_def Let_def split: prod.splits option.splits sum.splits)
  have "HasPrefix (run_directory (abs_path rs) runID attemptID) ''/''" by (simp add: dir(1))
  from preparedDirectory_inside [OF this q _ dir(2)] Clean_abs_path [OF dir(2)] p dir(1) show ?thesis by auto
qed

text \<open>
  C22: an attempt cannot leave its workspace. When \<open>Prepare\<close> returns a directory for a run and an
  attempt whose identifiers are not empty and not ``.'', whatever the identifiers and the requested
  sub-directory contain: the directory exists and, for the kinds \<open>temp\<close> and \<open>git\<close>, lies at or below
  \<open>runs/run/attempt\<close> of the manager's root, which is also all that the clean-up removes; for a local
  source it lies at or below the source, and the clean-up removes nothing.
\<close>

theorem workspace_confined:
  assumes "root \<noteq> []" "filepath_Abs os root h = Inr (abs_path rs)" "list_all plain_element rs"
    and "runID \<noteq> []" "runID \<noteq> ''.''" "attemptID \<noteq> []" "attemptID \<noteq> ''.''"
    and prep: "Manager_Prepare os root runID attemptID spec h = (h', Inr p)"
  defines "home \<equiv> (if ws_Kind spec = ''local'' then filepath_Clean (ws_Source spec)
      else abs_path (rs @ [''runs'', safeSegment runID, safeSegment attemptID]))"
  shows "(\<exists>es rest. list_all plain_element (es @ rest) \<and> home = abs_path es \<and> pp_Dir p = abs_path (es @ rest)) \<and>
    (\<exists>h1. os_IsDir os (pp_Dir p) h1 = (h', Inr True)) \<and>
    (case pp_Cleanup p of KeepDirectory \<Rightarrow> True
     | RemoveDirectory dir \<Rightarrow> ws_Kind spec \<noteq> ''local'' \<and> dir = home
     | RemoveWorktree mirror dir \<Rightarrow> ws_Kind spec = ''git'' \<and> dir = home)"
proof -
  note dir = run_directory_abs [OF assms(3-7)]
  consider (temp) "ws_Kind spec = [] \<or> ws_Kind spec = ''temp''" | (loc) "ws_Kind spec = ''local''" | (git) "ws_Kind spec = ''git''"
    using prep assms(1,2) by (auto simp: Manager_Prepare_def split: if_splits)
  then show ?thesis
  proof cases
    case temp
    then obtain h1 where q: "preparedDirectory os (abs_path rs) (run_directory (abs_path rs) runID attemptID) (ws_Subdir spec)
        (ws_Ephemeral spec \<or> ws_Kind spec = ''temp'') h1 = (h', Inr p)"
      using prep assms(1,2) by (auto simp: Manager_Prepare_def Let_def split: prod.splits option.splits)
    have "HasPrefix (run_directory (abs_path rs) runID attemptID) ''/''" by (simp add: dir(1))
    note in' = preparedDirectory_inside [OF this q _ dir(2)]
    from in'(1) Clean_abs_path [OF dir(2)] dir(1) obtain rest where
      "list_all plain_element rest" "pp_Dir p = abs_path ((rs @ [''runs'', safeSegment runID, safeSegment attemptID]) @ rest)" by auto
    then show ?thesis using in'(2,3) Clean_abs_path [OF dir(2)] dir temp
      by (intro conjI exI [of _ "rs @ [''runs'', safeSegment runID, safeSegment attemptID]"] exI [of _ rest])
        (auto simp: home_def)
  next
    case loc
    then obtain h1 where q: "preparedDirectory os [] (ws_Source spec) (ws_Subdir spec) False h1 = (h', Inr p)"
      and abs: "HasPrefix (ws_Source spec) ''/''"
      using prep assms(1,2) by (auto simp: Manager_Prepare_def filepath_IsAbs_def split: if_splits prod.splits sum.splits bool.splits)
    obtain es where es: "list_all plain_element es" "filepath_Clean (ws_Source spec) = abs_path es" using Clean_abs [OF abs] by blast
    note in' = preparedDirectory_inside [OF abs q es(2,1)]
    from in'(1) obtain rest where "list_all plain_element rest" "pp_Dir p = abs_path (es @ rest)" by blast
    with in'(2,3) es loc show ?thesis
      by (intro conjI exI [of _ es] exI [of _ rest]) (auto simp: home_def)
  next
    case git
    then have "prepareGit os (abs_path rs) runID attemptID spec h = (h', Inr p)"
      using prep assms(1,2) by (auto simp: Manager_Prepare_def split: if_splits)
    from prepareGit_inside [OF assms(3-7) this] obtain rest mirror where
      "list_all plain_element rest" "pp_Dir p = abs_path ((rs @ [''runs'', safeSegment runID, safeSegment attemptID]) @ rest)"
      "\<exists>h1. os_IsDir os (pp_Dir p) h1 = (h', Inr True)"
      "pp_Cleanup p = RemoveWorktree mirror (abs_path (rs @ [''runs'', safeSegment runID, safeSegment attemptID]))" by blast
    with dir(2) git show ?thesis
      by (intro conjI exI [of _ "rs @ [''runs'', safeSegment runID, safeSegment attemptID]"] exI [of _ rest])
        (auto simp: home_def)
  qed
qed

text \<open>A run whose identifier tries to climb out of the root, on a system where every call succeeds.\<close>

definition demo_os :: "unit ws_os" where
  "demo_os = \<lparr>os_Getwd = (\<lambda>_. Inr ''/home''), os_TempDir = (\<lambda>_. ''/tmp''), os_MkdirAll = (\<lambda>_ h. (h, None)), os_IsDir = (\<lambda>_ h. (h, Inr True)),
     os_RemoveAll = (\<lambda>_ h. (h, None)), os_Git = (\<lambda>_ _ h. (h, [], None))\<rparr>"

definition demo_spec :: WorkspaceSpec where
  "demo_spec = \<lparr>ws_Kind = ''temp'', ws_Source = [], ws_Ref = [], ws_Subdir = ''a/../b'', ws_Ephemeral = False\<rparr>"

definition demo_prepared :: Prepared where
  "demo_prepared = \<lparr>pp_Dir = ''/w/runs/__up/x/b'', pp_Cleanup = RemoveDirectory ''/w/runs/__up/x''\<rparr>"

lemma demo_prepare: "Manager_Prepare demo_os ''/w'' ''../up'' ''x'' demo_spec () = ((), Inr demo_prepared)"
  by (simp add: Manager_Prepare_def demo_os_def demo_spec_def demo_prepared_def preparedDirectory_def run_directory_def filepath_Abs_def
      filepath_IsAbs_def filepath_Join_def filepath_Clean_def safeSegment_def HasPrefix_def Let_def)

theorem workspace_confined_witness:
  "Manager_Prepare demo_os ''/w'' ''../up'' ''x'' demo_spec () = ((), Inr demo_prepared) \<and>
   (\<exists>es rest. abs_path [''w'', ''runs'', ''__up'', ''x''] = abs_path es \<and> pp_Dir demo_prepared = abs_path (es @ rest))"
proof -
  have "filepath_Abs demo_os ''/w'' () = Inr (abs_path [''w''])" "list_all plain_element [''w'']"
    by (simp_all add: filepath_Abs_def filepath_IsAbs_def filepath_Clean_def HasPrefix_def abs_path_def plain_element_def)
  from workspace_confined [OF _ this _ _ _ _ demo_prepare] demo_prepare show ?thesis
    by (auto simp: demo_spec_def safeSegment_def)
qed

text \<open>
  The check of a sub-directory appends a separator to the base. Below the root directory, whose path
  already ends with one, every sub-directory is refused as an escape.
\<close>

lemma root_subdir_refused:
  "preparedDirectory demo_os [] ''/'' ''usr'' False () = ((), Inl (errors_New ''relay workspace: subdir escapes workspace''))"
  by (simp add: preparedDirectory_def filepath_Abs_def filepath_IsAbs_def filepath_Join_def filepath_Clean_def HasPrefix_def Let_def)

end
