(* ===== verification/Node_Delivery.thy ===== *)
theory Node_Delivery
  imports Service_Properties "HOL-Library.Sublist"
begin

text \<open>
  The node's side of the control plane: the interface \<open>ControlPlane\<close> of \<open>node/worker.go\<close>, the
  delivery of an event (\<open>node/events.go\<close>) and of a final report (\<open>node/final.go\<close>), both of which
  repeat a call until it is answered, refused for good, or out of time.

  A node has a clock of its own: a call takes \<open>nw_lag\<close> (any amount, per call), a timer fires on time,
  and a \<open>select\<close> in which the context is done takes the context. A context is the instant at which it
  is done, if ever, and whether it was cancelled then or ran out of time.

  What a producer relies on is the locale \<open>event_sink\<close>. It is interpreted on the service over the
  in-memory storage, and on that service behind a network that loses requests and answers while other
  clients use the control plane.
\<close>

section \<open>The interface\<close>

record 'c ControlPlane =
  cp_RegisterNode :: "NodeRegistration \<Rightarrow> 'c \<Rightarrow> 'c \<times> Node result"
  cp_Heartbeat :: "string \<Rightarrow> 'c \<Rightarrow> 'c \<times> Node result"
  cp_Claim :: "string \<Rightarrow> 'c \<Rightarrow> 'c \<times> Assignment result"
  cp_Start :: "Assignment \<Rightarrow> 'c \<Rightarrow> 'c \<times> unit result"
  cp_Renew :: "Assignment \<Rightarrow> 'c \<Rightarrow> 'c \<times> LeaseUpdate result"
  cp_AppendEvent :: "string \<Rightarrow> string \<Rightarrow> string \<Rightarrow> string \<Rightarrow> goany \<Rightarrow> string list \<Rightarrow> 'c \<Rightarrow> 'c \<times> unit result"
  cp_Complete :: "Assignment \<Rightarrow> Result \<Rightarrow> 'c \<Rightarrow> 'c \<times> unit result"
  cp_Fail :: "Assignment \<Rightarrow> string \<Rightarrow> 'c \<Rightarrow> 'c \<times> unit result"
  cp_AcknowledgeCancellation :: "Assignment \<Rightarrow> 'c \<Rightarrow> 'c \<times> unit result"
  cp_UploadArtifact :: "Assignment \<Rightarrow> Artifact \<Rightarrow> reader \<Rightarrow> 'c \<Rightarrow> 'c \<times> Artifact result"
  cp_ReserveCapability :: "Assignment \<Rightarrow> string \<Rightarrow> string \<Rightarrow> CapabilityRequest \<Rightarrow> 'c \<Rightarrow> 'c \<times> CapabilityReservation result"
  cp_FinishCapability :: "Assignment \<Rightarrow> CapabilityReservation \<Rightarrow> CapabilityResult \<Rightarrow> string \<Rightarrow> 'c \<Rightarrow> 'c \<times> unit result"
  cp_CreateInteraction :: "Assignment \<Rightarrow> InteractionRequest \<Rightarrow> 'c \<Rightarrow> 'c \<times> Interaction result"
  cp_GetInteraction :: "Assignment \<Rightarrow> string \<Rightarrow> 'c \<Rightarrow> 'c \<times> Interaction result"

text \<open>The service is a control plane for a node in the same process.\<close>

definition servicePlane :: "('s, 'b) Service \<Rightarrow> (('s, 'b) service_state) ControlPlane" where
  "servicePlane svc =
    \<lparr>cp_RegisterNode = Service_RegisterNode svc, cp_Heartbeat = Service_Heartbeat svc, cp_Claim = Service_Claim svc,
     cp_Start = Service_Start svc, cp_Renew = Service_Renew svc, cp_AppendEvent = Service_AppendEvent svc,
     cp_Complete = Service_Complete svc, cp_Fail = Service_Fail svc,
     cp_AcknowledgeCancellation = Service_AcknowledgeCancellation svc, cp_UploadArtifact = Service_UploadArtifact svc,
     cp_ReserveCapability = Service_ReserveCapability svc, cp_FinishCapability = Service_FinishCapability svc,
     cp_CreateInteraction = Service_CreateInteraction svc, cp_GetInteraction = Service_GetInteraction svc\<rparr>"

section \<open>Time and calls\<close>

record 'c node_world =
  nw_now :: time
  nw_lag :: "nat \<Rightarrow> nat"
  nw_calls :: nat
  nw_cp :: 'c

record gocontext =
  gc_done :: "time option"
  gc_cancelled :: bool

definition context_Err :: "bool \<Rightarrow> error" where
  "context_Err cancelled = GoError [ContextDone] (if cancelled then ''context canceled'' else ''context deadline exceeded'')"

definition context_WithTimeout :: "gocontext \<Rightarrow> duration \<Rightarrow> ('c, 'z) node_world_scheme \<Rightarrow> time \<times> error" where
  "context_WithTimeout ctx timeout w =
    (case gc_done ctx of
       Some t \<Rightarrow> if t \<le> nw_now w + timeout then (t, context_Err (gc_cancelled ctx)) else (nw_now w + timeout, context_Err False)
     | None \<Rightarrow> (nw_now w + timeout, context_Err False))"

definition call :: "('c \<Rightarrow> 'c \<times> 'a) \<Rightarrow> ('c, 'z) node_world_scheme \<Rightarrow> ('c, 'z) node_world_scheme \<times> 'a" where
  "call f w = (case f (nw_cp w) of (c, r) \<Rightarrow>
     (w\<lparr>nw_cp := c, nw_now := nw_now w + int (nw_lag w (nw_calls w)), nw_calls := Suc (nw_calls w)\<rparr>, r))"

text \<open>\<open>time.NewTimer(delay)\<close> and the \<open>select\<close> that waits for it or for the context; \<open>True\<close> when the timer fired.\<close>

definition wait :: "time \<Rightarrow> duration \<Rightarrow> ('c, 'z) node_world_scheme \<Rightarrow> ('c, 'z) node_world_scheme \<times> bool" where
  "wait deadline delay w =
    (if deadline \<le> nw_now w + delay then (w\<lparr>nw_now := max (nw_now w) deadline\<rparr>, False)
     else (w\<lparr>nw_now := nw_now w + delay\<rparr>, True))"

lemma call_simps [simp]:
  "nw_calls (fst (call f w)) = Suc (nw_calls w)" "nw_lag (fst (call f w)) = nw_lag w"
  "nw_now (fst (call f w)) = nw_now w + int (nw_lag w (nw_calls w))"
  "nw_cp (fst (call f w)) = fst (f (nw_cp w))" "snd (call f w) = snd (f (nw_cp w))"
  "node_world.more (fst (call f w)) = node_world.more w"
  by (simp_all add: call_def split: prod.split)

lemma wait_simps [simp]:
  "nw_calls (fst (wait d t w)) = nw_calls w" "nw_cp (fst (wait d t w)) = nw_cp w" "nw_lag (fst (wait d t w)) = nw_lag w"
  "node_world.more (fst (wait d t w)) = node_world.more w"
  by (simp_all add: wait_def)

lemma callD: "call f w = (w', r) \<Longrightarrow> nw_calls w' = Suc (nw_calls w) \<and> f (nw_cp w) = (nw_cp w', r) \<and>
    node_world.more w' = node_world.more w"
  by (auto simp: call_def split: prod.splits)

lemma waitD: "wait d t w = (w', b) \<Longrightarrow> nw_calls w' = nw_calls w \<and> nw_cp w' = nw_cp w \<and> node_world.more w' = node_world.more w"
  by (auto simp: wait_def split: if_splits)

section \<open>Repeated calls\<close>

text \<open>The errors after which neither loop tries again.\<close>

definition refused :: "error \<Rightarrow> bool" where
  "refused err \<longleftrightarrow> errors_Is err InvalidLease \<or> errors_Is err InvalidTransition \<or> errors_Is err RunCancelledErr \<or> errors_Is err NotFound"

definition millisecond :: duration where "millisecond = 1000000"

text \<open>The delay after the \<open>k\<close>-th failed call: 100 ms, doubled while it is below a second.\<close>

primrec backoff :: "nat \<Rightarrow> duration" where
  "backoff 0 = 100 * millisecond"
| "backoff (Suc k) = (if backoff k < second then 2 * backoff k else backoff k)"

lemma backoff_pos: "backoff k > 0"
  by (induction k) (simp_all add: millisecond_def)

text \<open>
  The loop of \<open>deliverEvent\<close> and \<open>retryFinalReport\<close>; the \<open>k\<close>-th iteration has the delay \<open>backoff k\<close>.
\<close>

function retry_loop :: "string \<Rightarrow> time \<Rightarrow> error \<Rightarrow> ('c \<Rightarrow> 'c \<times> unit result) \<Rightarrow> nat \<Rightarrow> ('c, 'z) node_world_scheme
    \<Rightarrow> ('c, 'z) node_world_scheme \<times> error option" where
  "retry_loop what deadline cause f k w =
    (case call f w of
       (w, Inr _) \<Rightarrow> (w, None)
     | (w, Inl err) \<Rightarrow>
         if refused err then (w, Some err)
         else case wait deadline (backoff k) w of
           (w, False) \<Rightarrow> (w, Some (GoError (err_is (errors_Join err cause)) (what @ '' deadline: '' @ err_text (errors_Join err cause))))
         | (w, True) \<Rightarrow> retry_loop what deadline cause f (Suc k) w)"
  by pat_completeness auto

lemma retry_step_now:
  assumes "call f w = (w1, Inl err)" "wait deadline (backoff k) w1 = (w2, True)"
  shows "nw_now w + backoff k \<le> nw_now w2" "nw_now w2 < deadline"
proof -
  have "nw_now w1 \<ge> nw_now w" using call_simps(3) [of f w] assms(1) by simp
  then show "nw_now w + backoff k \<le> nw_now w2" "nw_now w2 < deadline"
    using assms(2) by (auto simp: wait_def split: if_splits)
qed

termination retry_loop
proof (relation "measure (\<lambda>(_, deadline, _, _, _, w). nat (deadline - nw_now w))", simp, goal_cases)
  case (1 what deadline cause f k w w1 r err w2 b)
  then have "nw_now w + backoff k \<le> nw_now w2" "nw_now w2 < deadline" using retry_step_now by (metis prod.collapse)+
  then show ?case using backoff_pos [of k] by simp
qed

declare retry_loop.simps [simp del]

text \<open>
  \<open>jsonSize\<close> is the length of the text \<open>json.Marshal\<close> produces. The frozen payload is sent as it is.
\<close>

definition deliverEvent :: "(json \<Rightarrow> nat) \<Rightarrow> gocontext \<Rightarrow> 'c ControlPlane \<Rightarrow> Assignment \<Rightarrow> string \<Rightarrow> string \<Rightarrow> goany
    \<Rightarrow> ('c, 'z) node_world_scheme \<Rightarrow> ('c, 'z) node_world_scheme \<times> error option" where
  "deliverEvent jsonSize ctx cp a eventID kind data w =
    (case json_Marshal data of Inl err \<Rightarrow> (w, Some err)
     | Inr payload \<Rightarrow>
       if jsonSize payload > 2 ^ 20 then (w, Some (errors_New ''event payload exceeds 1 MiB''))
       else let (deadline, cause) = context_WithTimeout ctx (5 * second) w
            in retry_loop ''event delivery'' deadline cause
                 (cp_AppendEvent cp (as_RunID a) (as_AttemptID a) (as_LeaseToken a) kind (GoVal payload) [eventID]) 0 w)"

definition retryFinalReport :: "gocontext \<Rightarrow> ('c \<Rightarrow> 'c \<times> unit result) \<Rightarrow> ('c, 'z) node_world_scheme
    \<Rightarrow> ('c, 'z) node_world_scheme \<times> error option" where
  "retryFinalReport ctx report w =
    (let (deadline, cause) = context_WithTimeout ctx (10 * second) w
     in retry_loop ''final report'' deadline cause report 0 w)"

text \<open>
  Rule induction over the loop: a property of the control plane that every call keeps is kept by the
  loop, and a loop that returns no error ended with a call that was answered.
\<close>

lemma retry_loop_keeps:
  assumes "P (nw_cp w)" "\<And>c. P c \<Longrightarrow> P (fst (f c))" "retry_loop what deadline cause f k w = (w', err)"
  shows "P (nw_cp w')" "err = None \<Longrightarrow> \<exists>c. P c \<and> f c = (nw_cp w', Inr ())"
    "err = Some e \<Longrightarrow> refused e \<Longrightarrow> \<not> refused cause \<Longrightarrow> \<exists>c. P c \<and> f c = (nw_cp w', Inl e)"
proof -
  have "P (nw_cp w') \<and> (err = None \<longrightarrow> (\<exists>c. P c \<and> f c = (nw_cp w', Inr ()))) \<and>
      (err = Some e \<longrightarrow> refused e \<longrightarrow> \<not> refused cause \<longrightarrow> (\<exists>c. P c \<and> f c = (nw_cp w', Inl e)))"
    using assms
  proof (induction what deadline cause f k w rule: retry_loop.induct)
    case (1 what deadline cause f k w)
    obtain w1 r where c: "call f w = (w1, r)" by fastforce
    then have fc: "f (nw_cp w) = (nw_cp w1, r)" by (simp add: callD)
    with 1(2,3) have P1: "P (nw_cp w1)" by (metis fst_conv)
    show ?case
    proof (cases r)
      case (Inr u)
      with 1(4) c have "w' = w1" "err = None" by (simp_all add: retry_loop.simps [of what])
      with P1 fc Inr 1(2) show ?thesis by auto
    next
      case (Inl e1)
      show ?thesis
      proof (cases "refused e1")
        case True
        with 1(4) c Inl have "w' = w1" "err = Some e1" by (simp_all add: retry_loop.simps [of what])
        with True P1 fc Inl 1(2) show ?thesis by blast
      next
        case False
        obtain w2 fired where wt: "wait deadline (backoff k) w1 = (w2, fired)" by fastforce
        then have cp2: "nw_cp w2 = nw_cp w1" by (simp add: waitD)
        show ?thesis
        proof (cases fired)
          case True
          with 1(4) c Inl False wt have rec: "retry_loop what deadline cause f (Suc k) w2 = (w', err)"
            by (simp add: retry_loop.simps [of what _ _ _ k])
          show ?thesis
            by (rule 1(1) [OF c [symmetric] Inl False wt [symmetric]]) (use True P1 cp2 1(3) rec in auto)
        next
          case no: False
          with 1(4) c Inl False wt have "w' = w2"
            "err = Some (GoError (err_is (errors_Join e1 cause)) (what @ '' deadline: '' @ err_text (errors_Join e1 cause)))"
            by (simp_all add: retry_loop.simps [of what])
          with P1 cp2 False show ?thesis by (auto simp: refused_def errors_Is_def errors_Join_def)
        qed
      qed
    qed
  qed
  then show "P (nw_cp w')" "err = None \<Longrightarrow> \<exists>c. P c \<and> f c = (nw_cp w', Inr ())"
    "err = Some e \<Longrightarrow> refused e \<Longrightarrow> \<not> refused cause \<Longrightarrow> \<exists>c. P c \<and> f c = (nw_cp w', Inl e)"
    by blast+
qed

lemma retry_loop_more: "node_world.more (fst (retry_loop what deadline cause f k w)) = node_world.more w"
proof (induction what deadline cause f k w rule: retry_loop.induct)
  case (1 what deadline cause f k w)
  then show ?case
    by (subst retry_loop.simps) (auto simp: callD waitD split: prod.splits sum.splits bool.splits)
qed

lemma deliverEvent_more: "node_world.more (fst (deliverEvent jsonSize ctx cp a eventID kind data w)) = node_world.more w"
  by (simp add: deliverEvent_def retry_loop_more split: sum.split prod.split)

text \<open>The loop makes \<open>n\<close> calls at most when \<open>n\<close> delays outlast the time it has.\<close>

lemma retry_loop_calls:
  assumes "deadline \<le> nw_now w + (\<Sum>i = k..<k + Suc n. backoff i)"
  shows "nw_calls (fst (retry_loop what deadline cause f k w)) \<le> nw_calls w + Suc n"
  using assms
proof (induction n arbitrary: k w)
  case 0
  have "\<not> (call f w = (w1, Inl err) \<and> wait deadline (backoff k) w1 = (w2, True))" for w1 err w2
    using retry_step_now [of f w w1 err deadline k w2] 0 by auto
  then show ?case
    by (subst retry_loop.simps) (auto simp: callD waitD split: prod.splits sum.splits bool.splits dest: callD waitD)
next
  case (Suc n)
  have "nw_calls (fst (retry_loop what deadline cause f (Suc k) w2)) \<le> nw_calls w + Suc (Suc n)"
    if "call f w = (w1, Inl err)" "wait deadline (backoff k) w1 = (w2, True)" for w1 err w2
  proof -
    have "nw_calls w2 = Suc (nw_calls w)"
      using that by (auto dest!: callD waitD)
    moreover have "(\<Sum>i = k..<k + Suc (Suc n). backoff i) = backoff k + (\<Sum>i = Suc k..<Suc k + Suc n. backoff i)"
      by (simp add: sum.atLeast_Suc_lessThan)
    ultimately show ?thesis
      using Suc.IH [of w2 "Suc k"] Suc.prems retry_step_now [OF that] by simp
  qed
  then show ?case
    by (subst retry_loop.simps) (auto simp: callD waitD split: prod.splits sum.splits bool.splits dest: callD waitD)
qed

lemma backoff_sum: "(\<Sum>i = 0..<0 + Suc 6. backoff i) = 63 * (second div 10)" "(\<Sum>i = 0..<0 + Suc 9. backoff i) = 111 * (second div 10)"
  by (simp_all add: eval_nat_numeral millisecond_def second_def)

lemma deliverEvent_calls: "nw_calls (fst (deliverEvent jsonSize ctx cp a eventID kind data w)) \<le> nw_calls w + 7"
proof -
  obtain deadline cause where ctx: "context_WithTimeout ctx (5 * second) w = (deadline, cause)" by fastforce
  then have "deadline \<le> nw_now w + 5 * second"
    by (auto simp: context_WithTimeout_def split: option.splits if_splits)
  then have "deadline \<le> nw_now w + (\<Sum>i = 0..<0 + Suc 6. backoff i)"
    unfolding backoff_sum by (simp add: second_def)
  from retry_loop_calls [OF this] show ?thesis
    by (simp add: deliverEvent_def ctx split: sum.split)
qed

lemma retryFinalReport_calls: "nw_calls (fst (retryFinalReport ctx report w)) \<le> nw_calls w + 10"
proof -
  obtain deadline cause where ctx: "context_WithTimeout ctx (10 * second) w = (deadline, cause)" by fastforce
  then have "deadline \<le> nw_now w + 10 * second"
    by (auto simp: context_WithTimeout_def split: option.splits if_splits)
  then have "deadline \<le> nw_now w + (\<Sum>i = 0..<0 + Suc 9. backoff i)"
    unfolding backoff_sum by (simp add: second_def)
  from retry_loop_calls [OF this] show ?thesis
    by (simp add: retryFinalReport_def ctx)
qed

section \<open>What a producer relies on\<close>

definition events_named :: "string \<Rightarrow> Event list \<Rightarrow> Event list" where
  "events_named eid evs = filter (\<lambda>e. ev_ID e = eid) evs"

text \<open>
  The contract of a control plane towards a node. Its states follow each other by \<open>leads\<close>, along which
  logs only grow; an answered append has its event in the log, with the type and the data that were
  sent; a producer identity names at most one event.
\<close>

locale event_sink =
  fixes cp :: "'c ControlPlane" and log :: "'c \<Rightarrow> string \<Rightarrow> Event list" and ok :: "'c \<Rightarrow> bool" and leads :: "'c \<Rightarrow> 'c \<Rightarrow> bool"
  assumes leads_refl: "leads c c"
    and leads_trans: "leads c c' \<Longrightarrow> leads c' c'' \<Longrightarrow> leads c c''"
    and leads_log: "leads c c' \<Longrightarrow> prefix (log c rid) (log c' rid)"
    and append_keeps: "ok c \<Longrightarrow> ok (fst (cp_AppendEvent cp rid aid lease ty v ids c)) \<and> leads c (fst (cp_AppendEvent cp rid aid lease ty v ids c))"
    and append_done: "ok c \<Longrightarrow> cp_AppendEvent cp rid aid lease ty v ids c = (c', Inr ()) \<Longrightarrow> EventIdentity aid lease ids \<noteq> [] \<Longrightarrow>
      \<exists>e \<in> set (log c' rid). ev_ID e = EventIdentity aid lease ids \<and> SameEvent (ev_Type e) (ev_Data e) ty v = None"
    and fail_keeps: "ok c \<Longrightarrow> ok (fst (cp_Fail cp a cause c)) \<and> leads c (fst (cp_Fail cp a cause c))"
    and acknowledge_keeps: "ok c \<Longrightarrow> ok (fst (cp_AcknowledgeCancellation cp a c)) \<and> leads c (fst (cp_AcknowledgeCancellation cp a c))"
    and named_once: "ok c \<Longrightarrow> EventIdentity aid lease ids \<noteq> [] \<Longrightarrow> length (events_named (EventIdentity aid lease ids) (log c rid)) \<le> 1"
begin

lemma append_one:
  assumes "ok c" "cp_AppendEvent cp rid aid lease ty v ids c = (c', Inr ())" "EventIdentity aid lease ids \<noteq> []"
  shows "\<exists>e. events_named (EventIdentity aid lease ids) (log c' rid) = [e] \<and> SameEvent (ev_Type e) (ev_Data e) ty v = None"
proof -
  let ?id = "EventIdentity aid lease ids"
  obtain e where e: "e \<in> set (log c' rid)" "ev_ID e = ?id" "SameEvent (ev_Type e) (ev_Data e) ty v = None"
    using append_done [OF assms] by blast
  have "ok c'" using append_keeps [OF assms(1)] assms(2) by (metis fst_conv)
  then have "length (events_named ?id (log c' rid)) \<le> 1" using named_once assms(3) by blast
  moreover have "e \<in> set (events_named ?id (log c' rid))" using e by (simp add: events_named_def)
  ultimately have "events_named ?id (log c' rid) = [e]" by (cases "events_named ?id (log c' rid)") auto
  with e(3) show ?thesis by blast
qed

text \<open>However often the call is repeated, the event is there once when the delivery was acknowledged.\<close>

lemma deliver_once:
  assumes "ok (nw_cp w)" "eventID \<noteq> []" "deliverEvent jsonSize ctx cp a eventID kind data w = (w', err)"
  shows "ok (nw_cp w')" "leads (nw_cp w) (nw_cp w')"
    "length (events_named (EventIdentity (as_AttemptID a) (as_LeaseToken a) [eventID]) (log (nw_cp w') (as_RunID a))) \<le> 1"
    "err = None \<Longrightarrow> \<exists>e j. json_Marshal data = Inr j \<and>
       events_named (EventIdentity (as_AttemptID a) (as_LeaseToken a) [eventID]) (log (nw_cp w') (as_RunID a)) = [e] \<and>
       SameEvent (ev_Type e) (ev_Data e) kind (GoVal j) = None"
    "err = Some x \<Longrightarrow> refused x \<Longrightarrow> \<exists>c j. ok c \<and> leads (nw_cp w) c \<and> json_Marshal data = Inr j \<and>
       cp_AppendEvent cp (as_RunID a) (as_AttemptID a) (as_LeaseToken a) kind (GoVal j) [eventID] c = (nw_cp w', Inl x)"
proof -
  let ?id = "EventIdentity (as_AttemptID a) (as_LeaseToken a) [eventID]"
  let ?P = "\<lambda>c. ok c \<and> leads (nw_cp w) c"
  have id: "?id \<noteq> []" using assms(2) by (simp add: EventIdentity_def)
  have all: "?P (nw_cp w') \<and> (err = None \<longrightarrow> (\<exists>e j. json_Marshal data = Inr j \<and> events_named ?id (log (nw_cp w') (as_RunID a)) = [e] \<and>
       SameEvent (ev_Type e) (ev_Data e) kind (GoVal j) = None)) \<and>
      (err = Some x \<longrightarrow> refused x \<longrightarrow> (\<exists>c j. ?P c \<and> json_Marshal data = Inr j \<and>
        cp_AppendEvent cp (as_RunID a) (as_AttemptID a) (as_LeaseToken a) kind (GoVal j) [eventID] c = (nw_cp w', Inl x)))"
  proof (cases "json_Marshal data")
    case (Inl e)
    then have "w' = w" "err = Some e" "\<not> refused e"
      using assms(3) by (auto simp: deliverEvent_def json_Marshal_def refused_def split: goany.splits)
    with assms(1) leads_refl show ?thesis by auto
  next
    case (Inr j)
    show ?thesis
    proof (cases "jsonSize j > 2 ^ 20")
      case True
      with Inr assms leads_refl show ?thesis by (auto simp: deliverEvent_def refused_def)
    next
      case False
      let ?f = "cp_AppendEvent cp (as_RunID a) (as_AttemptID a) (as_LeaseToken a) kind (GoVal j) [eventID]"
      obtain deadline cause where ctx: "context_WithTimeout ctx (5 * second) w = (deadline, cause)" by fastforce
      then have cause: "\<not> refused cause"
        by (auto simp: context_WithTimeout_def refused_def context_Err_def errors_Is_def split: option.splits if_splits)
      from False Inr assms(3) have loop: "retry_loop ''event delivery'' deadline cause ?f 0 w = (w', err)"
        by (simp add: deliverEvent_def ctx)
      have step: "?P c \<Longrightarrow> ?P (fst (?f c))" for c using append_keeps leads_trans by blast
      have start: "?P (nw_cp w)" using assms(1) leads_refl by simp
      have "?P (nw_cp w')"
        by (rule retry_loop_keeps(1) [where P = ?P and f = ?f, OF start _ loop]) (rule step)
      moreover have "\<exists>c. ?P c \<and> ?f c = (nw_cp w', Inr ())" if "err = None"
        by (rule retry_loop_keeps(2) [where P = ?P and f = ?f, OF start _ loop that]) (rule step)
      moreover have "\<exists>c. ?P c \<and> ?f c = (nw_cp w', Inl x)" if "err = Some x" "refused x"
        by (rule retry_loop_keeps(3) [where P = ?P and f = ?f, OF start _ loop that cause]) (rule step)
      ultimately show ?thesis using append_one [OF _ _ id] Inr by blast
    qed
  qed
  then show "ok (nw_cp w')" "leads (nw_cp w) (nw_cp w')" by blast+
  then show "length (events_named ?id (log (nw_cp w') (as_RunID a))) \<le> 1" using named_once id by blast
  from all show "err = None \<Longrightarrow> \<exists>e j. json_Marshal data = Inr j \<and> events_named ?id (log (nw_cp w') (as_RunID a)) = [e] \<and>
       SameEvent (ev_Type e) (ev_Data e) kind (GoVal j) = None"
    "err = Some x \<Longrightarrow> refused x \<Longrightarrow> \<exists>c j. ok c \<and> leads (nw_cp w) c \<and> json_Marshal data = Inr j \<and>
       cp_AppendEvent cp (as_RunID a) (as_AttemptID a) (as_LeaseToken a) kind (GoVal j) [eventID] c = (nw_cp w', Inl x)"
    by blast+
qed

end

section \<open>The in-memory control plane\<close>

definition producer_unique :: "MemoryStorage \<Rightarrow> bool" where
  "producer_unique s \<longleftrightarrow> (\<forall>rid aid lease ids. EventIdentity aid lease ids \<noteq> [] \<longrightarrow>
     length (events_named (EventIdentity aid lease ids) (ms_events s rid)) \<le> 1)"

lemma events_named_append [simp]: "events_named i (xs @ ys) = events_named i xs @ events_named i ys"
  by (simp add: events_named_def)

lemma events_named_new [simp]: "EventIdentity aid lease ids \<noteq> [] \<Longrightarrow> events_named (EventIdentity aid lease ids) [new_event run ty v s] = []"
  by (simp add: events_named_def EventIdentity_def new_event_def id_text_def split: if_splits)

lemma find_event_named: "find_event i es = None \<longleftrightarrow> events_named i es = []"
  by (induction es) (auto simp: events_named_def)

lemma find_event_in: "find_event i es = Some e \<Longrightarrow> e \<in> set es"
  by (induction es) (auto split: if_splits)

lemma lifecycle_step_unique:
  assumes "lifecycle_step s s'" "producer_unique s"
  shows "producer_unique s'"
proof -
  have new: "producer_unique t" if "ms_events t = (ms_events s)(rid := ms_events s rid @ [e])"
    "\<And>aid lease ids. EventIdentity aid lease ids \<noteq> [] \<Longrightarrow> events_named (EventIdentity aid lease ids) [e] \<noteq> [] \<Longrightarrow>
      events_named (EventIdentity aid lease ids) (ms_events s rid) = []" for t rid e
  proof (unfold producer_unique_def, intro allI impI)
    fix rid' aid lease ids assume id: "EventIdentity aid lease ids \<noteq> []"
    have "length (events_named i [e]) \<le> 1" for i by (simp add: events_named_def)
    then show "length (events_named (EventIdentity aid lease ids) (ms_events t rid')) \<le> 1"
      using that id assms(2) unfolding producer_unique_def
      by (cases "events_named (EventIdentity aid lease ids) [e] = []") (auto simp: that(1))
  qed
  from assms(1) show ?thesis
    unfolding lifecycle_step_def
  proof
    assume "run_step s s'"
    then show ?thesis
    proof cases
      case (event run ty v)
      show ?thesis by (rule new [of _ "run_ID run" "new_event run ty v s"]) (simp_all add: event)
    next
      case (producer_event run eid aid lease ids ty v)
      show ?thesis
        by (rule new [of _ "run_ID run" "(new_event run ty v s)\<lparr>ev_ID := eid\<rparr>"])
          (use producer_event in \<open>simp_all add: rename_last_events find_event_named events_named_def split: if_splits\<close>)
    qed (use assms(2) in \<open>simp_all add: producer_unique_def\<close>)
  next
    assume "submit_step s s'"
    then show ?thesis using assms(2) by cases (simp add: producer_unique_def)
  qed
qed

definition memory_ok :: "MemoryStorage \<Rightarrow> bool" where
  "memory_ok s \<longleftrightarrow> storage_inv s \<and> producer_unique s"

lemma lifecycle_unique: "lifecycle_step\<^sup>*\<^sup>* s t \<Longrightarrow> producer_unique s \<Longrightarrow> producer_unique t"
  by (induction rule: rtranclp_induct) (auto intro: lifecycle_step_unique)

definition memory_leads :: "MemoryStorage \<Rightarrow> MemoryStorage \<Rightarrow> bool" where
  "memory_leads s t \<longleftrightarrow> lifecycle_step\<^sup>*\<^sup>* s t"

lemma memory_leads_trans: "memory_leads s t \<Longrightarrow> memory_leads t u \<Longrightarrow> memory_leads s u"
  by (simp add: memory_leads_def)

lemma memory_leads_log: "memory_leads s t \<Longrightarrow> prefix (ms_events s rid) (ms_events t rid)"
  using lifecycle_events [of s t rid] by (auto simp: memory_leads_def prefix_def)

lemma run_steps_ok:
  assumes "run_steps s t" "memory_ok s"
  shows "memory_ok t" "memory_leads s t"
  using run_steps_lifecycle [OF assms(1)] run_steps_inv [OF assms(1)] assms(2) lifecycle_unique
  by (auto simp: memory_ok_def memory_leads_def)

lemma leads_to_ok:
  assumes "leads_to sv s t" "memory_ok s"
  shows "memory_ok t" "memory_leads s t"
proof -
  have "storage_inv t \<and> memory_leads s t"
    by (rule leads_to_induct [OF assms(1)]) (use assms(2) in \<open>auto simp: memory_ok_def memory_leads_def\<close>)
  then show "memory_ok t" "memory_leads s t"
    using assms(2) lifecycle_unique by (auto simp: memory_ok_def memory_leads_def)
qed

lemma reachable_ok: "reachable sv s \<Longrightarrow> memory_ok s"
proof (induction rule: reachable.induct)
  case (start w)
  then show ?case using storage_inv_NewMemoryStorage [of w]
    by (simp add: memory_ok_def producer_unique_def NewMemoryStorage_def world.defs events_named_def)
next
  case (step s s')
  then show ?case using leads_to_ok(1) [OF leads_to.later [OF leads_to.here]] by blast
qed

lemma servicePlane_memory:
  "cp_AppendEvent (servicePlane (memoryService sv it ttl)) rid aid lease ty v ids w = on_storage (AppendEvent rid aid lease ty v ids) w"
  "cp_Fail (servicePlane (memoryService sv it ttl)) a cause w = on_storage (Fail a cause) w"
  "cp_AcknowledgeCancellation (servicePlane (memoryService sv it ttl)) a w = on_storage (AcknowledgeCancellation a) w"
  by (simp_all add: servicePlane_def Service_AppendEvent_def Service_Fail_def Service_AcknowledgeCancellation_def memoryStorage_def)

lemma on_storage_fst [simp]: "ss_storage (fst (on_storage f w)) = fst (f (ss_storage w))"
  by (simp add: on_storage_def split: prod.split)

lemma AppendEvent_ok:
  "memory_ok s \<Longrightarrow> memory_ok (fst (AppendEvent rid aid lease ty v ids s))"
  "memory_ok s \<Longrightarrow> memory_leads s (fst (AppendEvent rid aid lease ty v ids s))"
  by (rule run_steps_ok [OF AppendEvent_steps]; simp add: memory_ok_def)+

interpretation memory_sink: event_sink "servicePlane (memoryService sv it ttl)" "\<lambda>w. ms_events (ss_storage w)"
  "\<lambda>w. memory_ok (ss_storage w)" "\<lambda>w w'. memory_leads (ss_storage w) (ss_storage w')"
proof (unfold_locales, goal_cases)
  case (1 c)
  then show ?case by (simp add: memory_leads_def)
next
  case (2 c c' c'')
  then show ?case by (rule memory_leads_trans)
next
  case (3 c c' rid)
  then show ?case by (rule memory_leads_log)
next
  case (4 c rid aid lease ty v ids)
  then show ?case by (simp add: servicePlane_memory AppendEvent_ok)
next
  case (5 c rid aid lease ty v ids c')
  then have "AppendEvent rid aid lease ty v ids (ss_storage c) = (ss_storage c', Inr ())"
    by (auto simp: servicePlane_memory on_storage_def split: prod.splits)
  from AppendEvent_recorded [OF _ this 5(3)] 5(1) show ?case
    using find_event_id find_event_in by (fastforce simp: memory_ok_def)
next
  case (6 c a cause)
  then show ?case using run_steps_ok [OF Fail_steps] by (auto simp: servicePlane_memory memory_ok_def)
next
  case (7 c a)
  then show ?case using run_steps_ok [OF AcknowledgeCancellation_steps] by (auto simp: servicePlane_memory memory_ok_def)
next
  case (8 c aid lease ids rid)
  then show ?case by (simp add: memory_ok_def producer_unique_def)
qed

section \<open>A network\<close>

text \<open>
  What can happen to a call between the node and the control plane: it is answered, the request is
  lost, or the answer is lost after the call took effect. Before every call the other clients of the
  control plane may do anything (\<open>net_others\<close>). A transport error wraps no sentinel.
\<close>

datatype fate = Answered | RequestLost string | AnswerLost string

record 'c network =
  net_cp :: 'c
  net_fate :: "nat \<Rightarrow> fate"
  net_others :: "nat \<Rightarrow> 'c \<Rightarrow> 'c"
  net_sent :: nat

definition over_network :: "('c \<Rightarrow> 'c \<times> 'a result) \<Rightarrow> 'c network \<Rightarrow> 'c network \<times> 'a result" where
  "over_network f n =
    (let c = net_others n (net_sent n) (net_cp n)
     in case net_fate n (net_sent n) of
          Answered \<Rightarrow> (n\<lparr>net_cp := fst (f c), net_sent := Suc (net_sent n)\<rparr>, snd (f c))
        | RequestLost e \<Rightarrow> (n\<lparr>net_cp := c, net_sent := Suc (net_sent n)\<rparr>, Inl (errors_New e))
        | AnswerLost e \<Rightarrow> (n\<lparr>net_cp := fst (f c), net_sent := Suc (net_sent n)\<rparr>, Inl (errors_New e)))"

definition networkPlane :: "'c ControlPlane \<Rightarrow> ('c network) ControlPlane" where
  "networkPlane cp =
    \<lparr>cp_RegisterNode = (\<lambda>r. over_network (cp_RegisterNode cp r)), cp_Heartbeat = (\<lambda>n. over_network (cp_Heartbeat cp n)),
     cp_Claim = (\<lambda>n. over_network (cp_Claim cp n)), cp_Start = (\<lambda>a. over_network (cp_Start cp a)),
     cp_Renew = (\<lambda>a. over_network (cp_Renew cp a)),
     cp_AppendEvent = (\<lambda>rid aid lease ty v ids. over_network (cp_AppendEvent cp rid aid lease ty v ids)),
     cp_Complete = (\<lambda>a r. over_network (cp_Complete cp a r)), cp_Fail = (\<lambda>a cause. over_network (cp_Fail cp a cause)),
     cp_AcknowledgeCancellation = (\<lambda>a. over_network (cp_AcknowledgeCancellation cp a)),
     cp_UploadArtifact = (\<lambda>a art r. over_network (cp_UploadArtifact cp a art r)),
     cp_ReserveCapability = (\<lambda>a key hash r. over_network (cp_ReserveCapability cp a key hash r)),
     cp_FinishCapability = (\<lambda>a rsv res cause. over_network (cp_FinishCapability cp a rsv res cause)),
     cp_CreateInteraction = (\<lambda>a r. over_network (cp_CreateInteraction cp a r)),
     cp_GetInteraction = (\<lambda>a i. over_network (cp_GetInteraction cp a i))\<rparr>"

text \<open>The other clients use the methods of the storage.\<close>

definition network_ok :: "('v, 'c) semver \<Rightarrow> ((MemoryStorage, 'b) service_state) network \<Rightarrow> bool" where
  "network_ok sv n \<longleftrightarrow> memory_ok (ss_storage (net_cp n)) \<and>
     (\<forall>k c. memory_ok (ss_storage c) \<longrightarrow> leads_to sv (ss_storage c) (ss_storage (net_others n k c)))"

lemma over_network_keeps:
  assumes ok: "network_ok sv n" and f: "\<And>c. memory_ok (ss_storage c) \<Longrightarrow> memory_ok (ss_storage (fst (f c))) \<and>
      memory_leads (ss_storage c) (ss_storage (fst (f c)))"
  shows "network_ok sv (fst (over_network f n))"
    "memory_leads (ss_storage (net_cp n)) (ss_storage (net_cp (fst (over_network f n))))"
proof -
  let ?c = "net_others n (net_sent n) (net_cp n)"
  have lead: "leads_to sv (ss_storage (net_cp n)) (ss_storage ?c)" and "memory_ok (ss_storage (net_cp n))"
    using ok by (auto simp: network_ok_def)
  from leads_to_ok [OF this] have c: "memory_ok (ss_storage ?c)" "memory_leads (ss_storage (net_cp n)) (ss_storage ?c)" by blast+
  from f [OF c(1)] c ok show "network_ok sv (fst (over_network f n))"
    "memory_leads (ss_storage (net_cp n)) (ss_storage (net_cp (fst (over_network f n))))"
    by (auto simp: over_network_def network_ok_def Let_def split: fate.split intro: memory_leads_trans)
qed

lemma networkPlane_simps [simp]:
  "cp_AppendEvent (networkPlane cp) rid aid lease ty v ids = over_network (cp_AppendEvent cp rid aid lease ty v ids)"
  "cp_Fail (networkPlane cp) a cause = over_network (cp_Fail cp a cause)"
  "cp_AcknowledgeCancellation (networkPlane cp) a = over_network (cp_AcknowledgeCancellation cp a)"
  by (simp_all add: networkPlane_def)

interpretation network_sink: event_sink "networkPlane (servicePlane (memoryService sv it ttl))"
  "\<lambda>n. ms_events (ss_storage (net_cp n))" "network_ok sv" "\<lambda>n n'. memory_leads (ss_storage (net_cp n)) (ss_storage (net_cp n'))"
proof (unfold_locales, unfold networkPlane_simps, goal_cases)
  case (1 c)
  then show ?case by (simp add: memory_leads_def)
next
  case (2 c c' c'')
  then show ?case by (rule memory_leads_trans)
next
  case (3 c c' rid)
  then show ?case by (rule memory_leads_log)
next
  case (4 c rid aid lease ty v ids)
  then show ?case by (intro conjI over_network_keeps) (simp_all add: memory_sink.append_keeps)
next
  case (5 n rid aid lease ty v ids n')
  let ?c = "net_others n (net_sent n) (net_cp n)"
  have "memory_ok (ss_storage ?c)" using 5(1) leads_to_ok(1) unfolding network_ok_def by blast
  moreover have "cp_AppendEvent (servicePlane (memoryService sv it ttl)) rid aid lease ty v ids ?c = (net_cp n', Inr ())"
    using 5(2) by (auto simp: over_network_def Let_def prod_eq_iff split: fate.splits)
  ultimately show ?case using memory_sink.append_done 5(3) by blast
next
  case (6 c a cause)
  then show ?case by (intro conjI over_network_keeps) (simp_all add: memory_sink.fail_keeps)
next
  case (7 c a)
  then show ?case by (intro conjI over_network_keeps) (simp_all add: memory_sink.acknowledge_keeps)
next
  case (8 c aid lease ids rid)
  then show ?case using memory_sink.named_once by (auto simp: network_ok_def)
qed

text \<open>
  C19: delivery of an event over an unreliable network. Whatever requests and answers are lost and
  whatever the other clients of the control plane do meanwhile, \<open>deliverEvent\<close> makes at most seven
  calls, the identity of the event names at most one event of the run's log afterwards, and when the
  delivery is acknowledged it names exactly one, with the type and the data that were handed over.
\<close>

theorem event_delivered_once:
  assumes "network_ok sv (nw_cp w)" "eventID \<noteq> []"
    and "deliverEvent jsonSize ctx (networkPlane (servicePlane (memoryService sv it ttl))) a eventID kind data w = (w', err)"
  shows "nw_calls w' \<le> nw_calls w + 7 \<and>
    length (events_named (EventIdentity (as_AttemptID a) (as_LeaseToken a) [eventID])
      (ms_events (ss_storage (net_cp (nw_cp w'))) (as_RunID a))) \<le> 1 \<and>
    (err = None \<longrightarrow> (\<exists>e j. json_Marshal data = Inr j \<and>
      events_named (EventIdentity (as_AttemptID a) (as_LeaseToken a) [eventID])
        (ms_events (ss_storage (net_cp (nw_cp w'))) (as_RunID a)) = [e] \<and>
      SameEvent (ev_Type e) (ev_Data e) kind (GoVal j) = None))"
  using deliverEvent_calls [of jsonSize ctx "networkPlane (servicePlane (memoryService sv it ttl))" a eventID kind data w]
    network_sink.deliver_once [OF assms(1,2,3)] assms(3)
  by auto

text \<open>The first answer is lost: the node repeats the call.\<close>

definition demo_network :: "((MemoryStorage, MemoryBlobStore) service_state) network" where
  "demo_network = \<lparr>net_cp = demo_service_state at_running, net_fate = (\<lambda>k. if k = 0 then AnswerLost ''connection reset'' else Answered),
     net_others = (\<lambda>_ c. c), net_sent = 0\<rparr>"

definition demo_node_world :: "(((MemoryStorage, MemoryBlobStore) service_state) network) node_world" where
  "demo_node_world = \<lparr>nw_now = 0, nw_lag = (\<lambda>_. 1), nw_calls = 0, nw_cp = demo_network\<rparr>"

definition at_noted :: MemoryStorage where
  "at_noted = fst (AppendEvent (demo_id ''run'' 0) (demo_id ''attempt'' 1) (demo_id ''lease'' 4) ''note'' (GoVal JNull) [''1''] at_running)"

lemma at_noted:
  "AppendEvent (demo_id ''run'' 0) (demo_id ''attempt'' 1) (demo_id ''lease'' 4) ''note'' (GoVal JNull) [''1''] at_running = (at_noted, Inr ())"
  "AppendEvent (demo_id ''run'' 0) (demo_id ''attempt'' 1) (demo_id ''lease'' 4) ''note'' (GoVal JNull) [''1''] at_noted =
     (at_noted\<lparr>w_ticks := Suc 13\<rparr>, Inr ())"
  "demo_state at_noted 13 9" "ms_runs at_noted = [demo_id ''run'' 0 \<mapsto> running_run]"
proof -
  let ?id = "EventIdentity (demo_id ''attempt'' 1) (demo_id ''lease'' 4) [''1'']"
  have id: "hd ?id = CHR ''p''" "?id \<noteq> []" by (simp_all add: EventIdentity_def)
  have "find_event ?id (ms_events at_running (demo_id ''run'' 0)) = None"
    using demo_event_ids id(1) by (intro find_event_none) (fastforce simp: plain_ids_def)
  then have eq: "AppendEvent (demo_id ''run'' 0) (demo_id ''attempt'' 1) (demo_id ''lease'' 4) ''note'' (GoVal JNull) [''1''] at_running =
      (rename_last (demo_id ''run'' 0) ?id (appendEvent running_run ''note'' (GoVal JNull) (at_running\<lparr>w_ticks := 12\<rparr>)), Inr ())"
    using demo_authorize [OF at_running(1) _ at_running(2)] id(2)
    by (simp add: AppendEvent_def Let_def running_run_facts json_Marshal_def)
  show first: "AppendEvent (demo_id ''run'' 0) (demo_id ''attempt'' 1) (demo_id ''lease'' 4) ''note'' (GoVal JNull) [''1''] at_running
    = (at_noted, Inr ())" by (simp only: at_noted_def eq fst_conv)
  show st: "demo_state at_noted 13 9" "ms_runs at_noted = [demo_id ''run'' 0 \<mapsto> running_run]"
    unfolding at_noted_def eq using at_running by (simp_all add: demo_state_def)
  obtain e where e: "find_event ?id (ms_events at_noted (demo_id ''run'' 0)) = Some e"
    "SameEvent (ev_Type e) (ev_Data e) ''note'' (GoVal JNull) = None"
    using AppendEvent_recorded [OF reachable_inv [OF demo_reachable(5)] first id(2)] by blast
  show "AppendEvent (demo_id ''run'' 0) (demo_id ''attempt'' 1) (demo_id ''lease'' 4) ''note'' (GoVal JNull) [''1''] at_noted =
     (at_noted\<lparr>w_ticks := Suc 13\<rparr>, Inr ())"
    using AppendEvent_authorized [OF demo_authorize [OF st(1) _ st(2)] running_run_facts(5) _ id(2)] e by simp
qed

text \<open>The two calls of the scenario.\<close>

definition demo_network_noted :: "((MemoryStorage, MemoryBlobStore) service_state) network" where
  "demo_network_noted = demo_network\<lparr>net_cp := (demo_service_state at_running)\<lparr>ss_storage := at_noted\<rparr>, net_sent := 1\<rparr>"

lemma demo_append:
  "over_network (cp_AppendEvent (servicePlane (memoryService demo_semver (\<lambda>_ _. []) 0)) (demo_id ''run'' 0)
    (demo_id ''attempt'' 1) (demo_id ''lease'' 4) ''note'' (GoVal JNull) [''1'']) demo_network =
   (demo_network_noted, Inl (errors_New ''connection reset''))"
  "over_network (cp_AppendEvent (servicePlane (memoryService demo_semver (\<lambda>_ _. []) 0)) (demo_id ''run'' 0)
    (demo_id ''attempt'' 1) (demo_id ''lease'' 4) ''note'' (GoVal JNull) [''1'']) demo_network_noted =
   (demo_network_noted\<lparr>net_cp := (demo_service_state at_running)\<lparr>ss_storage := at_noted\<lparr>w_ticks := Suc 13\<rparr>\<rparr>, net_sent := Suc 1\<rparr>, Inr ())"
  by (simp_all add: demo_network_noted_def demo_network_def over_network_def servicePlane_memory on_storage_def at_noted Let_def del: One_nat_def)

definition demo_delivery :: "((((MemoryStorage, MemoryBlobStore) service_state) network) node_world) \<times> error option" where
  "demo_delivery = deliverEvent (\<lambda>_. 4) \<lparr>gc_done = None, gc_cancelled = False\<rparr>
     (networkPlane (servicePlane (memoryService demo_semver (\<lambda>_ _. []) 0))) (demo_asg 100) ''1'' ''note'' GoNil demo_node_world"

lemma demo_delivery: "snd demo_delivery = None" "nw_calls (fst demo_delivery) = 2"
proof -
  let ?f = "over_network (cp_AppendEvent (servicePlane (memoryService demo_semver (\<lambda>_ _. []) 0)) (demo_id ''run'' 0)
    (demo_id ''attempt'' 1) (demo_id ''lease'' 4) ''note'' (GoVal JNull) [''1''])"
  let ?n' = "demo_network_noted\<lparr>net_cp := (demo_service_state at_running)\<lparr>ss_storage := at_noted\<lparr>w_ticks := Suc 13\<rparr>\<rparr>, net_sent := Suc 1\<rparr>"
  note f = demo_append
  have "demo_delivery = retry_loop ''event delivery'' (5 * second) (context_Err False) ?f 0 demo_node_world"
    by (simp add: demo_delivery_def deliverEvent_def context_WithTimeout_def json_Marshal_def demo_asg_def del: One_nat_def)
      (simp add: demo_node_world_def)
  also have "\<dots> = (\<lparr>nw_now = 100 * millisecond + 2, nw_lag = (\<lambda>_. 1), nw_calls = 2, nw_cp = ?n'\<rparr>, None)"
    unfolding demo_node_world_def
    by (subst retry_loop.simps, simp add: call_def f wait_def second_def millisecond_def refused_def del: One_nat_def,
        subst retry_loop.simps, simp add: call_def f second_def millisecond_def del: One_nat_def)
  finally have eq: "demo_delivery = (\<lparr>nw_now = 100 * millisecond + 2, nw_lag = (\<lambda>_. 1), nw_calls = 2, nw_cp = ?n'\<rparr>, None)" .
  show "snd demo_delivery = None" "nw_calls (fst demo_delivery) = 2" unfolding eq by simp_all
qed

theorem event_delivered_once_witness:
  "nw_calls (fst demo_delivery) = 2 \<and>
   (\<exists>e. events_named (EventIdentity (demo_id ''attempt'' 1) (demo_id ''lease'' 4) [''1''])
      (ms_events (ss_storage (net_cp (nw_cp (fst demo_delivery)))) (demo_id ''run'' 0)) = [e])"
proof -
  have ok: "network_ok demo_semver (nw_cp demo_node_world)"
    using reachable_ok [OF demo_reachable(5)]
    by (simp add: network_ok_def demo_node_world_def demo_network_def leads_to.here)
  have eq: "deliverEvent (\<lambda>_. 4) \<lparr>gc_done = None, gc_cancelled = False\<rparr>
     (networkPlane (servicePlane (memoryService demo_semver (\<lambda>_ _. []) 0))) (demo_asg 100) ''1'' ''note'' GoNil demo_node_world =
     (fst demo_delivery, snd demo_delivery)" by (simp add: demo_delivery_def)
  from event_delivered_once [OF ok _ eq] demo_delivery show ?thesis by (auto simp: demo_asg_def)
qed

end
