(* ===== verification/Go_Disk.thy ===== *)
theory Go_Disk
  imports Go_Files "HOL-Library.AList"
begin

text \<open>
  A directory on a disk that can lose power. A file has its contents and whether they were synced; the
  directory has its entries as a program sees them (\<open>dk_files\<close>), and every earlier version of them
  since the directory itself was synced (\<open>dk_past\<close>): after a power failure each name has the entry of
  one of these versions, and a file whose contents were not synced has unknown contents. Names are
  relative to the directory.

  Every call may fail: \<open>dk_fault\<close> says which of the calls to come do, in the order they are made. A
  process that dies before its \<open>n\<close>-th call leaves the disk as a process all whose calls from the
  \<open>n\<close>-th on fail does, so a theorem about all fault plans is one about all points of a crash.
\<close>

record 'c disk_file =
  fl_data :: 'c
  fl_synced :: bool
  fl_regular :: bool

type_synonym 'c entries = "(string \<times> 'c disk_file) list"

record 'c disk =
  dk_files :: "'c entries"
  dk_past :: "'c entries list"
  dk_fault :: "nat \<Rightarrow> error option"
  dk_calls :: nat
  dk_temp :: "nat \<Rightarrow> nat"
  dk_torn :: 'c

definition syscall :: "'c disk \<Rightarrow> 'c disk \<times> error option" where
  "syscall d = (d\<lparr>dk_calls := Suc (dk_calls d)\<rparr>, dk_fault d (dk_calls d))"

definition set_files :: "'c entries \<Rightarrow> 'c disk \<Rightarrow> 'c disk" where
  "set_files es d = d\<lparr>dk_files := es, dk_past := dk_files d # dk_past d\<rparr>"

definition disk_ReadDir :: "'c disk \<Rightarrow> 'c disk \<times> 'c entries result" where
  "disk_ReadDir d = (case syscall d of (d, Some e) \<Rightarrow> (d, Inl e) | (d, None) \<Rightarrow> (d, Inr (sort_key fst (dk_files d))))"

text \<open>A file that is missing is reported as missing, and no other error says so.\<close>

definition not_missing :: "error \<Rightarrow> error" where
  "not_missing e = GoError (removeAll NotExist (err_is e)) (err_text e)"

definition disk_Stat :: "string \<Rightarrow> 'c disk \<Rightarrow> 'c disk \<times> 'c disk_file result" where
  "disk_Stat name d =
    (case syscall d of (d, Some e) \<Rightarrow> (d, Inl (not_missing e))
     | (d, None) \<Rightarrow> (d, case map_of (dk_files d) name of None \<Rightarrow> Inl ErrNotExist | Some f \<Rightarrow> Inr f))"

definition disk_ReadFile :: "string \<Rightarrow> 'c disk \<Rightarrow> 'c disk \<times> 'c result" where
  "disk_ReadFile name d = (case disk_Stat name d of (d, Inl e) \<Rightarrow> (d, Inl e) | (d, Inr f) \<Rightarrow> (d, Inr (fl_data f)))"

definition disk_Remove :: "string \<Rightarrow> 'c disk \<Rightarrow> 'c disk \<times> error option" where
  "disk_Remove name d =
    (case syscall d of (d, Some e) \<Rightarrow> (d, Some e)
     | (d, None) \<Rightarrow> (case map_of (dk_files d) name of None \<Rightarrow> (d, Some ErrNotExist)
         | Some _ \<Rightarrow> (set_files (AList.delete name (dk_files d)) d, None)))"

text \<open>\<open>os.CreateTemp\<close>: the prefix and a number; a number already taken, ten thousand times over, is an error.\<close>

definition disk_CreateTemp :: "string \<Rightarrow> 'c disk \<Rightarrow> 'c disk \<times> string result" where
  "disk_CreateTemp pre d =
    (let name = pre @ Itoa (int (dk_temp d (dk_calls d)))
     in case syscall d of (d, Some e) \<Rightarrow> (d, Inl e)
        | (d, None) \<Rightarrow>
          if map_of (dk_files d) name \<noteq> None then (d, Inl (errors_New ''file exists''))
          else (set_files ((name, \<lparr>fl_data = dk_torn d, fl_synced = False, fl_regular = True\<rparr>) # dk_files d) d, Inr name))"

text \<open>Writing the whole contents of an open file; a write that fails leaves some of the bytes, \<open>dk_torn\<close>.\<close>

definition disk_Write :: "string \<Rightarrow> 'c \<Rightarrow> 'c disk \<Rightarrow> 'c disk \<times> error option" where
  "disk_Write name data d =
    (case syscall d of
       (d, Some e) \<Rightarrow> (set_files (AList.update name \<lparr>fl_data = dk_torn d, fl_synced = False, fl_regular = True\<rparr> (dk_files d)) d, Some e)
     | (d, None) \<Rightarrow> (set_files (AList.update name \<lparr>fl_data = data, fl_synced = False, fl_regular = True\<rparr> (dk_files d)) d, None))"

definition disk_Sync :: "string \<Rightarrow> 'c disk \<Rightarrow> 'c disk \<times> error option" where
  "disk_Sync name d =
    (case syscall d of (d, Some e) \<Rightarrow> (d, Some e)
     | (d, None) \<Rightarrow> (case map_of (dk_files d) name of None \<Rightarrow> (d, None)
         | Some f \<Rightarrow> (set_files (AList.update name (f\<lparr>fl_synced := True\<rparr>) (dk_files d)) d, None)))"

definition disk_Rename :: "string \<Rightarrow> string \<Rightarrow> 'c disk \<Rightarrow> 'c disk \<times> error option" where
  "disk_Rename old new d =
    (case syscall d of (d, Some e) \<Rightarrow> (d, Some e)
     | (d, None) \<Rightarrow> (case map_of (dk_files d) old of None \<Rightarrow> (d, Some ErrNotExist)
         | Some f \<Rightarrow> (set_files (AList.update new f (AList.delete old (dk_files d))) d, None)))"

text \<open>Opening the directory and syncing it.\<close>

definition disk_SyncDir :: "'c disk \<Rightarrow> 'c disk \<times> error option" where
  "disk_SyncDir d =
    (case syscall d of (d, Some e) \<Rightarrow> (d, Some e)
     | (d, None) \<Rightarrow> (case syscall d of (d, Some e) \<Rightarrow> (d, Some e) | (d, None) \<Rightarrow> (d\<lparr>dk_past := []\<rparr>, None)))"

section \<open>Power failure\<close>

text \<open>The entries a name may have after a power failure, and the directories that can be found then.\<close>

definition survivors :: "string \<Rightarrow> 'c disk \<Rightarrow> 'c disk_file option set" where
  "survivors name d = (\<lambda>es. map_of es name) ` set (dk_files d # dk_past d)"

definition power_failure :: "'c disk \<Rightarrow> 'c entries \<Rightarrow> bool" where
  "power_failure d es \<longleftrightarrow> distinct (map fst es) \<and>
    (\<forall>name. \<exists>f \<in> survivors name d. case f of None \<Rightarrow> map_of es name = None
       | Some f \<Rightarrow> (\<exists>f'. map_of es name = Some f' \<and> fl_regular f' = fl_regular f \<and> (fl_synced f \<longrightarrow> fl_data f' = fl_data f)))"

text \<open>
  \<open>untouched N d d'\<close>: outside the names \<open>N\<close> the entries are the same, and so is, or more is known of,
  what survives.
\<close>

definition untouched :: "string set \<Rightarrow> 'c disk \<Rightarrow> 'c disk \<Rightarrow> bool" where
  "untouched N d d' \<longleftrightarrow> (\<forall>name. name \<notin> N \<longrightarrow> map_of (dk_files d') name = map_of (dk_files d) name \<and> survivors name d' \<subseteq> survivors name d)"

lemma survivors_now: "map_of (dk_files d) name \<in> survivors name d"
  by (simp add: survivors_def)

lemma untouched_refl [simp]: "untouched N d d"
  by (simp add: untouched_def)

lemma untouched_trans [trans]: "untouched M d d' \<Longrightarrow> untouched N d' d'' \<Longrightarrow> untouched (M \<union> N) d d''"
  by (auto simp: untouched_def)

lemma untouchedD: "untouched N d d' \<Longrightarrow> name \<notin> N \<Longrightarrow>
    map_of (dk_files d') name = map_of (dk_files d) name \<and> survivors name d' \<subseteq> survivors name d"
  by (simp add: untouched_def)

lemma untouched_mono: "untouched M d d' \<Longrightarrow> M \<subseteq> N \<Longrightarrow> untouched N d d'"
  by (auto simp: untouched_def)

lemma syscallD: "syscall d = (d', e) \<Longrightarrow> dk_files d' = dk_files d \<and> dk_past d' = dk_past d \<and> survivors name d' = survivors name d \<and>
    dk_torn d' = dk_torn d"
  by (auto simp: syscall_def survivors_def)

lemma set_files_simps [simp]:
  "dk_files (set_files es d) = es" "dk_torn (set_files es d) = dk_torn d"
  "survivors name (set_files es d) = insert (map_of es name) (survivors name d)"
  by (auto simp: set_files_def survivors_def)

lemma untouched_syscall: "syscall d = (d', e) \<Longrightarrow> untouched {} d d'"
  by (simp add: untouched_def syscallD)

lemma untouched_set_files: "map_of es = (map_of (dk_files d))(name := f) \<Longrightarrow> untouched {name} d (set_files es d)"
  by (auto simp: untouched_def survivors_now)

lemma ReadDirD:
  assumes "disk_ReadDir d = (d', r)"
  shows "untouched {} d d'" "dk_files d' = dk_files d" "r = Inr es \<Longrightarrow> es = sort_key fst (dk_files d)"
  using assms by (auto simp: disk_ReadDir_def untouched_def syscallD split: prod.splits option.splits dest: syscallD)

lemma StatD:
  assumes "disk_Stat name d = (d', r)"
  shows "untouched {} d d'" "dk_files d' = dk_files d" "r = Inr f \<Longrightarrow> map_of (dk_files d) name = Some f"
    "r = Inl e \<Longrightarrow> errors_Is e NotExist \<Longrightarrow> map_of (dk_files d) name = None"
  using assms
  by (auto simp: disk_Stat_def untouched_def syscallD not_missing_def errors_Is_def split: prod.splits option.splits dest: syscallD)

lemma RemoveD:
  assumes "disk_Remove name d = (d', e)"
  shows "untouched {name} d d'" "e = None \<Longrightarrow> map_of (dk_files d') = (map_of (dk_files d))(name := None)"
    "e = None \<Longrightarrow> map_of (dk_files d) name \<noteq> None" "e \<noteq> None \<Longrightarrow> untouched {} d d' \<and> dk_files d' = dk_files d"
    "survivors name d' \<subseteq> insert None (survivors name d)"
proof -
  obtain d1 r where s: "syscall d = (d1, r)" by fastforce
  note d1 = syscallD [OF s]
  have "untouched {name} d d' \<and> (e = None \<longrightarrow> map_of (dk_files d') = (map_of (dk_files d))(name := None)) \<and>
    (e = None \<longrightarrow> map_of (dk_files d) name \<noteq> None) \<and> (e \<noteq> None \<longrightarrow> untouched {} d d' \<and> dk_files d' = dk_files d) \<and>
    survivors name d' \<subseteq> insert None (survivors name d)"
    using assms s d1 untouched_syscall [OF s]
    by (auto simp: disk_Remove_def delete_conv' untouched_def survivors_now [of d] split: option.splits)
  then show "untouched {name} d d'" "e = None \<Longrightarrow> map_of (dk_files d') = (map_of (dk_files d))(name := None)"
    "e = None \<Longrightarrow> map_of (dk_files d) name \<noteq> None" "e \<noteq> None \<Longrightarrow> untouched {} d d' \<and> dk_files d' = dk_files d"
    "survivors name d' \<subseteq> insert None (survivors name d)" by blast+
qed

lemma CreateTempD:
  assumes "disk_CreateTemp pre d = (d', r)"
  shows "r = Inr name \<Longrightarrow> name = pre @ Itoa (int (dk_temp d (dk_calls d))) \<and> untouched {name} d d' \<and> map_of (dk_files d') name \<noteq> None"
    "r = Inl e \<Longrightarrow> untouched {} d d' \<and> dk_files d' = dk_files d"
proof -
  obtain d1 q where s: "syscall d = (d1, q)" by fastforce
  note d1 = syscallD [OF s]
  show "r = Inr name \<Longrightarrow> name = pre @ Itoa (int (dk_temp d (dk_calls d))) \<and> untouched {name} d d' \<and> map_of (dk_files d') name \<noteq> None"
    "r = Inl e \<Longrightarrow> untouched {} d d' \<and> dk_files d' = dk_files d"
    using assms s d1 untouched_syscall [OF s]
    by (auto simp: disk_CreateTemp_def Let_def untouched_def survivors_now [of d] split: option.splits if_splits)
qed

lemma WriteD:
  assumes "disk_Write name data d = (d', e)"
  shows "untouched {name} d d'"
    "e = None \<Longrightarrow> map_of (dk_files d') name = Some \<lparr>fl_data = data, fl_synced = False, fl_regular = True\<rparr>"
proof -
  obtain d1 q where s: "syscall d = (d1, q)" by fastforce
  note d1 = syscallD [OF s]
  show "untouched {name} d d'"
    "e = None \<Longrightarrow> map_of (dk_files d') name = Some \<lparr>fl_data = data, fl_synced = False, fl_regular = True\<rparr>"
    using assms s d1 untouched_syscall [OF s]
    by (auto simp: disk_Write_def untouched_def update_conv' survivors_now [of d] split: option.splits)
qed

lemma SyncD:
  assumes "disk_Sync name d = (d', e)"
  shows "untouched {name} d d'"
    "e = None \<Longrightarrow> map_of (dk_files d') name = map_option (fl_synced_update (\<lambda>_. True)) (map_of (dk_files d) name)"
proof -
  obtain d1 q where s: "syscall d = (d1, q)" by fastforce
  note d1 = syscallD [OF s]
  show "untouched {name} d d'"
    "e = None \<Longrightarrow> map_of (dk_files d') name = map_option (fl_synced_update (\<lambda>_. True)) (map_of (dk_files d) name)"
    using assms s d1 untouched_syscall [OF s]
    by (auto simp: disk_Sync_def untouched_def update_conv' survivors_now [of d] split: option.splits)
qed

lemma RenameD:
  assumes "disk_Rename old new d = (d', e)"
  shows "untouched {old, new} d d'"
    "e = None \<Longrightarrow> \<exists>f. map_of (dk_files d) old = Some f \<and> map_of (dk_files d') = (map_of (dk_files d))(old := None, new \<mapsto> f) \<and>
       survivors new d' = insert (Some f) (survivors new d)"
    "e \<noteq> None \<Longrightarrow> untouched {} d d'"
proof -
  obtain d1 q where s: "syscall d = (d1, q)" by fastforce
  note d1 = syscallD [OF s]
  show "untouched {old, new} d d'"
    "e = None \<Longrightarrow> \<exists>f. map_of (dk_files d) old = Some f \<and> map_of (dk_files d') = (map_of (dk_files d))(old := None, new \<mapsto> f) \<and>
       survivors new d' = insert (Some f) (survivors new d)"
    "e \<noteq> None \<Longrightarrow> untouched {} d d'"
    using assms s d1 untouched_syscall [OF s]
    by (auto simp: disk_Rename_def untouched_def update_conv' delete_conv' survivors_now [of d] split: option.splits)
qed

lemma SyncDirD:
  assumes "disk_SyncDir d = (d', e)"
  shows "untouched {} d d'" "dk_files d' = dk_files d" "e = None \<Longrightarrow> survivors name d' = {map_of (dk_files d) name}"
proof -
  obtain d1 q where s: "syscall d = (d1, q)" by fastforce
  obtain d2 q2 where s2: "syscall d1 = (d2, q2)" by fastforce
  note d1 = syscallD [OF s] syscallD [OF s2]
  show "untouched {} d d'" "dk_files d' = dk_files d" "e = None \<Longrightarrow> survivors name d' = {map_of (dk_files d) name}"
    using assms s s2 d1
    by (auto simp: disk_SyncDir_def untouched_def survivors_def split: option.splits)
qed

end
