(* ===== verification/Node_Outbox.thy ===== *)
theory Node_Outbox
  imports Node_Delivery Go_Disk
begin

text \<open>
  \<open>node/outbox.go\<close>: the durable spool of a node. An event is written to a file before it is sent and
  the file is removed when the control plane has acknowledged it; what a node that died left behind is
  replayed by \<open>Recover\<close> before the next one claims work.

  The text of a record is represented by the value it denotes (\<open>Encoded\<close>); \<open>Garbage\<close> is any text
  that does not decode, a torn write among others. The mutex makes \<open>save\<close> and \<open>remove\<close> atomic with
  respect to each other, so each is one function of the disk.
\<close>

record pendingEvent =
  pe_Assignment :: Assignment
  pe_ID :: string
  pe_Type :: string
  pe_Data :: "json option"

datatype outbox_text = Encoded pendingEvent | Garbage

text \<open>The open outbox, with the lengths of the texts that \<open>json.Marshal\<close> produces.\<close>

record Outbox =
  ob_maxBytes :: int
  ob_jsonSize :: "json \<Rightarrow> nat"
  ob_size :: "outbox_text \<Rightarrow> nat"

record 'c outbox_world = "'c node_world" +
  ow_disk :: "outbox_text disk"
  ow_locked :: bool
  ow_reports :: "string list"

section \<open>Opening\<close>

definition json_suffix :: string where "json_suffix = ''.json''"
definition pending_prefix :: string where "pending_prefix = ''.pending-''"

definition on_disk :: "(outbox_text disk \<Rightarrow> outbox_text disk \<times> 'a) \<Rightarrow> ('c, 'z) outbox_world_scheme \<Rightarrow> ('c, 'z) outbox_world_scheme \<times> 'a" where
  "on_disk f w = (case f (ow_disk w) of (d, r) \<Rightarrow> (w\<lparr>ow_disk := d\<rparr>, r))"

text \<open>
  \<open>lockOutbox\<close>: the lock file is created if it is missing, and locked without waiting. \<open>ow_locked\<close>
  says that some process holds the lock.
\<close>

definition open_lock_file :: "outbox_text disk \<Rightarrow> outbox_text disk \<times> error option" where
  "open_lock_file d =
    (case syscall d of (d, Some e) \<Rightarrow> (d, Some e)
     | (d, None) \<Rightarrow> (if map_of (dk_files d) ''owner.lock'' = None
         then set_files ((''owner.lock'', \<lparr>fl_data = Garbage, fl_synced = False, fl_regular = True\<rparr>) # dk_files d) d else d, None))"

definition lockOutbox :: "('c, 'z) outbox_world_scheme \<Rightarrow> ('c, 'z) outbox_world_scheme \<times> error option" where
  "lockOutbox w =
    (case on_disk open_lock_file w of (w, Some e) \<Rightarrow> (w, Some e)
     | (w, None) \<Rightarrow>
       (case on_disk syscall w of (w, Some e) \<Rightarrow> (w, Some (GoError (err_is e) (''outbox already in use: '' @ err_text e)))
        | (w, None) \<Rightarrow>
          if ow_locked w then (w, Some (errors_New ''outbox already in use: resource temporarily unavailable''))
          else (w\<lparr>ow_locked := True\<rparr>, None)))"

fun remove_pending :: "outbox_text entries \<Rightarrow> outbox_text disk \<Rightarrow> outbox_text disk \<times> error option" where
  "remove_pending [] d = (d, None)"
| "remove_pending ((name, f) # es) d =
    (if HasPrefix name pending_prefix
     then case disk_Remove name d of (d, Some e) \<Rightarrow> (d, Some e) | (d, None) \<Rightarrow> remove_pending es d
     else remove_pending es d)"

definition OpenOutbox :: "int \<Rightarrow> (json \<Rightarrow> nat) \<Rightarrow> (outbox_text \<Rightarrow> nat) \<Rightarrow> ('c, 'z) outbox_world_scheme \<Rightarrow> ('c, 'z) outbox_world_scheme \<times> Outbox result" where
  "OpenOutbox maxBytes jsonSize textSize w =
    (let maxBytes = (if maxBytes \<le> 0 then 64 * 2 ^ 20 else maxBytes)
     in case on_disk syscall w of (w, Some e) \<Rightarrow> (w, Inl e)
     | (w, None) \<Rightarrow>
       (case lockOutbox w of (w, Some e) \<Rightarrow> (w, Inl e)
        | (w, None) \<Rightarrow>
          (case on_disk disk_ReadDir w of (w, Inl e) \<Rightarrow> (w\<lparr>ow_locked := False\<rparr>, Inl e)
           | (w, Inr entries) \<Rightarrow>
             (case on_disk (remove_pending entries) w of (w, Some e) \<Rightarrow> (w\<lparr>ow_locked := False\<rparr>, Inl e)
              | (w, None) \<Rightarrow> (w, Inr \<lparr>ob_maxBytes = maxBytes, ob_jsonSize = jsonSize, ob_size = textSize\<rparr>)))))"

definition Outbox_Close :: "('c, 'z) outbox_world_scheme \<Rightarrow> ('c, 'z) outbox_world_scheme" where
  "Outbox_Close w = w\<lparr>ow_locked := False\<rparr>"

section \<open>Saving and removing\<close>

fun outbox_used :: "Outbox \<Rightarrow> outbox_text entries \<Rightarrow> int \<Rightarrow> outbox_text disk \<Rightarrow> outbox_text disk \<times> int result" where
  "outbox_used ob [] used d = (d, Inr used)"
| "outbox_used ob ((name, f) # es) used d =
    (if HasSuffix name json_suffix
     then case disk_Stat name d of (d, Inl e) \<Rightarrow> (d, Inl e)
       | (d, Inr info) \<Rightarrow> outbox_used ob es (used + int (ob_size ob (fl_data info))) d
     else outbox_used ob es used d)"

text \<open>\<open>errors.Join\<close> of two errors that may be nil.\<close>

definition join_errors :: "error option \<Rightarrow> error option \<Rightarrow> error option" where
  "join_errors a b = (case a of None \<Rightarrow> b | Some e \<Rightarrow> (case b of None \<Rightarrow> Some e | Some e' \<Rightarrow> Some (errors_Join e e')))"

text \<open>From the write of the temporary file to the sync of the directory.\<close>

definition outbox_publish :: "string \<Rightarrow> string \<Rightarrow> outbox_text \<Rightarrow> outbox_text disk \<Rightarrow> outbox_text disk \<times> string result" where
  "outbox_publish temp path encoded d =
    (let (d, err) = (case disk_Write temp encoded d of (d, Some e) \<Rightarrow> (d, Some e) | (d, None) \<Rightarrow> disk_Sync temp d);
         (d, closed) = syscall d
     in case join_errors err closed of Some e \<Rightarrow> (d, Inl e)
        | None \<Rightarrow>
          (case disk_Rename temp path d of (d, Some e) \<Rightarrow> (d, Inl e)
           | (d, None) \<Rightarrow> (case disk_SyncDir d of (d, Some e) \<Rightarrow> (d, Inl e) | (d, None) \<Rightarrow> (d, Inr path))))"

definition outbox_path :: "Assignment \<Rightarrow> string \<Rightarrow> string" where
  "outbox_path a eventID = EventIdentity (as_AttemptID a) (as_LeaseToken a) [eventID] @ json_suffix"

definition outbox_record :: "Assignment \<Rightarrow> string \<Rightarrow> string \<Rightarrow> json \<Rightarrow> pendingEvent" where
  "outbox_record a eventID kind payload =
    \<lparr>pe_Assignment = a\<lparr>as_Request := zero_Request\<rparr>, pe_ID = eventID, pe_Type = kind, pe_Data = Some payload\<rparr>"

definition Outbox_save :: "Outbox \<Rightarrow> Assignment \<Rightarrow> string \<Rightarrow> string \<Rightarrow> goany \<Rightarrow> outbox_text disk \<Rightarrow> outbox_text disk \<times> string result" where
  "Outbox_save ob a eventID kind data d =
    (case json_Marshal data of Inl e \<Rightarrow> (d, Inl e)
     | Inr payload \<Rightarrow>
       if ob_jsonSize ob payload > 2 ^ 20 then (d, Inl (errors_New ''event payload exceeds 1 MiB''))
       else let encoded = Encoded (outbox_record a eventID kind payload); path = outbox_path a eventID
       in if ob_size ob encoded > 2 * 2 ^ 20 then (d, Inl (errors_New ''outbox record exceeds 2 MiB''))
       else case disk_ReadDir d of (d, Inl e) \<Rightarrow> (d, Inl e)
       | (d, Inr entries) \<Rightarrow>
         (case outbox_used ob entries (int (ob_size ob encoded)) d of (d, Inl e) \<Rightarrow> (d, Inl e)
          | (d, Inr used) \<Rightarrow>
            if used > ob_maxBytes ob then (d, Inl (errors_New ''relay node: outbox disk limit reached''))
            else (case disk_Stat path d of
                (d, Inr _) \<Rightarrow> (d, Inl (errors_New ''outbox event identity already exists''))
              | (d, Inl e) \<Rightarrow>
                if \<not> errors_Is e NotExist then (d, Inl e)
                else (case disk_CreateTemp pending_prefix d of (d, Inl e) \<Rightarrow> (d, Inl e)
                  | (d, Inr temp) \<Rightarrow>
                    let (d, r) = outbox_publish temp path encoded d in (fst (disk_Remove temp d), r)))))"

definition Outbox_remove :: "string \<Rightarrow> outbox_text disk \<Rightarrow> outbox_text disk \<times> error option" where
  "Outbox_remove path d = (case disk_Remove path d of (d, Some e) \<Rightarrow> (d, Some e) | (d, None) \<Rightarrow> disk_SyncDir d)"

definition Outbox_deliver :: "Outbox \<Rightarrow> gocontext \<Rightarrow> 'c ControlPlane \<Rightarrow> Assignment \<Rightarrow> string \<Rightarrow> string \<Rightarrow> goany
    \<Rightarrow> ('c, 'z) outbox_world_scheme \<Rightarrow> ('c, 'z) outbox_world_scheme \<times> error option" where
  "Outbox_deliver ob ctx cp a eventID kind data w =
    (case json_Marshal data of Inl e \<Rightarrow> (w, Some e)
     | Inr payload \<Rightarrow>
       (case on_disk (Outbox_save ob a eventID kind (GoVal payload)) w of (w, Inl e) \<Rightarrow> (w, Some e)
        | (w, Inr path) \<Rightarrow>
          (case deliverEvent (ob_jsonSize ob) ctx cp a eventID kind (GoVal payload) w of (w, Some e) \<Rightarrow> (w, Some e)
           | (w, None) \<Rightarrow> on_disk (Outbox_remove path) w)))"

section \<open>Recovery\<close>

definition staleEvent :: "error \<Rightarrow> bool" where
  "staleEvent err \<longleftrightarrow> errors_Is err InvalidLease \<or> errors_Is err InvalidTransition \<or> errors_Is err NotFound \<or> errors_Is err RunCancelledErr"

text \<open>The error of a call, if any.\<close>

definition call_err :: "('c \<Rightarrow> 'c \<times> unit result) \<Rightarrow> ('c, 'z) node_world_scheme \<Rightarrow> ('c, 'z) node_world_scheme \<times> error option" where
  "call_err f w = (case call f w of (w, Inl e) \<Rightarrow> (w, Some e) | (w, Inr _) \<Rightarrow> (w, None))"

definition recover_record :: "Outbox \<Rightarrow> gocontext \<Rightarrow> 'c ControlPlane \<Rightarrow> bool \<Rightarrow> string \<Rightarrow> pendingEvent
    \<Rightarrow> ('c, 'z) outbox_world_scheme \<Rightarrow> ('c, 'z) outbox_world_scheme \<times> error option" where
  "recover_record ob ctx cp report path r w =
    (let a = pe_Assignment r;
         (w, err) = deliverEvent (ob_jsonSize ob) ctx cp a (pe_ID r) (pe_Type r) (GoVal (raw_json (pe_Data r))) w;
         (w, err, reason) =
           (case err of
              None \<Rightarrow> (case call_err (cp_Fail cp a ''Node restarted: pending events recovered, runtime execution was interrupted'') w of
                (w, err) \<Rightarrow> (w, err, ''replayed; runtime was interrupted''))
            | Some e \<Rightarrow>
              if errors_Is e RunCancelledErr
              then (case call_err (cp_AcknowledgeCancellation cp a) w of (w, err) \<Rightarrow> (w, err, ''cancellation acknowledged''))
              else if staleEvent e then (w, Some e, ''discarded: lease invalid or attempt no longer running'')
              else (w, Some e, ''replayed; runtime was interrupted''))
     in if (case err of Some e \<Rightarrow> \<not> staleEvent e | None \<Rightarrow> False) then (w, err)
        else case on_disk (Outbox_remove path) w of (w, Some e) \<Rightarrow> (w, Some e)
        | (w, None) \<Rightarrow>
          (if report then w\<lparr>ow_reports := ow_reports w @ [''outbox attempt '' @ as_AttemptID a @ '': '' @ reason]\<rparr> else w, None))"

definition record_complete :: "pendingEvent \<Rightarrow> bool" where
  "record_complete r \<longleftrightarrow> as_RunID (pe_Assignment r) \<noteq> [] \<and> as_AttemptID (pe_Assignment r) \<noteq> [] \<and> as_LeaseToken (pe_Assignment r) \<noteq> [] \<and>
     pe_ID r \<noteq> [] \<and> pe_Type r \<noteq> []"

definition recover_entry :: "Outbox \<Rightarrow> gocontext \<Rightarrow> 'c ControlPlane \<Rightarrow> bool \<Rightarrow> string \<Rightarrow> ('c, 'z) outbox_world_scheme \<Rightarrow> ('c, 'z) outbox_world_scheme \<times> error option" where
  "recover_entry ob ctx cp report name w =
    (if (case gc_done ctx of None \<Rightarrow> False | Some t \<Rightarrow> t \<le> nw_now w) then (w, Some (context_Err (gc_cancelled ctx)))
     else case on_disk (disk_Stat name) w of (w, Inl e) \<Rightarrow> (w, Some e)
     | (w, Inr info) \<Rightarrow>
       if \<not> fl_regular info \<or> ob_size ob (fl_data info) > 2 * 2 ^ 20 then (w, Some (errors_New (''invalid outbox record '' @ name)))
       else (case on_disk (disk_ReadFile name) w of (w, Inl e) \<Rightarrow> (w, Some e)
         | (w, Inr raw) \<Rightarrow>
           (case raw of
              Garbage \<Rightarrow> (w, Some (errors_New (''outbox record '' @ name @ '': invalid JSON'')))
            | Encoded r \<Rightarrow>
              if \<not> record_complete r then (w, Some (errors_New (''incomplete outbox record '' @ name)))
              else recover_record ob ctx cp report name r w)))"

fun recover_entries :: "Outbox \<Rightarrow> gocontext \<Rightarrow> 'c ControlPlane \<Rightarrow> bool \<Rightarrow> outbox_text entries \<Rightarrow> ('c, 'z) outbox_world_scheme
    \<Rightarrow> ('c, 'z) outbox_world_scheme \<times> error option" where
  "recover_entries ob ctx cp report [] w = (w, None)"
| "recover_entries ob ctx cp report ((name, f) # es) w =
    (if \<not> HasSuffix name json_suffix then recover_entries ob ctx cp report es w
     else case recover_entry ob ctx cp report name w of (w, Some e) \<Rightarrow> (w, Some e)
       | (w, None) \<Rightarrow> recover_entries ob ctx cp report es w)"

definition Outbox_Recover :: "Outbox \<Rightarrow> gocontext \<Rightarrow> 'c ControlPlane \<Rightarrow> bool \<Rightarrow> ('c, 'z) outbox_world_scheme \<Rightarrow> ('c, 'z) outbox_world_scheme \<times> error option" where
  "Outbox_Recover ob ctx cp report w =
    (case on_disk disk_ReadDir w of (w, Inl e) \<Rightarrow> (w, Some e) | (w, Inr entries) \<Rightarrow> recover_entries ob ctx cp report entries w)"

section \<open>What saving leaves on the disk\<close>

definition saved :: "outbox_text \<Rightarrow> outbox_text disk_file" where
  "saved encoded = \<lparr>fl_data = encoded, fl_synced = True, fl_regular = True\<rparr>"

lemma Itoa_last: "Itoa (int n) \<noteq> []" "last (Itoa (int n)) \<noteq> CHR ''n''"
proof -
  have "list_all is_digit (Itoa (int n)) \<and> Itoa (int n) \<noteq> []"
    using nat_text_digits [of n] by (simp add: Itoa_def)
  then have "is_digit (last (Itoa (int n)))" "Itoa (int n) \<noteq> []" by (simp_all add: list_all_iff)
  then show "Itoa (int n) \<noteq> []" "last (Itoa (int n)) \<noteq> CHR ''n''"
    by (auto simp: is_digit_def digit_value_def)
qed

lemma pending_not_json: "\<not> HasSuffix (pending_prefix @ Itoa (int n)) json_suffix"
proof
  assume "HasSuffix (pending_prefix @ Itoa (int n)) json_suffix"
  then obtain t where t: "pending_prefix @ Itoa (int n) = t @ json_suffix" by (auto simp: HasSuffix_iff)
  then have "last (pending_prefix @ Itoa (int n)) = last json_suffix" by (simp add: json_suffix_def)
  with Itoa_last show False by (simp add: json_suffix_def)
qed

lemma outbox_path_json [simp]: "HasSuffix (outbox_path a eventID) json_suffix"
  by (auto simp: HasSuffix_iff outbox_path_def)

lemma publishD:
  assumes "outbox_publish temp path encoded d = (d', r)" "temp \<noteq> path"
  shows "untouched {temp, path} d d'" "survivors path d' \<subseteq> insert (Some (saved encoded)) (survivors path d)"
    "r = Inr p \<Longrightarrow> p = path \<and> survivors path d' = {Some (saved encoded)} \<and> map_of (dk_files d') path = Some (saved encoded) \<and>
       map_of (dk_files d') temp = None"
proof -
  obtain d1 e1 where w: "disk_Write temp encoded d = (d1, e1)" by fastforce
  obtain d2 e2 where sy: "disk_Sync temp d1 = (d2, e2)" by fastforce
  define d3 e3 where "d3 = (if e1 = None then d2 else d1)" and "e3 = (if e1 = None then e2 else e1)"
  have un3: "untouched {temp} d d3" using WriteD(1) [OF w] SyncD(1) [OF sy] untouched_trans by (fastforce simp: d3_def)
  have f3: "map_of (dk_files d3) temp = Some (saved encoded)" if "e3 = None"
    using that WriteD(2) [OF w] SyncD(2) [OF sy] by (simp add: d3_def e3_def saved_def split: if_splits)
  obtain d4 closed where c: "syscall d3 = (d4, closed)" by fastforce
  have un4: "untouched {temp} d d4" using untouched_trans [OF un3 untouched_syscall [OF c]] by simp
  have f4: "dk_files d4 = dk_files d3" using syscallD [OF c] by blast
  obtain d5 e5 where rn: "disk_Rename temp path d4 = (d5, e5)" by fastforce
  obtain d6 e6 where sd: "disk_SyncDir d5 = (d6, e6)" by fastforce
  have eq: "outbox_publish temp path encoded d = (case join_errors e3 closed of Some e \<Rightarrow> (d4, Inl e)
     | None \<Rightarrow> (case e5 of Some e \<Rightarrow> (d5, Inl e) | None \<Rightarrow> (case e6 of Some e \<Rightarrow> (d6, Inl e) | None \<Rightarrow> (d6, Inr path))))"
  proof -
    have "(case disk_Write temp encoded d of (d, Some e) \<Rightarrow> (d, Some e) | (d, None) \<Rightarrow> disk_Sync temp d) = (d3, e3)"
      by (simp add: w sy d3_def e3_def split: option.split)
    then show ?thesis using c rn sd by (simp add: outbox_publish_def split: option.split)
  qed
  have surv4: "survivors path d4 \<subseteq> survivors path d" using un4 assms(2) by (auto simp: untouched_def)
  have un5: "untouched {temp, path} d d5" using untouched_trans [OF un4 RenameD(1) [OF rn]] by (simp add: insert_commute)
  have un6: "untouched {temp, path} d d6" using untouched_trans [OF un5 SyncDirD(1) [OF sd]] by simp
  have s6: "survivors path d6 \<subseteq> survivors path d5" using SyncDirD(1) [OF sd] by (auto simp: untouched_def)
  have "untouched {temp, path} d d' \<and> survivors path d' \<subseteq> insert (Some (saved encoded)) (survivors path d) \<and>
    (r = Inr p \<longrightarrow> p = path \<and> survivors path d' = {Some (saved encoded)} \<and> map_of (dk_files d') path = Some (saved encoded) \<and>
       map_of (dk_files d') temp = None)"
  proof (cases "join_errors e3 closed")
    case (Some e)
    with eq assms(1) have "d' = d4" "r = Inl e" by simp_all
    with un4 surv4 show ?thesis by (auto intro: untouched_mono)
  next
    case None
    then have "e3 = None" by (simp add: join_errors_def split: option.splits)
    with f3 f4 have f: "map_of (dk_files d4) temp = Some (saved encoded)" by simp
    show ?thesis
    proof (cases e5)
      case (Some e)
      with None eq assms(1) have "d' = d5" "r = Inl e" by simp_all
      moreover have "survivors path d5 \<subseteq> survivors path d4" using RenameD(3) [OF rn] Some by (simp add: untouched_def)
      ultimately show ?thesis using un5 surv4 by auto
    next
      case e5: None
      with RenameD(2) [OF rn] f have f5: "map_of (dk_files d5) = (map_of (dk_files d4))(temp := None, path \<mapsto> saved encoded)"
        "survivors path d5 = insert (Some (saved encoded)) (survivors path d4)" by auto
      have d': "d' = d6" using None e5 eq assms(1) by (simp split: option.splits)
      have "r = Inr p \<Longrightarrow> e6 = None \<and> p = path" using None e5 eq assms(1) by (simp split: option.splits)
      with SyncDirD(2,3) [OF sd] f5 assms(2) have "r = Inr p \<Longrightarrow> p = path \<and> survivors path d6 = {Some (saved encoded)} \<and>
        map_of (dk_files d6) path = Some (saved encoded) \<and> map_of (dk_files d6) temp = None" by simp
      with un6 s6 f5 surv4 show ?thesis unfolding d' by blast
    qed
  qed
  then show "untouched {temp, path} d d'" "survivors path d' \<subseteq> insert (Some (saved encoded)) (survivors path d)"
    "r = Inr p \<Longrightarrow> p = path \<and> survivors path d' = {Some (saved encoded)} \<and> map_of (dk_files d') path = Some (saved encoded) \<and>
       map_of (dk_files d') temp = None" by blast+
qed

definition record_size :: "Outbox \<Rightarrow> outbox_text entries \<Rightarrow> string \<Rightarrow> int" where
  "record_size ob files name = (if HasSuffix name json_suffix
     then case map_of files name of None \<Rightarrow> 0 | Some f \<Rightarrow> int (ob_size ob (fl_data f)) else 0)"

lemma usedD:
  assumes "outbox_used ob es used d = (d', r)"
  shows "untouched {} d d' \<and> dk_files d' = dk_files d \<and> (\<forall>u. r = Inr u \<longrightarrow> u = used + (\<Sum>(name, f)\<leftarrow>es. record_size ob (dk_files d) name))"
  using assms
proof (induction ob es used d rule: outbox_used.induct)
  case (2 ob name f es used d)
  obtain d1 q where st: "disk_Stat name d = (d1, q)" by fastforce
  note S = StatD [OF st]
  show ?case
  proof (cases "HasSuffix name json_suffix")
    case True
    show ?thesis
    proof (cases q)
      case (Inl e)
      with 2(3) True st have "d' = d1" "r = Inl e" by simp_all
      with S(1,2) show ?thesis by simp
    next
      case (Inr info)
      have "map_of (dk_files d) name = Some info" using S(3) Inr by blast
      then have size: "record_size ob (dk_files d) name = int (ob_size ob (fl_data info))" using True by (simp add: record_size_def)
      from 2(1) [OF True st [symmetric] Inr] 2(3) True st Inr have
        "untouched {} d1 d' \<and> dk_files d' = dk_files d1 \<and> (\<forall>u. r = Inr u \<longrightarrow> u = used + int (ob_size ob (fl_data info)) +
           (\<Sum>(name, f)\<leftarrow>es. record_size ob (dk_files d1) name))" by simp
      moreover from this untouched_trans [OF S(1), of "{}" d'] have "untouched {} d d'" by simp
      ultimately show ?thesis using S(2) size by (simp add: add.assoc)
    qed
  next
    case False
    from 2(2) [OF False] 2(3) False show ?thesis by (simp add: record_size_def)
  qed
qed auto

lemma saveE:
  assumes "Outbox_save ob a eventID kind data d = (d', r)"
  obtains (early) e where "r = Inl e" "untouched {} d d'" "dk_files d' = dk_files d"
  | (late) payload d1 d2 d3 temp where "json_Marshal data = Inr payload" "untouched {} d d1" "dk_files d1 = dk_files d"
      "map_of (dk_files d) (outbox_path a eventID) = None"
      "int (ob_size ob (Encoded (outbox_record a eventID kind payload))) +
        (\<Sum>(name, f)\<leftarrow>sort_key fst (dk_files d). record_size ob (dk_files d) name) \<le> ob_maxBytes ob"
      "disk_CreateTemp pending_prefix d1 = (d2, Inr temp)"
      "outbox_publish temp (outbox_path a eventID) (Encoded (outbox_record a eventID kind payload)) d2 = (d3, r)"
      "d' = fst (disk_Remove temp d3)"
proof (cases "json_Marshal data")
  case (Inl e)
  with assms early show ?thesis by (auto simp: Outbox_save_def)
next
  case (Inr payload)
  let ?enc = "Encoded (outbox_record a eventID kind payload)"
  let ?path = "outbox_path a eventID"
  obtain d1 r1 where rd: "disk_ReadDir d = (d1, r1)" by fastforce
  note R = ReadDirD [OF rd]
  show ?thesis
  proof (cases "ob_jsonSize ob payload > 2 ^ 20 \<or> ob_size ob ?enc > 2 * 2 ^ 20")
    case True
    with assms Inr early show ?thesis by (auto simp: Outbox_save_def Let_def split: if_splits)
  next
    case small: False
    show ?thesis
    proof (cases r1)
      case (Inl e)
      with small assms Inr rd R early show ?thesis by (auto simp: Outbox_save_def Let_def)
    next
      case entries: (Inr es)
      then have es: "es = sort_key fst (dk_files d)" using R(3) by blast
      obtain d2 r2 where us: "outbox_used ob es (int (ob_size ob ?enc)) d1 = (d2, r2)" by fastforce
      from usedD [OF us] R(1,2) have U: "untouched {} d d2" "dk_files d2 = dk_files d"
        "\<And>u. r2 = Inr u \<Longrightarrow> u = int (ob_size ob ?enc) + (\<Sum>(name, f)\<leftarrow>es. record_size ob (dk_files d) name)"
        using untouched_trans [OF R(1), of "{}" d2] by auto
      obtain d3 r3 where st: "disk_Stat ?path d2 = (d3, r3)" by fastforce
      have S: "untouched {} d d3" "dk_files d3 = dk_files d" using untouched_trans [OF U(1) StatD(1) [OF st]] StatD(2) [OF st] U(2) by simp_all
      obtain d4 r4 where ct: "disk_CreateTemp pending_prefix d3 = (d4, r4)" by fastforce
      note unfolded = assms [unfolded Outbox_save_def Inr] small rd entries us st ct
      show ?thesis
      proof (cases "\<exists>u e temp. r2 = Inr u \<and> u \<le> ob_maxBytes ob \<and> r3 = Inl e \<and> errors_Is e NotExist \<and> r4 = Inr temp")
        case False
        have C: "untouched {} d d4 \<and> dk_files d4 = dk_files d" if "r4 = Inl e" for e
          using CreateTempD(2) [OF ct that] S untouched_trans [OF S(1), of "{}" d4] by simp
        have "\<exists>e. r = Inl e \<and> untouched {} d d' \<and> dk_files d' = dk_files d"
          using unfolded False U S C by (auto simp: Let_def split: sum.splits if_splits)
        with early show ?thesis by blast
      next
        case True
        then obtain u e temp where t: "r2 = Inr u" "u \<le> ob_maxBytes ob" "r3 = Inl e" "errors_Is e NotExist" "r4 = Inr temp" by blast
        obtain d5 r5 where pb: "outbox_publish temp ?path ?enc d4 = (d5, r5)" by fastforce
        with unfolded t have "d' = fst (disk_Remove temp d5)" "r = r5" by (simp_all add: Let_def)
        moreover have "map_of (dk_files d) ?path = None" using StatD(4) [OF st t(3,4)] U(2) by simp
        ultimately show ?thesis using late [OF Inr S, of d4 temp d5] ct pb t U(3) es by simp
      qed
    qed
  qed
qed

lemma saveD:
  assumes "Outbox_save ob a eventID kind data d = (d', r)"
  shows "HasSuffix name json_suffix \<Longrightarrow> name \<noteq> outbox_path a eventID \<Longrightarrow>
      map_of (dk_files d') name = map_of (dk_files d) name \<and> survivors name d' \<subseteq> survivors name d"
    "json_Marshal data = Inr payload \<Longrightarrow> survivors (outbox_path a eventID) d' \<subseteq>
      insert (Some (saved (Encoded (outbox_record a eventID kind payload)))) (survivors (outbox_path a eventID) d)"
    "r = Inr path \<Longrightarrow> \<exists>payload. json_Marshal data = Inr payload \<and> path = outbox_path a eventID \<and>
      survivors path d' = {Some (saved (Encoded (outbox_record a eventID kind payload)))} \<and>
      map_of (dk_files d') path = Some (saved (Encoded (outbox_record a eventID kind payload))) \<and> map_of (dk_files d) path = None"
proof -
  let ?path = "outbox_path a eventID"
  have "(HasSuffix name json_suffix \<longrightarrow> name \<noteq> ?path \<longrightarrow>
      map_of (dk_files d') name = map_of (dk_files d) name \<and> survivors name d' \<subseteq> survivors name d) \<and>
    (json_Marshal data = Inr payload \<longrightarrow> survivors ?path d' \<subseteq>
      insert (Some (saved (Encoded (outbox_record a eventID kind payload)))) (survivors ?path d)) \<and>
    (r = Inr path \<longrightarrow> (\<exists>payload. json_Marshal data = Inr payload \<and> path = ?path \<and>
      survivors path d' = {Some (saved (Encoded (outbox_record a eventID kind payload)))} \<and>
      map_of (dk_files d') path = Some (saved (Encoded (outbox_record a eventID kind payload))) \<and> map_of (dk_files d) path = None))"
    using assms
  proof (cases rule: saveE)
    case (early e)
    then show ?thesis by (auto simp: untouched_def)
  next
    case (late p d1 d2 d3 temp)
    note C = CreateTempD(1) [OF late(6) refl]
    then have made: "untouched {temp} d1 d2" by blast
    have temp: "\<not> HasSuffix temp json_suffix" using C pending_not_json by simp
    with outbox_path_json [of a eventID] have temp: "\<not> HasSuffix temp json_suffix" "temp \<noteq> ?path" by auto
    note P = publishD [OF late(7) temp(2)]
    have rm: "untouched {temp} d3 d'" using RemoveD(1) [of temp d3] late(8) by (metis prod.collapse)
    have all: "untouched {temp, ?path} d d'"
      using untouched_trans [OF untouched_trans [OF late(2) made] untouched_trans [OF P(1) rm]]
      by (simp add: insert_commute)
    have path: "survivors ?path d2 \<subseteq> survivors ?path d" "survivors ?path d' \<subseteq> survivors ?path d3"
      "map_of (dk_files d') ?path = map_of (dk_files d3) ?path"
      using untouched_trans [OF late(2) made] rm temp(2) by (auto simp: untouched_def)
    have keep: "survivors ?path d' = {Some x}" if "survivors ?path d3 = {Some x}" for x
      using that path(2) survivors_now [of d' ?path] by (metis empty_iff subset_singletonD)
    have "map_of (dk_files d') name = map_of (dk_files d) name \<and> survivors name d' \<subseteq> survivors name d"
      if "HasSuffix name json_suffix" "name \<noteq> ?path"
      by (rule untouchedD [OF all]) (use that temp(1) in auto)
    moreover have "survivors ?path d' \<subseteq> insert (Some (saved (Encoded (outbox_record a eventID kind p)))) (survivors ?path d)"
      using path(1,2) P(2) by (meson insert_mono subset_trans)
    moreover have "path = ?path \<and> survivors path d' = {Some (saved (Encoded (outbox_record a eventID kind p)))} \<and>
        map_of (dk_files d') path = Some (saved (Encoded (outbox_record a eventID kind p)))" if "r = Inr path"
      using P(3) [OF that] path(3) keep by simp
    ultimately show ?thesis using late(1,4) by auto
  qed
  then show "HasSuffix name json_suffix \<Longrightarrow> name \<noteq> ?path \<Longrightarrow>
      map_of (dk_files d') name = map_of (dk_files d) name \<and> survivors name d' \<subseteq> survivors name d"
    "json_Marshal data = Inr payload \<Longrightarrow> survivors ?path d' \<subseteq>
      insert (Some (saved (Encoded (outbox_record a eventID kind payload)))) (survivors ?path d)"
    "r = Inr path \<Longrightarrow> \<exists>payload. json_Marshal data = Inr payload \<and> path = ?path \<and>
      survivors path d' = {Some (saved (Encoded (outbox_record a eventID kind payload)))} \<and>
      map_of (dk_files d') path = Some (saved (Encoded (outbox_record a eventID kind payload))) \<and> map_of (dk_files d) path = None"
    by blast+
qed

text \<open>The bytes of the records in a directory.\<close>

definition outbox_total :: "Outbox \<Rightarrow> outbox_text entries \<Rightarrow> int" where
  "outbox_total ob files = (\<Sum>name \<in> {name \<in> fst ` set files. HasSuffix name json_suffix}. record_size ob files name)"

lemma outbox_total_list:
  assumes "distinct (map fst files)"
  shows "(\<Sum>(name, f)\<leftarrow>sort_key fst files. record_size ob files name) = outbox_total ob files"
proof -
  let ?g = "\<lambda>e. record_size ob files (fst e)"
  have "mset (map ?g (sort_key fst files)) = mset (map ?g files)" by simp
  then have "(\<Sum>e\<leftarrow>sort_key fst files. ?g e) = (\<Sum>e\<leftarrow>files. ?g e)" by (metis sum_mset_sum_list)
  also have "\<dots> = (\<Sum>name\<leftarrow>map fst files. record_size ob files name)" by (simp add: comp_def)
  also have "\<dots> = (\<Sum>name \<in> fst ` set files. record_size ob files name)"
    using sum_list_distinct_conv_sum_set [OF assms, of "record_size ob files"] by (simp only: set_map)
  also have "\<dots> = outbox_total ob files"
    unfolding outbox_total_def by (rule sum.mono_neutral_right) (auto simp: record_size_def)
  finally show ?thesis by (simp only: case_prod_unfold)
qed

lemma outbox_total_add:
  assumes "map_of files' path = Some f" "map_of files path = None" "HasSuffix path json_suffix"
    and "\<And>name. HasSuffix name json_suffix \<Longrightarrow> name \<noteq> path \<Longrightarrow> map_of files' name = map_of files name"
  shows "outbox_total ob files' = int (ob_size ob (fl_data f)) + outbox_total ob files"
proof -
  let ?N = "{name \<in> fst ` set files. HasSuffix name json_suffix}"
  have dom: "name \<in> fst ` set fs \<longleftrightarrow> map_of fs name \<noteq> None" for fs :: "outbox_text entries" and name
    by (auto simp: map_of_eq_None_iff)
  have names: "{name \<in> fst ` set files'. HasSuffix name json_suffix} = insert path ?N"
  proof (rule set_eqI)
    fix name
    show "name \<in> {name \<in> fst ` set files'. HasSuffix name json_suffix} \<longleftrightarrow> name \<in> insert path ?N"
      using assms by (cases "name = path") (auto simp: dom)
  qed
  have "path \<notin> ?N" using assms(2) by (auto simp: dom)
  then have "outbox_total ob files' = record_size ob files' path + (\<Sum>name \<in> ?N. record_size ob files' name)"
    by (simp add: outbox_total_def names)
  also have "(\<Sum>name \<in> ?N. record_size ob files' name) = outbox_total ob files"
    unfolding outbox_total_def
  proof (rule sum.cong)
    fix name assume "name \<in> ?N"
    with \<open>path \<notin> ?N\<close> have "HasSuffix name json_suffix" "name \<noteq> path" by blast+
    with assms(4) show "record_size ob files' name = record_size ob files name" by (simp add: record_size_def)
  qed simp
  finally show ?thesis using assms(1,3) by (simp add: record_size_def)
qed

text \<open>
  saving is atomic, durable and bounded. Whatever calls of the operating system fail, at whatever
  point the process dies and whatever a power failure then keeps: every other record is as before,
  and under the name of the new one there is what was there before or the whole record, never a part
  of it. When \<open>save\<close> succeeds the name was free, the record survives a power failure, and all records
  together are within the limit.
\<close>

theorem outbox_save_atomic:
  assumes "Outbox_save ob a eventID kind data d = (d', r)" "distinct (map fst (dk_files d))"
    and "path = outbox_path a eventID"
  shows "(\<forall>name. HasSuffix name json_suffix \<longrightarrow> name \<noteq> path \<longrightarrow>
      map_of (dk_files d') name = map_of (dk_files d) name \<and> survivors name d' \<subseteq> survivors name d) \<and>
    (\<forall>payload. json_Marshal data = Inr payload \<longrightarrow>
      survivors path d' \<subseteq> survivors path d \<union> {Some (saved (Encoded (outbox_record a eventID kind payload)))}) \<and>
    (\<forall>p. r = Inr p \<longrightarrow> p = path \<and> map_of (dk_files d) path = None \<and>
      (\<exists>payload. json_Marshal data = Inr payload \<and> survivors path d' = {Some (saved (Encoded (outbox_record a eventID kind payload)))}) \<and>
      outbox_total ob (dk_files d') \<le> ob_maxBytes ob)"
proof (intro conjI allI impI)
  note S = saveD [OF assms(1)]
  fix name assume "HasSuffix name json_suffix" "name \<noteq> path"
  with S(1) assms(3) show "map_of (dk_files d') name = map_of (dk_files d) name" "survivors name d' \<subseteq> survivors name d" by blast+
next
  fix payload assume "json_Marshal data = Inr payload"
  with saveD(2) [OF assms(1)] assms(3)
  show "survivors path d' \<subseteq> survivors path d \<union> {Some (saved (Encoded (outbox_record a eventID kind payload)))}" by auto
next
  fix p assume r: "r = Inr p"
  note S = saveD(3) [OF assms(1) r]
  then show "p = path" "map_of (dk_files d) path = None"
    "\<exists>payload. json_Marshal data = Inr payload \<and> survivors path d' = {Some (saved (Encoded (outbox_record a eventID kind payload)))}"
    using assms(3) by auto
  from assms(1) show "outbox_total ob (dk_files d') \<le> ob_maxBytes ob"
  proof (cases rule: saveE)
    case (early e)
    with r show ?thesis by simp
  next
    case (late payload d1 d2 d3 temp)
    have f: "map_of (dk_files d') path = Some (saved (Encoded (outbox_record a eventID kind payload)))"
      using S late(1) assms(3) by auto
    have "outbox_total ob (dk_files d') =
        int (ob_size ob (Encoded (outbox_record a eventID kind payload))) + outbox_total ob (dk_files d)"
      using outbox_total_add [OF f, of "dk_files d" ob] late(4) saveD(1) [OF assms(1)] assms(3) by (simp add: saved_def)
    with late(5) outbox_total_list [OF assms(2), of ob] show ?thesis by simp
  qed
qed

section \<open>Nothing is lost\<close>

text \<open>An event with the identity, the type and the data of a record is in a log.\<close>

definition replayed :: "Event list \<Rightarrow> pendingEvent \<Rightarrow> bool" where
  "replayed evs r \<longleftrightarrow> (\<exists>e \<in> set evs. ev_ID e = EventIdentity (as_AttemptID (pe_Assignment r)) (as_LeaseToken (pe_Assignment r)) [pe_ID r] \<and>
     SameEvent (ev_Type e) (ev_Data e) (pe_Type r) (GoVal (raw_json (pe_Data r))) = None)"

text \<open>
  Between the states \<open>c\<close> and \<open>c'\<close> the control plane answered the event of a record with one of the
  errors that no repetition changes.
\<close>

definition turned_down :: "'c ControlPlane \<Rightarrow> ('c \<Rightarrow> 'c \<Rightarrow> bool) \<Rightarrow> 'c \<Rightarrow> 'c \<Rightarrow> pendingEvent \<Rightarrow> bool" where
  "turned_down cp leads c c' r \<longleftrightarrow> (\<exists>s s' e. leads c s \<and> cp_AppendEvent cp (as_RunID (pe_Assignment r)) (as_AttemptID (pe_Assignment r))
     (as_LeaseToken (pe_Assignment r)) (pe_Type r) (GoVal (raw_json (pe_Data r))) [pe_ID r] s = (s', Inl e) \<and> refused e \<and> leads s' c')"

lemma replayed_prefix: "prefix evs evs' \<Longrightarrow> replayed evs r \<Longrightarrow> replayed evs' r"
  unfolding replayed_def by (meson set_mono_prefix subsetD)

lemma staleEvent_refused: "staleEvent e = refused e"
  by (auto simp: staleEvent_def refused_def)

lemma events_named_single:
  assumes "events_named i evs = [e]"
  shows "e \<in> set evs" "ev_ID e = i"
proof -
  have "e \<in> set (events_named i evs)" using assms by simp
  then show "e \<in> set evs" "ev_ID e = i" by (simp_all add: events_named_def)
qed

lemma on_disk_simps [simp]:
  "nw_cp (fst (on_disk f w)) = nw_cp w" "nw_calls (fst (on_disk f w)) = nw_calls w" "nw_now (fst (on_disk f w)) = nw_now w"
  "ow_disk (fst (on_disk f w)) = fst (f (ow_disk w))" "snd (on_disk f w) = snd (f (ow_disk w))"
  by (simp_all add: on_disk_def split: prod.split)

lemma on_diskD: "on_disk f w = (w', r) \<Longrightarrow> f (ow_disk w) = (ow_disk w', r) \<and> nw_cp w' = nw_cp w \<and> nw_calls w' = nw_calls w"
  by (auto simp: on_disk_def split: prod.splits)

lemma more_disk: "node_world.more w' = node_world.more w \<Longrightarrow> ow_disk w' = ow_disk w"
  by (cases w; cases w') simp

lemma deliverEvent_disk: "deliverEvent jsonSize ctx cp a eventID kind data w = (w', err) \<Longrightarrow> ow_disk w' = ow_disk w"
  using deliverEvent_more [of jsonSize ctx cp a eventID kind data w] more_disk by (metis fst_conv)

lemma call_err_disk: "call_err f w = (w', err) \<Longrightarrow> ow_disk w' = ow_disk w \<and> nw_cp w' = fst (f (nw_cp w))"
  using more_disk by (auto simp: call_err_def dest!: callD split: prod.splits sum.splits)

lemma call_err_None: "snd (f (nw_cp w)) = Inr () \<Longrightarrow> call_err f w = (w', e) \<Longrightarrow> e = None"
  by (auto simp: call_err_def call_def split: prod.splits sum.splits)

lemma remove_outboxD:
  assumes "Outbox_remove path d = (d', e)"
  shows "untouched {path} d d'" "e = None \<Longrightarrow> map_of (dk_files d') = (map_of (dk_files d))(path := None)"
    "map_of (dk_files d') path \<in> {map_of (dk_files d) path, None}"
proof -
  obtain d1 q where rm: "disk_Remove path d = (d1, q)" by fastforce
  obtain d2 q2 where sd: "disk_SyncDir d1 = (d2, q2)" by fastforce
  note R = RemoveD [OF rm] and S = SyncDirD [OF sd]
  have un: "untouched {path} d d2" using untouched_trans [OF R(1) S(1)] by simp
  from assms rm sd have "(\<exists>x. q = Some x \<and> d' = d1 \<and> e = Some x) \<or> (q = None \<and> d' = d2 \<and> e = q2)"
    by (auto simp: Outbox_remove_def split: option.splits)
  with R un S(2) show "untouched {path} d d'" "e = None \<Longrightarrow> map_of (dk_files d') = (map_of (dk_files d))(path := None)"
    "map_of (dk_files d') path \<in> {map_of (dk_files d) path, None}" by auto
qed

context event_sink
begin

lemma outbox_deliver:
  assumes "ok (nw_cp w)" "eventID \<noteq> []" "Outbox_deliver ob ctx cp a eventID kind data w = (w', err)"
  shows "ok (nw_cp w')" "leads (nw_cp w) (nw_cp w')"
    "err = None \<Longrightarrow> \<exists>j. json_Marshal data = Inr j \<and> replayed (log (nw_cp w') (as_RunID a)) (outbox_record a eventID kind j)"
    "nw_calls w' \<noteq> nw_calls w \<Longrightarrow> \<exists>j. json_Marshal data = Inr j \<and> (replayed (log (nw_cp w') (as_RunID a)) (outbox_record a eventID kind j) \<or>
       survivors (outbox_path a eventID) (ow_disk w') = {Some (saved (Encoded (outbox_record a eventID kind j)))})"
proof -
  have "ok (nw_cp w') \<and> leads (nw_cp w) (nw_cp w') \<and>
    (err = None \<longrightarrow> (\<exists>j. json_Marshal data = Inr j \<and> replayed (log (nw_cp w') (as_RunID a)) (outbox_record a eventID kind j))) \<and>
    (nw_calls w' \<noteq> nw_calls w \<longrightarrow> (\<exists>j. json_Marshal data = Inr j \<and> (replayed (log (nw_cp w') (as_RunID a)) (outbox_record a eventID kind j) \<or>
       survivors (outbox_path a eventID) (ow_disk w') = {Some (saved (Encoded (outbox_record a eventID kind j)))})))"
  proof (cases "json_Marshal data")
    case (Inl e)
    with assms leads_refl show ?thesis by (auto simp: Outbox_deliver_def)
  next
    case (Inr j)
    obtain w1 r1 where sv: "on_disk (Outbox_save ob a eventID kind (GoVal j)) w = (w1, r1)" by fastforce
    note S = on_diskD [OF sv]
    show ?thesis
    proof (cases r1)
      case (Inl e)
      with Inr sv assms S leads_refl show ?thesis by (auto simp: Outbox_deliver_def)
    next
      case path: (Inr path)
      have P: "path = outbox_path a eventID" "survivors path (ow_disk w1) = {Some (saved (Encoded (outbox_record a eventID kind j)))}"
        using saveD(3) [OF S [THEN conjunct1] path] by (auto simp: json_Marshal_def)
      obtain w2 e2 where dl: "deliverEvent (ob_jsonSize ob) ctx cp a eventID kind (GoVal j) w1 = (w2, e2)" by fastforce
      have "ok (nw_cp w1)" using S assms(1) by simp
      note D = deliver_once [OF this assms(2) dl]
      have rep: "replayed (log (nw_cp w2) (as_RunID a)) (outbox_record a eventID kind j)" if none: "e2 = None"
      proof -
        obtain e where e: "events_named (EventIdentity (as_AttemptID a) (as_LeaseToken a) [eventID]) (log (nw_cp w2) (as_RunID a)) = [e]"
          "SameEvent (ev_Type e) (ev_Data e) kind (GoVal j) = None" using D(4) [OF none] by (auto simp: json_Marshal_def)
        with events_named_single [OF e(1)] show ?thesis by (auto simp: replayed_def outbox_record_def raw_json_def)
      qed
      show ?thesis
      proof (cases e2)
        case None
        then have "on_disk (Outbox_remove path) w2 = (w', err)"
          using assms(3) Inr sv path dl by (simp add: Outbox_deliver_def)
        from on_diskD [OF this] rep [OF None] D(1,2) S Inr show ?thesis by simp
      next
        case (Some e)
        then have "w' = w2" "err = Some e" using assms(3) Inr sv path dl by (simp_all add: Outbox_deliver_def)
        with D(1,2) P S Inr deliverEvent_disk [OF dl] show ?thesis by simp
      qed
    qed
  qed
  then show "ok (nw_cp w')" "leads (nw_cp w) (nw_cp w')"
    "err = None \<Longrightarrow> \<exists>j. json_Marshal data = Inr j \<and> replayed (log (nw_cp w') (as_RunID a)) (outbox_record a eventID kind j)"
    "nw_calls w' \<noteq> nw_calls w \<Longrightarrow> \<exists>j. json_Marshal data = Inr j \<and> (replayed (log (nw_cp w') (as_RunID a)) (outbox_record a eventID kind j) \<or>
       survivors (outbox_path a eventID) (ow_disk w') = {Some (saved (Encoded (outbox_record a eventID kind j)))})"
    by blast+
qed

lemma outbox_recover_record:
  assumes "ok (nw_cp w)" "pe_ID r \<noteq> []" "recover_record ob ctx cp report path r w = (w', err)"
  shows "ok (nw_cp w') \<and> leads (nw_cp w) (nw_cp w') \<and> untouched {path} (ow_disk w) (ow_disk w') \<and>
    (err = None \<longrightarrow> map_of (dk_files (ow_disk w')) path = None) \<and>
    (map_of (dk_files (ow_disk w')) path = map_of (dk_files (ow_disk w)) path \<or>
     map_of (dk_files (ow_disk w')) path = None \<and>
       (replayed (log (nw_cp w') (as_RunID (pe_Assignment r))) r \<or> turned_down cp leads (nw_cp w) (nw_cp w') r))"
proof -
  let ?a = "pe_Assignment r" and ?v = "raw_json (pe_Data r)"
  obtain w1 e1 where dl: "deliverEvent (ob_jsonSize ob) ctx cp ?a (pe_ID r) (pe_Type r) (GoVal ?v) w = (w1, e1)" by fastforce
  note D = deliver_once [OF assms(1,2) dl]
  note disk1 = deliverEvent_disk [OF dl]
  define out where "out = (case e1 of
      None \<Rightarrow> (case call_err (cp_Fail cp ?a ''Node restarted: pending events recovered, runtime execution was interrupted'') w1 of
        (w, err) \<Rightarrow> (w, err, ''replayed; runtime was interrupted''))
    | Some e \<Rightarrow>
      if errors_Is e RunCancelledErr
      then (case call_err (cp_AcknowledgeCancellation cp ?a) w1 of (w, err) \<Rightarrow> (w, err, ''cancellation acknowledged''))
      else if staleEvent e then (w1, Some e, ''discarded: lease invalid or attempt no longer running'')
      else (w1, Some e, ''replayed; runtime was interrupted''))"
  obtain w2 e2 reason where out: "out = (w2, e2, reason)" by (cases out)
  have w2: "ok (nw_cp w2)" "leads (nw_cp w1) (nw_cp w2)" "ow_disk w2 = ow_disk w1"
    using out D(1) fail_keeps acknowledge_keeps leads_refl
    by (auto simp: out_def dest!: call_err_disk split: option.splits prod.splits if_splits)
  have gone: "replayed (log (nw_cp w2) (as_RunID ?a)) r \<or> turned_down cp leads (nw_cp w) (nw_cp w2) r" if keep: "\<not> (case e2 of Some e \<Rightarrow> \<not> staleEvent e | None \<Rightarrow> False)"
  proof (cases e1)
    case None
    obtain e where e: "events_named (EventIdentity (as_AttemptID ?a) (as_LeaseToken ?a) [pe_ID r]) (log (nw_cp w1) (as_RunID ?a)) = [e]"
      "SameEvent (ev_Type e) (ev_Data e) (pe_Type r) (GoVal ?v) = None" using D(4) [OF None] by (auto simp: json_Marshal_def)
    with events_named_single [OF e(1)] have "replayed (log (nw_cp w1) (as_RunID ?a)) r" by (auto simp: replayed_def)
    with leads_log [OF w2(2)] replayed_prefix show ?thesis by blast
  next
    case (Some e)
    with out keep have "refused e" by (auto simp: out_def staleEvent_refused refused_def split: if_splits)
    then have "turned_down cp leads (nw_cp w) (nw_cp w2) r" using D(5) [OF Some] w2(2) unfolding turned_down_def json_Marshal_def goany.case by blast
    then show ?thesis ..
  qed
  have eq: "recover_record ob ctx cp report path r w =
    (if (case e2 of Some e \<Rightarrow> \<not> staleEvent e | None \<Rightarrow> False) then (w2, e2)
     else case on_disk (Outbox_remove path) w2 of (w, Some e) \<Rightarrow> (w, Some e)
     | (w, None) \<Rightarrow>
       (if report then w\<lparr>ow_reports := ow_reports w @ [''outbox attempt '' @ as_AttemptID ?a @ '': '' @ reason]\<rparr> else w, None))"
    unfolding recover_record_def Let_def dl prod.case out_def [symmetric] out ..
  show ?thesis
  proof (cases "case e2 of Some e \<Rightarrow> \<not> staleEvent e | None \<Rightarrow> False")
    case True
    then have "err \<noteq> None" "w' = w2" using eq assms(3) by (auto split: option.splits)
    with w2 D(1,2) disk1 show ?thesis by (auto intro: leads_trans)
  next
    case False
    obtain w3 e3 where rm: "on_disk (Outbox_remove path) w2 = (w3, e3)" by fastforce
    note R = remove_outboxD [OF on_diskD [OF rm, THEN conjunct1]]
    have w': "nw_cp w' = nw_cp w2" "ow_disk w' = ow_disk w3" "err = e3"
      using False eq assms(3) rm on_diskD [OF rm] by (auto split: option.splits if_splits)
    show ?thesis
      using R w2 D(1,2) disk1 gone [OF False] by (auto simp: w' intro: leads_trans)
  qed
qed

text \<open>What one step of the recovery guarantees about every file, and that the guarantees add up.\<close>

definition recovers :: "('c, 'z) outbox_world_scheme \<Rightarrow> ('c, 'z) outbox_world_scheme \<Rightarrow> bool" where
  "recovers w w' \<longleftrightarrow> ok (nw_cp w') \<and> leads (nw_cp w) (nw_cp w') \<and>
     (\<forall>name. map_of (dk_files (ow_disk w')) name = map_of (dk_files (ow_disk w)) name \<or>
        map_of (dk_files (ow_disk w')) name = None \<and>
        (\<forall>f r. map_of (dk_files (ow_disk w)) name = Some f \<longrightarrow> fl_data f = Encoded r \<longrightarrow>
           replayed (log (nw_cp w') (as_RunID (pe_Assignment r))) r \<or> turned_down cp leads (nw_cp w) (nw_cp w') r))"

lemma recovers_disk:
  assumes "ok (nw_cp w)" "nw_cp w' = nw_cp w" "dk_files (ow_disk w') = dk_files (ow_disk w)"
  shows "recovers w w'"
  using assms leads_refl by (simp add: recovers_def)

lemma recovers_trans:
  assumes "recovers w w'" "recovers w' w''"
  shows "recovers w w''"
proof -
  have lead: "leads (nw_cp w) (nw_cp w')" "leads (nw_cp w') (nw_cp w'')" using assms by (simp_all add: recovers_def)
  have "replayed (log (nw_cp w'') rid) r" if "replayed (log (nw_cp w') rid) r" for rid r
    using that replayed_prefix [OF leads_log [OF lead(2)]] by blast
  moreover have "turned_down cp leads (nw_cp w) (nw_cp w'') r" if "turned_down cp leads (nw_cp w) (nw_cp w') r" for r
    using that lead(2) leads_trans unfolding turned_down_def by blast
  moreover have "turned_down cp leads (nw_cp w) (nw_cp w'') r" if "turned_down cp leads (nw_cp w') (nw_cp w'') r" for r
    using that lead(1) leads_trans unfolding turned_down_def by blast
  ultimately show ?thesis using assms leads_trans [OF lead] unfolding recovers_def by metis
qed

lemma outbox_recover_entry:
  assumes "ok (nw_cp w)" "recover_entry ob ctx cp report name w = (w', err)"
  shows "recovers w w' \<and> (err = None \<longrightarrow> map_of (dk_files (ow_disk w')) name = None)"
proof (cases "case gc_done ctx of None \<Rightarrow> False | Some t \<Rightarrow> t \<le> nw_now w")
  case True
  with assms show ?thesis by (auto simp: recover_entry_def intro: recovers_disk)
next
  case False
  obtain w1 r1 where s1: "on_disk (disk_Stat name) w = (w1, r1)" by fastforce
  note S1 = on_diskD [OF s1] StatD(2,3) [OF on_diskD [OF s1, THEN conjunct1]]
  obtain w2 r2 where s2: "on_disk (disk_ReadFile name) w1 = (w2, r2)" by fastforce
  have S2: "nw_cp w2 = nw_cp w1" "dk_files (ow_disk w2) = dk_files (ow_disk w1)"
    "\<And>t. r2 = Inr t \<Longrightarrow> \<exists>f. map_of (dk_files (ow_disk w1)) name = Some f \<and> fl_data f = t"
    using on_diskD [OF s2] by (auto simp: disk_ReadFile_def dest: StatD split: prod.splits sum.splits)
  have rec1: "recovers w w1" and rec2: "recovers w w2" using S1 S2 assms(1) by (auto intro: recovers_disk)
  show ?thesis
  proof (cases "\<exists>info r. r1 = Inr info \<and> \<not> (\<not> fl_regular info \<or> ob_size ob (fl_data info) > 2 * 2 ^ 20) \<and>
      r2 = Inr (Encoded r) \<and> record_complete r")
    case True
    then obtain info r where t: "r1 = Inr info" "\<not> (\<not> fl_regular info \<or> ob_size ob (fl_data info) > 2 * 2 ^ 20)"
      "r2 = Inr (Encoded r)" "record_complete r" by blast
    then have rr: "recover_record ob ctx cp report name r w2 = (w', err)"
      using False assms(2) s1 s2 by (simp add: recover_entry_def)
    have "ok (nw_cp w2)" "pe_ID r \<noteq> []" using assms(1) S1 S2(1) t(4) by (auto simp: record_complete_def)
    note R = outbox_recover_record [OF this rr]
    have data: "\<exists>f. map_of (dk_files (ow_disk w2)) name = Some f \<and> fl_data f = Encoded r" using S2(2,3) t(3) by simp
    have "recovers w2 w'"
      unfolding recovers_def
    proof (intro conjI allI)
      fix name'
      show "map_of (dk_files (ow_disk w')) name' = map_of (dk_files (ow_disk w2)) name' \<or>
        map_of (dk_files (ow_disk w')) name' = None \<and>
        (\<forall>f r. map_of (dk_files (ow_disk w2)) name' = Some f \<longrightarrow> fl_data f = Encoded r \<longrightarrow>
           replayed (log (nw_cp w') (as_RunID (pe_Assignment r))) r \<or> turned_down cp leads (nw_cp w2) (nw_cp w') r)"
        using R data untouchedD [of "{name}" "ow_disk w2" "ow_disk w'" name'] by (cases "name' = name") auto
    qed (use R in blast)+
    from recovers_trans [OF rec2 this] R show ?thesis by simp
  next
    case bad: False
    have "w' \<in> {w1, w2} \<and> err \<noteq> None"
      using bad False assms(2) s1 s2 by (auto simp: recover_entry_def split: sum.splits if_splits outbox_text.splits)
    with rec1 rec2 show ?thesis by auto
  qed
qed

lemma outbox_recover_entries:
  assumes "ok (nw_cp w)" "recover_entries ob ctx cp report es w = (w', err)"
  shows "recovers w w' \<and> (err = None \<longrightarrow> (\<forall>name \<in> fst ` set es. HasSuffix name json_suffix \<longrightarrow> map_of (dk_files (ow_disk w')) name = None))"
  using assms
proof (induction es arbitrary: w)
  case Nil
  then show ?case by (auto intro: recovers_disk)
next
  case (Cons e es)
  obtain name f where e: "e = (name, f)" by (cases e)
  show ?case
  proof (cases "HasSuffix name json_suffix")
    case False
    with Cons e show ?thesis by auto
  next
    case True
    obtain w1 e1 where re: "recover_entry ob ctx cp report name w = (w1, e1)" by fastforce
    note R = outbox_recover_entry [OF Cons.prems(1) re]
    show ?thesis
    proof (cases e1)
      case (Some x)
      with True re e Cons.prems(2) R show ?thesis by auto
    next
      case None
      with True re e Cons.prems(2) have rest: "recover_entries ob ctx cp report es w1 = (w', err)" by simp
      have "ok (nw_cp w1)" using R by (simp add: recovers_def)
      note IH = Cons.IH [OF this rest]
      have "map_of (dk_files (ow_disk w')) name = None"
        using IH R None unfolding recovers_def by metis
      with IH R e recovers_trans show ?thesis by auto
    qed
  qed
qed

lemma outbox_recover:
  assumes "ok (nw_cp w)" "Outbox_Recover ob ctx cp report w = (w', err)"
  shows "recovers w w'" "err = None \<Longrightarrow> HasSuffix name json_suffix \<Longrightarrow> map_of (dk_files (ow_disk w')) name = None"
proof -
  obtain w1 r1 where rd: "on_disk disk_ReadDir w = (w1, r1)" by fastforce
  note D = on_diskD [OF rd]
  note R = ReadDirD [OF D [THEN conjunct1]]
  have rec1: "recovers w w1" and ok1: "ok (nw_cp w1)" using D R(2) assms(1) by (auto intro: recovers_disk)
  have "recovers w w' \<and> (err = None \<longrightarrow> HasSuffix name json_suffix \<longrightarrow> map_of (dk_files (ow_disk w')) name = None)"
  proof (cases r1)
    case (Inl e)
    with assms(2) rd rec1 show ?thesis by (auto simp: Outbox_Recover_def)
  next
    case (Inr es)
    then have "recover_entries ob ctx cp report es w1 = (w', err)" using assms(2) rd by (simp add: Outbox_Recover_def)
    note E = outbox_recover_entries [OF ok1 this]
    have "map_of (dk_files (ow_disk w')) name = None" if "err = None" "HasSuffix name json_suffix"
    proof (cases "name \<in> fst ` set es")
      case False
      then have "map_of (dk_files (ow_disk w1)) name = None" using R(2,3) Inr by (force simp: map_of_eq_None_iff)
      with E show ?thesis unfolding recovers_def by metis
    qed (use E that in auto)
    with E recovers_trans [OF rec1] show ?thesis by blast
  qed
  then show "recovers w w'" "err = None \<Longrightarrow> HasSuffix name json_suffix \<Longrightarrow> map_of (dk_files (ow_disk w')) name = None" by blast+
qed

end

text \<open>
  C20: the outbox survives a crash. Suppose \<open>deliver\<close> sent an event to the control plane, whatever
  calls of the operating system and of the network failed on the way, and the machine then lost power.
  When a later \<open>Recover\<close> on what is left of the directory returns without an error, the event is in
  the log of its run, with its type and data, unless the control plane itself refused it (an invalid
  lease, an attempt that is no longer running); and no record is left behind.
\<close>

theorem outbox_survives_crash:
  assumes cp: "cp = networkPlane (servicePlane (memoryService sv it ttl))"
    and "network_ok sv (nw_cp w)" "eventID \<noteq> []" "Outbox_deliver ob ctx cp a eventID kind data w = (w1, err)" "nw_calls w1 \<noteq> nw_calls w"
    and "power_failure (ow_disk w1) (dk_files (ow_disk w2))"
    and "network_ok sv (nw_cp w2)" "leads_to sv (ss_storage (net_cp (nw_cp w1))) (ss_storage (net_cp (nw_cp w2)))"
    and "Outbox_Recover ob' ctx' cp report w2 = (w3, None)"
  shows "(\<exists>j. json_Marshal data = Inr j \<and>
      (replayed (ms_events (ss_storage (net_cp (nw_cp w3))) (as_RunID a)) (outbox_record a eventID kind j) \<or>
       turned_down cp (\<lambda>n n'. memory_leads (ss_storage (net_cp n)) (ss_storage (net_cp n'))) (nw_cp w2) (nw_cp w3) (outbox_record a eventID kind j))) \<and>
    (\<forall>name. HasSuffix name json_suffix \<longrightarrow> map_of (dk_files (ow_disk w3)) name = None)"
proof -
  note D = network_sink.outbox_deliver [OF assms(2,3) assms(4) [unfolded cp]]
  note R = network_sink.outbox_recover [OF assms(7) assms(9) [unfolded cp]]
  have lead: "memory_leads (ss_storage (net_cp (nw_cp w1))) (ss_storage (net_cp (nw_cp w3)))"
    using leads_to_ok(2) [OF assms(8)] D(1) R(1) memory_leads_trans unfolding network_sink.recovers_def network_ok_def by blast
  obtain j where j: "json_Marshal data = Inr j"
    and either: "replayed (ms_events (ss_storage (net_cp (nw_cp w1))) (as_RunID a)) (outbox_record a eventID kind j) \<or>
      survivors (outbox_path a eventID) (ow_disk w1) = {Some (saved (Encoded (outbox_record a eventID kind j)))}"
    using D(4) [OF assms(5)] by blast
  let ?r = "outbox_record a eventID kind j" and ?path = "outbox_path a eventID"
  from either have "replayed (ms_events (ss_storage (net_cp (nw_cp w3))) (as_RunID a)) ?r \<or>
    turned_down cp (\<lambda>n n'. memory_leads (ss_storage (net_cp n)) (ss_storage (net_cp n'))) (nw_cp w2) (nw_cp w3) ?r"
  proof
    assume "replayed (ms_events (ss_storage (net_cp (nw_cp w1))) (as_RunID a)) ?r"
    then show ?thesis using replayed_prefix [OF memory_leads_log [OF lead]] by blast
  next
    assume "survivors ?path (ow_disk w1) = {Some (saved (Encoded ?r))}"
    then obtain f where f: "map_of (dk_files (ow_disk w2)) ?path = Some f" "fl_data f = Encoded ?r"
      using assms(6) unfolding power_failure_def by (auto simp: saved_def dest!: spec [of _ ?path])
    moreover have "map_of (dk_files (ow_disk w3)) ?path = None" using R(2) by simp
    moreover have "as_RunID (pe_Assignment ?r) = as_RunID a" by (simp add: outbox_record_def)
    ultimately show ?thesis using R(1) unfolding network_sink.recovers_def cp by (metis option.distinct(1))
  qed
  with j R(2) show ?thesis by blast
qed

text \<open>The node loses the answer, is stopped, and finds the record when it comes back.\<close>

definition demo_disk :: "outbox_text disk" where
  "demo_disk = \<lparr>dk_files = [], dk_past = [], dk_fault = (\<lambda>_. None), dk_calls = 0, dk_temp = (\<lambda>_. 7), dk_torn = Garbage\<rparr>"

definition demo_outbox :: Outbox where
  "demo_outbox = \<lparr>ob_maxBytes = 1000, ob_jsonSize = (\<lambda>_. 4), ob_size = (\<lambda>_. 100)\<rparr>"

definition demo_spool_path :: string where "demo_spool_path = outbox_path (demo_asg 100) ''1''"
definition demo_record :: pendingEvent where "demo_record = outbox_record (demo_asg 100) ''1'' ''note'' JNull"

definition demo_spooled :: "outbox_text disk" where
  "demo_spooled = demo_disk\<lparr>dk_files := [(demo_spool_path, saved (Encoded demo_record))], dk_calls := 10\<rparr>"

lemma demo_save: "Outbox_save demo_outbox (demo_asg 100) ''1'' ''note'' (GoVal JNull) demo_disk = (demo_spooled, Inr demo_spool_path)"
proof -
  define temp where "temp = pending_prefix @ Itoa 7"
  have "temp \<noteq> demo_spool_path"
    using pending_not_json [of 7] outbox_path_json [of "demo_asg 100" "''1''"] by (auto simp: temp_def demo_spool_path_def)
  then have neq: "temp \<noteq> demo_spool_path" "demo_spool_path \<noteq> temp" by auto
  have "Outbox_save demo_outbox (demo_asg 100) ''1'' ''note'' (GoVal JNull) demo_disk =
    (let (d, r) = outbox_publish temp demo_spool_path (Encoded demo_record)
        (set_files [(temp, \<lparr>fl_data = Garbage, fl_synced = False, fl_regular = True\<rparr>)] (demo_disk\<lparr>dk_calls := Suc (Suc (Suc 0))\<rparr>)) in (fst (disk_Remove temp d), r))"
    by (simp add: Outbox_save_def Let_def json_Marshal_def disk_ReadDir_def syscall_def disk_Stat_def disk_CreateTemp_def
        demo_disk_def demo_outbox_def ErrNotExist_def errors_Is_def flip: temp_def demo_spool_path_def demo_record_def)
  also have "\<dots> = (demo_spooled, Inr demo_spool_path)"
    using neq
    by (simp add: outbox_publish_def disk_Write_def disk_Sync_def disk_Rename_def disk_SyncDir_def disk_Remove_def syscall_def Let_def
        demo_disk_def demo_spooled_def set_files_def join_errors_def saved_def)
  finally show ?thesis .
qed

theorem outbox_save_atomic_witness:
  "survivors demo_spool_path demo_spooled = {Some (saved (Encoded demo_record))} \<and> outbox_total demo_outbox (dk_files demo_spooled) \<le> 1000"
  using outbox_save_atomic [OF demo_save _ demo_spool_path_def]
  by (auto simp: demo_disk_def demo_outbox_def demo_record_def json_Marshal_def)

definition demo_outbox_world :: "(((MemoryStorage, MemoryBlobStore) service_state) network) outbox_world" where
  "demo_outbox_world = \<lparr>nw_now = 0, nw_lag = (\<lambda>_. 1), nw_calls = 0, nw_cp = demo_network, ow_disk = demo_disk, ow_locked = True, ow_reports = []\<rparr>"

definition demo_stopped :: "(((MemoryStorage, MemoryBlobStore) service_state) network) outbox_world" where
  "demo_stopped = \<lparr>nw_now = 1, nw_lag = (\<lambda>_. 1), nw_calls = 1, nw_cp = demo_network_noted, ow_disk = demo_spooled, ow_locked = True, ow_reports = []\<rparr>"

definition demo_plane :: "(((MemoryStorage, MemoryBlobStore) service_state) network) ControlPlane" where
  "demo_plane = networkPlane (servicePlane (memoryService demo_semver (\<lambda>_ _. []) 0))"

lemma demo_stopped: "\<exists>e. Outbox_deliver demo_outbox \<lparr>gc_done = Some 0, gc_cancelled = True\<rparr> demo_plane (demo_asg 100) ''1'' ''note'' GoNil demo_outbox_world =
    (demo_stopped, Some e)"
proof -
  have "\<exists>e. deliverEvent (ob_jsonSize demo_outbox) \<lparr>gc_done = Some 0, gc_cancelled = True\<rparr> demo_plane (demo_asg 100) ''1'' ''note'' (GoVal JNull)
      (demo_outbox_world\<lparr>ow_disk := demo_spooled\<rparr>) = (demo_stopped, Some e)"
    by (simp add: deliverEvent_def json_Marshal_def demo_outbox_def context_WithTimeout_def demo_outbox_world_def second_def demo_asg_def
          retry_loop.simps call_def demo_plane_def demo_append refused_def wait_def demo_stopped_def millisecond_def del: One_nat_def)
  moreover have "on_disk (Outbox_save demo_outbox (demo_asg 100) ''1'' ''note'' (GoVal JNull)) demo_outbox_world =
      (demo_outbox_world\<lparr>ow_disk := demo_spooled\<rparr>, Inr demo_spool_path)"
    by (simp add: on_disk_def demo_save demo_outbox_world_def)
  ultimately show ?thesis by (auto simp: Outbox_deliver_def json_Marshal_def)
qed

lemma demo_fail:
  "snd (over_network (cp_Fail (servicePlane (memoryService demo_semver (\<lambda>_ _. []) 0)) (demo_asg 100\<lparr>as_Request := zero_Request\<rparr>) cause)
     (demo_network_noted\<lparr>net_cp := (demo_service_state at_running)\<lparr>ss_storage := at_noted\<lparr>w_ticks := Suc 13\<rparr>\<rparr>, net_sent := Suc 1\<rparr>)) = Inr ()"
  using at_noted(3,4)
  by (simp add: over_network_def demo_network_noted_def demo_network_def servicePlane_memory on_storage_def Fail_def Let_def storage_simps
      demo_state_def demo_asg_def running_run_facts del: One_nat_def split: prod.split)

definition demo_restart :: gocontext where "demo_restart = \<lparr>gc_done = None, gc_cancelled = False\<rparr>"

lemma demo_recover: "snd (Outbox_Recover demo_outbox demo_restart demo_plane True demo_stopped) = None"
proof -
  let ?d = "demo_spooled\<lparr>dk_calls := 13\<rparr>"
  let ?w = "demo_stopped\<lparr>ow_disk := ?d\<rparr>"
  let ?n = "demo_network_noted\<lparr>net_cp := (demo_service_state at_running)\<lparr>ss_storage := at_noted\<lparr>w_ticks := Suc 13\<rparr>\<rparr>, net_sent := Suc 1\<rparr>"
  let ?w1 = "?w\<lparr>nw_now := 2, nw_calls := 2, nw_cp := ?n\<rparr>"
  have del: "deliverEvent (ob_jsonSize demo_outbox) demo_restart demo_plane (pe_Assignment demo_record) (pe_ID demo_record) (pe_Type demo_record)
      (GoVal (raw_json (pe_Data demo_record))) ?w = (?w1, None)"
    by (simp add: deliverEvent_def json_Marshal_def demo_outbox_def context_WithTimeout_def demo_restart_def demo_record_def outbox_record_def
        demo_asg_def raw_json_def retry_loop.simps call_def demo_plane_def demo_append demo_stopped_def del: One_nat_def)
  let ?f = "cp_Fail demo_plane (pe_Assignment demo_record) ''Node restarted: pending events recovered, runtime execution was interrupted''"
  obtain w2 e where c: "call_err ?f ?w1 = (w2, e)" by fastforce
  have d2: "ow_disk w2 = ?d" using call_err_disk [OF c] by simp
  have "snd (?f (nw_cp ?w1)) = Inr ()" using demo_fail by (simp add: demo_plane_def demo_record_def outbox_record_def)
  from c call_err_None [OF this c] have fl: "call_err ?f ?w1 = (w2, None)" by simp
  have rm: "Outbox_remove demo_spool_path ?d = (?d\<lparr>dk_files := [], dk_calls := 16\<rparr>, None)"
    by (simp add: Outbox_remove_def disk_Remove_def syscall_def demo_spooled_def demo_disk_def disk_SyncDir_def set_files_def)
  have rec: "snd (recover_record demo_outbox demo_restart demo_plane True demo_spool_path demo_record ?w) = None"
    unfolding recover_record_def Let_def del prod.case fl option.case
    by (simp add: on_disk_def d2 rm fl)
  have complete: "record_complete demo_record"
    by (simp add: record_complete_def demo_record_def outbox_record_def demo_asg_def)
  have path: "HasSuffix demo_spool_path json_suffix" by (simp add: demo_spool_path_def)
  show ?thesis
    using rec complete path
    by (auto simp: Outbox_Recover_def on_disk_def disk_ReadDir_def syscall_def demo_stopped_def demo_spooled_def demo_disk_def recover_entry_def
        demo_restart_def disk_Stat_def disk_ReadFile_def saved_def demo_outbox_def split: prod.splits option.splits)
qed

definition demo_recovered :: "(((MemoryStorage, MemoryBlobStore) service_state) network) outbox_world" where
  "demo_recovered = fst (Outbox_Recover demo_outbox demo_restart demo_plane True demo_stopped)"

theorem outbox_survives_crash_witness:
  "(replayed (ms_events (ss_storage (net_cp (nw_cp demo_recovered))) (demo_id ''run'' 0)) demo_record \<or>
    turned_down demo_plane (\<lambda>n n'. memory_leads (ss_storage (net_cp n)) (ss_storage (net_cp n'))) demo_network_noted
      (nw_cp demo_recovered) demo_record) \<and> map_of (dk_files (ow_disk demo_recovered)) demo_spool_path = None"
proof -
  obtain e where del: "Outbox_deliver demo_outbox \<lparr>gc_done = Some 0, gc_cancelled = True\<rparr> demo_plane (demo_asg 100) ''1'' ''note'' GoNil
      demo_outbox_world = (demo_stopped, Some e)" using demo_stopped by blast
  have rec: "Outbox_Recover demo_outbox demo_restart demo_plane True demo_stopped = (demo_recovered, None)"
    using demo_recover by (simp add: demo_recovered_def prod_eq_iff)
  have ok: "network_ok demo_semver (nw_cp demo_outbox_world)"
    using reachable_ok [OF demo_reachable(5)]
    by (simp add: network_ok_def demo_outbox_world_def demo_network_def leads_to.here)
  have "memory_ok at_noted" using AppendEvent_ok(1) [OF reachable_ok [OF demo_reachable(5)]] at_noted(1) by (metis fst_conv)
  then have ok': "network_ok demo_semver (nw_cp demo_stopped)"
    by (simp add: network_ok_def demo_stopped_def demo_network_noted_def demo_network_def leads_to.here)
  have calls: "nw_calls demo_stopped \<noteq> nw_calls demo_outbox_world" by (simp add: demo_stopped_def demo_outbox_world_def)
  have power: "power_failure (ow_disk demo_stopped) (dk_files (ow_disk demo_stopped))"
    by (simp add: power_failure_def demo_stopped_def demo_spooled_def demo_disk_def survivors_def saved_def)
  have path: "HasSuffix demo_spool_path json_suffix" by (simp add: demo_spool_path_def)
  from outbox_survives_crash [OF demo_plane_def ok _ del calls power ok' leads_to.here rec] path show ?thesis
    by (simp add: json_Marshal_def demo_record_def demo_asg_def demo_stopped_def)
qed

end
