(* ===== verification/Node_Lease.thy ===== *)
theory Node_Lease
  imports Node_Outbox
begin

text \<open>
  Two loops of \<open>node/worker.go\<close> that run against the clock: \<open>keepLease\<close>, which renews the lease of an
  assignment while it is executed and cancels the execution when the lease is lost or the run is
  cancelled, and the poll of \<open>interactionBroker.Request\<close>.

  \<open>keepLease\<close> runs in a goroutine of its own until the instant \<open>stop\<close> at which its context is done.
  Its world is what that goroutine sees: the clock, and the control plane with everything that others
  do to it. Its outcome is \<open>None\<close> when it returned nil, and otherwise the instant at which it cancelled
  the execution with the error it returned: the source does both or neither.
\<close>

section \<open>The lease keeper\<close>

definition ErrLeaseLost :: error where
  "ErrLeaseLost = GoError [LeaseLost] ''relay node: assignment lease lost''"

definition renew_wait :: "duration \<Rightarrow> duration" where
  "renew_wait remaining =
    (let delay = remaining div 3;
         delay = (if delay > 5 * second then 5 * second else delay)
     in if delay < 10 * millisecond then 10 * millisecond else delay)"

definition lease_refused :: "error \<Rightarrow> bool" where
  "lease_refused err \<longleftrightarrow> errors_Is err InvalidLease \<or> errors_Is err InvalidTransition \<or> errors_Is err NotFound"

lemma renew_wait_bounds:
  "10 * millisecond \<le> renew_wait r" "r > 0 \<Longrightarrow> renew_wait r \<le> max r (10 * millisecond)" "renew_wait r \<le> 5 * second"
  "r \<ge> 30 * millisecond \<Longrightarrow> 3 * renew_wait r \<le> r"
  by (auto simp: renew_wait_def Let_def millisecond_def second_def)

function keepLease_loop :: "'c ControlPlane \<Rightarrow> Assignment \<Rightarrow> time \<Rightarrow> time \<Rightarrow> ('c, 'z) node_world_scheme
    \<Rightarrow> ('c, 'z) node_world_scheme \<times> time \<times> (time \<times> error) option" where
  "keepLease_loop cp a stop deadline w =
    (if deadline - nw_now w \<le> 0 then (w, deadline, Some (nw_now w, ErrLeaseLost))
     else case wait stop (renew_wait (deadline - nw_now w)) w of
       (w, False) \<Rightarrow> (w, deadline, None)
     | (w, True) \<Rightarrow>
       (case call (cp_Renew cp a) w of
          (w, Inr update) \<Rightarrow>
            if lu_CancelRequested update
            then (w, lu_LeaseExpiresAt update, Some (nw_now w, wrap ErrRunCancelled (lu_CancelReason update)))
            else keepLease_loop cp a stop (lu_LeaseExpiresAt update) w
        | (w, Inl err) \<Rightarrow>
            if stop \<le> nw_now w then (w, deadline, None)
            else if lease_refused err then (w, deadline, Some (nw_now w, wrap ErrLeaseLost (err_text err)))
            else if nw_now w < deadline then keepLease_loop cp a stop deadline w
            else (w, deadline, Some (nw_now w, wrap ErrLeaseLost (err_text err)))))"
  by pat_completeness auto

lemma renew_step_now:
  assumes "wait stop (renew_wait r) w = (w1, True)" "call f w1 = (w2, q)"
  shows "nw_now w + 10 * millisecond \<le> nw_now w2" "nw_now w + 10 * millisecond < stop" "nw_now w1 = nw_now w + renew_wait r"
    "nw_now w2 = nw_now w1 + int (nw_lag w (nw_calls w))" "nw_calls w2 = Suc (nw_calls w)" "nw_lag w2 = nw_lag w"
    "f (nw_cp w) = (nw_cp w2, q)"
  using assms renew_wait_bounds(1) [of r] call_simps(2,3) [of f w1] callD [OF assms(2)]
  by (auto simp: wait_def millisecond_def split: if_splits)

termination keepLease_loop
proof (relation "measure (\<lambda>(_, _, stop, _, w). nat (stop - nw_now w))", simp_all only: wf_measure in_measure prod.case, goal_cases)
  case (1 cp a stop deadline w w1 b w2 r update)
  then have "nw_now w + 10 * millisecond \<le> nw_now w2" "nw_now w + 10 * millisecond < stop"
    using renew_step_now(1,2) [of stop _ w w1 "cp_Renew cp a" w2] by (metis prod.collapse)+
  then show ?case by (simp add: millisecond_def)
next
  case (2 cp a stop deadline w w1 b w2 r err)
  then have "nw_now w + 10 * millisecond \<le> nw_now w2" "nw_now w + 10 * millisecond < stop"
    using renew_step_now(1,2) [of stop _ w w1 "cp_Renew cp a" w2] by (metis prod.collapse)+
  then show ?case by (simp add: millisecond_def)
qed

declare keepLease_loop.simps [simp del]

definition keepLease :: "'c ControlPlane \<Rightarrow> Assignment \<Rightarrow> time \<Rightarrow> ('c, 'z) node_world_scheme
    \<Rightarrow> ('c, 'z) node_world_scheme \<times> (time \<times> error) option" where
  "keepLease cp a stop w = (case keepLease_loop cp a stop (as_LeaseExpiresAt a) w of (w, _, outcome) \<Rightarrow> (w, outcome))"

text \<open>One round of the loop up to the answer of \<open>Renew\<close>, and induction over the rounds.\<close>

definition renewal :: "'c ControlPlane \<Rightarrow> Assignment \<Rightarrow> time \<Rightarrow> time \<Rightarrow> ('c, 'z) node_world_scheme \<Rightarrow> ('c, 'z) node_world_scheme
    \<Rightarrow> LeaseUpdate result \<Rightarrow> bool" where
  "renewal cp a stop deadline w w' r \<longleftrightarrow> nw_now w < deadline \<and>
     (\<exists>w1. wait stop (renew_wait (deadline - nw_now w)) w = (w1, True) \<and> call (cp_Renew cp a) w1 = (w', r))"

lemma renewalD:
  assumes "renewal cp a stop deadline w w' r"
  shows "nw_now w < deadline" "nw_now w + 10 * millisecond < stop" "nw_now w + 10 * millisecond \<le> nw_now w'"
    "nw_now w' \<le> deadline + 10 * millisecond + int (nw_lag w (nw_calls w))" "nw_calls w' = Suc (nw_calls w)" "nw_lag w' = nw_lag w"
    "cp_Renew cp a (nw_cp w) = (nw_cp w', r)"
proof -
  obtain w1 where w1: "nw_now w < deadline" "wait stop (renew_wait (deadline - nw_now w)) w = (w1, True)" "call (cp_Renew cp a) w1 = (w', r)"
    using assms unfolding renewal_def by blast
  note r = renew_step_now [OF w1(2,3)]
  show "nw_now w < deadline" "nw_now w + 10 * millisecond < stop" "nw_now w + 10 * millisecond \<le> nw_now w'"
    "nw_calls w' = Suc (nw_calls w)" "nw_lag w' = nw_lag w" "cp_Renew cp a (nw_cp w) = (nw_cp w', r)" using w1(1) r by simp_all
  show "nw_now w' \<le> deadline + 10 * millisecond + int (nw_lag w (nw_calls w))"
    using r(3,4) renew_wait_bounds(2) [of "deadline - nw_now w"] w1(1) by (simp add: millisecond_def)
qed

lemma keepLease_induct [consumes 1, case_names lost stopped cancelled renewed interrupted refused retried expired]:
  assumes "keepLease_loop cp a stop deadline w = (w', deadline', out)"
    and "\<And>d w. d \<le> nw_now w \<Longrightarrow> Q d w w d (Some (nw_now w, ErrLeaseLost))"
    and "\<And>d w w1. nw_now w < d \<Longrightarrow> wait stop (renew_wait (d - nw_now w)) w = (w1, False) \<Longrightarrow> Q d w w1 d None"
    and "\<And>d w w1 u. renewal cp a stop d w w1 (Inr u) \<Longrightarrow> lu_CancelRequested u \<Longrightarrow>
      Q d w w1 (lu_LeaseExpiresAt u) (Some (nw_now w1, wrap ErrRunCancelled (lu_CancelReason u)))"
    and "\<And>d w w1 u w' d' out. renewal cp a stop d w w1 (Inr u) \<Longrightarrow> \<not> lu_CancelRequested u \<Longrightarrow>
      Q (lu_LeaseExpiresAt u) w1 w' d' out \<Longrightarrow> Q d w w' d' out"
    and "\<And>d w w1 e. renewal cp a stop d w w1 (Inl e) \<Longrightarrow> stop \<le> nw_now w1 \<Longrightarrow> Q d w w1 d None"
    and "\<And>d w w1 e. renewal cp a stop d w w1 (Inl e) \<Longrightarrow> lease_refused e \<Longrightarrow> Q d w w1 d (Some (nw_now w1, wrap ErrLeaseLost (err_text e)))"
    and "\<And>d w w1 e w' d' out. renewal cp a stop d w w1 (Inl e) \<Longrightarrow> \<not> lease_refused e \<Longrightarrow> nw_now w1 < d \<Longrightarrow> Q d w1 w' d' out \<Longrightarrow> Q d w w' d' out"
    and "\<And>d w w1 e. renewal cp a stop d w w1 (Inl e) \<Longrightarrow> d \<le> nw_now w1 \<Longrightarrow> Q d w w1 d (Some (nw_now w1, wrap ErrLeaseLost (err_text e)))"
  shows "Q deadline w w' deadline' out"
  using assms(1)
proof (induction "nat (stop - nw_now w)" arbitrary: deadline w rule: less_induct)
  case less
  note unf = less.prems [unfolded keepLease_loop.simps [of cp a stop deadline w]]
  show ?case
  proof (cases "deadline - nw_now w \<le> 0")
    case True
    with unf assms(2) [of deadline w] show ?thesis by auto
  next
    case live: False
    obtain w1 fired where wt: "wait stop (renew_wait (deadline - nw_now w)) w = (w1, fired)" by fastforce
    show ?thesis
    proof (cases fired)
      case False
      with unf live wt assms(3) [of w deadline w1] show ?thesis by auto
    next
      case True
      obtain w2 r where c: "call (cp_Renew cp a) w1 = (w2, r)" by fastforce
      from live wt True c have ren: "renewal cp a stop deadline w w2 r" by (simp add: renewal_def)
      from renewalD(2,3) [OF ren] have small: "nat (stop - nw_now w2) < nat (stop - nw_now w)" by (simp add: millisecond_def)
      show ?thesis
      proof (cases r)
        case (Inr u)
        show ?thesis
        proof (cases "lu_CancelRequested u")
          case True
          with unf live wt \<open>fired\<close> c Inr assms(4) [of deadline w w2 u] ren show ?thesis by auto
        next
          case False
          with unf live wt \<open>fired\<close> c Inr have "keepLease_loop cp a stop (lu_LeaseExpiresAt u) w2 = (w', deadline', out)" by simp
          from assms(5) [OF ren [unfolded Inr] False less.hyps [OF small this]] show ?thesis .
        qed
      next
        case (Inl e)
        consider "stop \<le> nw_now w2" | "\<not> stop \<le> nw_now w2" "lease_refused e" | "\<not> stop \<le> nw_now w2" "\<not> lease_refused e" "nw_now w2 < deadline"
          | "\<not> stop \<le> nw_now w2" "\<not> lease_refused e" "\<not> nw_now w2 < deadline" by blast
        then show ?thesis
        proof cases
          case 1
          with unf live wt \<open>fired\<close> c Inl assms(6) [of deadline w w2 e] ren show ?thesis by auto
        next
          case 2
          with unf live wt \<open>fired\<close> c Inl assms(7) [of deadline w w2 e] ren show ?thesis by auto
        next
          case 3
          with unf live wt \<open>fired\<close> c Inl have "keepLease_loop cp a stop deadline w2 = (w', deadline', out)" by simp
          from assms(8) [OF ren [unfolded Inl] 3(2,3) less.hyps [OF small this]] show ?thesis .
        next
          case 4
          with unf live wt \<open>fired\<close> c Inl assms(9) [of deadline w w2 e] ren show ?thesis by auto
        qed
      qed
    qed
  qed
qed

text \<open>
  When the control plane grants no lease beyond \<open>bound\<close>, the keeper has ended soon after it; a call
  takes \<open>lag\<close> at most. \<open>P\<close> holds of the states that the control plane can be in.
\<close>

lemma keepLease_fence:
  assumes "keepLease_loop cp a stop deadline w = (w', deadline', out)"
    and "P (nw_cp w)" "\<And>c. P c \<Longrightarrow> P (fst (cp_Renew cp a c))" "\<And>c u. P c \<Longrightarrow> snd (cp_Renew cp a c) = Inr u \<Longrightarrow> lu_LeaseExpiresAt u \<le> bound"
    and "deadline \<le> bound" "nw_now w \<le> bound + 10 * millisecond + lag" "\<And>k. int (nw_lag w k) \<le> lag"
  shows "nw_now w' \<le> bound + 10 * millisecond + lag"
  using assms
proof (induction rule: keepLease_induct)
  case (stopped d w w1)
  have "0 \<le> lag" using stopped(8) [of 0] by simp
  with stopped show ?case using renew_wait_bounds(2) [of "d - nw_now w"] by (auto simp: wait_def millisecond_def split: if_splits)
next
  case (cancelled d w w1 u)
  then show ?case using renewalD(4) [OF cancelled(1)] add_mono [of d bound "int (nw_lag w (nw_calls w))" lag] by (smt (verit))
next
  case (renewed d w w1 u w' d' out)
  have "P (nw_cp w1)" "lu_LeaseExpiresAt u \<le> bound"
    using renewed(4,5,6) renewalD(7) [OF renewed(1)] by (metis fst_conv, metis snd_conv)
  then show ?case using renewed(3,5,6,7,9) renewalD(4,6) [OF renewed(1)] by (smt (verit))
next
  case (interrupted d w w1 e)
  then show ?case using renewalD(4) [OF interrupted(1)] by (smt (verit))
next
  case (refused d w w1 e)
  then show ?case using renewalD(4) [OF refused(1)] by (smt (verit))
next
  case (retried d w w1 e w' d' out)
  have "P (nw_cp w1)" using retried(5,6) renewalD(7) [OF retried(1)] by (metis fst_conv)
  then show ?case using retried(4,6,7,8,10) renewalD(4,6) [OF retried(1)] by (smt (verit))
next
  case (expired d w w1 e)
  then show ?case using renewalD(4) [OF expired(1)] by (smt (verit))
qed simp

text \<open>It cancels an execution for a reason: cancellation was requested, the lease was refused, or it has run out.\<close>

lemma keepLease_reason:
  assumes "keepLease_loop cp a stop deadline w = (w', deadline', out)"
  shows "case out of None \<Rightarrow> stop \<le> nw_now w'
    | Some (t, e) \<Rightarrow> t = nw_now w' \<and>
        (errors_Is e RunCancelledErr \<and> (\<exists>c u. cp_Renew cp a c = (nw_cp w', Inr u) \<and> lu_CancelRequested u) \<or>
         errors_Is e LeaseLost \<and> (deadline' \<le> t \<or> (\<exists>c err. cp_Renew cp a c = (nw_cp w', Inl err) \<and> lease_refused err)))"
  using assms
proof (induction rule: keepLease_induct)
  case (stopped d w w1)
  then show ?case by (auto simp: wait_def split: if_splits)
next
  case (cancelled d w w1 u)
  then show ?case using renewalD(7) [OF cancelled(1)] by (auto simp: ErrRunCancelled_def wrap_def errors_Is_def)
next
  case (refused d w w1 e)
  then show ?case using renewalD(7) [OF refused(1)] by (auto simp: ErrLeaseLost_def wrap_def errors_Is_def)
qed (auto simp: ErrLeaseLost_def wrap_def errors_Is_def)

text \<open>The deadline it knows is that of the assignment, or was granted by the control plane.\<close>

lemma keepLease_granted:
  assumes "keepLease_loop cp a stop deadline w = (w', deadline', out)"
  shows "deadline' = deadline \<or> (\<exists>c u. snd (cp_Renew cp a c) = Inr u \<and> deadline' = lu_LeaseExpiresAt u)"
  using assms
proof (induction rule: keepLease_induct)
  case (cancelled d w w1 u)
  then show ?case using renewalD(7) [OF cancelled(1)] by (metis snd_conv)
next
  case (renewed d w w1 u w' d' out)
  then show ?case using renewalD(7) [OF renewed(1)] by (metis snd_conv)
qed auto

text \<open>It makes a call every ten milliseconds at most.\<close>

lemma keepLease_calls:
  assumes "keepLease_loop cp a stop deadline w = (w', deadline', out)"
  shows "int (nw_calls w') * (10 * millisecond) \<le> int (nw_calls w) * (10 * millisecond) + max 0 (stop - nw_now w)"
  using assms
proof (induction rule: keepLease_induct)
  case (lost d w)
  then show ?case by (simp add: millisecond_def)
next
  case (stopped d w w1)
  then show ?case by (auto simp: millisecond_def wait_def split: if_splits)
next
  case (cancelled d w w1 u)
  then show ?case using renewalD(2,5) [OF cancelled(1)] by (simp add: millisecond_def)
next
  case (renewed d w w1 u w' d' out)
  then show ?case using renewalD(2,3,5) [OF renewed(1)] by (simp add: millisecond_def)
next
  case (interrupted d w w1 e)
  then show ?case using renewalD(2,5) [OF interrupted(1)] by (simp add: millisecond_def)
next
  case (refused d w w1 e)
  then show ?case using renewalD(2,5) [OF refused(1)] by (simp add: millisecond_def)
next
  case (retried d w w1 e w' d' out)
  then show ?case using renewalD(2,3,5) [OF retried(1)] by (simp add: millisecond_def)
next
  case (expired d w w1 e)
  then show ?case using renewalD(2,5) [OF expired(1)] by (simp add: millisecond_def)
qed

text \<open>
  C18: a node stops executing when it has lost its lease. If the control plane grants the node no
  lease beyond the instant \<open>bound\<close>, because the node is cut off or the run was given away, and a call
  takes \<open>lag\<close> at most, then the keeper has ended by ten milliseconds and one call after \<open>bound\<close>, and
  unless it was stopped before it has cancelled the execution. It cancels only when the control plane
  asked for it, when the control plane refused the lease, or when the lease it knows has run out; and
  it makes one call every ten milliseconds at most.
\<close>

theorem execution_fenced:
  assumes "keepLease cp a stop w = (w', out)"
    and "P (nw_cp w)" "\<And>c. P c \<Longrightarrow> P (fst (cp_Renew cp a c))" "\<And>c u. P c \<Longrightarrow> snd (cp_Renew cp a c) = Inr u \<Longrightarrow> lu_LeaseExpiresAt u \<le> bound"
    and "as_LeaseExpiresAt a \<le> bound" "nw_now w \<le> bound + 10 * millisecond + lag" "\<And>k. int (nw_lag w k) \<le> lag"
  shows "nw_now w' \<le> bound + 10 * millisecond + lag \<and> (bound + 10 * millisecond + lag < stop \<longrightarrow> out \<noteq> None) \<and>
    (\<forall>t e. out = Some (t, e) \<longrightarrow> t = nw_now w' \<and>
      ((\<exists>c u. cp_Renew cp a c = (nw_cp w', Inr u) \<and> lu_CancelRequested u \<and> errors_Is e RunCancelledErr) \<or>
       (\<exists>c err. cp_Renew cp a c = (nw_cp w', Inl err) \<and> lease_refused err \<and> errors_Is e LeaseLost) \<or>
       (\<exists>deadline \<le> t. errors_Is e LeaseLost \<and> (deadline = as_LeaseExpiresAt a \<or> (\<exists>c u. snd (cp_Renew cp a c) = Inr u \<and> deadline = lu_LeaseExpiresAt u))))) \<and>
    int (nw_calls w' - nw_calls w) * (10 * millisecond) \<le> max 0 (stop - nw_now w)"
proof -
  obtain deadline' where loop: "keepLease_loop cp a stop (as_LeaseExpiresAt a) w = (w', deadline', out)"
    using assms(1) by (auto simp: keepLease_def split: prod.splits)
  have fence: "nw_now w' \<le> bound + 10 * millisecond + lag" by (rule keepLease_fence [where P = P, OF loop assms(2-7)])
  note reason = keepLease_reason [OF loop] keepLease_granted [OF loop]
  have "int (nw_calls w' - nw_calls w) * (10 * millisecond) \<le> max 0 (stop - nw_now w)"
    using keepLease_calls [OF loop] by (cases "nw_calls w \<le> nw_calls w'") (simp_all add: millisecond_def of_nat_diff)
  moreover have "t = nw_now w' \<and>
      ((\<exists>c u. cp_Renew cp a c = (nw_cp w', Inr u) \<and> lu_CancelRequested u \<and> errors_Is e RunCancelledErr) \<or>
       (\<exists>c err. cp_Renew cp a c = (nw_cp w', Inl err) \<and> lease_refused err \<and> errors_Is e LeaseLost) \<or>
       (\<exists>deadline \<le> t. errors_Is e LeaseLost \<and> (deadline = as_LeaseExpiresAt a \<or> (\<exists>c u. snd (cp_Renew cp a c) = Inr u \<and> deadline = lu_LeaseExpiresAt u))))"
    if "out = Some (t, e)" for t e
    using reason that by simp blast
  moreover have "out \<noteq> None" if "bound + 10 * millisecond + lag < stop"
    using fence reason(1) that by (auto split: option.splits)
  ultimately show ?thesis using fence by blast
qed

text \<open>A node that is cut off: every request it sends is lost.\<close>

definition cut_off :: "((MemoryStorage, MemoryBlobStore) service_state) network \<Rightarrow> bool" where
  "cut_off n \<longleftrightarrow> net_fate n = (\<lambda>_. RequestLost ''no route to host'')"

definition demo_cut_off :: "(((MemoryStorage, MemoryBlobStore) service_state) network) node_world" where
  "demo_cut_off = demo_node_world\<lparr>nw_cp := demo_network\<lparr>net_fate := (\<lambda>_. RequestLost ''no route to host'')\<rparr>\<rparr>"

definition demo_keeper where
  "demo_keeper = keepLease (networkPlane (servicePlane (memoryService demo_semver (\<lambda>_ _. []) 0))) (demo_asg 100) (60 * second) demo_cut_off"

lemma demo_keeper: "snd demo_keeper = Some (10000001, wrap ErrLeaseLost ''no route to host'')"
  by (simp add: demo_keeper_def keepLease_def keepLease_loop.simps demo_cut_off_def demo_node_world_def demo_network_def networkPlane_def
      over_network_def Let_def demo_asg_def wait_def renew_wait_def call_def lease_refused_def millisecond_def second_def errors_New_def errors_Is_def)

theorem execution_fenced_witness:
  "snd demo_keeper = Some (10000001, wrap ErrLeaseLost ''no route to host'') \<and> nw_now (fst demo_keeper) \<le> 10000105"
proof -
  let ?cp = "networkPlane (servicePlane (memoryService demo_semver (\<lambda>_ _. []) 0))"
  have renew: "fst (cp_Renew ?cp (demo_asg 100) n) = n\<lparr>net_cp := net_others n (net_sent n) (net_cp n), net_sent := Suc (net_sent n)\<rparr>"
    "snd (cp_Renew ?cp (demo_asg 100) n) = Inl (errors_New ''no route to host'')" if "cut_off n" for n
    using that by (simp_all add: cut_off_def networkPlane_def over_network_def Let_def)
  have run: "keepLease ?cp (demo_asg 100) (60 * second) demo_cut_off = (fst demo_keeper, snd demo_keeper)" by (simp add: demo_keeper_def)
  have "nw_now (fst demo_keeper) \<le> 104 + 10 * millisecond + 1"
    by (rule execution_fenced [where P = cut_off and bound = 104 and lag = 1, OF run, THEN conjunct1])
      (auto simp: renew, auto simp: cut_off_def renew demo_cut_off_def demo_node_world_def demo_asg_def millisecond_def)
  then show ?thesis by (simp add: demo_keeper millisecond_def)
qed

section \<open>Waiting for an answer\<close>

text \<open>
  The poll of an interaction. A ticker fires every 250 milliseconds and keeps one tick for a late
  receiver, so the tick after one received at \<open>r\<close> is the next on its grid. \<open>until\<close> is the instant at
  which the context is done, with the error \<open>cause\<close>.
\<close>

definition poll_interval :: duration where "poll_interval = 250 * millisecond"

definition next_tick :: "time \<Rightarrow> time \<Rightarrow> time" where
  "next_tick tick r = tick + ((r - tick) div poll_interval + 1) * poll_interval"

lemma next_tick_later: "tick \<le> r \<Longrightarrow> tick < next_tick tick r"
  by (simp add: next_tick_def poll_interval_def millisecond_def pos_imp_zdiv_nonneg_iff add_nonneg_pos)

function broker_poll :: "'c ControlPlane \<Rightarrow> Assignment \<Rightarrow> time \<Rightarrow> error \<Rightarrow> string \<Rightarrow> time \<Rightarrow> ('c, 'z) node_world_scheme
    \<Rightarrow> ('c, 'z) node_world_scheme \<times> json option result" where
  "broker_poll cp a until cause interactionID tick w =
    (case wait until (max 0 (tick - nw_now w)) w of
       (w, False) \<Rightarrow> (w, Inl cause)
     | (w, True) \<Rightarrow>
       let after = next_tick tick (nw_now w)
       in case call (cp_GetInteraction cp a interactionID) w of
            (w, Inl e) \<Rightarrow> (w, Inl e)
          | (w, Inr interaction) \<Rightarrow>
              if ia_State interaction = ''resolved'' then (w, Inr (ia_Response interaction))
              else broker_poll cp a until cause (ia_ID interaction) after w)"
  by pat_completeness auto

termination broker_poll
proof (relation "measure (\<lambda>(_, _, until, _, _, tick, _). nat (until - tick))", simp_all only: wf_measure in_measure prod.case, goal_cases)
  case (1 cp a until cause i tick w w1 b after w2 r v)
  then have "tick \<le> nw_now w1" "nw_now w1 < until" by (auto simp: wait_def split: if_splits)
  with 1 next_tick_later [of tick "nw_now w1"] show ?case by simp
qed

declare broker_poll.simps [simp del]

definition interactionBroker_Request :: "'c ControlPlane \<Rightarrow> Assignment \<Rightarrow> time \<Rightarrow> error \<Rightarrow> InteractionRequest
    \<Rightarrow> ('c, 'z) node_world_scheme \<Rightarrow> ('c, 'z) node_world_scheme \<times> json option result" where
  "interactionBroker_Request cp a until cause request w =
    (case call (cp_CreateInteraction cp a request) w of
       (w, Inl e) \<Rightarrow> (w, Inl e)
     | (w, Inr interaction) \<Rightarrow> broker_poll cp a until cause (ia_ID interaction) (nw_now w + poll_interval) w)"

lemma broker_poll_frame:
  assumes "\<And>i c. P c \<Longrightarrow> P (fst (cp_GetInteraction cp a i c))" "P (nw_cp w)" "broker_poll cp a until cause i tick w = (w', r)"
  shows "P (nw_cp w') \<and> node_world.more w' = node_world.more w \<and> nw_now w \<le> nw_now w' \<and>
    (\<forall>out. r = Inr out \<longrightarrow> (\<exists>c j v. P c \<and> cp_GetInteraction cp a j c = (nw_cp w', Inr v) \<and> ia_State v = ''resolved'' \<and> out = ia_Response v))"
  using assms
proof (induction cp a until cause i tick w rule: broker_poll.induct)
  case (1 cp a until cause i tick w)
  obtain w1 fired where wt: "wait until (max 0 (tick - nw_now w)) w = (w1, fired)" by fastforce
  then have w1: "nw_cp w1 = nw_cp w" "node_world.more w1 = node_world.more w" by (auto dest: waitD)
  have time1: "nw_now w \<le> nw_now w1" using wt by (auto simp: wait_def split: if_splits)
  show ?case
  proof (cases fired)
    case False
    with 1(3,4) wt w1 time1 show ?thesis by (auto simp: broker_poll.simps [of cp a until cause i tick w])
  next
    case True
    obtain w2 q where c: "call (cp_GetInteraction cp a i) w1 = (w2, q)" by fastforce
    note w2 = callD [OF c]
    have time2: "nw_now w1 \<le> nw_now w2" using call_simps(3) [of "cp_GetInteraction cp a i" w1] c by simp
    have P2: "P (nw_cp w2)" using 1(2) [OF 1(3), of i] w2 w1(1) by simp
    show ?thesis
    proof (cases q)
      case (Inl e)
      with 1(4) wt True c P2 w1 w2 time1 time2 show ?thesis by (auto simp: broker_poll.simps [of cp a until cause i tick w] Let_def)
    next
      case (Inr v)
      show ?thesis
      proof (cases "ia_State v = ''resolved''")
        case res: True
        with 1(4) wt True c Inr have "w' = w2" "r = Inr (ia_Response v)" by (auto simp: broker_poll.simps [of cp a until cause i tick w] Let_def)
        with P2 w1 w2 res Inr 1(3) time1 time2 show ?thesis by (auto intro!: exI [of _ "nw_cp w1"] exI [of _ i])
      next
        case False
        with 1(4) wt True c Inr have rec: "broker_poll cp a until cause (ia_ID v) (next_tick tick (nw_now w1)) w2 = (w', r)"
          by (auto simp: broker_poll.simps [of cp a until cause i tick w] Let_def)
        have "P (nw_cp w') \<and> node_world.more w' = node_world.more w2 \<and> nw_now w2 \<le> nw_now w' \<and>
          (\<forall>out. r = Inr out \<longrightarrow> (\<exists>c j v. P c \<and> cp_GetInteraction cp a j c = (nw_cp w', Inr v) \<and> ia_State v = ''resolved'' \<and> out = ia_Response v))"
          by (rule 1(1) [OF wt [symmetric] _ refl c [symmetric] Inr False]) (use True 1(2) P2 rec in auto)
        then show ?thesis using w1 w2 time1 time2 by simp
      qed
    qed
  qed
qed

end
