(* ===== verification/Node_Worker.thy ===== *)
theory Node_Worker
  imports Engine Bindings Workspaces Node_Lease
begin

text \<open>
  \<open>node/worker.go\<close>: the worker of a node. \<open>RunOnce\<close> claims an assignment, prepares a workspace,
  executes it and reports the outcome.

  An executor is the sequence of calls it makes, as a function of the answers (\<open>execution\<close>); it may
  also work on the host and wait. The events it emits go to the control plane one at a time. The host
  (workspaces, bindings, files) has a state of any type.

  The lease keeper is a goroutine beside the execution. \<open>RunOnce\<close> is a function of what it does:
  \<open>keeper a t\<close> is the outcome of \<open>keepLease\<close> for the assignment \<open>a\<close> when its context is done at \<open>t\<close>,
  and its calls are among those of the other clients of the control plane. The theorems hold for every
  such function. The context of \<open>RunOnce\<close> is done at the instant \<open>until\<close>, which may be any instant
  after the run has returned.
\<close>

section \<open>The worker\<close>

datatype 'h execution =
    Returns Result "error option"
  | Emits string goany "'h execution"
  | Calls CapabilityCall "CapabilityResult result \<Rightarrow> 'h execution"
  | Asks InteractionRequest "json option result \<Rightarrow> 'h execution"
  | Waits duration "bool \<Rightarrow> 'h execution"
  | Works "'h \<Rightarrow> 'h \<times> 'h execution"

record 'h workspace_provider =
  wp_Prepare :: "string \<Rightarrow> string \<Rightarrow> WorkspaceSpec \<Rightarrow> 'h \<Rightarrow> 'h \<times> Prepared result"
  wp_Cleanup :: "cleanup \<Rightarrow> 'h \<Rightarrow> 'h \<times> error option"

definition workspaceManager :: "'h ws_os \<Rightarrow> string \<Rightarrow> 'h workspace_provider" where
  "workspaceManager os root = \<lparr>wp_Prepare = Manager_Prepare os root, wp_Cleanup = run_cleanup os\<rparr>"

text \<open>
  The worker, with what it uses of the standard library: the length and the text of what
  \<open>json.Marshal\<close> produces, and \<open>os.Open\<close>.
\<close>

record ('c, 'h) Worker =
  wk_Registration :: NodeRegistration
  wk_ControlPlane :: "'c ControlPlane option"
  wk_Bindings :: "'h Registry option"
  wk_Executors :: "(string \<Rightarrow> (Execution \<Rightarrow> 'h execution) option) option"
  wk_Compiler :: "(Input \<Rightarrow> InstructionBundle \<Rightarrow> CompiledInstructions result) option"
  wk_Workspaces :: "'h workspace_provider option"
  wk_Outbox :: "Outbox option"
  wk_jsonSize :: "json \<Rightarrow> nat"
  wk_jsonText :: "json \<Rightarrow> string"
  wk_Open :: "string \<Rightarrow> 'h \<Rightarrow> reader result"

text \<open>
  The state of a run beside the outbox: the host, the random source, and the variables that the
  closures of \<open>RunOnce\<close> share. \<open>ww_handed\<close> is what the executor and the invoker handed to \<open>emit\<close> so
  far, a history of the run.
\<close>

record ('c, 'h) worker_world = "'c outbox_world" +
  ww_host :: 'h
  ww_random :: world
  ww_eventErr :: "error option"
  ww_eventSequence :: int
  ww_cancelled :: "time option"
  ww_handed :: "(string \<times> goany) list"

definition on_host :: "('h \<Rightarrow> 'h \<times> 'a) \<Rightarrow> ('c, 'h) worker_world \<Rightarrow> ('c, 'h) worker_world \<times> 'a" where
  "on_host f w = (case f (ww_host w) of (h, r) \<Rightarrow> (w\<lparr>ww_host := h\<rparr>, r))"

definition Worker_Register :: "('c, 'h) Worker \<Rightarrow> string list \<Rightarrow> 'c \<Rightarrow> ('c, 'h) Worker \<times> 'c \<times> Node result" where
  "Worker_Register wk order c =
    (case wk_ControlPlane wk of None \<Rightarrow> (wk, c, Inl (errors_New ''relay node: control plane is required''))
     | Some cp \<Rightarrow>
       let wk = (case wk_Bindings wk of None \<Rightarrow> wk
             | Some bindings \<Rightarrow> wk\<lparr>wk_Registration := (wk_Registration wk)\<lparr>reg_Capabilities :=
                 map (\<lambda>d. \<lparr>cap_Name = ds_Name d, cap_Version = ds_Version d, cap_Kind = ds_Kind d\<rparr>) (Registry_Inventory order bindings)\<rparr>\<rparr>);
           (c, r) = cp_RegisterNode cp (wk_Registration wk) c
       in (wk, c, r))"

section \<open>The execution\<close>

text \<open>The context of the execution: done with the context of \<open>RunOnce\<close>, or when the keeper or a failed event cancelled it.\<close>

definition executionCtx :: "time \<Rightarrow> bool \<Rightarrow> (time \<times> error) option \<Rightarrow> ('c, 'h) worker_world \<Rightarrow> time \<times> bool" where
  "executionCtx until how lost w =
    (let ctx = (until, how);
         ctx = (case lost of Some (t, _) \<Rightarrow> if t < fst ctx then (t, True) else ctx | None \<Rightarrow> ctx)
     in case ww_cancelled w of Some t \<Rightarrow> if t < fst ctx then (t, True) else ctx | None \<Rightarrow> ctx)"

definition cancelExecution :: "('c, 'h) worker_world \<Rightarrow> ('c, 'h) worker_world" where
  "cancelExecution w = w\<lparr>ww_cancelled := (case ww_cancelled w of None \<Rightarrow> Some (nw_now w) | Some t \<Rightarrow> Some t)\<rparr>"

definition ctx_of :: "time \<times> bool \<Rightarrow> gocontext" where
  "ctx_of c = \<lparr>gc_done = Some (fst c), gc_cancelled = snd c\<rparr>"

definition worker_emit :: "('c, 'h) Worker \<Rightarrow> 'c ControlPlane \<Rightarrow> Assignment \<Rightarrow> time \<Rightarrow> bool \<Rightarrow> (time \<times> error) option
    \<Rightarrow> string \<Rightarrow> goany \<Rightarrow> ('c, 'h) worker_world \<Rightarrow> ('c, 'h) worker_world" where
  "worker_emit wk cp a until how lost eventType data w =
    (if ww_eventErr w \<noteq> None then w
     else let eventSequence = ww_eventSequence w + 1;
              w = w\<lparr>ww_eventSequence := eventSequence, ww_handed := ww_handed w @ [(eventType, data)]\<rparr>;
              eventCtx = ctx_of (executionCtx until how lost w);
              (w, err) = (case wk_Outbox wk of
                  None \<Rightarrow> deliverEvent (wk_jsonSize wk) eventCtx cp a (Itoa eventSequence) eventType data w
                | Some ob \<Rightarrow> Outbox_deliver ob eventCtx cp a (Itoa eventSequence) eventType data w)
          in case err of None \<Rightarrow> w
             | Some e \<Rightarrow> cancelExecution (w\<lparr>ww_eventErr :=
                 Some (GoError (err_is e) (''relay node: deliver event '' @ eventType @ '': '' @ err_text e))\<rparr>))"

definition worker_invoker :: "('c, 'h) Worker \<Rightarrow> 'c ControlPlane \<Rightarrow> Assignment \<Rightarrow> time \<Rightarrow> bool \<Rightarrow> (time \<times> error) option
    \<Rightarrow> (('c, 'h) worker_world) scopedCapabilities" where
  "worker_invoker wk cp a until how lost =
    \<lparr>sc_runID = as_RunID a, sc_agentID = rq_AgentID (as_Request a), sc_principal = rq_Principal (as_Request a),
     sc_grants = rq_Capabilities (as_Request a),
     sc_env = \<lparr>ce_Invoke = map_option (\<lambda>bindings r. on_host (Registry_Invoke bindings r)) (wk_Bindings wk),
       ce_reserve = Some (\<lambda>key hash r. call (cp_ReserveCapability cp a key hash r)),
       ce_finish = Some (\<lambda>rsv res cause. call (cp_FinishCapability cp a rsv res cause)),
       ce_emit = worker_emit wk cp a until how lost,
       ce_newID = (\<lambda>prefix w. let (i, random) = newID prefix (ww_random w) in (i, w\<lparr>ww_random := random\<rparr>)),
       ce_text = wk_jsonText wk\<rparr>\<rparr>"

primrec run_execution :: "('c, 'h) Worker \<Rightarrow> 'c ControlPlane \<Rightarrow> Assignment \<Rightarrow> time \<Rightarrow> bool \<Rightarrow> (time \<times> error) option \<Rightarrow> 'h execution
    \<Rightarrow> (string \<Rightarrow> capabilityCallState option) \<Rightarrow> ('c, 'h) worker_world \<Rightarrow> ('c, 'h) worker_world \<times> Result \<times> error option" where
  "run_execution wk cp a until how lost (Returns result err) calls w = (w, result, err)"
| "run_execution wk cp a until how lost (Emits eventType data p) calls w =
    run_execution wk cp a until how lost p calls (worker_emit wk cp a until how lost eventType data w)"
| "run_execution wk cp a until how lost (Calls c p) calls w =
    (case Call (worker_invoker wk cp a until how lost) c calls w of
       (calls, w, r) \<Rightarrow> run_execution wk cp a until how lost (p r) calls w)"
| "run_execution wk cp a until how lost (Asks request p) calls w =
    (let ctx = executionCtx until how lost w
     in case interactionBroker_Request cp a (fst ctx) (context_Err (snd ctx)) request w of
          (w, r) \<Rightarrow> run_execution wk cp a until how lost (p r) calls w)"
| "run_execution wk cp a until how lost (Waits delay p) calls w =
    (case wait (fst (executionCtx until how lost w)) (max 0 delay) w of
       (w, fired) \<Rightarrow> run_execution wk cp a until how lost (p fired) calls w)"
| "run_execution wk cp a until how lost (Works f) calls w =
    (case map_prod id (\<lambda>p. run_execution wk cp a until how lost p calls) (f (ww_host w)) of
       (h, k) \<Rightarrow> k (w\<lparr>ww_host := h\<rparr>))"

section \<open>Reports\<close>

definition cancelledRun :: "Assignment \<Rightarrow> Run" where
  "cancelledRun a = zero_Run\<lparr>run_ID := as_RunID a, run_AgentID := rq_AgentID (as_Request a), run_Runtime := rq_Runtime (as_Request a),
     run_Source := rq_Source (as_Request a), run_Status := RunCancelled,
     run_Attempt := zero_Attempt\<lparr>att_ID := as_AttemptID a, att_Status := AttemptCancelled\<rparr>\<rparr>"

definition is_error :: "error option \<Rightarrow> sentinel \<Rightarrow> bool" where
  "is_error err s \<longleftrightarrow> (case err of None \<Rightarrow> False | Some e \<Rightarrow> errors_Is e s)"

text \<open>\<open>stopLease\<close>: the error with which the keeper ends when it is stopped now.\<close>

definition stopLease :: "(time \<Rightarrow> (time \<times> error) option) \<Rightarrow> ('c, 'h) worker_world \<Rightarrow> error option" where
  "stopLease keeper w = map_option snd (keeper (nw_now w))"

text \<open>The acknowledgement of a cancellation that ends both paths; \<open>errs\<close> is what is reported if it fails.\<close>

definition acknowledge :: "'c ControlPlane \<Rightarrow> Assignment \<Rightarrow> error option \<Rightarrow> ('c, 'h) worker_world \<Rightarrow> ('c, 'h) worker_world \<times> Run result" where
  "acknowledge cp a errs w =
    (case call (cp_AcknowledgeCancellation cp a) w of
       (w, Inl ackErr) \<Rightarrow>
         if \<not> errors_Is ackErr InvalidTransition
         then (w, Inl (case errs of None \<Rightarrow> ackErr | Some e \<Rightarrow> errors_Join e ackErr))
         else (w, Inr (cancelledRun a))
     | (w, Inr _) \<Rightarrow> (w, Inr (cancelledRun a)))"

definition failRun :: "'c ControlPlane \<Rightarrow> Assignment \<Rightarrow> gocontext \<Rightarrow> (time \<Rightarrow> (time \<times> error) option) \<Rightarrow> error
    \<Rightarrow> ('c, 'h) worker_world \<Rightarrow> ('c, 'h) worker_world \<times> Run result" where
  "failRun cp a ctx keeper cause w =
    (let (w, reportErr) = retryFinalReport ctx (cp_Fail cp a (err_text cause)) w;
         leaseErr = stopLease keeper w
     in if is_error reportErr RunCancelledErr \<or> is_error leaseErr RunCancelledErr
        then acknowledge cp a (join_errors (Some cause) (join_errors reportErr leaseErr)) w
        else case reportErr of None \<Rightarrow> (w, Inl cause)
        | Some e \<Rightarrow> (w, Inl (errors_Join cause (case leaseErr of None \<Rightarrow> e | Some e' \<Rightarrow> errors_Join e e'))))"

fun upload_artifacts :: "('c, 'h) Worker \<Rightarrow> 'c ControlPlane \<Rightarrow> Assignment \<Rightarrow> Artifact list \<Rightarrow> ('c, 'h) worker_world
    \<Rightarrow> ('c, 'h) worker_world \<times> Artifact list result" where
  "upload_artifacts wk cp a [] w = (w, Inr [])"
| "upload_artifacts wk cp a (artifact # artifacts) w =
    (if art_Ref artifact = []
     then (case upload_artifacts wk cp a artifacts w of (w, Inl e) \<Rightarrow> (w, Inl e) | (w, Inr rest) \<Rightarrow> (w, Inr (artifact # rest)))
     else case wk_Open wk (art_Ref artifact) (ww_host w) of Inl e \<Rightarrow> (w, Inl e)
     | Inr reader \<Rightarrow>
       (case call (cp_UploadArtifact cp a artifact reader) w of (w, Inl e) \<Rightarrow> (w, Inl e)
        | (w, Inr uploaded) \<Rightarrow>
          (case upload_artifacts wk cp a artifacts w of (w, Inl e) \<Rightarrow> (w, Inl e) | (w, Inr rest) \<Rightarrow> (w, Inr (uploaded # rest)))))"

definition succeededRun :: "Assignment \<Rightarrow> Result \<Rightarrow> Run" where
  "succeededRun a result = zero_Run\<lparr>run_ID := as_RunID a, run_AgentID := rq_AgentID (as_Request a), run_Runtime := rq_Runtime (as_Request a),
     run_Source := rq_Source (as_Request a), run_Status := RunSucceeded, run_Result := Some result\<rparr>"

definition completeRun :: "'c ControlPlane \<Rightarrow> Assignment \<Rightarrow> gocontext \<Rightarrow> (time \<Rightarrow> (time \<times> error) option) \<Rightarrow> Result
    \<Rightarrow> ('c, 'h) worker_world \<Rightarrow> ('c, 'h) worker_world \<times> Run result" where
  "completeRun cp a ctx keeper result w =
    (let (w, completeErr) = retryFinalReport ctx (cp_Complete cp a result) w;
         leaseErr = stopLease keeper w
     in if is_error completeErr RunCancelledErr \<or> is_error leaseErr RunCancelledErr
        then acknowledge cp a (join_errors completeErr leaseErr) w
        else case completeErr of
          Some e \<Rightarrow> (w, Inl (case leaseErr of None \<Rightarrow> e | Some e' \<Rightarrow> errors_Join e e'))
        | None \<Rightarrow> (w, Inr (succeededRun a result)))"

section \<open>One assignment\<close>

text \<open>From the start of the attempt: \<open>execution\<close> is what the executor does with it.\<close>

definition RunOnce_execute :: "('c, 'h) Worker \<Rightarrow> 'c ControlPlane \<Rightarrow> time \<Rightarrow> bool \<Rightarrow> Assignment \<Rightarrow> (time \<Rightarrow> (time \<times> error) option)
    \<Rightarrow> 'h execution \<Rightarrow> ('c, 'h) worker_world \<Rightarrow> ('c, 'h) worker_world \<times> Run result" where
  "RunOnce_execute wk cp until how a keeper execution w =
    (let ctx = ctx_of (until, how);
         w = w\<lparr>ww_eventErr := None, ww_eventSequence := 0, ww_cancelled := None, ww_handed := []\<rparr>;
         (w, result, executionErr) = run_execution wk cp a until how (keeper until) execution Map.empty w
     in case join_errors executionErr (ww_eventErr w) of
          Some err \<Rightarrow> failRun cp a ctx keeper err w
        | None \<Rightarrow>
          (case upload_artifacts wk cp a (res_Artifacts result) w of
             (w, Inl err) \<Rightarrow> failRun cp a ctx keeper err w
           | (w, Inr artifacts) \<Rightarrow> completeRun cp a ctx keeper (result\<lparr>res_Artifacts := artifacts\<rparr>) w))"

definition RunOnce_start :: "('c, 'h) Worker \<Rightarrow> 'c ControlPlane \<Rightarrow> time \<Rightarrow> bool \<Rightarrow> (Assignment \<Rightarrow> time \<Rightarrow> (time \<times> error) option)
    \<Rightarrow> Assignment \<Rightarrow> (Execution \<Rightarrow> 'h execution) \<Rightarrow> string \<Rightarrow> ('c, 'h) worker_world \<Rightarrow> ('c, 'h) worker_world \<times> Run result" where
  "RunOnce_start wk cp until how keeper a executor workDir w =
    (let request = as_Request a;
         compiler = (case wk_Compiler wk of None \<Rightarrow> Compile | Some c \<Rightarrow> c);
         instructions = (if rq_Capabilities request \<noteq> []
           then (rq_Instructions request)\<lparr>ib_Runtime := ib_Runtime (rq_Instructions request) @ [CapabilityToolInstruction (rq_Capabilities request)]\<rparr>
           else rq_Instructions request)
     in case compiler (rq_Input request) instructions of
          Inl err \<Rightarrow> (fst (call (cp_Fail cp a (err_text err)) w), Inl err)
        | Inr compiled \<Rightarrow>
          (case call (cp_Start cp a) w of
             (w, Inl err) \<Rightarrow>
               if errors_Is err RunCancelledErr
               then (case call (cp_AcknowledgeCancellation cp a) w of
                   (w, Inl ackErr) \<Rightarrow> (w, Inl ackErr) | (w, Inr _) \<Rightarrow> (w, Inr (cancelledRun a)))
               else (w, Inl err)
           | (w, Inr _) \<Rightarrow>
               RunOnce_execute wk cp until how a (keeper a)
                 (executor \<lparr>ex_RunID = as_RunID a, ex_AttemptID = as_AttemptID a, ex_AgentID = rq_AgentID request,
                    ex_Runtime = rq_Runtime request, ex_Source = rq_Source request, ex_Input = rq_Input request,
                    ex_Context = rq_Context request, ex_Instructions = compiled, ex_WorkDir = workDir\<rparr>) w))"

definition RunOnce :: "('c, 'h) Worker \<Rightarrow> time \<Rightarrow> bool \<Rightarrow> (Assignment \<Rightarrow> time \<Rightarrow> (time \<times> error) option)
    \<Rightarrow> ('c, 'h) worker_world \<Rightarrow> ('c, 'h) worker_world \<times> Run result" where
  "RunOnce wk until how keeper w =
    (case (wk_ControlPlane wk, wk_Executors wk) of
       (Some cp, Some executors) \<Rightarrow>
         (case call (cp_Claim cp (reg_ID (wk_Registration wk))) w of (w, Inl err) \<Rightarrow> (w, Inl err)
          | (w, Inr a) \<Rightarrow>
            (case executors (rr_Provider (rq_Runtime (as_Request a))) of
               None \<Rightarrow> let cause = ''runtime provider '' @ quot @ rr_Provider (rq_Runtime (as_Request a)) @ quot @ '' is unavailable''
                 in (fst (call (cp_Fail cp a cause) w), Inl (errors_New cause))
             | Some executor \<Rightarrow>
               if ws_Kind (rq_Workspace (as_Request a)) = [] then RunOnce_start wk cp until how keeper a executor [] w
               else (case wk_Workspaces wk of
                   None \<Rightarrow> let cause = ''workspace requested but no workspace provider is configured''
                     in (fst (call (cp_Fail cp a cause) w), Inl (errors_New cause))
                 | Some workspaces \<Rightarrow>
                   (case on_host (wp_Prepare workspaces (as_RunID a) (as_AttemptID a) (rq_Workspace (as_Request a))) w of
                      (w, Inl err) \<Rightarrow> (fst (call (cp_Fail cp a (err_text err)) w), Inl err)
                    | (w, Inr prepared) \<Rightarrow>
                      let (w, r) = RunOnce_start wk cp until how keeper a executor (pp_Dir prepared) w
                      in (fst (on_host (wp_Cleanup workspaces (pp_Cleanup prepared)) w), r)))))
     | _ \<Rightarrow> (w, Inl (errors_New ''relay node: control plane and executors are required'')))"

end
