(* ===== verification/Node_Runs.thy ===== *)
theory Node_Runs
  imports Node_Worker
begin

text \<open>
  What \<open>RunOnce\<close> guarantees. The locale \<open>node_plane\<close> extends the contract \<open>event_sink\<close> of a control
  plane by what the worker relies on beside events; the results are proved there once, for every
  executor, every host and every behaviour of the lease keeper, and hold of the service over the
  in-memory storage behind a network that loses messages.
\<close>

section \<open>The contract\<close>

text \<open>The calls of a worker, as transformations of the control plane.\<close>

inductive plane_call :: "'c ControlPlane \<Rightarrow> ('c \<Rightarrow> 'c) \<Rightarrow> bool" for cp :: "'c ControlPlane" where
  claim: "plane_call cp (\<lambda>c. fst (cp_Claim cp n c))"
| start: "plane_call cp (\<lambda>c. fst (cp_Start cp a c))"
| complete: "plane_call cp (\<lambda>c. fst (cp_Complete cp a r c))"
| report: "plane_call cp (\<lambda>c. fst (cp_Fail cp a cause c))"
| acknowledge: "plane_call cp (\<lambda>c. fst (cp_AcknowledgeCancellation cp a c))"
| upload: "plane_call cp (\<lambda>c. fst (cp_UploadArtifact cp a art reader c))"
| reserve: "plane_call cp (\<lambda>c. fst (cp_ReserveCapability cp a key hash request c))"
| finish: "plane_call cp (\<lambda>c. fst (cp_FinishCapability cp a rsv res cause c))"
| create: "plane_call cp (\<lambda>c. fst (cp_CreateInteraction cp a ir c))"
| get: "plane_call cp (\<lambda>c. fst (cp_GetInteraction cp a i c))"

text \<open>The event that an executor handed over as its \<open>k\<close>-th is in a log once, with its type and its data.\<close>

definition recorded :: "Event list \<Rightarrow> Assignment \<Rightarrow> nat \<Rightarrow> string \<times> goany \<Rightarrow> bool" where
  "recorded log a k x \<longleftrightarrow> (\<exists>e j. json_Marshal (snd x) = Inr j \<and>
     events_named (EventIdentity (as_AttemptID a) (as_LeaseToken a) [Itoa (int k + 1)]) log = [e] \<and>
     SameEvent (ev_Type e) (ev_Data e) (fst x) (GoVal j) = None)"

definition delivered :: "Event list \<Rightarrow> Assignment \<Rightarrow> (string \<times> goany) list \<Rightarrow> bool" where
  "delivered log a handed \<longleftrightarrow> (\<forall>k < length handed. recorded log a k (handed ! k))"

definition worker_inv :: "('c \<Rightarrow> bool) \<Rightarrow> ('c \<Rightarrow> string \<Rightarrow> Event list) \<Rightarrow> Assignment \<Rightarrow> ('c, 'h) worker_world \<Rightarrow> bool" where
  "worker_inv ok log a w \<longleftrightarrow> ok (nw_cp w) \<and> ww_eventSequence w = int (length (ww_handed w)) \<and>
     (ww_eventErr w = None \<longrightarrow> delivered (log (nw_cp w) (as_RunID a)) a (ww_handed w))"

text \<open>What a run that \<open>RunOnce\<close> returns without an error says about the control plane.\<close>

definition run_settled :: "'c ControlPlane \<Rightarrow> ('c \<Rightarrow> string \<Rightarrow> Event list) \<Rightarrow> ('c \<Rightarrow> string \<Rightarrow> Run option) \<Rightarrow> Assignment \<Rightarrow> Run
    \<Rightarrow> ('c, 'h) worker_world \<Rightarrow> bool" where
  "run_settled cp log state a run w \<longleftrightarrow>
     (\<exists>result stored committed. run = succeededRun a result \<and> delivered (log (nw_cp w) (as_RunID a)) a (ww_handed w) \<and>
        state (nw_cp w) (as_RunID a) = Some stored \<and> run_Status stored = RunSucceeded \<and> run_Result stored = Some committed \<and>
        SameValue (Result_json committed) (Result_json result)) \<or>
     run = cancelledRun a \<and>
       ((\<exists>stored. state (nw_cp w) (as_RunID a) = Some stored \<and> run_Status stored = RunCancelled) \<or>
        (\<exists>c err. cp_AcknowledgeCancellation cp a c = (nw_cp w, Inl err) \<and> errors_Is err InvalidTransition))"

text \<open>The calls and the timers leave the variables of \<open>RunOnce\<close> alone.\<close>

lemma worker_more:
  assumes "node_world.more w = node_world.more w'"
  shows "ww_host w = ww_host w'" "ww_eventErr w = ww_eventErr w'" "ww_eventSequence w = ww_eventSequence w'" "ww_handed w = ww_handed w'"
  using assms by (cases w; cases w'; simp)+

lemma worker_call:
  assumes "call f w = (w', r)"
  shows "ww_host w' = ww_host w" "ww_eventErr w' = ww_eventErr w" "ww_eventSequence w' = ww_eventSequence w" "ww_handed w' = ww_handed w"
  using worker_more [of w' w] callD [OF assms] by simp_all

lemma upload_keeps: "upload_artifacts wk cp a artifacts w = (w', r) \<Longrightarrow> ww_eventErr w' = ww_eventErr w"
proof (induction artifacts arbitrary: w w' r)
  case (Cons art artifacts)
  have up: "ww_eventErr w1 = ww_eventErr w" if "call (cp_UploadArtifact cp a art reader) w = (w1, q)" for reader w1 q
    using worker_call(2) [OF that] .
  show ?case using Cons.prems
    by (auto split: prod.splits sum.splits if_splits dest!: Cons.IH up)
qed simp

locale node_plane = event_sink cp log ok leads
  for cp :: "'c ControlPlane" and log ok leads +
  fixes state :: "'c \<Rightarrow> string \<Rightarrow> Run option"
  assumes call_keeps: "plane_call cp f \<Longrightarrow> ok c \<Longrightarrow> ok (f c) \<and> leads c (f c)"
    and complete_done: "ok c \<Longrightarrow> cp_Complete cp a r c = (c', Inr ()) \<Longrightarrow>
      \<exists>run r'. state c' (as_RunID a) = Some run \<and> run_Status run = RunSucceeded \<and> run_Result run = Some r' \<and>
        SameValue (Result_json r') (Result_json r)"
    and acknowledge_done: "ok c \<Longrightarrow> cp_AcknowledgeCancellation cp a c = (c', Inr ()) \<Longrightarrow>
      \<exists>run. state c' (as_RunID a) = Some run \<and> run_Status run = RunCancelled"
begin

lemma recorded_leads:
  assumes "leads c c'" "ok c'" "recorded (log c rid) a k x"
  shows "recorded (log c' rid) a k x"
proof -
  let ?id = "EventIdentity (as_AttemptID a) (as_LeaseToken a) [Itoa (int k + 1)]"
  obtain e j where e: "json_Marshal (snd x) = Inr j" "events_named ?id (log c rid) = [e]" "SameEvent (ev_Type e) (ev_Data e) (fst x) (GoVal j) = None"
    using assms(3) unfolding recorded_def by blast
  have id: "?id \<noteq> []" using Itoa_last(1) [of "Suc k"] by (simp add: EventIdentity_def add.commute)
  obtain rest where "log c' rid = log c rid @ rest" using leads_log [OF assms(1), of rid] by (auto simp: prefix_def)
  with named_once [OF assms(2) id, of rid] e(2) have "events_named ?id (log c' rid) = [e]" by simp
  with e show ?thesis unfolding recorded_def by blast
qed

lemma delivered_leads: "leads c c' \<Longrightarrow> ok c' \<Longrightarrow> delivered (log c rid) a hs \<Longrightarrow> delivered (log c' rid) a hs"
  by (auto simp: delivered_def recorded_leads)

lemma worker_inv_step:
  assumes "worker_inv ok log a w" "ok (nw_cp w')" "leads (nw_cp w) (nw_cp w')" "ww_eventErr w' = ww_eventErr w"
    "ww_eventSequence w' = ww_eventSequence w" "ww_handed w' = ww_handed w"
  shows "worker_inv ok log a w'"
  using assms delivered_leads by (simp add: worker_inv_def)

lemma call_inv:
  assumes "plane_call cp (\<lambda>c. fst (f c))" "worker_inv ok log a w"
  shows "worker_inv ok log a (fst (call f w))"
proof -
  obtain w' r where c: "call f w = (w', r)" by fastforce
  have "ok (nw_cp w')" "leads (nw_cp w) (nw_cp w')"
    using call_keeps [OF assms(1), of "nw_cp w"] assms(2) callD [OF c] by (auto simp: worker_inv_def)
  from worker_inv_step [OF assms(2) this worker_call(2,3,4) [OF c]] c show ?thesis by simp
qed

lemma on_host_inv: "worker_inv ok log a w \<Longrightarrow> worker_inv ok log a (fst (on_host f w))"
  by (simp add: worker_inv_def on_host_def split: prod.split)

text \<open>A delivery: directly or through the outbox.\<close>

lemma deliver_recorded:
  fixes w :: "('c, 'h) worker_world"
  assumes "ok (nw_cp w)" "deliverEvent jsonSize ctx cp a (Itoa (int k + 1)) kind data w = (w', err)"
  shows "ok (nw_cp w')" "leads (nw_cp w) (nw_cp w')" "ww_eventErr w' = ww_eventErr w"
    "ww_eventSequence w' = ww_eventSequence w" "ww_handed w' = ww_handed w"
    "err = None \<Longrightarrow> recorded (log (nw_cp w') (as_RunID a)) a k (kind, data)"
proof -
  have id: "Itoa (int k + 1) \<noteq> []" using Itoa_last(1) [of "Suc k"] by (simp add: add.commute)
  have "node_world.more w' = node_world.more w" using deliverEvent_more [of jsonSize ctx cp a _ kind data w] assms(2) by (metis fst_conv)
  from worker_more [OF this] show "ww_eventErr w' = ww_eventErr w" "ww_eventSequence w' = ww_eventSequence w" "ww_handed w' = ww_handed w"
    by simp_all
  from deliver_once [OF assms(1) id assms(2)] show "ok (nw_cp w')" "leads (nw_cp w) (nw_cp w')"
    "err = None \<Longrightarrow> recorded (log (nw_cp w') (as_RunID a)) a k (kind, data)"
    by (simp_all add: recorded_def)
qed

lemma Outbox_deliver_recorded:
  fixes w :: "('c, 'h) worker_world"
  assumes "ok (nw_cp w)" "Outbox_deliver ob ctx cp a (Itoa (int k + 1)) kind data w = (w', err)"
  shows "ok (nw_cp w') \<and> leads (nw_cp w) (nw_cp w') \<and> ww_eventErr w' = ww_eventErr w \<and>
    ww_eventSequence w' = ww_eventSequence w \<and> ww_handed w' = ww_handed w \<and>
    (err = None \<longrightarrow> recorded (log (nw_cp w') (as_RunID a)) a k (kind, data))"
proof (cases "json_Marshal data")
  case (Inl e)
  with assms leads_refl show ?thesis by (auto simp: Outbox_deliver_def)
next
  case (Inr payload)
  have disk: "nw_cp v' = nw_cp v \<and> ww_eventErr v' = ww_eventErr v \<and> ww_eventSequence v' = ww_eventSequence v \<and> ww_handed v' = ww_handed v"
    if "on_disk f v = (v', x)" for f :: "outbox_text disk \<Rightarrow> outbox_text disk \<times> 'x" and v v' :: "('c, 'h) worker_world" and x
    using that by (auto simp: on_disk_def split: prod.splits)
  obtain w1 path where s: "on_disk (Outbox_save ob a (Itoa (int k + 1)) kind (GoVal payload)) w = (w1, path)" by fastforce
  note d1 = disk [OF s]
  show ?thesis
  proof (cases path)
    case (Inl e)
    with assms Inr s d1 leads_refl show ?thesis by (auto simp: Outbox_deliver_def)
  next
    case (Inr path')
    obtain w2 err2 where d: "deliverEvent (ob_jsonSize ob) ctx cp a (Itoa (int k + 1)) kind (GoVal payload) w1 = (w2, err2)" by fastforce
    have "ok (nw_cp w1)" using d1 assms(1) by simp
    note d2 = deliver_recorded [OF this d]
    have same: "recorded l a k (kind, GoVal payload) = recorded l a k (kind, data)" for l
      using \<open>json_Marshal data = Inr payload\<close> by (simp add: recorded_def json_Marshal_def)
    show ?thesis
    proof (cases err2)
      case (Some e)
      with assms \<open>json_Marshal data = Inr payload\<close> s Inr d d1 d2 show ?thesis by (auto simp: Outbox_deliver_def)
    next
      case None
      with assms(2) \<open>json_Marshal data = Inr payload\<close> s Inr d have "on_disk (Outbox_remove path') w2 = (w', err)" by (simp add: Outbox_deliver_def)
      note d3 = disk [OF this]
      from None d1 d2 d3 same show ?thesis by auto
    qed
  qed
qed

lemma emit_inv:
  assumes "worker_inv ok log a w"
  shows "worker_inv ok log a (worker_emit wk cp a until how lost eventType data w)"
proof (cases "ww_eventErr w")
  case (Some e)
  with assms show ?thesis by (simp add: worker_emit_def)
next
  case None
  define n where "n = length (ww_handed w)"
  have seq: "ww_eventSequence w = int n" and okw: "ok (nw_cp w)" and del: "delivered (log (nw_cp w) (as_RunID a)) a (ww_handed w)"
    using assms None by (simp_all add: worker_inv_def n_def)
  define w0 where "w0 = w\<lparr>ww_eventSequence := int n + 1, ww_handed := ww_handed w @ [(eventType, data)]\<rparr>"
  define ctx where "ctx = ctx_of (executionCtx until how lost w0)"
  obtain w1 err where d: "(case wk_Outbox wk of
                  None \<Rightarrow> deliverEvent (wk_jsonSize wk) ctx cp a (Itoa (int n + 1)) eventType data w0
                | Some ob \<Rightarrow> Outbox_deliver ob ctx cp a (Itoa (int n + 1)) eventType data w0) = (w1, err)" by fastforce
  have "ok (nw_cp w0)" using okw by (simp add: w0_def)
  then have w1: "ok (nw_cp w1) \<and> leads (nw_cp w0) (nw_cp w1) \<and> ww_eventErr w1 = ww_eventErr w0 \<and>
    ww_eventSequence w1 = ww_eventSequence w0 \<and> ww_handed w1 = ww_handed w0 \<and>
    (err = None \<longrightarrow> recorded (log (nw_cp w1) (as_RunID a)) a n (eventType, data))"
  proof (cases "wk_Outbox wk")
    case None
    with d have "deliverEvent (wk_jsonSize wk) ctx cp a (Itoa (int n + 1)) eventType data w0 = (w1, err)" by simp
    from deliver_recorded [OF \<open>ok (nw_cp w0)\<close> this] show ?thesis by blast
  next
    case (Some ob)
    with d have "Outbox_deliver ob ctx cp a (Itoa (int n + 1)) eventType data w0 = (w1, err)" by simp
    from Outbox_deliver_recorded [OF \<open>ok (nw_cp w0)\<close> this] show ?thesis .
  qed
  have emit: "worker_emit wk cp a until how lost eventType data w = (case err of None \<Rightarrow> w1
     | Some e \<Rightarrow> cancelExecution (w1\<lparr>ww_eventErr := Some (GoError (err_is e) (''relay node: deliver event '' @ eventType @ '': '' @ err_text e))\<rparr>))"
    unfolding worker_emit_def Let_def seq w0_def [symmetric] ctx_def [symmetric] d prod.case using None by (cases err) simp_all
  show ?thesis
  proof (cases err)
    case (Some e)
    with emit w1 show ?thesis by (simp add: worker_inv_def cancelExecution_def w0_def n_def)
  next
    case None
    with w1 have rec: "recorded (log (nw_cp w1) (as_RunID a)) a n (eventType, data)" by simp
    have "delivered (log (nw_cp w1) (as_RunID a)) a (ww_handed w)"
      by (rule delivered_leads [OF _ _ del]) (use w1 in \<open>simp_all add: w0_def\<close>)
    with rec have "delivered (log (nw_cp w1) (as_RunID a)) a (ww_handed w @ [(eventType, data)])"
      by (auto simp: delivered_def nth_append n_def less_Suc_eq)
    with emit None w1 show ?thesis by (simp add: worker_inv_def w0_def n_def)
  qed
qed

text \<open>Every part of an execution keeps the invariant.\<close>

lemma Call_inv:
  assumes "worker_inv ok log a w"
  shows "worker_inv ok log a (fst (snd (Call (worker_invoker wk cp a until how lost) c calls w)))"
proof -
  have "worker_inv ok log a w \<longrightarrow> worker_inv ok log a (fst (snd (Call (worker_invoker wk cp a until how lost) c calls w)))"
  proof (rule Call_frame [where K = "\<lambda>w w'. worker_inv ok log a w \<longrightarrow> worker_inv ok log a w'"], goal_cases)
    case (3 t v e)
    then show ?case by (simp add: worker_invoker_def emit_inv)
  next
    case (4 p e)
    then show ?case by (simp add: worker_invoker_def worker_inv_def Let_def split: prod.split)
  next
    case (5 Invoke r e)
    then show ?case by (auto simp: worker_invoker_def on_host_inv)
  next
    case (6 reserve k h r e)
    then show ?case by (auto simp: worker_invoker_def call_inv [OF plane_call.reserve])
  next
    case (7 finish rsv r t e)
    then show ?case by (auto simp: worker_invoker_def call_inv [OF plane_call.finish])
  qed simp_all
  with assms show ?thesis by blast
qed

lemma broker_inv:
  assumes "worker_inv ok log a w" "interactionBroker_Request cp a until cause request w = (w', r)"
  shows "worker_inv ok log a w'"
proof -
  obtain w1 q where c: "call (cp_CreateInteraction cp a request) w = (w1, q)" by fastforce
  have inv1: "worker_inv ok log a w1" using call_inv [OF plane_call.create assms(1)] c by (metis fst_conv)
  show ?thesis
  proof (cases q)
    case (Inl e)
    with assms(2) c inv1 show ?thesis by (simp add: interactionBroker_Request_def)
  next
    case (Inr v)
    with assms(2) c have poll: "broker_poll cp a until cause (ia_ID v) (nw_now w1 + poll_interval) w1 = (w', r)"
      by (simp add: interactionBroker_Request_def)
    let ?P = "\<lambda>c. ok c \<and> leads (nw_cp w1) c"
    have "?P c \<Longrightarrow> ?P (fst (cp_GetInteraction cp a i c))" for i c
      using call_keeps [OF plane_call.get, of c] leads_trans by blast
    moreover have "?P (nw_cp w1)" using inv1 leads_refl by (simp add: worker_inv_def)
    ultimately have "?P (nw_cp w')" "node_world.more w' = node_world.more w1"
      using broker_poll_frame [where P = ?P, OF _ _ poll] by blast+
    then show ?thesis using worker_inv_step [OF inv1] worker_more by blast
  qed
qed

lemma wait_inv: "worker_inv ok log a w \<Longrightarrow> wait d t w = (w', b) \<Longrightarrow> worker_inv ok log a w'"
  by (auto simp: wait_def worker_inv_def split: if_splits)

lemma execution_inv:
  assumes "worker_inv ok log a w"
  shows "worker_inv ok log a (fst (run_execution wk cp a until how lost p calls w))"
  using assms
proof (induction p arbitrary: calls w)
  case (Emits ty v p)
  then show ?case by (simp add: emit_inv)
next
  case (Calls c p)
  then show ?case using Call_inv [OF Calls.prems, of wk until how lost c calls] by (auto split: prod.split)
next
  case (Asks request p)
  then show ?case using broker_inv [OF Asks.prems] by (auto simp: Let_def split: prod.split)
next
  case (Waits delay p)
  then show ?case using wait_inv [OF Waits.prems] by (auto split: prod.split)
next
  case (Works f)
  have "worker_inv ok log a (w\<lparr>ww_host := h\<rparr>)" for h using Works.prems by (simp add: worker_inv_def)
  moreover obtain h p where hp: "f (ww_host w) = (h, p)" by fastforce
  moreover have "(h, p) \<in> range f" using hp by (metis rangeI)
  ultimately show ?case using Works.IH [of "(h, p)" p] by (simp add: snds.simps)
qed simp

lemma upload_inv:
  assumes "worker_inv ok log a w"
  shows "worker_inv ok log a (fst (upload_artifacts wk cp a artifacts w))"
  using assms
proof (induction artifacts arbitrary: w)
  case (Cons art artifacts)
  have up: "worker_inv ok log a w1" if "call (cp_UploadArtifact cp a art reader) w = (w1, q)" for reader w1 q
    using call_inv [OF plane_call.upload Cons.prems, of a art reader] that by simp
  have "worker_inv ok log a w'" if "upload_artifacts wk cp a artifacts w1 = (w', q)" "worker_inv ok log a w1" for w1 w' q
    using Cons.IH [OF that(2)] that(1) by simp
  then show ?case using up Cons.prems
    by (auto split: prod.split sum.split)
qed simp

lemma report_inv:
  assumes "worker_inv ok log a w" "plane_call cp (\<lambda>c. fst (f c))" "retryFinalReport ctx f w = (w', err)"
  shows "worker_inv ok log a w'" "ww_eventErr w' = ww_eventErr w" "err = None \<Longrightarrow> \<exists>c. ok c \<and> f c = (nw_cp w', Inr ())"
proof -
  let ?P = "\<lambda>c. ok c \<and> leads (nw_cp w) c"
  obtain deadline cause where ctx: "context_WithTimeout ctx (10 * second) w = (deadline, cause)" by fastforce
  with assms(3) have loop: "retry_loop ''final report'' deadline cause f 0 w = (w', err)" by (simp add: retryFinalReport_def)
  have step: "?P c \<Longrightarrow> ?P (fst (f c))" for c using call_keeps [OF assms(2)] leads_trans by blast
  have start: "?P (nw_cp w)" using assms(1) leads_refl by (simp add: worker_inv_def)
  have "?P (nw_cp w')" by (rule retry_loop_keeps(1) [where P = ?P and f = f, OF start _ loop]) (rule step)
  moreover have more: "node_world.more w' = node_world.more w" using retry_loop_more [of _ deadline cause f 0 w] loop by (metis fst_conv)
  ultimately show "worker_inv ok log a w'" using worker_inv_step [OF assms(1)] worker_more by blast
  show "ww_eventErr w' = ww_eventErr w" using worker_more(2) [OF more] .
  show "\<exists>c. ok c \<and> f c = (nw_cp w', Inr ())" if "err = None"
    using retry_loop_keeps(2) [where P = ?P and f = f, OF start _ loop that] step by blast
qed

lemma acknowledge_settled:
  assumes "worker_inv ok log a w" "acknowledge cp a errs w = (w', r)"
  shows "ok (nw_cp w')" "r = Inr run \<Longrightarrow> run_settled cp log state a run w'"
proof -
  obtain w1 q where c: "call (cp_AcknowledgeCancellation cp a) w = (w1, q)" by fastforce
  have "w' = w1" using assms(2) c by (auto simp: acknowledge_def split: sum.splits if_splits)
  then show "ok (nw_cp w')" using call_inv [OF plane_call.acknowledge assms(1), of a] c by (simp add: worker_inv_def)
  have okw: "ok (nw_cp w)" using assms(1) by (simp add: worker_inv_def)
  show "r = Inr run \<Longrightarrow> run_settled cp log state a run w'"
    using assms(2) c callD [OF c] acknowledge_done [OF okw] \<open>w' = w1\<close>
    by (auto simp: acknowledge_def run_settled_def split: sum.splits if_splits)
qed

lemma failRun_settled:
  assumes "worker_inv ok log a w" "failRun cp a ctx keeper cause w = (w', r)"
  shows "ok (nw_cp w')" "r = Inr run \<Longrightarrow> run_settled cp log state a run w'"
proof -
  obtain w1 err where rep: "retryFinalReport ctx (cp_Fail cp a (err_text cause)) w = (w1, err)" by fastforce
  note inv = report_inv(1) [OF assms(1) plane_call.report rep]
  have "(\<exists>errs. acknowledge cp a errs w1 = (w', r)) \<or> w' = w1 \<and> (\<exists>e. r = Inl e)"
    using assms(2) rep by (auto simp: failRun_def Let_def split: if_splits option.splits)
  then show "ok (nw_cp w')" "r = Inr run \<Longrightarrow> run_settled cp log state a run w'"
    using inv acknowledge_settled [OF inv] by (auto simp: worker_inv_def)
qed

lemma completeRun_settled:
  assumes "worker_inv ok log a w" "ww_eventErr w = None" "completeRun cp a ctx keeper result w = (w', r)"
  shows "ok (nw_cp w')" "r = Inr run \<Longrightarrow> run_settled cp log state a run w'"
proof -
  obtain w1 err where rep: "retryFinalReport ctx (cp_Complete cp a result) w = (w1, err)" by fastforce
  note inv = report_inv [OF assms(1) plane_call.complete rep]
  have "(\<exists>errs. acknowledge cp a errs w1 = (w', r)) \<or> w' = w1 \<and> ((\<exists>e. r = Inl e) \<or> err = None \<and> r = Inr (succeededRun a result))"
    using assms(3) rep by (auto simp: completeRun_def Let_def split: if_splits option.splits)
  moreover have "run_settled cp log state a (succeededRun a result) w1" if none: "err = None"
  proof -
    obtain c where "ok c" "cp_Complete cp a result c = (nw_cp w1, Inr ())" using inv(3) [OF none] by blast
    from complete_done [OF this] inv(1,2) assms(2) show ?thesis by (auto simp: run_settled_def worker_inv_def)
  qed
  ultimately show "ok (nw_cp w')" "r = Inr run \<Longrightarrow> run_settled cp log state a run w'"
    using inv(1) acknowledge_settled [OF inv(1)] by (auto simp: worker_inv_def)
qed

lemma execute_settled:
  assumes "ok (nw_cp w)" "RunOnce_execute wk cp until how a keeper execution w = (w', r)"
  shows "ok (nw_cp w')" "r = Inr run \<Longrightarrow> run_settled cp log state a run w'"
proof -
  let ?w0 = "w\<lparr>ww_eventErr := None, ww_eventSequence := 0, ww_cancelled := None, ww_handed := []\<rparr>"
  obtain w1 result err where ex: "run_execution wk cp a until how (keeper until) execution Map.empty ?w0 = (w1, result, err)" by (metis prod_cases3)
  have "worker_inv ok log a ?w0" using assms(1) by (simp add: worker_inv_def delivered_def)
  from execution_inv [OF this, of wk until how "keeper until" execution Map.empty] ex have inv: "worker_inv ok log a w1" by simp
  obtain w2 arts where up: "upload_artifacts wk cp a (res_Artifacts result) w1 = (w2, arts)" by fastforce
  then have inv2: "worker_inv ok log a w2" using upload_inv [OF inv, of wk "res_Artifacts result"] by simp
  consider (failed) cause where "failRun cp a (ctx_of (until, how)) keeper cause w1 = (w', r)"
    | (lost) cause where "failRun cp a (ctx_of (until, how)) keeper cause w2 = (w', r)"
    | (done') res where "completeRun cp a (ctx_of (until, how)) keeper res w2 = (w', r)" "ww_eventErr w1 = None"
    using assms(2) ex up
    by (auto simp: RunOnce_execute_def Let_def join_errors_def split: option.splits sum.splits)
  then show "ok (nw_cp w')" "r = Inr run \<Longrightarrow> run_settled cp log state a run w'"
  proof (atomize (full), cases)
    case failed
    then show "ok (nw_cp w') \<and> (r = Inr run \<longrightarrow> run_settled cp log state a run w')" using failRun_settled [OF inv] by blast
  next
    case lost
    then show "ok (nw_cp w') \<and> (r = Inr run \<longrightarrow> run_settled cp log state a run w')" using failRun_settled [OF inv2] by blast
  next
    case done'
    have "ww_eventErr w2 = None" using upload_keeps [OF up] done'(2) by simp
    with done' show "ok (nw_cp w') \<and> (r = Inr run \<longrightarrow> run_settled cp log state a run w')" using completeRun_settled [OF inv2] by blast
  qed
qed

lemma call_ok:
  fixes v :: "('c, 'h) worker_world"
  assumes "call f v = (v', q)" "ok (nw_cp v)" "plane_call cp (\<lambda>c. fst (f c))"
  shows "ok (nw_cp v')"
  using call_keeps [OF assms(3,2)] callD [OF assms(1)] by (metis fst_conv)

lemma start_settled:
  assumes "ok (nw_cp w)" "RunOnce_start wk cp until how keeper a executor workDir w = (w', r)"
  shows "ok (nw_cp w') \<and> (r = Inr run \<longrightarrow> run_settled cp log state a run w')"
proof -
  obtain w1 q where st: "call (cp_Start cp a) w = (w1, q)" by fastforce
  obtain w2 q2 where ack: "call (cp_AcknowledgeCancellation cp a) w1 = (w2, q2)" by fastforce
  have okf: "ok (nw_cp (fst (call (cp_Fail cp a cause) w)))" for cause
    by (rule call_ok [OF prod.collapse [symmetric] assms(1) plane_call.report])
  have ok1: "ok (nw_cp w1)" by (rule call_ok [OF st assms(1) plane_call.start])
  have ok2: "ok (nw_cp w2)" by (rule call_ok [OF ack ok1 plane_call.acknowledge])
  have "run_settled cp log state a (cancelledRun a) w2" if "q2 = Inr ()"
    using acknowledge_done [OF ok1, of a "nw_cp w2"] callD [OF ack] that by (auto simp: run_settled_def)
  moreover have "(\<exists>cause e. w' = fst (call (cp_Fail cp a cause) w) \<and> r = Inl e) \<or> w' = w1 \<and> (\<exists>e. r = Inl e) \<or>
     w' = w2 \<and> ((\<exists>e. r = Inl e) \<or> q2 = Inr () \<and> r = Inr (cancelledRun a)) \<or>
     (\<exists>execution. RunOnce_execute wk cp until how a (keeper a) execution w1 = (w', r))"
    using assms(2) st ack by (auto simp: RunOnce_start_def Let_def split: sum.splits if_splits)
  ultimately show ?thesis using okf ok1 ok2 execute_settled [OF ok1] by auto
qed

lemma RunOnce_settled:
  fixes w :: "('c, 'h) worker_world"
  assumes "wk_ControlPlane wk = Some cp" "ok (nw_cp w)" "RunOnce wk until how keeper w = (w', r)"
  shows "ok (nw_cp w') \<and> (\<forall>run. r = Inr run \<longrightarrow>
    (\<exists>a. snd (cp_Claim cp (reg_ID (wk_Registration wk)) (nw_cp w)) = Inr a \<and> run_settled cp log state a run w'))"
proof (cases "wk_Executors wk")
  case None
  with assms show ?thesis by (auto simp: RunOnce_def)
next
  case (Some executors)
  obtain w1 q where cl: "call (cp_Claim cp (reg_ID (wk_Registration wk))) w = (w1, q)" by fastforce
  have ok1: "ok (nw_cp w1)" by (rule call_ok [OF cl assms(2) plane_call.claim])
  show ?thesis
  proof (cases q)
    case (Inl e)
    with assms Some cl ok1 show ?thesis by (auto simp: RunOnce_def)
  next
    case (Inr a)
    have claimed: "snd (cp_Claim cp (reg_ID (wk_Registration wk)) (nw_cp w)) = Inr a" using callD [OF cl] Inr by simp
    have fail: "ok (nw_cp (fst (call (cp_Fail cp a cause) v)))" if "ok (nw_cp v)" for cause and v :: "('c, 'h) worker_world"
      by (rule call_ok [OF prod.collapse [symmetric] that plane_call.report])
    have host: "nw_cp (fst (on_host f v)) = nw_cp v" "run_settled cp log state a run (fst (on_host f v)) = run_settled cp log state a run v"
      for f :: "'h \<Rightarrow> 'h \<times> 'x" and v :: "('c, 'h) worker_world" and run
      by (auto simp: on_host_def run_settled_def split: prod.split)
    let ?spec = "rq_Workspace (as_Request a)" and ?provider = "rr_Provider (rq_Runtime (as_Request a))"
    consider (none) "executors ?provider = None" | (plain) executor where "executors ?provider = Some executor" "ws_Kind ?spec = []"
      | (missing) executor where "executors ?provider = Some executor" "ws_Kind ?spec \<noteq> []" "wk_Workspaces wk = None"
      | (space) executor workspaces where "executors ?provider = Some executor" "ws_Kind ?spec \<noteq> []" "wk_Workspaces wk = Some workspaces"
      by (cases "executors ?provider"; cases "wk_Workspaces wk"; cases "ws_Kind ?spec = []") auto
    then show ?thesis
    proof cases
      case none
      with assms Some cl Inr fail [OF ok1] show ?thesis by (auto simp: RunOnce_def Let_def)
    next
      case (plain executor)
      with assms Some cl Inr have "RunOnce_start wk cp until how keeper a executor [] w1 = (w', r)" by (simp add: RunOnce_def)
      from start_settled [OF ok1 this] claimed show ?thesis by blast
    next
      case missing
      with assms Some cl Inr fail [OF ok1] show ?thesis by (auto simp: RunOnce_def Let_def)
    next
      case (space executor workspaces)
      obtain w2 prepared where pr: "on_host (wp_Prepare workspaces (as_RunID a) (as_AttemptID a) ?spec) w1 = (w2, prepared)" by fastforce
      have ok2: "ok (nw_cp w2)" using host(1) [of "wp_Prepare workspaces (as_RunID a) (as_AttemptID a) ?spec" w1] pr ok1 by simp
      show ?thesis
      proof (cases prepared)
        case (Inl e)
        with assms Some cl \<open>q = Inr a\<close> space pr fail [OF ok2] show ?thesis by (auto simp: RunOnce_def)
      next
        case (Inr pd)
        obtain w3 r3 where st: "RunOnce_start wk cp until how keeper a executor (pp_Dir pd) w2 = (w3, r3)" by fastforce
        with assms Some cl \<open>q = Inr a\<close> space pr Inr have w': "w' = fst (on_host (wp_Cleanup workspaces (pp_Cleanup pd)) w3)" "r = r3"
          by (auto simp: RunOnce_def)
        have "ok (nw_cp w3) \<and> (\<forall>run. r3 = Inr run \<longrightarrow> run_settled cp log state a run w3)" using start_settled [OF ok2 st] by blast
        with host(1) [of "wp_Cleanup workspaces (pp_Cleanup pd)" w3] host(2) [of _ "wp_Cleanup workspaces (pp_Cleanup pd)" w3] claimed show ?thesis unfolding w' by auto
      qed
    qed
  qed
qed

end

section \<open>The in-memory control plane\<close>

lemma uploaded_storage:
  "ss_storage (fst (Service_UploadArtifact (memoryService sv it ttl) a art reader w)) = ss_storage w \<or>
   (\<exists>art'. ss_storage (fst (Service_UploadArtifact (memoryService sv it ttl) a art reader w)) = fst (AddArtifact a art' (ss_storage w)))"
  by (auto simp: Service_UploadArtifact_def Let_def newControlPlaneID_def rand_Read_def memoryStorage_def split: prod.split sum.split)
    (metis fst_conv)+

lemma memory_call_steps:
  assumes "plane_call (servicePlane (memoryService sv it ttl)) f" "storage_inv (ss_storage w)"
  shows "run_steps (ss_storage w) (ss_storage (f w))"
  using assms
proof cases
  case (upload a art reader)
  then show ?thesis using uploaded_storage [of sv it ttl a art reader w] AddArtifact_steps [OF assms(2)]
    by (auto simp: servicePlane_def)
next
  case (create a ir)
  then show ?thesis using CreateInteraction_steps [OF assms(2)] by (simp add: servicePlane_def Service_CreateInteraction_def memoryStorage_def)
qed (use method_steps assms(2) in \<open>simp_all add: servicePlane_def Service_Claim_def Service_Start_def Service_Complete_def Service_Fail_def
  Service_AcknowledgeCancellation_def Service_ReserveCapability_def Service_FinishCapability_def Service_GetInteraction_def memoryStorage_def\<close>)

lemma Acknowledge_Inr:
  assumes "AcknowledgeCancellation a s = (t, Inr ())" "storage_inv s"
  shows "\<exists>run. ms_runs t (as_RunID a) = Some run \<and> run_Status run = RunCancelled"
proof -
  obtain u r where auth: "authorize (as_RunID a) (as_AttemptID a) (as_LeaseToken a) s = (u, r)" by fastforce
  with assms(1) obtain run where r: "r = Inr run" by (cases r) (auto simp: AcknowledgeCancellation_def)
  note au = authorize_Inr [OF auth [unfolded r]]
  have "run_ID run = as_RunID a" using storage_inv_run(1) [OF assms(2) au(2)] .
  then show ?thesis using assms(1) auth r au(1,2)
    by (auto simp: AcknowledgeCancellation_def finalizeCancellation_def storage_simps Let_def split: if_splits)
qed

interpretation memory_plane: node_plane "servicePlane (memoryService sv it ttl)" "\<lambda>w. ms_events (ss_storage w)"
  "\<lambda>w. memory_ok (ss_storage w)" "\<lambda>w w'. memory_leads (ss_storage w) (ss_storage w')" "\<lambda>w. ms_runs (ss_storage w)"
proof (unfold_locales, goal_cases)
  case (1 f c)
  then show ?case using run_steps_ok [OF memory_call_steps [OF 1(1)]] by (auto simp: memory_ok_def)
next
  case (2 c a r c')
  then have "Complete a r (ss_storage c) = (ss_storage c', Inr ())" "storage_inv (ss_storage c)"
    by (auto simp: servicePlane_def Service_Complete_def memoryStorage_def on_storage_def memory_ok_def split: prod.splits)
  from Complete_Inr [OF this] show ?case by blast
next
  case (3 c a c')
  then have "AcknowledgeCancellation a (ss_storage c) = (ss_storage c', Inr ())" "storage_inv (ss_storage c)"
    by (auto simp: servicePlane_memory on_storage_def memory_ok_def split: prod.splits)
  from Acknowledge_Inr [OF this] show ?case .
qed

text \<open>Behind the network: a call takes effect or not, after what the others did.\<close>

lemma network_call_keeps:
  assumes "plane_call (networkPlane (servicePlane (memoryService sv it ttl))) f" "network_ok sv n"
  shows "network_ok sv (f n) \<and> memory_leads (ss_storage (net_cp n)) (ss_storage (net_cp (f n)))"
  using assms(1)
  by cases (use assms(2) in \<open>auto simp: networkPlane_def intro!: over_network_keeps
    plane_call.intros [THEN memory_plane.call_keeps]\<close>)

lemma over_network_done:
  assumes "network_ok sv n" "over_network g n = (n', Inr x)"
  shows "\<exists>c. memory_ok (ss_storage c) \<and> g c = (net_cp n', Inr x)"
proof -
  let ?c = "net_others n (net_sent n) (net_cp n)"
  have "memory_ok (ss_storage ?c)" using assms(1) leads_to_ok(1) unfolding network_ok_def by blast
  moreover have "g ?c = (net_cp n', Inr x)"
    using assms(2) by (auto simp: over_network_def Let_def prod_eq_iff split: fate.splits)
  ultimately show ?thesis by blast
qed

interpretation network_plane: node_plane "networkPlane (servicePlane (memoryService sv it ttl))"
  "\<lambda>n. ms_events (ss_storage (net_cp n))" "network_ok sv" "\<lambda>n n'. memory_leads (ss_storage (net_cp n)) (ss_storage (net_cp n'))"
  "\<lambda>n. ms_runs (ss_storage (net_cp n))"
proof (unfold_locales, goal_cases)
  case (1 f n)
  then show ?case by (rule network_call_keeps)
next
  case (2 n a r n')
  then have "over_network (cp_Complete (servicePlane (memoryService sv it ttl)) a r) n = (n', Inr ())" by (simp add: networkPlane_def)
  from over_network_done [OF 2(1) this] memory_plane.complete_done show ?case by blast
next
  case (3 n a n')
  from over_network_done [OF 3(1)] 3(2) memory_plane.acknowledge_done show ?case by fastforce
qed

text \<open>
  C17: a worker's verdict is the control plane's. Whatever the network loses, the executor does and
  the lease keeper decides: when \<open>RunOnce\<close> returns a run without an error, it is the run of the
  assignment it claimed, and either it succeeded, the control plane has it as succeeded with an equal
  result, and every event that was handed over during the execution is in its log exactly once with
  its type and its data (completion never overtakes events); or it is cancelled, and the control plane
  has it as cancelled or answered that it is not to be cancelled any more.
\<close>

theorem worker_verdict:
  assumes "wk_ControlPlane wk = Some (networkPlane (servicePlane (memoryService sv it ttl)))" "network_ok sv (nw_cp w)"
    and "RunOnce wk until how keeper w = (w', Inr run)"
  defines "s' \<equiv> ss_storage (net_cp (nw_cp w'))"
  shows "\<exists>a. snd (cp_Claim (networkPlane (servicePlane (memoryService sv it ttl))) (reg_ID (wk_Registration wk)) (nw_cp w)) = Inr a \<and>
    run_ID run = as_RunID a \<and>
    (run_Status run = RunSucceeded \<and>
       (\<exists>result stored committed. run_Result run = Some result \<and> ms_runs s' (run_ID run) = Some stored \<and> run_Status stored = RunSucceeded \<and>
          run_Result stored = Some committed \<and> SameValue (Result_json committed) (Result_json result)) \<and>
       (\<forall>k < length (ww_handed w'). recorded (ms_events s' (run_ID run)) a k (ww_handed w' ! k)) \<or>
     run_Status run = RunCancelled \<and>
       ((\<exists>stored. ms_runs s' (run_ID run) = Some stored \<and> run_Status stored = RunCancelled) \<or>
        (\<exists>n err. cp_AcknowledgeCancellation (networkPlane (servicePlane (memoryService sv it ttl))) a n = (nw_cp w', Inl err) \<and>
           errors_Is err InvalidTransition)))"
proof -
  from network_plane.RunOnce_settled [OF assms(1-3)] obtain a where
    a: "snd (cp_Claim (networkPlane (servicePlane (memoryService sv it ttl))) (reg_ID (wk_Registration wk)) (nw_cp w)) = Inr a"
    and settled: "run_settled (networkPlane (servicePlane (memoryService sv it ttl))) (\<lambda>n. ms_events (ss_storage (net_cp n)))
      (\<lambda>n. ms_runs (ss_storage (net_cp n))) a run w'" by blast
  show ?thesis
    by (rule exI [of _ a], rule conjI [OF a])
      (use settled in \<open>auto simp: run_settled_def succeededRun_def cancelledRun_def delivered_def s'_def\<close>)
qed

text \<open>A worker claims the run of the scenario, loses the first answer to its event, and completes it.\<close>

definition demo_net :: "nat \<Rightarrow> MemoryStorage \<Rightarrow> ((MemoryStorage, MemoryBlobStore) service_state) network" where
  "demo_net k s = \<lparr>net_cp = demo_service_state s, net_fate = (\<lambda>k. if k = 2 then AnswerLost ''connection reset'' else Answered),
     net_others = (\<lambda>_ c. c), net_sent = k\<rparr>"

definition demo_worker_plane :: "(((MemoryStorage, MemoryBlobStore) service_state) network) ControlPlane" where
  "demo_worker_plane = networkPlane (servicePlane (memoryService demo_semver (\<lambda>_ _. [demo_id ''run'' 0]) 100))"

definition demo_worker :: "(((MemoryStorage, MemoryBlobStore) service_state) network, unit) Worker" where
  "demo_worker = \<lparr>wk_Registration = demo_registration, wk_ControlPlane = Some demo_worker_plane, wk_Bindings = None,
     wk_Executors = Some (\<lambda>_. Some (\<lambda>_. Emits ''note'' GoNil (Returns demo_result None))),
     wk_Compiler = Some (\<lambda>_ _. Inr (demo_compiled [])), wk_Workspaces = None, wk_Outbox = None,
     wk_jsonSize = (\<lambda>_. 4), wk_jsonText = (\<lambda>_. []), wk_Open = (\<lambda>_ _. Inr ([], None))\<rparr>"

definition demo_worker_world :: "nat \<Rightarrow> time \<Rightarrow> MemoryStorage \<Rightarrow> (string \<times> goany) list
    \<Rightarrow> (((MemoryStorage, MemoryBlobStore) service_state) network, unit) worker_world" where
  "demo_worker_world k t s handed = \<lparr>nw_now = t, nw_lag = (\<lambda>_. 1), nw_calls = k, nw_cp = demo_net k s, ow_disk = demo_disk, ow_locked = False,
     ow_reports = [], ww_host = (), ww_random = demo_world, ww_eventErr = None, ww_eventSequence = int (length handed),
     ww_cancelled = None, ww_handed = handed\<rparr>"

lemma demo_call:
  "call (over_network (on_storage g)) (demo_worker_world k t s handed) =
    (demo_worker_world (Suc k) (t + 1) (fst (g s)) handed, if k = 2 then Inl (errors_New ''connection reset'') else snd (g s))"
proof -
  have "on_storage g (demo_service_state s) = (demo_service_state (fst (g s)), snd (g s))"
    by (simp add: on_storage_def demo_service_state_def world.defs split: prod.split)
  then show ?thesis by (simp add: call_def over_network_def demo_worker_world_def demo_net_def Let_def)
qed

lemma demo_worker_plane_simps:
  "cp_Claim demo_worker_plane n = over_network (on_storage (Claim demo_semver [demo_id ''run'' 0] [demo_id ''run'' 0] n 100))"
  "cp_Start demo_worker_plane a = over_network (on_storage (Start a))"
  "cp_AppendEvent demo_worker_plane rid aid lease ty v ids = over_network (on_storage (AppendEvent rid aid lease ty v ids))"
  "cp_Complete demo_worker_plane a r = over_network (on_storage (Complete a r))"
  by (auto simp: fun_eq_iff demo_worker_plane_def networkPlane_def servicePlane_def Service_Claim_def memoryService_def NewWithStorage_def NewWithOptions_def Service_Start_def
      Service_AppendEvent_def Service_Complete_def memoryStorage_def intro!: arg_cong [where f = "\<lambda>f. over_network f _"])

definition demo_verdict :: "(((MemoryStorage, MemoryBlobStore) service_state) network, unit) worker_world \<times> Run result" where
  "demo_verdict = RunOnce demo_worker (60 * second) False (\<lambda>_ _. None) (demo_worker_world 0 0 at_submitted [])"

lemma demo_verdict: "snd demo_verdict = Inr (succeededRun (demo_asg 100) demo_result)" "ww_handed (fst demo_verdict) = [(''note'', GoNil)]"
proof -
  let ?n = "[(''note'', GoNil)]" and ?s = "at_noted\<lparr>w_ticks := Suc 13\<rparr>"
  let ?append = "over_network (on_storage (AppendEvent (demo_id ''run'' 0) (demo_id ''attempt'' 1) (demo_id ''lease'' 4) ''note'' (GoVal JNull) [''1'']))"
  note claimed = at_leased(5) [of 100, unfolded at_leased_result_def]
  have claim: "call (cp_Claim demo_worker_plane ''n1'') (demo_worker_world 0 0 at_submitted []) =
      (demo_worker_world 1 1 (at_leased 100) [], Inr (demo_asg 100))"
    by (simp add: demo_worker_plane_simps demo_call claimed at_leased_def at_leased_result_def)
  have start: "call (cp_Start demo_worker_plane (demo_asg 100)) (demo_worker_world 1 1 (at_leased 100) []) =
      (demo_worker_world (Suc 1) 2 at_running [], Inr ())"
    by (simp add: demo_worker_plane_simps demo_call at_running(5) at_running_def del: One_nat_def)
  have lost: "call ?append (demo_worker_world 2 2 at_running ?n) = (demo_worker_world 3 3 at_noted ?n, Inl (errors_New ''connection reset''))"
    by (simp add: demo_call at_noted del: One_nat_def)
  have again: "call ?append (demo_worker_world 3 (3 + 100 * millisecond) at_noted ?n) = (demo_worker_world 4 (4 + 100 * millisecond) ?s ?n, Inr ())"
    by (simp add: demo_call at_noted del: One_nat_def)
  have wait: "wait (2 + 5 * second) (100 * millisecond) (demo_worker_world 3 3 at_noted ?n) = (demo_worker_world 3 (3 + 100 * millisecond) at_noted ?n, True)"
    by (simp add: wait_def demo_worker_world_def second_def millisecond_def)
  have loop: "retry_loop ''event delivery'' (2 + 5 * second) (context_Err False) ?append 0 (demo_worker_world 2 2 at_running ?n) =
      (demo_worker_world 4 (4 + 100 * millisecond) ?s ?n, None)"
    by (subst retry_loop.simps, simp add: lost refused_def wait del: One_nat_def, subst retry_loop.simps, simp add: again del: One_nat_def)
  define w2 where "w2 = demo_worker_world 2 2 at_running ?n"
  define w4 where "w4 = demo_worker_world 4 (4 + 100 * millisecond) ?s ?n"
  have ctx: "context_WithTimeout (ctx_of (60 * second, False)) (5 * second) w2 = (2 + 5 * second, context_Err False)"
    "context_WithTimeout (ctx_of (60 * second, False)) (10 * second) w4 = (4 + 100 * millisecond + 10 * second, context_Err False)"
    by (simp_all add: context_WithTimeout_def ctx_of_def w2_def w4_def demo_worker_world_def second_def millisecond_def)
  have deliver: "deliverEvent (\<lambda>_. 4) (ctx_of (60 * second, False)) demo_worker_plane (demo_asg 100) ''1'' ''note'' GoNil w2 = (w4, None)"
    using loop unfolding w2_def [symmetric] w4_def [symmetric]
    by (simp add: deliverEvent_def json_Marshal_def ctx demo_worker_plane_simps demo_asg_def del: One_nat_def)
  have prep: "demo_worker_world 2 2 at_running []\<lparr>ww_eventSequence := 1, ww_handed := ?n\<rparr> = w2" by (simp add: w2_def demo_worker_world_def)
  have emit: "worker_emit demo_worker demo_worker_plane (demo_asg 100) (60 * second) False None ''note'' GoNil (demo_worker_world 2 2 at_running []) = w4"
  proof -
    have "ww_eventErr (demo_worker_world 2 2 at_running []) = None" "ww_eventSequence (demo_worker_world 2 2 at_running []) = 0"
      "ww_handed (demo_worker_world 2 2 at_running []) = []" by (simp_all add: demo_worker_world_def)
    moreover have "executionCtx (60 * second) False None w2 = (60 * second, False)" by (simp add: executionCtx_def w2_def demo_worker_world_def)
    moreover have "Itoa 1 = ''1''" by code_simp
    ultimately show ?thesis using prep deliver by (simp add: worker_emit_def demo_worker_def)
  qed
  have complete: "call (cp_Complete demo_worker_plane (demo_asg 100) demo_result) w4 =
      (demo_worker_world 5 (5 + 100 * millisecond) (fst (Complete (demo_asg 100) demo_result ?s)) ?n, Inr ())"
  proof -
    have "snd (Complete (demo_asg 100) demo_result ?s) = Inr ()"
      using at_noted(3,4) by (simp add: Complete_def Let_def storage_simps demo_state_def demo_asg_def running_run_facts)
    then show ?thesis by (simp add: demo_worker_plane_simps demo_call w4_def del: One_nat_def)
  qed
  have report: "retryFinalReport (ctx_of (60 * second, False)) (cp_Complete demo_worker_plane (demo_asg 100) demo_result) w4 =
      (demo_worker_world 5 (5 + 100 * millisecond) (fst (Complete (demo_asg 100) demo_result ?s)) ?n, None)"
    by (simp add: retryFinalReport_def ctx retry_loop.simps complete)
  have ex: "RunOnce_execute demo_worker demo_worker_plane (60 * second) False (demo_asg 100) (\<lambda>_. None) (Emits ''note'' GoNil (Returns demo_result None))
      (demo_worker_world 2 2 at_running []) = (demo_worker_world 5 (5 + 100 * millisecond) (fst (Complete (demo_asg 100) demo_result ?s)) ?n,
        Inr (succeededRun (demo_asg 100) demo_result))"
  proof -
    have "demo_worker_world 2 2 at_running []\<lparr>ww_eventErr := None, ww_eventSequence := 0, ww_cancelled := None, ww_handed := []\<rparr> =
      demo_worker_world 2 2 at_running []" by (simp add: demo_worker_world_def)
    moreover have "ww_eventErr w4 = None" by (simp add: w4_def demo_worker_world_def)
    moreover have "res_Artifacts demo_result = []" by (simp add: demo_result_def)
    ultimately have "RunOnce_execute demo_worker demo_worker_plane (60 * second) False (demo_asg 100) (\<lambda>_. None)
        (Emits ''note'' GoNil (Returns demo_result None)) (demo_worker_world 2 2 at_running []) =
      completeRun demo_worker_plane (demo_asg 100) (ctx_of (60 * second, False)) (\<lambda>_. None) (demo_result\<lparr>res_Artifacts := []\<rparr>) w4"
      by (simp add: RunOnce_execute_def emit join_errors_def)
    also have "demo_result\<lparr>res_Artifacts := []\<rparr> = demo_result" by (simp add: demo_result_def)
    finally show ?thesis by (simp add: completeRun_def report is_error_def stopLease_def)
  qed
  have verdict: "demo_verdict = (demo_worker_world 5 (5 + 100 * millisecond) (fst (Complete (demo_asg 100) demo_result ?s)) ?n,
        Inr (succeededRun (demo_asg 100) demo_result))"
  proof -
    have req: "as_Request (demo_asg 100) = demo_request" "ws_Kind (rq_Workspace demo_request) = []" "rq_Capabilities demo_request = []"
      "reg_ID demo_registration = ''n1''"
      by (simp_all add: demo_asg_def demo_request_def zero_Request_def demo_registration_def)
    have "Suc 1 = 2" by simp
    then show ?thesis
      using claim start ex
      by (simp add: demo_verdict_def RunOnce_def RunOnce_start_def demo_worker_def req Let_def del: One_nat_def)
  qed
  show "snd demo_verdict = Inr (succeededRun (demo_asg 100) demo_result)" "ww_handed (fst demo_verdict) = [(''note'', GoNil)]"
    unfolding verdict by (simp_all add: demo_worker_world_def)
qed

theorem worker_verdict_witness:
  "snd demo_verdict = Inr (succeededRun (demo_asg 100) demo_result) \<and>
   (\<exists>e. events_named (EventIdentity (demo_id ''attempt'' 1) (demo_id ''lease'' 4) [''1''])
      (ms_events (ss_storage (net_cp (nw_cp (fst demo_verdict)))) (demo_id ''run'' 0)) = [e])"
proof -
  have cp: "wk_ControlPlane demo_worker = Some (networkPlane (servicePlane (memoryService demo_semver (\<lambda>_ _. [demo_id ''run'' 0]) 100)))"
    by (simp add: demo_worker_def demo_worker_plane_def)
  have ok: "network_ok demo_semver (nw_cp (demo_worker_world 0 0 at_submitted []))"
    using reachable_ok [OF demo_reachable(3)] by (simp add: network_ok_def demo_worker_world_def demo_net_def leads_to.here)
  have run: "RunOnce demo_worker (60 * second) False (\<lambda>_ _. None) (demo_worker_world 0 0 at_submitted []) =
      (fst demo_verdict, Inr (succeededRun (demo_asg 100) demo_result))"
    using demo_verdict(1) by (simp add: demo_verdict_def prod_eq_iff)
  have claim: "snd (cp_Claim demo_worker_plane ''n1'' (nw_cp (demo_worker_world 0 0 at_submitted []))) = Inr (demo_asg 100)"
    using demo_call [of "Claim demo_semver [demo_id ''run'' 0] [demo_id ''run'' 0] ''n1'' 100" 0 0 at_submitted "[]"]
      at_leased(5) [of 100, unfolded at_leased_result_def] by (simp add: demo_worker_plane_simps call_def split: prod.splits)
  have "Itoa 1 = ''1''" by code_simp
  then show ?thesis
    using worker_verdict [OF cp ok run] demo_verdict claim
    by (auto simp: succeededRun_def recorded_def demo_worker_plane_def [symmetric] demo_worker_def demo_registration_def demo_asg_def)
qed

end
