(* ===== verification/Node_Pool.thy ===== *)
theory Node_Pool
  imports Node_Runs
begin

text \<open>
  \<open>RunPool\<close> of \<open>node/worker.go\<close>: one claim loop per capacity slot, each in a goroutine of its own. A
  slot's world is what it sees; the other slots are among the other clients of the control plane. The
  loop may run forever, so \<open>pool_slot\<close> is a partial function; \<open>claimDone\<close> and \<open>executionDone\<close> are the
  instants at which the two contexts are done, if ever.

  A slot returns the errors it passed to \<open>onError\<close> and, as a history, when each run began and how it ended.
\<close>

record 'w slot_result =
  sl_world :: 'w
  sl_errors :: "error list"
  sl_runs :: "(time \<times> Run result) list"

definition before :: "time option \<Rightarrow> time \<Rightarrow> bool" where
  "before d t \<longleftrightarrow> (case d of None \<Rightarrow> True | Some d \<Rightarrow> t < d)"

text \<open>The timer of a slot: it fires unless one of the contexts is done first.\<close>

definition slot_wait :: "time option \<Rightarrow> time option \<Rightarrow> duration \<Rightarrow> ('c, 'z) node_world_scheme \<Rightarrow> ('c, 'z) node_world_scheme \<times> bool" where
  "slot_wait claimDone executionDone poll w =
    (case (claimDone, executionDone) of
       (None, None) \<Rightarrow> (w\<lparr>nw_now := nw_now w + poll\<rparr>, True)
     | (Some t, None) \<Rightarrow> wait t poll w
     | (None, Some t) \<Rightarrow> wait t poll w
     | (Some t, Some t') \<Rightarrow> wait (min t t') poll w)"

partial_function (option) pool_slot :: "(('c, 'z) node_world_scheme \<Rightarrow> ('c, 'z) node_world_scheme \<times> Run result) \<Rightarrow> time option \<Rightarrow> time option
    \<Rightarrow> duration \<Rightarrow> (('c, 'z) node_world_scheme) slot_result \<Rightarrow> ((('c, 'z) node_world_scheme) slot_result) option" where
  "pool_slot runOnce claimDone executionDone poll s =
    (if \<not> before claimDone (nw_now (sl_world s)) then Some s
     else let (w, r) = runOnce (sl_world s);
              errs = (case r of Inl e \<Rightarrow> if \<not> errors_Is e NoAssignment \<and> before executionDone (nw_now w) then [e] else [] | Inr _ \<Rightarrow> []);
              (w, fired) = slot_wait claimDone executionDone poll w;
              s = \<lparr>sl_world = w, sl_errors = sl_errors s @ errs, sl_runs = sl_runs s @ [(nw_now (sl_world s), r)]\<rparr>
          in if fired then pool_slot runOnce claimDone executionDone poll s else Some s)"

definition pool_capacity :: "('c, 'h) Worker \<Rightarrow> nat" where
  "pool_capacity wk = (if reg_Capacity (wk_Registration wk) \<le> 0 then 1 else nat (reg_Capacity (wk_Registration wk)))"

text \<open>\<open>RunPool\<close> returns when every slot has. \<open>slots i\<close> is the world that the \<open>i\<close>-th goroutine starts in.\<close>

definition RunPool :: "('c, 'h) Worker \<Rightarrow> time \<Rightarrow> bool \<Rightarrow> (nat \<Rightarrow> Assignment \<Rightarrow> time \<Rightarrow> (time \<times> error) option) \<Rightarrow> time option \<Rightarrow> time option
    \<Rightarrow> duration \<Rightarrow> (nat \<Rightarrow> ('c, 'h) worker_world) \<Rightarrow> ((('c, 'h) worker_world) slot_result list) option" where
  "RunPool wk until how keeper claimDone executionDone poll slots =
    (let poll = (if poll \<le> 0 then second else poll)
     in those (map (\<lambda>i. pool_slot (RunOnce wk until how (keeper i)) claimDone executionDone poll
          \<lparr>sl_world = slots i, sl_errors = [], sl_runs = []\<rparr>) [0..<pool_capacity wk]))"

section \<open>The clock of a run\<close>

lemma call_time: "call f w = (w', r) \<Longrightarrow> nw_now w \<le> nw_now w'"
  using call_simps(3) [of f w] by simp

lemma wait_time: "wait d t w = (w', b) \<Longrightarrow> t \<ge> 0 \<Longrightarrow> nw_now w \<le> nw_now w'"
  by (auto simp: wait_def split: if_splits)

lemma retry_loop_time: "nw_now w \<le> nw_now (fst (retry_loop what deadline cause f k w))"
proof (induction what deadline cause f k w rule: retry_loop.induct)
  case (1 what deadline cause f k w)
  obtain w1 r where c: "call f w = (w1, r)" by fastforce
  obtain w2 b where wt: "wait deadline (backoff k) w1 = (w2, b)" by fastforce
  have "nw_now w \<le> nw_now w1" "nw_now w1 \<le> nw_now w2"
    using call_time [OF c] wait_time [OF wt] backoff_pos [of k] by simp_all
  moreover have "nw_now w2 \<le> nw_now (fst (retry_loop what deadline cause f (Suc k) w2))" if "r = Inl e" "\<not> refused e" b for e
    using 1 [OF c [symmetric] that(1,2) wt [symmetric]] that(3) by simp
  ultimately show ?case
    by (subst retry_loop.simps) (auto simp: c wt split: sum.split bool.split intro: order_trans)
qed

lemma deliver_time: "deliverEvent jsonSize ctx cp a eventID kind data w = (w', e) \<Longrightarrow> nw_now w \<le> nw_now w'"
  using retry_loop_time [of w "''event delivery''"] by (auto simp: deliverEvent_def split: sum.splits prod.splits if_splits) (metis fst_conv)

lemma on_disk_time: "on_disk f w = (w', r) \<Longrightarrow> nw_now w' = nw_now w"
  by (auto simp: on_disk_def split: prod.splits)

lemma on_host_time: "on_host f w = (w', r) \<Longrightarrow> nw_now w' = nw_now w"
  by (auto simp: on_host_def split: prod.splits)

lemma on_host_now [simp]: "nw_now (fst (on_host f w)) = nw_now w"
  using on_host_time [OF prod.collapse [symmetric]] .

lemma Outbox_deliver_time: "Outbox_deliver ob ctx cp a eventID kind data w = (w', e) \<Longrightarrow> nw_now w \<le> nw_now w'"
  by (auto simp: Outbox_deliver_def split: sum.splits prod.splits option.splits dest!: on_disk_time deliver_time)

lemma emit_time: "nw_now w \<le> nw_now (worker_emit wk cp a until how lost eventType data w)"
  by (auto simp: worker_emit_def Let_def cancelExecution_def split: option.split prod.split option.splits dest!: deliver_time Outbox_deliver_time)

lemma Call_time: "nw_now w \<le> nw_now (fst (snd (Call (worker_invoker wk cp a until how lost) c calls w)))"
proof (rule Call_frame [where K = "\<lambda>w w'. nw_now w \<le> nw_now w'"], goal_cases)
  case (3 t v e)
  then show ?case by (simp add: worker_invoker_def emit_time)
next
  case (4 p e)
  then show ?case by (simp add: worker_invoker_def Let_def split: prod.split)
next
  case (5 Invoke r e)
  then show ?case by (auto simp: worker_invoker_def on_host_def split: prod.split)
qed (auto simp: worker_invoker_def)

lemma poll_time: "broker_poll cp a until cause i tick w = (w', r) \<Longrightarrow> nw_now w \<le> nw_now w'"
  using broker_poll_frame [where P = "\<lambda>_. True" and w = w] by blast

lemma broker_time: "interactionBroker_Request cp a until cause request w = (w', r) \<Longrightarrow> nw_now w \<le> nw_now w'"
  by (auto simp: interactionBroker_Request_def split: prod.splits sum.splits dest!: call_time poll_time)

lemma execution_time: "nw_now w \<le> nw_now (fst (run_execution wk cp a until how lost p calls w))"
proof (induction p arbitrary: calls w)
  case (Emits ty v p)
  show ?case unfolding run_execution.simps by (rule order_trans [OF emit_time Emits.IH])
next
  case (Calls c p)
  obtain calls' w1 r where c: "Call (worker_invoker wk cp a until how lost) c calls w = (calls', w1, r)" by (metis prod_cases3)
  then have "nw_now w \<le> nw_now w1" using Call_time [of w wk cp a until how lost c calls] by simp
  also have "\<dots> \<le> nw_now (fst (run_execution wk cp a until how lost (p r) calls' w1))" by (rule Calls.IH) simp
  finally show ?case by (simp add: c)
next
  case (Asks request p)
  let ?ctx = "executionCtx until how lost w"
  obtain w1 r where b: "interactionBroker_Request cp a (fst ?ctx) (context_Err (snd ?ctx)) request w = (w1, r)" by fastforce
  have "nw_now w1 \<le> nw_now (fst (run_execution wk cp a until how lost (p r) calls w1))" by (rule Asks.IH) simp
  with broker_time [OF b] show ?case by (simp add: b)
next
  case (Waits delay p)
  obtain w1 fired where b: "wait (fst (executionCtx until how lost w)) (max 0 delay) w = (w1, fired)" by fastforce
  have "nw_now w1 \<le> nw_now (fst (run_execution wk cp a until how lost (p fired) calls w1))" by (rule Waits.IH) simp
  with wait_time [OF b] show ?case by (simp add: b)
next
  case (Works f)
  obtain h p where hp: "f (ww_host w) = (h, p)" by fastforce
  moreover have "(h, p) \<in> range f" using hp by (metis rangeI)
  ultimately show ?case using Works.IH [of "(h, p)" p "w\<lparr>ww_host := h\<rparr>" calls] by (simp add: snds.simps)
qed simp

lemma upload_time: "upload_artifacts wk cp a artifacts w = (w', r) \<Longrightarrow> nw_now w \<le> nw_now w'"
proof (induction artifacts arbitrary: w w' r)
  case (Cons art artifacts)
  show ?case using Cons.prems
    by (auto split: prod.splits sum.splits if_splits dest!: Cons.IH call_time)
qed simp

lemma report_time: "retryFinalReport ctx f w = (w', e) \<Longrightarrow> nw_now w \<le> nw_now w'"
  using retry_loop_time [of w "''final report''"] by (auto simp: retryFinalReport_def split: prod.splits) (metis fst_conv)

lemma acknowledge_time: "acknowledge cp a errs w = (w', r) \<Longrightarrow> nw_now w \<le> nw_now w'"
  by (auto simp: acknowledge_def split: prod.splits sum.splits if_splits dest!: call_time)

lemma failRun_time: "failRun cp a ctx keeper cause w = (w', r) \<Longrightarrow> nw_now w \<le> nw_now w'"
  by (auto simp: failRun_def Let_def split: prod.splits option.splits if_splits dest!: report_time acknowledge_time)

lemma completeRun_time: "completeRun cp a ctx keeper result w = (w', r) \<Longrightarrow> nw_now w \<le> nw_now w'"
  by (auto simp: completeRun_def Let_def split: prod.splits option.splits if_splits dest!: report_time acknowledge_time)

lemma execute_time: "RunOnce_execute wk cp until how a keeper execution w = (w', r) \<Longrightarrow> nw_now w \<le> nw_now w'"
proof -
  let ?w0 = "w\<lparr>ww_eventErr := None, ww_eventSequence := 0, ww_cancelled := None, ww_handed := []\<rparr>"
  assume run: "RunOnce_execute wk cp until how a keeper execution w = (w', r)"
  obtain w1 result err where ex: "run_execution wk cp a until how (keeper until) execution Map.empty ?w0 = (w1, result, err)" by (metis prod_cases3)
  have "nw_now w \<le> nw_now w1" using execution_time [of ?w0 wk cp a until how "keeper until" execution Map.empty] ex by simp
  moreover have "nw_now w1 \<le> nw_now w'" using run
    by (auto simp: RunOnce_execute_def Let_def ex split: prod.splits option.splits sum.splits dest!: failRun_time completeRun_time upload_time)
  ultimately show ?thesis by simp
qed

lemma start_time: "RunOnce_start wk cp until how keeper a executor workDir w = (w', r) \<Longrightarrow> nw_now w \<le> nw_now w'"
  by (auto simp: RunOnce_start_def Let_def split: prod.splits sum.splits if_splits dest!: call_time execute_time)

lemma RunOnce_time: "RunOnce wk until how keeper w = (w', r) \<Longrightarrow> nw_now w \<le> nw_now w'"
  by (auto simp: RunOnce_def Let_def split: prod.splits sum.splits option.splits if_splits dest!: call_time start_time on_host_time)

section \<open>Draining\<close>

lemma slot_wait_cases:
  assumes "slot_wait claimDone executionDone poll w = (w', fired)" "poll > 0"
  shows "nw_now w \<le> nw_now w'" "fired \<Longrightarrow> nw_now w' = nw_now w + poll" "fired \<Longrightarrow> before claimDone (nw_now w')"
  using assms by (auto simp: slot_wait_def wait_def before_def split: option.splits if_splits)

text \<open>A slot whose claim context is done at some instant returns, and began all its runs before that instant.\<close>

lemma slot_drains:
  assumes mono: "\<And>w w' r. runOnce w = (w', r) \<Longrightarrow> nw_now w \<le> nw_now w'" and poll: "poll > 0"
    and runs: "\<And>k. k < length (sl_runs s) \<Longrightarrow> fst (sl_runs s ! k) < t \<and> start + int k * poll \<le> fst (sl_runs s ! k)"
    and ok: "start + int (length (sl_runs s)) * poll \<le> nw_now (sl_world s)"
  shows "\<exists>s'. pool_slot runOnce (Some t) executionDone poll s = Some s' \<and>
    (\<forall>k < length (sl_runs s'). fst (sl_runs s' ! k) < t \<and> start + int k * poll \<le> fst (sl_runs s' ! k))"
  using runs ok
proof (induction "nat (t - nw_now (sl_world s))" arbitrary: s rule: less_induct)
  case less
  show ?case
  proof (cases "nw_now (sl_world s) < t")
    case False
    with less.prems show ?thesis by (simp add: pool_slot.simps [of _ _ _ _ s] before_def)
  next
    case True
    obtain w r where run: "runOnce (sl_world s) = (w, r)" by fastforce
    obtain w1 fired where wt: "slot_wait (Some t) executionDone poll w = (w1, fired)" by fastforce
    define s1 where "s1 = \<lparr>sl_world = w1, sl_errors = sl_errors s @ (case r of Inl e \<Rightarrow> if \<not> errors_Is e NoAssignment \<and>
      before executionDone (nw_now w) then [e] else [] | Inr _ \<Rightarrow> []), sl_runs = sl_runs s @ [(nw_now (sl_world s), r)]\<rparr>"
    have unf: "pool_slot runOnce (Some t) executionDone poll s = (if fired then pool_slot runOnce (Some t) executionDone poll s1 else Some s1)"
      using True by (subst pool_slot.simps) (simp add: before_def run wt s1_def Let_def)
    have all: "fst (sl_runs s1 ! k) < t \<and> start + int k * poll \<le> fst (sl_runs s1 ! k)" if "k < length (sl_runs s1)" for k
      using that less.prems True by (cases "k < length (sl_runs s)") (auto simp: s1_def nth_append less_Suc_eq)
    show ?thesis
    proof (cases fired)
      case False
      with unf all show ?thesis by simp
    next
      case fire: True
      have w1: "nw_now w1 = nw_now w + poll" using slot_wait_cases(2) [OF wt poll fire] .
      have "nat (t - nw_now (sl_world s1)) < nat (t - nw_now (sl_world s))"
        using w1 mono [OF run] poll True by (simp add: s1_def)
      moreover have "start + int (length (sl_runs s1)) * poll \<le> nw_now (sl_world s1)"
        using less.prems(2) w1 mono [OF run] by (simp add: s1_def distrib_right)
      ultimately show ?thesis using less.hyps all unf fire by simp
    qed
  qed
qed

lemma those_map_Some: "(\<forall>x \<in> set xs. \<exists>y. f x = Some y) \<Longrightarrow> \<exists>ys. those (map f xs) = Some ys \<and> length ys = length xs \<and>
    (\<forall>i < length xs. f (xs ! i) = Some (ys ! i))"
proof (induction xs)
  case (Cons x xs)
  then obtain y ys where "f x = Some y" "those (map f xs) = Some ys" "length ys = length xs" "\<forall>i < length xs. f (xs ! i) = Some (ys ! i)" by auto
  then show ?case by (auto simp: nth_Cons split: nat.split)
qed simp



end
