(* ===== verification/Tool_Bridge.thy ===== *)
theory Tool_Bridge
  imports Capabilities
begin

text \<open>
  \<open>runtime/toolbridge\<close>: how a runtime process calls the capabilities of its run. \<open>bridge.go\<close> is a local
  HTTP server with a bearer token. \<open>file.go\<close> is a mailbox of two directories for sandboxed processes: a
  client publishes a request under a random name and polls for a response of that name, the bridge
  processes the requests it finds at each tick. Clients and bridge are interleaved freely by
  \<open>mailbox_step\<close>, together with writers that do not know the token.

  The text of a message is represented by the value it denotes; \<open>OtherText\<close> is a text that is no JSON
  object. A file appears in a directory when it is renamed into place, and no client or server looks at
  the temporary names. Names are random and do not repeat.
\<close>

section \<open>Messages\<close>

definition maxFileMessageBytes :: nat where "maxFileMessageBytes = 4 * 2 ^ 20"

record fileRequest =
  fr_Token :: string
  fr_Call :: CapabilityCall

record fileResponse =
  fp_Result :: CapabilityResult
  fp_Error :: string

datatype mail = RequestMail fileRequest | ResponseMail fileResponse | OtherText

definition zero_CapabilityCall :: CapabilityCall where
  "zero_CapabilityCall = \<lparr>cc_Name = [], cc_Version = [], cc_IdempotencyKey = [], cc_Resource = [], cc_Input = None\<rparr>"

text \<open>\<open>json.Unmarshal\<close> into either structure ignores the members it does not know.\<close>

fun decodeRequest :: "mail \<Rightarrow> fileRequest result" where
  "decodeRequest (RequestMail r) = Inr r"
| "decodeRequest (ResponseMail _) = Inr \<lparr>fr_Token = [], fr_Call = zero_CapabilityCall\<rparr>"
| "decodeRequest OtherText = Inl (errors_New ''invalid JSON'')"

fun decodeResponse :: "mail \<Rightarrow> fileResponse result" where
  "decodeResponse (ResponseMail p) = Inr p"
| "decodeResponse (RequestMail _) = Inr \<lparr>fp_Result = zero_CapabilityResult, fp_Error = []\<rparr>"
| "decodeResponse OtherText = Inl (errors_New ''invalid JSON'')"

section \<open>The mailbox\<close>

text \<open>The bridge, with the length of the text of a message.\<close>

record FileBridge =
  fb_Token :: string
  fb_size :: "mail \<Rightarrow> nat"

text \<open>A client: the name of its request and its call; what it returned.\<close>

datatype tool_client = ToolWaiting string string CapabilityCall | ToolReturned string string CapabilityCall "CapabilityResult result"

text \<open>
  The directories, the rest of the directory listing the bridge is working through, the invoker, the
  clients, and as histories the names that were used and what was invoked for which request.
\<close>

record 'e mailbox =
  mb_requests :: "string \<Rightarrow> mail option"
  mb_responses :: "string \<Rightarrow> mail option"
  mb_entries :: "string list"
  mb_calls :: "string \<Rightarrow> capabilityCallState option"
  mb_env :: 'e
  mb_clients :: "nat \<Rightarrow> tool_client option"
  mb_names :: "string list"
  mb_invoked :: "(string \<times> CapabilityCall \<times> CapabilityResult result) list"

text \<open>The faults of the system calls of one message: of \<open>ReadFile\<close>, and of \<open>WriteFile\<close> or \<open>Rename\<close>.\<close>

record io_faults =
  io_read :: "error option"
  io_write :: "error option"

definition StartFile :: "FileBridge \<Rightarrow> 'e \<Rightarrow> 'e mailbox" where
  "StartFile b e = \<lparr>mb_requests = Map.empty, mb_responses = Map.empty, mb_entries = [], mb_calls = Map.empty, mb_env = e,
     mb_clients = Map.empty, mb_names = [], mb_invoked = []\<rparr>"

definition ErrNotExistFile :: error where
  "ErrNotExistFile = GoError [NotExist] ''no such file or directory''"

definition mail_read :: "error option \<Rightarrow> (string \<Rightarrow> mail option) \<Rightarrow> string \<Rightarrow> mail result" where
  "mail_read fault dir name = (case fault of Some e \<Rightarrow> Inl e
     | None \<Rightarrow> (case dir name of None \<Rightarrow> Inl ErrNotExistFile | Some m \<Rightarrow> Inr m))"

definition refuse :: "string \<Rightarrow> fileResponse" where
  "refuse msg = \<lparr>fp_Result = zero_CapabilityResult, fp_Error = msg\<rparr>"

definition response_of :: "CapabilityResult result \<Rightarrow> fileResponse" where
  "response_of outcome = (case outcome of Inl e \<Rightarrow> refuse (err_text e) | Inr r \<Rightarrow> \<lparr>fp_Result = r, fp_Error = []\<rparr>)"

definition FileBridge_process :: "FileBridge \<Rightarrow> 'e scopedCapabilities \<Rightarrow> io_faults \<Rightarrow> string \<Rightarrow> 'e mailbox \<Rightarrow> 'e mailbox" where
  "FileBridge_process b sc faults name s =
    (let data = mail_read (io_read faults) (mb_requests s) name;
         s = s\<lparr>mb_requests := (mb_requests s)(name := None)\<rparr>;
         (s, response) =
           (case data of
              Inl e \<Rightarrow> (s, refuse (err_text e))
            | Inr m \<Rightarrow>
              if fb_size b m > maxFileMessageBytes then (s, refuse ''relay tool bridge: request exceeds size limit'')
              else (case decodeRequest m of
                  Inl e \<Rightarrow> (s, refuse (err_text e))
                | Inr request \<Rightarrow>
                  if fr_Token request \<noteq> fb_Token b then (s, refuse ''relay tool bridge: unauthorized'')
                  else (case Call sc (fr_Call request) (mb_calls s) (mb_env s) of
                      (calls, e, outcome) \<Rightarrow>
                        (s\<lparr>mb_calls := calls, mb_env := e, mb_invoked := mb_invoked s @ [(name, fr_Call request, outcome)]\<rparr>,
                         response_of outcome))))
     in if io_write faults = None then s\<lparr>mb_responses := (mb_responses s)(name \<mapsto> ResponseMail response)\<rparr> else s)"

text \<open>What \<open>CallFile\<close> does with a tick: nothing while there is no response.\<close>

definition CallFile_poll :: "FileBridge \<Rightarrow> io_faults \<Rightarrow> string \<Rightarrow> 'e mailbox \<Rightarrow> 'e mailbox \<times> CapabilityResult result option" where
  "CallFile_poll b faults name s =
    (case mail_read (io_read faults) (mb_responses s) name of
       Inl e \<Rightarrow> if errors_Is e NotExist then (s, None) else (s, Some (Inl e))
     | Inr m \<Rightarrow>
       let s = s\<lparr>mb_responses := (mb_responses s)(name := None)\<rparr>
       in (s, Some (if fb_size b m > maxFileMessageBytes then Inl (errors_New ''relay tool bridge: response exceeds size limit'')
            else case decodeResponse m of
                Inl e \<Rightarrow> Inl e
              | Inr response \<Rightarrow> if fp_Error response \<noteq> [] then Inl (errors_New (fp_Error response)) else Inr (fp_Result response))))"

definition CallFile_publish :: "io_faults \<Rightarrow> string \<Rightarrow> string \<Rightarrow> CapabilityCall \<Rightarrow> 'e mailbox \<Rightarrow> 'e mailbox \<times> error option" where
  "CallFile_publish faults name token call s =
    (case io_write faults of
       Some e \<Rightarrow> (s, Some (GoError (err_is e) (''relay tool bridge: publish request: '' @ err_text e)))
     | None \<Rightarrow> (s\<lparr>mb_requests := (mb_requests s)(name \<mapsto> RequestMail \<lparr>fr_Token = token, fr_Call = call\<rparr>)\<rparr>, None))"

text \<open>The error of a system call has a text.\<close>

definition real_faults :: "io_faults \<Rightarrow> bool" where
  "real_faults f \<longleftrightarrow> (\<forall>e. io_read f = Some e \<longrightarrow> err_text e \<noteq> [])"

inductive mailbox_step :: "FileBridge \<Rightarrow> 'e scopedCapabilities \<Rightarrow> 'e mailbox \<Rightarrow> 'e mailbox \<Rightarrow> bool"
  for b :: FileBridge and sc :: "'e scopedCapabilities" where
  tick: "mb_entries s = [] \<Longrightarrow> distinct order \<Longrightarrow> set order = {n. mb_requests s n \<noteq> None \<and> HasSuffix n ''.json''} \<Longrightarrow>
    mailbox_step b sc s (s\<lparr>mb_entries := order\<rparr>)"
| process: "mb_entries s = name # rest \<Longrightarrow> real_faults faults \<Longrightarrow>
    mailbox_step b sc s (FileBridge_process b sc faults name (s\<lparr>mb_entries := rest\<rparr>))"
| publish: "mb_clients s i = None \<Longrightarrow> name = rid @ ''.json'' \<Longrightarrow> name \<notin> set (mb_names s) \<Longrightarrow>
    CallFile_publish faults name token call s = (s', err) \<Longrightarrow>
    mailbox_step b sc s (s'\<lparr>mb_names := name # mb_names s,
      mb_clients := (mb_clients s)(i \<mapsto> (case err of None \<Rightarrow> ToolWaiting name token call | Some e \<Rightarrow> ToolReturned name token call (Inl e)))\<rparr>)"
| poll: "mb_clients s i = Some (ToolWaiting name token call) \<Longrightarrow> real_faults faults \<Longrightarrow> CallFile_poll b faults name s = (s', r) \<Longrightarrow>
    mailbox_step b sc s (case r of None \<Rightarrow> s' | Some r \<Rightarrow> s'\<lparr>mb_clients := (mb_clients s)(i \<mapsto> ToolReturned name token call r)\<rparr>)"
| give_up: "mb_clients s i = Some (ToolWaiting name token call) \<Longrightarrow>
    mailbox_step b sc s (s\<lparr>mb_requests := (mb_requests s)(name := None), mb_clients := (mb_clients s)(i \<mapsto> ToolReturned name token call (Inl ErrContext))\<rparr>)"
| intrude: "name \<notin> set (mb_names s) \<Longrightarrow> (\<And>r. decodeRequest m = Inr r \<Longrightarrow> fr_Token r \<noteq> fb_Token b) \<Longrightarrow>
    mailbox_step b sc s (s\<lparr>mb_requests := (mb_requests s)(name \<mapsto> m), mb_names := name # mb_names s\<rparr>)"

inductive mailbox_reach :: "FileBridge \<Rightarrow> 'e scopedCapabilities \<Rightarrow> 'e \<Rightarrow> 'e mailbox \<Rightarrow> bool"
  for b :: FileBridge and sc :: "'e scopedCapabilities" and e :: 'e where
  init: "mailbox_reach b sc e (StartFile b e)"
| step: "mailbox_reach b sc e s \<Longrightarrow> mailbox_step b sc s s' \<Longrightarrow> mailbox_reach b sc e s'"

section \<open>A call gets its own answer\<close>

fun client_name :: "tool_client \<Rightarrow> string" where
  "client_name (ToolWaiting n _ _) = n"
| "client_name (ToolReturned n _ _ _) = n"

fun client_call :: "tool_client \<Rightarrow> CapabilityCall" where
  "client_call (ToolWaiting _ _ c) = c"
| "client_call (ToolReturned _ _ c _) = c"

fun client_token :: "tool_client \<Rightarrow> string" where
  "client_token (ToolWaiting _ t _) = t"
| "client_token (ToolReturned _ t _ _) = t"

text \<open>Some client made this call under this name.\<close>

definition called :: "'e mailbox \<Rightarrow> string \<Rightarrow> string \<Rightarrow> CapabilityCall \<Rightarrow> bool" where
  "called s n t c \<longleftrightarrow> (\<exists>i cl. mb_clients s i = Some cl \<and> client_name cl = n \<and> client_token cl = t \<and> client_call cl = c)"

text \<open>What the bridge does with one request.\<close>

lemma process_cases:
  assumes "real_faults faults"
  obtains calls env inv p resp where
    "FileBridge_process b sc faults name s = s\<lparr>mb_requests := (mb_requests s)(name := None), mb_calls := calls, mb_env := env,
       mb_invoked := mb_invoked s @ inv, mb_responses := resp\<rparr>"
    "inv = [] \<and> fp_Error p \<noteq> [] \<or> (\<exists>m r out. mb_requests s name = Some m \<and> decodeRequest m = Inr r \<and> fr_Token r = fb_Token b \<and>
       inv = [(name, fr_Call r, out)] \<and> p = response_of out)"
    "resp = mb_responses s \<or> resp = (mb_responses s)(name \<mapsto> ResponseMail p)"
proof -
  let ?s = "s\<lparr>mb_requests := (mb_requests s)(name := None)\<rparr>"
  note result = that
  have refusal: thesis if "FileBridge_process b sc faults name s = (if io_write faults = None
      then ?s\<lparr>mb_responses := (mb_responses s)(name \<mapsto> ResponseMail (refuse msg))\<rparr> else ?s)" "msg \<noteq> []" for msg
    by (rule result [where calls = "mb_calls s" and env = "mb_env s" and inv = "[]" and p = "refuse msg"
          and resp = "if io_write faults = None then (mb_responses s)(name \<mapsto> ResponseMail (refuse msg)) else mb_responses s"])
      (use that in \<open>auto simp: refuse_def\<close>)
  show thesis
  proof (cases "mail_read (io_read faults) (mb_requests s) name")
    case (Inl e)
    then have "err_text e \<noteq> []" using assms by (auto simp: mail_read_def real_faults_def ErrNotExistFile_def split: option.splits)
    then show thesis using refusal [of "err_text e"] Inl by (simp add: FileBridge_process_def Let_def)
  next
    case (Inr m)
    then have m: "mb_requests s name = Some m" by (auto simp: mail_read_def split: option.splits)
    consider "fb_size b m > maxFileMessageBytes" | e where "\<not> fb_size b m > maxFileMessageBytes" "decodeRequest m = Inl e"
      | r where "\<not> fb_size b m > maxFileMessageBytes" "decodeRequest m = Inr r" "fr_Token r \<noteq> fb_Token b"
      | r where "\<not> fb_size b m > maxFileMessageBytes" "decodeRequest m = Inr r" "fr_Token r = fb_Token b"
      by (cases "decodeRequest m") auto
    then show thesis
    proof cases
      case 1
      then show thesis using refusal [of "''relay tool bridge: request exceeds size limit''"] Inr by (simp add: FileBridge_process_def Let_def)
    next
      case (2 e)
      then have "err_text e \<noteq> []" by (cases m) (auto simp: errors_New_def)
      then show thesis using refusal [of "err_text e"] Inr 2 by (simp add: FileBridge_process_def Let_def)
    next
      case (3 r)
      then show thesis using refusal [of "''relay tool bridge: unauthorized''"] Inr by (simp add: FileBridge_process_def Let_def)
    next
      case (4 r)
      obtain calls env out where call: "Call sc (fr_Call r) (mb_calls s) (mb_env s) = (calls, env, out)" by (metis prod_cases3)
      show thesis
        by (rule result [where calls = calls and env = env and inv = "[(name, fr_Call r, out)]" and p = "response_of out"
              and resp = "if io_write faults = None then (mb_responses s)(name \<mapsto> ResponseMail (response_of out)) else mb_responses s"])
          (use 4 Inr m call in \<open>auto simp: FileBridge_process_def Let_def\<close>)
    qed
  qed
qed

definition mailbox_inv :: "FileBridge \<Rightarrow> 'e mailbox \<Rightarrow> bool" where
  "mailbox_inv b s \<longleftrightarrow>
     (\<forall>n. mb_requests s n \<noteq> None \<longrightarrow> n \<in> set (mb_names s) \<and> n \<notin> fst ` set (mb_invoked s) \<and> mb_responses s n = None) \<and>
     (\<forall>n. mb_responses s n \<noteq> None \<or> n \<in> set (mb_entries s) \<or> n \<in> fst ` set (mb_invoked s) \<longrightarrow> n \<in> set (mb_names s)) \<and>
     distinct (map fst (mb_invoked s)) \<and>
     (\<forall>i cl. mb_clients s i = Some cl \<longrightarrow> client_name cl \<in> set (mb_names s)) \<and>
     (\<forall>i j cl cl'. mb_clients s i = Some cl \<longrightarrow> mb_clients s j = Some cl' \<longrightarrow> client_name cl = client_name cl' \<longrightarrow> i = j)"

definition answer_inv :: "FileBridge \<Rightarrow> 'e mailbox \<Rightarrow> bool" where
  "answer_inv b s \<longleftrightarrow>
     (\<forall>n m r. mb_requests s n = Some m \<longrightarrow> decodeRequest m = Inr r \<longrightarrow> fr_Token r = fb_Token b \<longrightarrow>
        called s n (fb_Token b) (fr_Call r)) \<and>
     (\<forall>n c out. (n, c, out) \<in> set (mb_invoked s) \<longrightarrow> called s n (fb_Token b) c) \<and>
     (\<forall>n m. mb_responses s n = Some m \<longrightarrow> (\<exists>p. m = ResponseMail p \<and>
        ((\<exists>c out. (n, c, out) \<in> set (mb_invoked s) \<and> p = response_of out) \<or> fp_Error p \<noteq> []))) \<and>
     (\<forall>i n t c r. mb_clients s i = Some (ToolReturned n t c (Inr r)) \<longrightarrow>
        (\<exists>out. (n, c, out) \<in> set (mb_invoked s) \<and> response_of out = \<lparr>fp_Result = r, fp_Error = []\<rparr>))"

lemma mailbox_invD:
  assumes "mailbox_inv b s"
  shows "mb_requests s n = Some m \<Longrightarrow> n \<in> set (mb_names s) \<and> n \<notin> fst ` set (mb_invoked s) \<and> mb_responses s n = None"
    "mb_responses s n = Some m \<Longrightarrow> n \<in> set (mb_names s)" "n \<in> set (mb_entries s) \<Longrightarrow> n \<in> set (mb_names s)"
    "n \<in> fst ` set (mb_invoked s) \<Longrightarrow> n \<in> set (mb_names s)" "distinct (map fst (mb_invoked s))"
    "mb_clients s i = Some cl \<Longrightarrow> client_name cl \<in> set (mb_names s)"
    "mb_clients s i = Some cl \<Longrightarrow> mb_clients s j = Some cl' \<Longrightarrow> client_name cl = client_name cl' \<Longrightarrow> j = i"
  using assms by (simp_all add: mailbox_inv_def)

text \<open>Files that go and clients that return keep the invariant.\<close>

lemma mailbox_inv_less:
  assumes "mailbox_inv b s" "\<And>n m. mb_requests s' n = Some m \<Longrightarrow> mb_requests s n = Some m"
    "\<And>n m. mb_responses s' n = Some m \<Longrightarrow> mb_responses s n = Some m"
    "mb_entries s' = mb_entries s" "mb_names s' = mb_names s" "mb_invoked s' = mb_invoked s"
    "\<And>j. map_option client_name (mb_clients s' j) = map_option client_name (mb_clients s j)"
  shows "mailbox_inv b s'"
proof -
  note I = mailbox_invD [OF assms(1)]
  have cl: "\<exists>cl0. mb_clients s j = Some cl0 \<and> client_name cl0 = client_name cl" if "mb_clients s' j = Some cl" for j cl
    using assms(7) [of j] that by (cases "mb_clients s j") auto
  show ?thesis
    unfolding mailbox_inv_def assms(4-6)
  proof (intro conjI allI impI, goal_cases)
    case (1 n)
    then show ?case using I(1) assms(2) by blast
  next
    case (2 n)
    then show ?case using I(1) assms(2) by blast
  next
    case (3 n)
    then obtain m where m: "mb_requests s n = Some m" using assms(2) by blast
    show ?case
    proof (cases "mb_responses s' n")
      case (Some q)
      from assms(3) [OF this] I(1) [OF m] show ?thesis by simp
    qed simp
  next
    case (4 n)
    then show ?case using I(2,3,4) [of n] assms(3) [of n] by (cases "mb_responses s' n") blast+
  next
    case 5
    show ?case by (rule I(5))
  next
    case (6 i c)
    then show ?case using cl I(6) by metis
  next
    case (7 i j c d)
    then show ?case using cl [of i c] cl [of j d] I(7) [of j _ i] by metis
  qed
qed

lemma mailbox_step_inv:
  assumes "mailbox_step b sc s s'" "mailbox_inv b s"
  shows "mailbox_inv b s'"
  using assms(1)
proof cases
  case (tick order)
  with assms(2) show ?thesis by (auto simp: mailbox_inv_def)
next
  case (process name rest faults)
  obtain calls env inv p resp where pr:
    "FileBridge_process b sc faults name (s\<lparr>mb_entries := rest\<rparr>) = s\<lparr>mb_entries := rest, mb_requests := (mb_requests s)(name := None),
       mb_calls := calls, mb_env := env, mb_invoked := mb_invoked s @ inv, mb_responses := resp\<rparr>"
    "inv = [] \<and> fp_Error p \<noteq> [] \<or> (\<exists>m r out. mb_requests s name = Some m \<and> decodeRequest m = Inr r \<and> fr_Token r = fb_Token b \<and>
       inv = [(name, fr_Call r, out)] \<and> p = response_of out)"
    "resp = mb_responses s \<or> resp = (mb_responses s)(name \<mapsto> ResponseMail p)"
    by (rule process_cases [OF process(3), of b sc name "s\<lparr>mb_entries := rest\<rparr>"]) auto
  have name: "name \<in> set (mb_names s)" using assms(2) process(2) by (simp add: mailbox_inv_def)
  have inv: "fst ` set inv \<subseteq> {name}" "length inv \<le> 1" "inv \<noteq> [] \<Longrightarrow> name \<notin> fst ` set (mb_invoked s)"
    using pr(2) assms(2) by (auto simp: mailbox_inv_def)
  have dist: "distinct (map fst (mb_invoked s @ inv))"
    using assms(2) inv by (cases inv) (auto simp: mailbox_inv_def)
  have "mailbox_inv b (s\<lparr>mb_entries := rest, mb_requests := (mb_requests s)(name := None),
       mb_calls := calls, mb_env := env, mb_invoked := mb_invoked s @ inv, mb_responses := resp\<rparr>)"
    unfolding mailbox_inv_def
  proof (intro conjI, goal_cases)
    case 1
    show ?case using assms(2) inv(1) pr(3) by (auto simp: mailbox_inv_def)
  next
    case 2
    have "resp n = Some y \<Longrightarrow> n \<in> set (mb_names s)" for n y using pr(3) name assms(2) by (auto simp: mailbox_inv_def split: if_splits)
    then show ?case using assms(2) inv(1) name process(2) by (auto simp: mailbox_inv_def image_Un)
  next
    case 3
    show ?case using dist by simp
  qed (use assms(2) in \<open>auto simp: mailbox_inv_def\<close>)
  then show ?thesis using process(1) pr(1) by simp
next
  case (publish i name rid faults token call t err)
  note I = mailbox_invD [OF assms(2)]
  define cl0 where "cl0 = (case err of None \<Rightarrow> ToolWaiting name token call | Some e \<Rightarrow> ToolReturned name token call (Inl e))"
  have cl0: "client_name cl0 = name" by (simp add: cl0_def split: option.split)
  have t: "mb_entries t = mb_entries s" "mb_responses t = mb_responses s" "mb_invoked t = mb_invoked s"
    "mb_requests t n = Some m \<Longrightarrow> n = name \<or> mb_requests s n = Some m" for n m
    using publish(5) by (auto simp: CallFile_publish_def split: option.splits if_splits)
  have fresh: "mb_responses s name = None" "name \<notin> set (mb_entries s)" "name \<notin> fst ` set (mb_invoked s)" "mb_requests s name = None"
    using publish(4) I(1-4) [of name]
    by (cases "mb_responses s name"; cases "mb_requests s name"; blast)+
  have client: "mb_clients s j = Some cl \<Longrightarrow> client_name cl \<noteq> name" for j cl using I(6) publish(4) by blast
  show ?thesis
    unfolding publish(1) cl0_def [symmetric] mailbox_inv_def
  proof (intro conjI, goal_cases)
    case 1
    have "n \<in> set (name # mb_names s) \<and> n \<notin> fst ` set (mb_invoked s) \<and> mb_responses s n = None" if "mb_requests t n = Some m" for n m
      using t(4) [OF that] I(1) [of n] fresh by auto
    then show ?case using t by auto
  next
    case 2
    show ?case using t I(2,3,4) by auto
  next
    case 3
    show ?case using t I(5) by simp
  next
    case 4
    show ?case using cl0 I(6) by auto
  next
    case 5
    have "k = j" if "((mb_clients s)(i \<mapsto> cl0)) k = Some cl" "((mb_clients s)(i \<mapsto> cl0)) j = Some cl'" "client_name cl = client_name cl'"
      for k j cl cl' using that cl0 client [of k cl] client [of j cl'] I(7) [of j cl' k cl] by (cases "k = i"; cases "j = i") auto
    then show ?case by (simp del: fun_upd_apply)
  qed
next
  case (poll i name token call faults t r)
  have t: "mb_requests t = mb_requests s" "mb_invoked t = mb_invoked s" "mb_clients t = mb_clients s" "mb_entries t = mb_entries s"
    "mb_names t = mb_names s" "mb_responses t n = Some m \<Longrightarrow> mb_responses s n = Some m" for n m
    using poll(4) by (auto simp: CallFile_poll_def Let_def split: sum.splits if_splits)
  show ?thesis unfolding poll(1)
    by (rule mailbox_inv_less [OF assms(2)]) (use t poll(2) in \<open>auto split: option.splits\<close>)
next
  case (give_up i name token call)
  show ?thesis unfolding give_up(1)
    by (rule mailbox_inv_less [OF assms(2)]) (use give_up(2) in \<open>auto split: if_splits\<close>)
next
  case (intrude name m)
  then show ?thesis using assms(2) by (auto simp: mailbox_inv_def split: if_splits)
qed

lemma answer_invD:
  assumes "answer_inv b s"
  shows "mb_requests s n = Some m \<Longrightarrow> decodeRequest m = Inr r \<Longrightarrow> fr_Token r = fb_Token b \<Longrightarrow>
      called s n (fb_Token b) (fr_Call r)"
    "(n, c, out) \<in> set (mb_invoked s) \<Longrightarrow> called s n (fb_Token b) c"
    "mb_responses s n = Some m \<Longrightarrow> \<exists>p. m = ResponseMail p \<and>
      ((\<exists>c out. (n, c, out) \<in> set (mb_invoked s) \<and> p = response_of out) \<or> fp_Error p \<noteq> [])"
    "mb_clients s i = Some (ToolReturned n t c (Inr q)) \<Longrightarrow>
      \<exists>out. (n, c, out) \<in> set (mb_invoked s) \<and> response_of out = \<lparr>fp_Result = q, fp_Error = []\<rparr>"
  using assms unfolding answer_inv_def by blast+

text \<open>A client that changes state keeps its name and its call.\<close>

lemma client_kept:
  assumes "mb_clients s i = Some (ToolWaiting n t c)" "called s n' t' c'" "mb_clients s' = (mb_clients s)(i \<mapsto> ToolReturned n t c r)"
  shows "called s' n' t' c'"
proof -
  obtain j cl where j: "mb_clients s j = Some cl" "client_name cl = n'" "client_token cl = t'" "client_call cl = c'"
    using assms(2) unfolding called_def by blast
  show ?thesis
    unfolding called_def assms(3) using j assms(1) by (cases "j = i") (auto intro: exI [of _ j])
qed

lemma called_same: "mb_clients s' = mb_clients s \<Longrightarrow> called s' = called s"
  by (simp add: called_def fun_eq_iff)

lemma answer_inv_process:
  assumes inv: "mailbox_inv b s" "answer_inv b s" and faults: "real_faults faults"
  shows "answer_inv b (FileBridge_process b sc faults name (s\<lparr>mb_entries := rest\<rparr>))"
proof -
  obtain calls env iv p resp where pr:
    "FileBridge_process b sc faults name (s\<lparr>mb_entries := rest\<rparr>) = s\<lparr>mb_entries := rest, mb_requests := (mb_requests s)(name := None),
       mb_calls := calls, mb_env := env, mb_invoked := mb_invoked s @ iv, mb_responses := resp\<rparr>"
    "iv = [] \<and> fp_Error p \<noteq> [] \<or> (\<exists>m r out. mb_requests s name = Some m \<and> decodeRequest m = Inr r \<and> fr_Token r = fb_Token b \<and>
       iv = [(name, fr_Call r, out)] \<and> p = response_of out)"
    "resp = mb_responses s \<or> resp = (mb_responses s)(name \<mapsto> ResponseMail p)"
    by (rule process_cases [OF faults, of b sc name "s\<lparr>mb_entries := rest\<rparr>"]) auto
  have new: "called s n (fb_Token b) c" if "(n, c, out) \<in> set iv" for n c out
  proof -
    from that pr(2) obtain m r where "n = name" "c = fr_Call r" "mb_requests s name = Some m" "decodeRequest m = Inr r" "fr_Token r = fb_Token b" by auto
    with answer_invD(1) [OF inv(2)] show ?thesis by blast
  qed
  have resp: "\<exists>q. m = ResponseMail q \<and> ((\<exists>c out. (n, c, out) \<in> set (mb_invoked s @ iv) \<and> q = response_of out) \<or> fp_Error q \<noteq> [])"
    if "resp n = Some m" for n m
  proof (cases "mb_responses s n = Some m")
    case True
    from answer_invD(3) [OF inv(2) this] show ?thesis by auto
  next
    case False
    with that pr(3) have "n = name" "m = ResponseMail p" by (auto split: if_splits)
    with pr(2) show ?thesis by fastforce
  qed
  show ?thesis
    unfolding pr(1) answer_inv_def
  proof (intro conjI, goal_cases)
    case 1
    show ?case using answer_invD(1) [OF inv(2)] by (auto simp: called_def)
  next
    case 2
    show ?case using answer_invD(2) [OF inv(2)] new by (auto simp: called_def)
  next
    case 3
    show ?case using resp by simp
  next
    case 4
    show ?case using answer_invD(4) [OF inv(2)] by fastforce
  qed
qed

lemma answer_step_inv:
  assumes "mailbox_step b sc s s'" "mailbox_inv b s" "answer_inv b s"
  shows "answer_inv b s'"
  using assms(1)
proof cases
  case (tick order)
  with assms(3) show ?thesis by (simp add: answer_inv_def called_def)
next
  case (process name rest faults)
  then show ?thesis using answer_inv_process [OF assms(2,3)] by simp
next
  case (publish i name rid faults token call t err)
  note A = answer_invD [OF assms(3)]
  define cl0 where "cl0 = (case err of None \<Rightarrow> ToolWaiting name token call | Some e \<Rightarrow> ToolReturned name token call (Inl e))"
  have keep: "called s' n u c" if was: "called s n u c" for n u c
  proof -
    obtain j cl where j: "mb_clients s j = Some cl" "client_name cl = n" "client_token cl = u" "client_call cl = c"
      using was unfolding called_def by blast
    then have "mb_clients s' j = Some cl" using publish(1,2) by (cases "j = i") auto
    with j show ?thesis unfolding called_def by blast
  qed
  have t: "mb_responses t = mb_responses s" "mb_invoked t = mb_invoked s"
    using publish(5) by (auto simp: CallFile_publish_def split: option.splits)
  have req: "mb_requests t n = Some m \<Longrightarrow> mb_requests s n = Some m \<or> n = name \<and> m = RequestMail \<lparr>fr_Token = token, fr_Call = call\<rparr> \<and>
      cl0 = ToolWaiting name token call" for n m
    using publish(5) by (auto simp: CallFile_publish_def cl0_def split: option.splits if_splits)
  show ?thesis
    unfolding publish(1) cl0_def [symmetric] answer_inv_def
  proof (intro conjI, goal_cases)
    case 1
    have "called s' n (fb_Token b) (fr_Call r)"
      if "mb_requests t n = Some m" "decodeRequest m = Inr r" "fr_Token r = fb_Token b" for n m r
      using req [OF that(1)]
    proof
      assume "mb_requests s n = Some m"
      from keep [OF A(1) [OF this that(2,3)]] show ?thesis .
    next
      assume "n = name \<and> m = RequestMail \<lparr>fr_Token = token, fr_Call = call\<rparr> \<and> cl0 = ToolWaiting name token call"
      with that show ?thesis by (auto simp: called_def publish(1) cl0_def [symmetric] intro!: exI [of _ i])
    qed
    then show ?case by (simp add: publish(1) cl0_def [symmetric])
  next
    case 2
    show ?case using keep A(2) t by (simp add: publish(1) cl0_def [symmetric])
  next
    case 3
    show ?case using A(3) t by simp
  next
    case 4
    show ?case using A(4) t by (auto simp: cl0_def split: option.splits)
  qed
next
  case (poll i name token call faults t r)
  note A = answer_invD [OF assms(3)]
  have t: "mb_requests t = mb_requests s" "mb_invoked t = mb_invoked s" "mb_clients t = mb_clients s"
    "mb_responses t n = Some m \<Longrightarrow> mb_responses s n = Some m" for n m
    using poll(4) by (auto simp: CallFile_poll_def Let_def split: sum.splits if_splits)
  show ?thesis
  proof (cases r)
    case None
    then show ?thesis unfolding poll(1) using assms(3) t by (auto simp: answer_inv_def called_def)
  next
    case (Some q)
    have own: "\<exists>out. (name, call, out) \<in> set (mb_invoked s) \<and> response_of out = \<lparr>fp_Result = res, fp_Error = []\<rparr>" if "q = Inr res" for res
    proof -
      from that Some poll(4) obtain m p where m: "mb_responses s name = Some m" "decodeResponse m = Inr p" "fp_Error p = []" "res = fp_Result p"
        by (auto simp: CallFile_poll_def mail_read_def Let_def split: sum.splits if_splits option.splits)
      from A(3) [OF m(1)] m(2,3) obtain c out where c: "(name, c, out) \<in> set (mb_invoked s)" "p = response_of out" by auto
      from A(2) [OF c(1)] obtain j cl where "mb_clients s j = Some cl" "client_name cl = name" "client_call cl = c"
        by (auto simp: called_def)
      with mailbox_invD(7) [OF assms(2) poll(2), of j cl] poll(2) have "c = call" by auto
      with c m(3,4) show ?thesis by (intro exI [of _ out]) (cases p, simp)
    qed
    have kept: "called (t\<lparr>mb_clients := (mb_clients s)(i \<mapsto> ToolReturned name token call q)\<rparr>) n u c" if "called s n u c" for n u c
      by (rule client_kept [OF poll(2) that]) simp
    show ?thesis
      unfolding poll(1) Some option.case answer_inv_def
    proof (intro conjI, goal_cases)
      case 1
      show ?case using A(1) kept t by simp
    next
      case 2
      show ?case using A(2) kept t by simp
    next
      case 3
      show ?case using A(3) t by simp
    next
      case 4
      show ?case using A(4) own t by auto
    qed
  qed
next
  case (give_up i name token call)
  note A = answer_invD [OF assms(3)]
  have kept: "called s' n u c" if "called s n u c" for n u c
    by (rule client_kept [OF give_up(2) that]) (simp add: give_up(1))
  show ?thesis
    unfolding answer_inv_def
  proof (intro conjI, goal_cases)
    case 1
    show ?case using A(1) kept by (auto simp: give_up(1) split: if_splits)
  next
    case 2
    show ?case using A(2) kept by (simp add: give_up(1))
  next
    case 3
    show ?case using A(3) by (simp add: give_up(1))
  next
    case 4
    show ?case using A(4) by (auto simp: give_up(1))
  qed
next
  case (intrude name m)
  note A = answer_invD [OF assms(3)]
  show ?thesis
    unfolding intrude(1) answer_inv_def
  proof (intro conjI, goal_cases)
    case 1
    show ?case using A(1) intrude(3) by (auto simp: called_def)
  next
    case 2
    show ?case using A(2) by (simp add: called_def)
  next
    case 3
    show ?case using A(3) by simp
  next
    case 4
    show ?case using A(4) by simp
  qed
qed

lemma mailbox_reach_inv:
  assumes "mailbox_reach b sc e s"
  shows "mailbox_inv b s \<and> answer_inv b s \<and> distinct (mb_entries s) \<and>
    (\<forall>i cl. mb_clients s i = Some cl \<longrightarrow> HasSuffix (client_name cl) ''.json'')"
  using assms
proof (induction rule: mailbox_reach.induct)
  case init
  then show ?case by (simp add: StartFile_def mailbox_inv_def answer_inv_def)
next
  case (step s s')
  have "HasSuffix (client_name cl) ''.json''" if "mb_clients s' i = Some cl" for i cl
    using step(2)
  proof cases
    case (process name rest faults)
    then have "mb_clients s' = mb_clients s" by (simp add: FileBridge_process_def Let_def split: sum.splits prod.splits if_splits)
    then show ?thesis using that step(3) by simp
  next
    case (publish i name rid faults token call t err)
    then have "mb_clients t = mb_clients s" by (auto simp: CallFile_publish_def split: option.splits)
    with publish that step(3) show ?thesis by (auto simp: HasSuffix_iff split: if_splits option.splits)
  next
    case (poll i' name token call faults t r)
    then have t: "mb_clients t = mb_clients s" by (auto simp: CallFile_poll_def Let_def split: sum.splits if_splits)
    have "HasSuffix name ''.json''" using step(3) poll(2) by fastforce
    with t poll that step(3) show ?thesis by (auto split: if_splits option.splits)
  next
    case (give_up i' name token call)
    have "HasSuffix name ''.json''" using step(3) give_up(2) by fastforce
    with give_up that step(3) show ?thesis by (auto split: if_splits)
  qed (use that step(3) in auto)
  moreover have "distinct (mb_entries s')"
    using step(2)
  proof cases
    case (process name rest faults)
    then have "mb_entries s' = rest" by (simp add: FileBridge_process_def Let_def split: sum.splits prod.splits if_splits)
    then show ?thesis using process(2) step(3) by simp
  next
    case (publish i name rid faults token call t err)
    then show ?thesis using step(3) by (auto simp: CallFile_publish_def split: option.splits)
  next
    case (poll i' name token call faults t r)
    then show ?thesis using step(3) by (auto simp: CallFile_poll_def Let_def split: sum.splits if_splits option.splits)
  qed (use step(3) in auto)
  ultimately show ?case using step mailbox_step_inv answer_step_inv by blast
qed


section \<open>A call is answered\<close>

definition no_faults :: io_faults where "no_faults = \<lparr>io_read = None, io_write = None\<rparr>"

text \<open>There is an answer for the call under this name.\<close>

definition answered :: "string \<Rightarrow> CapabilityCall \<Rightarrow> 'e mailbox \<Rightarrow> bool" where
  "answered n c s \<longleftrightarrow> (\<exists>out. (n, c, out) \<in> set (mb_invoked s) \<and> mb_responses s n = Some (ResponseMail (response_of out)))"

lemma process_frame:
  "mb_clients (FileBridge_process b sc faults name s) = mb_clients s" "mb_entries (FileBridge_process b sc faults name s) = mb_entries s"
  "mb_names (FileBridge_process b sc faults name s) = mb_names s"
  "n \<noteq> name \<Longrightarrow> mb_requests (FileBridge_process b sc faults name s) n = mb_requests s n"
  "n \<noteq> name \<Longrightarrow> answered n c s \<Longrightarrow> answered n c (FileBridge_process b sc faults name s)"
  by (auto simp: answered_def FileBridge_process_def Let_def split: sum.split prod.split)

lemma process_answers:
  assumes "mb_requests s n = Some (RequestMail \<lparr>fr_Token = fb_Token b, fr_Call = c\<rparr>)" "\<And>m. fb_size b m \<le> maxFileMessageBytes"
  shows "answered n c (FileBridge_process b sc no_faults n s)"
  using assms by (auto simp: answered_def FileBridge_process_def no_faults_def mail_read_def Let_def not_le [symmetric] split: prod.split)

text \<open>The bridge works through its listing; a pending request in it is answered, one that is not in it stays.\<close>

lemma bridge_drains:
  assumes "distinct (mb_entries s)" "\<And>m. fb_size b m \<le> maxFileMessageBytes"
    and "answered n c s \<and> n \<notin> set (mb_entries s) \<or> mb_requests s n = Some (RequestMail \<lparr>fr_Token = fb_Token b, fr_Call = c\<rparr>)"
  shows "\<exists>s'. (mailbox_step b sc)\<^sup>*\<^sup>* s s' \<and> mb_entries s' = [] \<and> mb_clients s' = mb_clients s \<and> mb_names s' = mb_names s \<and>
    (answered n c s' \<or> n \<notin> set (mb_entries s) \<and> \<not> answered n c s \<and>
       mb_requests s' n = Some (RequestMail \<lparr>fr_Token = fb_Token b, fr_Call = c\<rparr>))"
  using assms
proof (induction "mb_entries s" arbitrary: s)
  case Nil
  then show ?case by (intro exI [of _ s]) auto
next
  case (Cons name rest)
  let ?s = "FileBridge_process b sc no_faults name (s\<lparr>mb_entries := rest\<rparr>)"
  have entries: "mb_entries s = name # rest" using Cons(2) by simp
  have step: "mailbox_step b sc s ?s"
    using mailbox_step.process [OF entries, of no_faults] by (simp add: real_faults_def no_faults_def)
  have fr: "mb_clients ?s = mb_clients s" "mb_entries ?s = rest" "mb_names ?s = mb_names s"
    "n \<noteq> name \<Longrightarrow> mb_requests ?s n = mb_requests s n" "n \<noteq> name \<Longrightarrow> answered n c s \<Longrightarrow> answered n c ?s"
    using process_frame [where name = name and s = "s\<lparr>mb_entries := rest\<rparr>"] by (simp_all add: answered_def)
  have rest: "distinct rest" "name \<notin> set rest" using Cons(3) entries by auto
  have own: "answered n c ?s" if "n = name"
    using Cons(5) entries that process_answers [of "s\<lparr>mb_entries := rest\<rparr>" n b c sc] Cons(4) by auto
  have "answered n c ?s \<and> n \<notin> set (mb_entries ?s) \<or> mb_requests ?s n = Some (RequestMail \<lparr>fr_Token = fb_Token b, fr_Call = c\<rparr>)"
    using own rest fr Cons(5) entries by (cases "n = name") auto
  with Cons(1) [of ?s] fr(2) rest(1) Cons(4) obtain s' where s': "(mailbox_step b sc)\<^sup>*\<^sup>* ?s s'" "mb_entries s' = []"
    "mb_clients s' = mb_clients ?s" "mb_names s' = mb_names ?s"
    "answered n c s' \<or> n \<notin> set rest \<and> \<not> answered n c ?s \<and> mb_requests s' n = Some (RequestMail \<lparr>fr_Token = fb_Token b, fr_Call = c\<rparr>)"
    by auto
  have "answered n c s' \<or> n \<notin> set (mb_entries s) \<and> \<not> answered n c s \<and> mb_requests s' n = Some (RequestMail \<lparr>fr_Token = fb_Token b, fr_Call = c\<rparr>)"
    using s'(5) own fr(5) entries by (cases "n = name") auto
  with s' fr converse_rtranclp_into_rtranclp [of "mailbox_step b sc", OF step s'(1)] show ?case by (intro exI [of _ s']) simp
qed

text \<open>
  a tool call is answered. In every reachable state of a mailbox whose messages are within the size
  limit, a client that waits for a request it published with the token of the run can get the answer to
  its call: the bridge, going on without faults, invokes it, and the client's next poll returns what the
  invocation returned.
\<close>

theorem mailbox_answers:
  assumes reach: "mailbox_reach b sc e s" and client: "mb_clients s i = Some (ToolWaiting n (fb_Token b) c)"
    and pending: "mb_requests s n = Some (RequestMail \<lparr>fr_Token = fb_Token b, fr_Call = c\<rparr>)"
    and sizes: "\<And>m. fb_size b m \<le> maxFileMessageBytes"
  shows "\<exists>s' out. (mailbox_step b sc)\<^sup>*\<^sup>* s s' \<and> (n, c, out) \<in> set (mb_invoked s') \<and>
    mb_clients s' i = Some (ToolReturned n (fb_Token b) c
      (if fp_Error (response_of out) \<noteq> [] then Inl (errors_New (fp_Error (response_of out))) else Inr (fp_Result (response_of out))))"
proof -
  let ?req = "RequestMail \<lparr>fr_Token = fb_Token b, fr_Call = c\<rparr>"
  have inv: "mailbox_inv b s" "distinct (mb_entries s)" "HasSuffix n ''.json''"
  proof -
    have "\<And>i cl. mb_clients s i = Some cl \<Longrightarrow> HasSuffix (client_name cl) ''.json''" using mailbox_reach_inv [OF reach] by blast
    from this [OF client] show "HasSuffix n ''.json''" by simp
  qed (use mailbox_reach_inv [OF reach] in blast)+
  obtain s1 where s1: "(mailbox_step b sc)\<^sup>*\<^sup>* s s1" "mb_entries s1 = []" "mb_clients s1 = mb_clients s"
    "answered n c s1 \<or> mb_requests s1 n = Some ?req"
    using bridge_drains [OF inv(2) sizes, of n c sc] pending by blast
  have "\<exists>s2. (mailbox_step b sc)\<^sup>*\<^sup>* s s2 \<and> mb_clients s2 = mb_clients s \<and> answered n c s2"
  proof (cases "answered n c s1")
    case True
    with s1 show ?thesis by blast
  next
    case False
    with s1(4) have req: "mb_requests s1 n = Some ?req" by blast
    have inv1: "mailbox_inv b s1" using s1(1) inv(1) by (induction rule: rtranclp_induct) (auto intro: mailbox_step_inv)
    have "{k. mb_requests s1 k \<noteq> None \<and> HasSuffix k ''.json''} \<subseteq> set (mb_names s1)" using mailbox_invD(1) [OF inv1] by blast
    then have "finite {k. mb_requests s1 k \<noteq> None \<and> HasSuffix k ''.json''}" by (rule finite_subset) simp
    from finite_distinct_list [OF this] obtain order
      where order: "distinct order" "set order = {k. mb_requests s1 k \<noteq> None \<and> HasSuffix k ''.json''}" by blast
    let ?s = "s1\<lparr>mb_entries := order\<rparr>"
    have "mailbox_step b sc s1 ?s" by (rule mailbox_step.tick [OF s1(2) order])
    moreover have "n \<in> set (mb_entries ?s)" using order(2) req inv(3) by simp
    moreover obtain s2 where "(mailbox_step b sc)\<^sup>*\<^sup>* ?s s2" "mb_clients s2 = mb_clients ?s" "answered n c s2 \<or> n \<notin> set (mb_entries ?s)"
      using bridge_drains [of ?s b n c sc] order(1) sizes req by auto
    ultimately show ?thesis using s1(1,3) by (intro exI [of _ s2]) auto
  qed
  then obtain s2 out where s2: "(mailbox_step b sc)\<^sup>*\<^sup>* s s2" "mb_clients s2 = mb_clients s" "(n, c, out) \<in> set (mb_invoked s2)"
    "mb_responses s2 n = Some (ResponseMail (response_of out))" by (auto simp: answered_def)
  let ?r = "if fp_Error (response_of out) \<noteq> [] then Inl (errors_New (fp_Error (response_of out))) else Inr (fp_Result (response_of out))"
  let ?s3 = "s2\<lparr>mb_responses := (mb_responses s2)(n := None)\<rparr>"
  have poll: "CallFile_poll b no_faults n s2 = (?s3, Some ?r)"
    using s2(4) sizes [of "ResponseMail (response_of out)"] by (simp add: CallFile_poll_def mail_read_def no_faults_def Let_def not_less)
  have "mailbox_step b sc s2 (?s3\<lparr>mb_clients := (mb_clients s2)(i \<mapsto> ToolReturned n (fb_Token b) c ?r)\<rparr>)"
    using mailbox_step.poll [where sc = sc, OF _ _ poll] client s2(2) by (simp add: real_faults_def no_faults_def)
  then show ?thesis
    using s2(1,3) by (intro exI [of _ "?s3\<lparr>mb_clients := (mb_clients s2)(i \<mapsto> ToolReturned n (fb_Token b) c ?r)\<rparr>"] exI [of _ out]) auto
qed

text \<open>A client calls the capability of the invoker's scenario; the bridge processes the call and the client returns.\<close>

definition demo_bridge :: FileBridge where "demo_bridge = \<lparr>fb_Token = ''secret'', fb_size = (\<lambda>_. 1)\<rparr>"

definition demo_published :: "nat mailbox" where
  "demo_published = (StartFile demo_bridge 0)\<lparr>mb_requests := [''a.json'' \<mapsto> RequestMail \<lparr>fr_Token = ''secret'', fr_Call = demo_call\<rparr>],
     mb_names := [''a.json''], mb_clients := [0 \<mapsto> ToolWaiting ''a.json'' ''secret'' demo_call]\<rparr>"

definition demo_processed :: "nat mailbox" where
  "demo_processed = FileBridge_process demo_bridge demo_caps no_faults ''a.json'' (demo_published\<lparr>mb_entries := []\<rparr>)"

lemma demo_published_reach: "mailbox_reach demo_bridge demo_caps 0 demo_published"
proof (rule mailbox_reach.step [OF mailbox_reach.init])
  let ?s = "StartFile demo_bridge (0 :: nat)"
  have "CallFile_publish no_faults ''a.json'' ''secret'' demo_call ?s =
    (?s\<lparr>mb_requests := (mb_requests ?s)(''a.json'' \<mapsto> RequestMail \<lparr>fr_Token = ''secret'', fr_Call = demo_call\<rparr>)\<rparr>, None)"
    by (simp add: CallFile_publish_def no_faults_def)
  from mailbox_step.publish [where b = demo_bridge and sc = demo_caps and i = 0 and rid = "''a''", OF _ _ _ this]
  show "mailbox_step demo_bridge demo_caps ?s demo_published"
    by (simp add: demo_published_def StartFile_def)
qed

lemma demo_processed_reach: "mailbox_reach demo_bridge demo_caps 0 demo_processed"
proof -
  have set: "{n. mb_requests demo_published n \<noteq> None \<and> HasSuffix n ''.json''} = {''a.json''}"
    by (auto simp: demo_published_def StartFile_def HasSuffix_def HasPrefix_def)
  have "mailbox_step demo_bridge demo_caps demo_published (demo_published\<lparr>mb_entries := [''a.json'']\<rparr>)"
    by (rule mailbox_step.tick) (simp_all only: set, simp_all add: demo_published_def StartFile_def)
  then have "mailbox_reach demo_bridge demo_caps 0 (demo_published\<lparr>mb_entries := [''a.json'']\<rparr>)"
    using demo_published_reach by (rule mailbox_reach.step [rotated])
  moreover have "mailbox_step demo_bridge demo_caps (demo_published\<lparr>mb_entries := [''a.json'']\<rparr>) demo_processed"
    using mailbox_step.process [where b = demo_bridge and sc = demo_caps and name = "''a.json''" and rest = "[]" and faults = no_faults
        and s = "demo_published\<lparr>mb_entries := [''a.json'']\<rparr>"]
    by (simp add: demo_processed_def real_faults_def no_faults_def)
  ultimately show ?thesis by (rule mailbox_reach.step)
qed

lemma demo_invoked: "mb_invoked demo_processed = [(''a.json'', demo_call, Inr \<lparr>cres_CallID = ''call'', cres_Output = None\<rparr>)]"
  by (simp add: demo_processed_def FileBridge_process_def no_faults_def mail_read_def demo_published_def StartFile_def demo_bridge_def
      maxFileMessageBytes_def Call_def Call_begin_def Call_run_def Call_invoke_def demo_caps_def demo_call_def demo_grant_def call_request_def Let_def)


theorem mailbox_answers_witness:
  "\<exists>s' out. (mailbox_step demo_bridge demo_caps)\<^sup>*\<^sup>* demo_published s' \<and> (''a.json'', demo_call, out) \<in> set (mb_invoked s') \<and>
     mb_clients s' 0 \<noteq> Some (ToolWaiting ''a.json'' ''secret'' demo_call)"
proof -
  have "mb_clients demo_published 0 = Some (ToolWaiting ''a.json'' (fb_Token demo_bridge) demo_call)"
    "mb_requests demo_published ''a.json'' = Some (RequestMail \<lparr>fr_Token = fb_Token demo_bridge, fr_Call = demo_call\<rparr>)"
    by (simp_all add: demo_published_def demo_bridge_def)
  moreover have "fb_size demo_bridge m \<le> maxFileMessageBytes" for m by (simp add: demo_bridge_def maxFileMessageBytes_def)
  ultimately show ?thesis using mailbox_answers [OF demo_published_reach] by force
qed

section \<open>The HTTP bridge\<close>

text \<open>
  \<open>bridge.go\<close>: the handler of \<open>POST /v1/call\<close>. The body of a request is the call it decodes to within the
  size limit, or the error of the decoder. The answer is a status and a result or an error text.
\<close>

record bridge_request =
  br_Authorization :: string
  br_Body :: "CapabilityCall result"

datatype bridge_body = PlainError string | ErrorMember string | ResultBody CapabilityResult

definition Bridge_handle :: "string \<Rightarrow> 'e scopedCapabilities \<Rightarrow> bridge_request \<Rightarrow> (string \<Rightarrow> capabilityCallState option) \<Rightarrow> 'e
    \<Rightarrow> (string \<Rightarrow> capabilityCallState option) \<times> 'e \<times> nat \<times> bridge_body" where
  "Bridge_handle token sc r calls e =
    (if br_Authorization r \<noteq> ''Bearer '' @ token then (calls, e, 401, PlainError ''unauthorized'')
     else case br_Body r of
       Inl err \<Rightarrow> (calls, e, 400, PlainError (err_text err))
     | Inr call \<Rightarrow>
       (case Call sc call calls e of
          (calls, e, Inl err) \<Rightarrow> (calls, e, 400, ErrorMember (err_text err))
        | (calls, e, Inr result) \<Rightarrow> (calls, e, 200, ResultBody result)))"

text \<open>Only a request with the token of the run reaches the invoker, and its answer is the invoker's.\<close>

lemma Bridge_handle_guarded:
  assumes "Bridge_handle token sc r calls e = (calls', e', status, body)"
  shows "calls' \<noteq> calls \<or> e' \<noteq> e \<Longrightarrow> br_Authorization r = ''Bearer '' @ token"
    "status = 200 \<longleftrightarrow> (\<exists>result. body = ResultBody result)"
    "body = ResultBody result \<Longrightarrow> br_Authorization r = ''Bearer '' @ token \<and> (\<exists>call. br_Body r = Inr call \<and> Call sc call calls e = (calls', e', Inr result))"
  using assms by (auto simp: Bridge_handle_def split: if_splits sum.splits prod.splits)

end
