(* ===== verification/Runtime_Codex.thy ===== *)
theory Runtime_Codex
  imports Node_Worker
begin

text \<open>
  \<open>runtime/codex\<close> and \<open>runtime/trae\<close>: executors that run a command-line agent. A process is what it does
  (\<open>child\<close>): it prints lines, reads requests from its input, calls capabilities through the tool bridge,
  works on the files of the host, and ends. An executor turns it into the calls of an \<open>execution\<close>, which
  a worker or an engine runs.

  A line is its text and the JSON value it parses to, if any. The files of the host are a \<open>directory\<close>.
  \<open>runtime_sys\<close> holds what the executors use of the system and of \<open>encoding/json\<close>: the environment, the
  working directory, the temporary directory, the random token of the tool bridge, the JSON text of a string, the value that decoding
  into \<open>any\<close> and encoding again gives, and \<open>ctx.Err()\<close> of a context that is done. A process that waits
  for input that does not come is killed with the context of the execution; a write to a process that
  has ended shows as the end of its stream. Members of objects are found by their exact names, and the last of several
  with one name counts.
\<close>

section \<open>Configuration\<close>

record codex_Config =
  cf_Binary :: string
  cf_Protocol :: string
  cf_ToolDir :: string
  cf_PassEnv :: "string list"
  cf_Env :: "(string \<times> string) list"
  cf_Model :: string
  cf_Profile :: string
  cf_ReasoningEffort :: string
  cf_ServiceTier :: string
  cf_Sandbox :: string
  cf_AllowDangerousSandbox :: bool
  cf_WorkRoot :: string
  cf_WorkDir :: string
  cf_Ephemeral :: bool
  cf_RequireGitRepository :: bool
  cf_PermissionMode :: string
  cf_AllowedTools :: "string list"
  cf_DisallowedTools :: "string list"
  cf_ShellToolTimeout :: string
  cf_IgnoreUserConfig :: bool
  cf_IgnoreRules :: bool
  cf_ExtraArgs :: "string list"

record ForkOptions =
  fk_Name :: string
  fk_DefaultBinary :: string
  fk_InstructionProvider :: string
  fk_PassEnv :: "string list"

record runtime_sys =
  rs_Getenv :: "string \<Rightarrow> string option"
  rs_Getwd :: "string result"
  rs_TempDir :: string
  rs_LookPath :: "string \<Rightarrow> bool"
  rs_token :: string
  rs_jsonString :: "string \<Rightarrow> string"
  rs_any :: "json \<Rightarrow> goany"
  rs_ctxErr :: error

section \<open>The environment of the process\<close>

definition env_name :: "string \<Rightarrow> string" where
  "env_name entry = takeWhile (\<lambda>c. c \<noteq> CHR ''='') entry"

text \<open>\<open>strings.EqualFold\<close>, on names of ASCII characters.\<close>

definition EqualFold :: "string \<Rightarrow> string \<Rightarrow> bool" where
  "EqualFold a b \<longleftrightarrow> ToLower a = ToLower b"

fun setEnv :: "string list \<Rightarrow> string \<Rightarrow> string \<Rightarrow> string list" where
  "setEnv [] name v = [name @ ''='' @ v]"
| "setEnv (entry # environment) name v =
    (if CHR ''='' \<in> set entry \<and> EqualFold (env_name entry) name then (name @ ''='' @ v) # environment
     else entry # setEnv environment name v)"

definition runtime_allowed :: "string list" where
  "runtime_allowed = [''PATH'', ''HOME'', ''USER'', ''LOGNAME'', ''SHELL'', ''TMPDIR'', ''TMP'', ''TEMP'',
     ''LANG'', ''LC_ALL'', ''TERM'', ''COLORTERM'',
     ''CODEX_HOME'', ''OPENAI_API_KEY'', ''OPENAI_BASE_URL'', ''OPENAI_ORGANIZATION'', ''OPENAI_PROJECT'',
     ''HTTP_PROXY'', ''HTTPS_PROXY'', ''ALL_PROXY'', ''NO_PROXY'',
     ''SSL_CERT_FILE'', ''SSL_CERT_DIR'', ''NODE_EXTRA_CA_CERTS'',
     ''SystemRoot'', ''ComSpec'', ''PATHEXT'']"

fun inherited_env :: "(string \<Rightarrow> string option) \<Rightarrow> string list \<Rightarrow> string list \<Rightarrow> string list" where
  "inherited_env getenv [] seen = []"
| "inherited_env getenv (name # names) seen =
    (if name = [] \<or> name \<in> set seen then inherited_env getenv names seen
     else (case getenv name of Some v \<Rightarrow> [name @ ''='' @ v] | None \<Rightarrow> []) @ inherited_env getenv names (name # seen))"

definition tool_path :: "runtime_sys \<Rightarrow> codex_Config \<Rightarrow> string" where
  "tool_path sys config =
    (let toolDir = (if filepath_IsAbs (cf_ToolDir config) then filepath_Clean (cf_ToolDir config)
           else case rs_Getwd sys of Inl _ \<Rightarrow> cf_ToolDir config | Inr wd \<Rightarrow> filepath_Join [wd, cf_ToolDir config]);
         path = (case rs_Getenv sys ''PATH'' of None \<Rightarrow> [] | Some p \<Rightarrow> p)
     in toolDir @ '':'' @ path)"

text \<open>The iteration over the map \<open>config.Env\<close> is in the order of the list.\<close>

definition runtimeEnv :: "runtime_sys \<Rightarrow> codex_Config \<Rightarrow> string \<Rightarrow> string \<Rightarrow> string list \<Rightarrow> string list" where
  "runtimeEnv sys config bridgeDir toolToken forkEnv =
    (let allowed = runtime_allowed @ forkEnv @ cf_PassEnv config;
         environment = inherited_env (rs_Getenv sys) allowed [];
         environment = foldl (\<lambda>e (name, v). setEnv e name v) environment (cf_Env config);
         environment = (if cf_ToolDir config \<noteq> [] then setEnv environment ''PATH'' (tool_path sys config) else environment);
         environment = setEnv environment ''RELAY_TOOL_DIR'' bridgeDir
     in setEnv environment ''RELAY_TOOL_TOKEN'' toolToken)"

text \<open>
  The environment as the process sees it, a partial function on names. Names that differ in case only are one name to \<open>setEnv\<close>,
  so the environment has one entry per name if no two inherited names differ in case only.
\<close>

definition env_val :: "string \<Rightarrow> string" where
  "env_val entry = tl (dropWhile (\<lambda>c. c \<noteq> CHR ''='') entry)"

definition env_value :: "string list \<Rightarrow> string \<Rightarrow> string option" where
  "env_value environment name = map_option env_val (find (\<lambda>entry. EqualFold (env_name entry) name) environment)"

definition env_ok :: "string list \<Rightarrow> bool" where
  "env_ok environment \<longleftrightarrow> (\<forall>entry \<in> set environment. CHR ''='' \<in> set entry) \<and> distinct (map (ToLower \<circ> env_name) environment)"

lemma env_entry [simp]:
  "CHR ''='' \<notin> set name \<Longrightarrow> env_name (name @ CHR ''='' # v) = name"
  "CHR ''='' \<notin> set name \<Longrightarrow> env_val (name @ CHR ''='' # v) = v"
  by (auto simp: env_name_def env_val_def takeWhile_append dropWhile_append)

lemma env_ok_Cons: "env_ok (entry # environment) \<longleftrightarrow> CHR ''='' \<in> set entry \<and> ToLower (env_name entry) \<notin> (ToLower \<circ> env_name) ` set environment \<and> env_ok environment"
  by (auto simp: env_ok_def)

lemma setEnv_names: "CHR ''='' \<notin> set name \<Longrightarrow>
  (ToLower \<circ> env_name) ` set (setEnv environment name v) \<subseteq> insert (ToLower name) ((ToLower \<circ> env_name) ` set environment)"
  by (induction environment name v rule: setEnv.induct) (auto simp: EqualFold_def)

lemma setEnv_ok: "env_ok environment \<Longrightarrow> CHR ''='' \<notin> set name \<Longrightarrow> env_ok (setEnv environment name v)"
proof (induction environment name v rule: setEnv.induct)
  case (2 entry environment name v)
  then show ?case using setEnv_names [of name environment v] by (auto simp: env_ok_Cons EqualFold_def)
qed (simp add: env_ok_def)

lemma env_value_setEnv [simp]:
  "env_ok environment \<Longrightarrow> CHR ''='' \<notin> set name \<Longrightarrow>
    env_value (setEnv environment name v) n = (if EqualFold name n then Some v else env_value environment n)"
  by (induction environment name v rule: setEnv.induct) (auto simp: env_value_def EqualFold_def env_ok_Cons)

lemma foldl_setEnv:
  assumes "env_ok environment" "\<forall>(name, v) \<in> set vars. CHR ''='' \<notin> set name"
  shows "env_ok (foldl (\<lambda>e (name, v). setEnv e name v) environment vars)"
    "distinct (map (ToLower \<circ> fst) vars) \<Longrightarrow> env_value (foldl (\<lambda>e (name, v). setEnv e name v) environment vars) n =
      (case find (\<lambda>(name, v). EqualFold name n) vars of Some (_, v) \<Rightarrow> Some v | None \<Rightarrow> env_value environment n)"
  using assms
proof (induction vars arbitrary: environment)
  case (Cons var vars)
  obtain name v where var: "var = (name, v)" by (cases var)
  {
    case 1
    with Cons.IH(1) [of "setEnv environment name v"] var show ?case by (simp add: setEnv_ok)
  next
    case 2
    have "find (\<lambda>(name, v). EqualFold name n) vars = None" if "EqualFold name n"
      using that 2 var by (force simp: find_None_iff EqualFold_def)
    with 2 Cons.IH(2) [of "setEnv environment name v"] var show ?case by (auto simp: setEnv_ok split: option.splits)
  }
qed simp_all

lemma inherited_env_set:
  "entry \<in> set (inherited_env getenv names seen) \<Longrightarrow>
    \<exists>name v. entry = name @ ''='' @ v \<and> name \<in> set names \<and> name \<noteq> [] \<and> name \<notin> set seen \<and> getenv name = Some v"
  by (induction getenv names seen rule: inherited_env.induct) (fastforce split: if_splits option.splits)+

definition inherits :: "(string \<Rightarrow> string option) \<Rightarrow> string list \<Rightarrow> string \<Rightarrow> string \<Rightarrow> bool" where
  "inherits getenv seen n name \<longleftrightarrow> name \<noteq> [] \<and> name \<notin> set seen \<and> EqualFold name n \<and> getenv name \<noteq> None"

lemma env_value_simps [simp]:
  "env_value [] n = None"
  "env_value (entry # environment) n = (if EqualFold (env_name entry) n then Some (env_val entry) else env_value environment n)"
  by (simp_all add: env_value_def)

lemma env_value_inherited:
  assumes "\<forall>name \<in> set names. CHR ''='' \<notin> set name"
  shows "env_value (inherited_env getenv names seen) n =
    (case find (inherits getenv seen n) names of None \<Rightarrow> None | Some name \<Rightarrow> getenv name)"
  using assms
proof (induction getenv names seen rule: inherited_env.induct)
  case (2 getenv name names seen)
  show ?case
  proof (cases "name = [] \<or> name \<in> set seen")
    case True
    with 2 show ?thesis by (auto simp: inherits_def)
  next
    case False
    with 2 have IH: "env_value (inherited_env getenv names (name # seen)) n =
      (case find (inherits getenv (name # seen) n) names of None \<Rightarrow> None | Some name \<Rightarrow> getenv name)" by simp
    have skip: "find (inherits getenv (name # seen) n) names = find (inherits getenv seen n) names" if "\<not> inherits getenv seen n name"
      using that by (intro find_cong) (auto simp: inherits_def)
    show ?thesis
    proof (cases "inherits getenv seen n name")
      case True
      with 2(3) False show ?thesis by (auto simp: inherits_def)
    next
      case miss: False
      with False have "env_value (inherited_env getenv (name # names) seen) n = env_value (inherited_env getenv names (name # seen)) n"
        using 2(3) by (auto simp: inherits_def split: option.split)
      with IH skip [OF miss] miss show ?thesis by simp
    qed
  qed
qed simp

lemma inherited_env_ok:
  assumes "\<forall>name \<in> set names. CHR ''='' \<notin> set name"
    "\<And>a b. a \<in> set names \<Longrightarrow> b \<in> set names \<Longrightarrow> getenv a \<noteq> None \<Longrightarrow> getenv b \<noteq> None \<Longrightarrow> EqualFold a b \<Longrightarrow> a = b"
  shows "env_ok (inherited_env getenv names seen)"
  using assms
proof (induction getenv names seen rule: inherited_env.induct)
  case (2 getenv name names seen)
  show ?case
  proof (cases "name = [] \<or> name \<in> set seen \<or> getenv name = None")
    case True
    with 2 show ?thesis by auto
  next
    case False
    then obtain v where v: "getenv name = Some v" by auto
    from 2 False have "env_ok (inherited_env getenv names (name # seen))" by auto
    moreover have "ToLower name \<notin> (ToLower \<circ> env_name) ` set (inherited_env getenv names (name # seen))"
    proof
      assume "ToLower name \<in> (ToLower \<circ> env_name) ` set (inherited_env getenv names (name # seen))"
      then obtain b w where b: "b \<in> set names" "b \<noteq> name" "getenv b = Some w" "ToLower name = ToLower (env_name (b @ ''='' @ w))"
        by (fastforce dest: inherited_env_set)
      with 2(3) have "EqualFold name b" by (simp add: EqualFold_def)
      with 2(4) [of name b] b v show False by simp
    qed
    ultimately show ?thesis using False v 2(3) by (simp add: env_ok_Cons)
  qed
qed (simp add: env_ok_def)

text \<open>The environment a process is meant to have.\<close>

definition process_env :: "runtime_sys \<Rightarrow> codex_Config \<Rightarrow> string \<Rightarrow> string \<Rightarrow> string list \<Rightarrow> string \<Rightarrow> string option" where
  "process_env sys config bridgeDir toolToken forkEnv n =
    (if EqualFold ''RELAY_TOOL_TOKEN'' n then Some toolToken
     else if EqualFold ''RELAY_TOOL_DIR'' n then Some bridgeDir
     else if cf_ToolDir config \<noteq> [] \<and> EqualFold ''PATH'' n then Some (tool_path sys config)
     else case find (\<lambda>(name, v). EqualFold name n) (cf_Env config) of Some (_, v) \<Rightarrow> Some v
     | None \<Rightarrow> (case find (inherits (rs_Getenv sys) [] n) (runtime_allowed @ forkEnv @ cf_PassEnv config) of
         Some name \<Rightarrow> rs_Getenv sys name | None \<Rightarrow> None))"

text \<open>The names of a configuration: none has an equals sign, and none is given twice up to case.\<close>

definition names_ok :: "runtime_sys \<Rightarrow> codex_Config \<Rightarrow> string list \<Rightarrow> bool" where
  "names_ok sys config forkEnv \<longleftrightarrow>
    (\<forall>name \<in> set (runtime_allowed @ forkEnv @ cf_PassEnv config) \<union> fst ` set (cf_Env config). CHR ''='' \<notin> set name) \<and>
    (\<forall>a \<in> set (runtime_allowed @ forkEnv @ cf_PassEnv config). \<forall>b \<in> set (runtime_allowed @ forkEnv @ cf_PassEnv config).
       rs_Getenv sys a \<noteq> None \<longrightarrow> rs_Getenv sys b \<noteq> None \<longrightarrow> EqualFold a b \<longrightarrow> a = b) \<and>
    distinct (map (ToLower \<circ> fst) (cf_Env config))"

lemma runtimeEnv_correct:
  assumes "names_ok sys config forkEnv"
  shows "env_ok (runtimeEnv sys config bridgeDir toolToken forkEnv) \<and>
    (\<forall>n. env_value (runtimeEnv sys config bridgeDir toolToken forkEnv) n = process_env sys config bridgeDir toolToken forkEnv n)"
proof -
  let ?allowed = "runtime_allowed @ forkEnv @ cf_PassEnv config"
  let ?inherited = "inherited_env (rs_Getenv sys) ?allowed []"
  let ?vars = "foldl (\<lambda>e (name, v). setEnv e name v) ?inherited (cf_Env config)"
  define path where "path = (if cf_ToolDir config \<noteq> [] then setEnv ?vars ''PATH'' (tool_path sys config) else ?vars)"
  define dir where "dir = setEnv path ''RELAY_TOOL_DIR'' bridgeDir"
  have env: "runtimeEnv sys config bridgeDir toolToken forkEnv = setEnv dir ''RELAY_TOOL_TOKEN'' toolToken"
    by (simp add: runtimeEnv_def Let_def path_def dir_def)
  have inherited: "env_ok ?inherited"
    using assms unfolding names_ok_def by (intro inherited_env_ok) blast+
  have names: "\<forall>(name, v) \<in> set (cf_Env config). CHR ''='' \<notin> set name" "distinct (map (ToLower \<circ> fst) (cf_Env config))"
    "\<forall>name \<in> set ?allowed. CHR ''='' \<notin> set name"
    using assms by (force simp: names_ok_def)+
  note vars = foldl_setEnv(1) [OF inherited names(1)] foldl_setEnv(2) [OF inherited names(1) names(2)]
  have path: "env_ok path" using vars(1) by (simp add: path_def setEnv_ok)
  then have dir: "env_ok dir" by (simp add: dir_def setEnv_ok)
  have "env_value path n = (if cf_ToolDir config \<noteq> [] \<and> EqualFold ''PATH'' n then Some (tool_path sys config)
      else case find (\<lambda>(name, v). EqualFold name n) (cf_Env config) of Some (_, v) \<Rightarrow> Some v
      | None \<Rightarrow> (case find (inherits (rs_Getenv sys) [] n) ?allowed of Some name \<Rightarrow> rs_Getenv sys name | None \<Rightarrow> None))" for n
    using vars env_value_inherited [OF names(3), of "rs_Getenv sys" "[]" n] by (simp add: path_def split: option.split)
  then have "env_value dir n = (if EqualFold ''RELAY_TOOL_DIR'' n then Some bridgeDir
      else if cf_ToolDir config \<noteq> [] \<and> EqualFold ''PATH'' n then Some (tool_path sys config)
      else case find (\<lambda>(name, v). EqualFold name n) (cf_Env config) of Some (_, v) \<Rightarrow> Some v
      | None \<Rightarrow> (case find (inherits (rs_Getenv sys) [] n) ?allowed of Some name \<Rightarrow> rs_Getenv sys name | None \<Rightarrow> None))" for n
    using path by (simp add: dir_def)
  then show ?thesis
    using dir unfolding env process_env_def by (simp add: setEnv_ok)
qed

text \<open>With a tool directory, a configured search path is lost: the directory is put before the search path of the node.\<close>

lemma configured_path_lost:
  assumes "names_ok sys config forkEnv" "cf_ToolDir config \<noteq> []" "(''PATH'', v) \<in> set (cf_Env config)"
  shows "env_value (runtimeEnv sys config bridgeDir toolToken forkEnv) ''PATH'' = Some (tool_path sys config)"
proof -
  have "EqualFold ''RELAY_TOOL_TOKEN'' ''PATH'' = False" "EqualFold ''RELAY_TOOL_DIR'' ''PATH'' = False" by code_simp+
  then show ?thesis using runtimeEnv_correct [OF assms(1)] assms(2) by (simp add: process_env_def EqualFold_def)
qed

definition demo_sys :: runtime_sys where
  "demo_sys = \<lparr>rs_Getenv = [''PATH'' \<mapsto> ''/bin'', ''SECRET'' \<mapsto> ''x''], rs_Getwd = Inr ''/n'', rs_TempDir = ''/tmp'', rs_LookPath = (\<lambda>_. False),
     rs_token = ''t'', rs_jsonString = (\<lambda>s. s), rs_any = GoVal, rs_ctxErr = errors_New ''context canceled''\<rparr>"

definition demo_codex :: codex_Config where
  "demo_codex = \<lparr>cf_Binary = [], cf_Protocol = ''app-server'', cf_ToolDir = [], cf_PassEnv = [], cf_Env = [(''Mode'', ''ci'')], cf_Model = [],
     cf_Profile = [], cf_ReasoningEffort = [], cf_ServiceTier = [], cf_Sandbox = [], cf_AllowDangerousSandbox = False, cf_WorkRoot = [],
     cf_WorkDir = ''w'', cf_Ephemeral = False, cf_RequireGitRepository = False, cf_PermissionMode = [], cf_AllowedTools = [],
     cf_DisallowedTools = [], cf_ShellToolTimeout = [], cf_IgnoreUserConfig = False, cf_IgnoreRules = False, cf_ExtraArgs = []\<rparr>"

lemma demo_getenv: "rs_Getenv demo_sys a \<noteq> None \<Longrightarrow> a \<in> set runtime_allowed \<Longrightarrow> a = ''PATH''"
  by (auto simp: demo_sys_def runtime_allowed_def split: if_splits)

lemma demo_names: "names_ok demo_sys demo_codex []"
proof -
  have names: "cf_PassEnv demo_codex = []" "cf_Env demo_codex = [(''Mode'', ''ci'')]" by (simp_all add: demo_codex_def)
  have "\<forall>name \<in> set runtime_allowed. CHR ''='' \<notin> set name" by (simp add: runtime_allowed_def)
  moreover have "\<forall>a \<in> set runtime_allowed. \<forall>b \<in> set runtime_allowed. rs_Getenv demo_sys a \<noteq> None \<longrightarrow> rs_Getenv demo_sys b \<noteq> None \<longrightarrow> EqualFold a b \<longrightarrow> a = b"
    by (intro ballI impI) (drule (1) demo_getenv, drule (1) demo_getenv, simp)
  ultimately show ?thesis unfolding names_ok_def names by (simp only: append_Nil append_Nil2) simp
qed



section \<open>The command line\<close>

definition codex_sandbox :: "codex_Config \<Rightarrow> ForkOptions \<Rightarrow> string result" where
  "codex_sandbox config fork =
    (let sandbox = (if cf_Sandbox config = [] then ''workspace-write'' else cf_Sandbox config)
     in if sandbox \<noteq> ''read-only'' \<and> sandbox \<noteq> ''workspace-write'' \<and> sandbox \<noteq> ''danger-full-access''
        then Inl (errors_New (''relay '' @ fk_Name fork @ '': unsupported sandbox '' @ quot @ sandbox @ quot))
        else if sandbox = ''danger-full-access'' \<and> \<not> cf_AllowDangerousSandbox config
        then Inl (errors_New (''relay '' @ fk_Name fork @ '': danger-full-access requires explicit AllowDangerousSandbox''))
        else Inr sandbox)"

definition opt_arg :: "string \<Rightarrow> string \<Rightarrow> string list" where
  "opt_arg flag v = (if v \<noteq> [] then [flag, v] else [])"

definition codex_args :: "runtime_sys \<Rightarrow> codex_Config \<Rightarrow> string \<Rightarrow> string \<Rightarrow> string \<Rightarrow> string list" where
  "codex_args sys config sandbox workDir finalPath =
    [''exec'', ''--json'', ''--color'', ''never'', ''--sandbox'', sandbox, ''--cd'', workDir, ''--output-last-message'', finalPath]
    @ (if \<not> cf_RequireGitRepository config then [''--skip-git-repo-check''] else [])
    @ (if cf_Ephemeral config then [''--ephemeral''] else [])
    @ opt_arg ''--model'' (cf_Model config) @ opt_arg ''--profile'' (cf_Profile config)
    @ (if cf_ReasoningEffort config \<noteq> [] then [''--config'', ''model_reasoning_effort='' @ rs_jsonString sys (cf_ReasoningEffort config)] else [])
    @ (if cf_ServiceTier config \<noteq> [] then [''--config'', ''service_tier='' @ rs_jsonString sys (cf_ServiceTier config)] else [])
    @ opt_arg ''--permission-mode'' (cf_PermissionMode config)
    @ concat (map (\<lambda>tool. [''--allowed-tool'', tool]) (cf_AllowedTools config))
    @ concat (map (\<lambda>tool. [''--disallowed-tool'', tool]) (cf_DisallowedTools config))
    @ opt_arg ''--shell-tool-timeout'' (cf_ShellToolTimeout config)
    @ (if cf_IgnoreUserConfig config then [''--ignore-user-config''] else [])
    @ (if cf_IgnoreRules config then [''--ignore-rules''] else [])
    @ cf_ExtraArgs config @ [''-'']"

definition truncate_text :: "string \<Rightarrow> nat \<Rightarrow> string" where
  "truncate_text v limit = (if length v \<le> limit then v else take limit v @ [CHR 0xE2, CHR 0x80, CHR 0xA6])"

definition limitedBuffer_Write :: "string \<Rightarrow> string \<times> nat \<Rightarrow> (string \<times> nat) \<times> error option" where
  "limitedBuffer_Write v b = (case b of (buffer, remaining) \<Rightarrow>
     if length v > remaining then (b, Some (errors_New ''relay codex: stderr limit exceeded''))
     else ((buffer @ v, remaining - length v), None))"

section \<open>Processes\<close>

record output_line =
  ln_text :: string
  ln_json :: "json option"
  ln_stderr :: string

text \<open>\<open>ln_stderr\<close> is what the stderr buffer holds when the line is read.\<close>

text \<open>\<open>Ends scanErr waitErr stderr\<close>: the error of the scanner, of \<open>Wait\<close>, and what is in the stderr buffer.\<close>

datatype child =
    Prints output_line child
  | Reads "json \<Rightarrow> child"
  | Uses CapabilityCall "CapabilityResult result \<Rightarrow> child"
  | Acts "directory \<Rightarrow> directory \<times> child"
  | Ends "error option" "error option" string

text \<open>What an executor does with a line: events, requests to the process, and either it goes on or it is done.\<close>

datatype 's reaction =
    Continue "(string \<times> goany) list" "json list" 's
  | Stop "(string \<times> goany) list" "directory execution"

definition emit_all :: "(string \<times> goany) list \<Rightarrow> directory execution \<Rightarrow> directory execution" where
  "emit_all events p = foldr (\<lambda>(eventType, data). Emits eventType data) events p"

definition max_duration :: duration where
  "max_duration = 2 ^ 63 - 1"

primrec run_child :: "child \<Rightarrow> ('s \<Rightarrow> output_line \<Rightarrow> 's reaction) \<Rightarrow> ('s \<Rightarrow> error option \<Rightarrow> error option \<Rightarrow> string \<Rightarrow> directory execution)
    \<Rightarrow> 's \<Rightarrow> json list \<Rightarrow> directory execution" where
  "run_child (Prints line p) react finish s q =
    (case react s line of
       Continue events writes s \<Rightarrow> emit_all events (run_child p react finish s (q @ writes))
     | Stop events r \<Rightarrow> emit_all events r)"
| "run_child (Reads f) react finish s q =
    (case q of [] \<Rightarrow> Waits max_duration (\<lambda>_. finish s None (Some (errors_New ''signal: killed'')) []) | j # q \<Rightarrow> run_child (f j) react finish s q)"
| "run_child (Uses c p) react finish s q = Calls c (\<lambda>r. run_child (p r) react finish s q)"
| "run_child (Acts f) react finish s q = Works (\<lambda>d. map_prod id (\<lambda>p. run_child p react finish s q) (f d))"
| "run_child (Ends scanErr waitErr stderr) react finish s q = finish s scanErr waitErr stderr"

section \<open>Starting a process\<close>

record process_spec =
  ps_Binary :: string
  ps_Args :: "string list"
  ps_Dir :: string
  ps_Stdin :: string
  ps_Env :: "string list"

definition zero_Result :: Result where
  "zero_Result = \<lparr>res_Summary = [], res_Output = None, res_Artifacts = []\<rparr>"

definition fails :: "error \<Rightarrow> directory execution" where
  "fails e = Returns zero_Result (Some e)"

definition codex_workDir :: "runtime_sys \<Rightarrow> codex_Config \<Rightarrow> Execution \<Rightarrow> string" where
  "codex_workDir sys config ex =
    (if ex_WorkDir ex \<noteq> [] then ex_WorkDir ex
     else if cf_WorkDir config \<noteq> [] then cf_WorkDir config
     else let root = (if cf_WorkRoot config = [] then filepath_Join [rs_TempDir sys, ''relay-runs''] else cf_WorkRoot config)
          in filepath_Join [root, ex_RunID ex])"

text \<open>\<open>StartFile\<close> creates two directories.\<close>

definition start_bridge :: "directory \<Rightarrow> directory \<times> error option" where
  "start_bridge d = (case os_call d of (d, Some e) \<Rightarrow> (d, Some e) | (d, None) \<Rightarrow> os_call d)"

text \<open>What both protocols do first: the work directory, the instructions, the result directory and the tool bridge.\<close>

definition codex_prepare :: "string \<Rightarrow> Execution \<Rightarrow> ForkOptions \<Rightarrow> (string \<Rightarrow> directory execution) \<Rightarrow> directory execution" where
  "codex_prepare workDir ex fork k =
    Works (\<lambda>d. case os_call d of (d, Some e) \<Rightarrow> (d, fails e)
      | (d, None) \<Rightarrow>
        (case MaterializeInstructions workDir (fk_InstructionProvider fork) (ex_Instructions ex) d of (d, Inl e) \<Rightarrow> (d, fails e)
         | (d, Inr instructionPath) \<Rightarrow>
           (case os_call d of (d, Some e) \<Rightarrow> (d, fails e)
            | (d, None) \<Rightarrow>
              (case start_bridge d of (d, Some e) \<Rightarrow> (d, fails (GoError (err_is e) (''relay '' @ fk_Name fork @ '': start tool bridge: '' @ err_text e)))
               | (d, None) \<Rightarrow> (d, k instructionPath)))))"

definition filepath_Base :: "string \<Rightarrow> string" where
  "filepath_Base p =
    (if p = [] then ''.''
     else let q = dropWhile (\<lambda>c. c = CHR ''/'') (rev p)
          in if q = [] then ''/'' else rev (takeWhile (\<lambda>c. c \<noteq> CHR ''/'') q))"

definition codex_result :: "ForkOptions \<Rightarrow> string \<Rightarrow> string \<Rightarrow> string \<Rightarrow> string \<Rightarrow> string \<Rightarrow> string \<Rightarrow> Result" where
  "codex_result fork instructionPath finalPath workDir threadID message summary =
    (let artifact = (\<lambda>kind path. \<lparr>art_ID = [], art_RunID = [], art_Type = kind, art_Ref = path, art_Name = filepath_Base path,
           art_ContentType = [], art_Size = 0, art_SHA256 = []\<rparr>)
     in \<lparr>res_Summary = summary,
         res_Output = Some (str_obj [(''message'', message), (''thread_id'', threadID), (''work_dir'', workDir)]),
         res_Artifacts = [artifact ''instruction_file'' instructionPath, artifact (fk_Name fork @ ''_final_message'') finalPath]\<rparr>)"

definition result_dir :: "string \<Rightarrow> string" where "result_dir workDir = filepath_Join [workDir, ''.relay'']"
definition final_path :: "ForkOptions \<Rightarrow> string \<Rightarrow> string" where
  "final_path fork workDir = filepath_Join [result_dir workDir, fk_Name fork @ ''-last-message.txt'']"
definition bridge_dir :: "string \<Rightarrow> string" where "bridge_dir workDir = filepath_Join [result_dir workDir, ''tool-bridge'']"

definition event_of :: "ForkOptions \<Rightarrow> string \<Rightarrow> string" where
  "event_of fork t = ''runtime.'' @ fk_Name fork @ ''.'' @ t"

section \<open>The exec protocol\<close>

definition json_member :: "string \<Rightarrow> json \<Rightarrow> json option" where
  "json_member k j = (case j of JObj kvs \<Rightarrow> map_of (rev kvs) k | _ \<Rightarrow> None)"

definition str_member :: "string \<Rightarrow> json \<Rightarrow> string" where
  "str_member k j = (case json_member k j of Some (JStr s) \<Rightarrow> s | _ \<Rightarrow> [])"

definition exec_react :: "runtime_sys \<Rightarrow> ForkOptions \<Rightarrow> string \<Rightarrow> output_line \<Rightarrow> string reaction" where
  "exec_react sys fork threadID line =
    (let unparsed = Continue [(event_of fork ''unparsed'', GoVal (str_obj [(''line'', truncate_text (ln_text line) 4096)]))] [] threadID
     in case ln_json line of
          None \<Rightarrow> unparsed
        | Some j \<Rightarrow>
          if \<not> (case j of JObj _ \<Rightarrow> True | JNull \<Rightarrow> True | _ \<Rightarrow> False) then unparsed
          else let threadID = (if str_member ''thread_id'' j \<noteq> [] then str_member ''thread_id'' j else threadID);
                     eventType = (if str_member ''type'' j = [] then ''event'' else str_member ''type'' j);
                     text = (case json_member ''item'' j of
                         Some (JObj kvs) \<Rightarrow> if json_member ''type'' (JObj kvs) = Some (JStr ''agent_message'') then str_member ''text'' (JObj kvs) else []
                       | _ \<Rightarrow> [])
                 in Continue ((event_of fork eventType, rs_any sys j) #
                      (if text \<noteq> [] then [(''assistant.message.completed'', GoVal (str_obj [(''text'', text)]))] else [])) [] threadID)"

text \<open>After the stream: the final message is read from the file the process was told to write.\<close>

definition exec_finish :: "ForkOptions \<Rightarrow> string \<Rightarrow> string \<Rightarrow> string \<Rightarrow> error option \<Rightarrow> error option \<Rightarrow> string \<Rightarrow> directory execution" where
  "exec_finish fork instructionPath workDir threadID scanErr waitErr stderr =
    (case scanErr of Some e \<Rightarrow> fails (GoError (err_is e) (''relay '' @ fk_Name fork @ '': read JSONL: '' @ err_text e))
     | None \<Rightarrow>
       (case waitErr of Some e \<Rightarrow> fails (GoError (err_is e) (''relay '' @ fk_Name fork @ '': process failed: '' @ err_text e @ '': '' @ truncate_text stderr 8192))
        | None \<Rightarrow>
          Works (\<lambda>d. (d, case os_ReadFile (final_path fork workDir) d of
             Inl e \<Rightarrow> fails (GoError (err_is e) (''relay '' @ fk_Name fork @ '': read final message: '' @ err_text e))
           | Inr message \<Rightarrow>
             Emits (event_of fork ''completed'') (GoVal (str_obj [(''thread_id'', threadID)]))
               (Returns (codex_result fork instructionPath (final_path fork workDir) workDir threadID message (TrimSpace message)) None)))))"

definition fork_defaults :: "ForkOptions \<Rightarrow> ForkOptions" where
  "fork_defaults fork =
    (let fork = (if fk_Name fork = [] then fork\<lparr>fk_Name := ''codex''\<rparr> else fork);
         fork = (if fk_DefaultBinary fork = [] then fork\<lparr>fk_DefaultBinary := fk_Name fork\<rparr> else fork)
     in if fk_InstructionProvider fork = [] then fork\<lparr>fk_InstructionProvider := ''codex''\<rparr> else fork)"

definition codex_binary :: "codex_Config \<Rightarrow> ForkOptions \<Rightarrow> string" where
  "codex_binary config fork = (if cf_Binary config = [] then fk_DefaultBinary fork else cf_Binary config)"

definition execute_exec :: "runtime_sys \<Rightarrow> (process_spec \<Rightarrow> directory \<Rightarrow> directory \<times> child result) \<Rightarrow> codex_Config \<Rightarrow> Execution \<Rightarrow> ForkOptions
    \<Rightarrow> directory execution" where
  "execute_exec sys spawn config ex fork =
    (case codex_sandbox config fork of Inl e \<Rightarrow> fails e
     | Inr sandbox \<Rightarrow>
       let workDir = codex_workDir sys config ex
       in codex_prepare workDir ex fork (\<lambda>instructionPath.
            Emits (event_of fork ''started'') (GoVal (str_obj [(''binary'', codex_binary config fork), (''sandbox'', sandbox), (''work_dir'', workDir)]))
              (Works (\<lambda>d.
                case spawn \<lparr>ps_Binary = codex_binary config fork, ps_Args = codex_args sys config sandbox workDir (final_path fork workDir),
                    ps_Dir = workDir, ps_Stdin = ci_Prompt (ex_Instructions ex),
                    ps_Env = runtimeEnv sys config (bridge_dir workDir) (rs_token sys) (fk_PassEnv fork)\<rparr> d of
                  (d, Inl e) \<Rightarrow> (d, fails (GoError (err_is e) (''relay '' @ fk_Name fork @ '': start: '' @ err_text e)))
                | (d, Inr p) \<Rightarrow> (d, run_child p (exec_react sys fork) (exec_finish fork instructionPath workDir) [] [])))))"

section \<open>The app-server protocol\<close>

text \<open>A message; \<open>rpc_Error\<close> is the message of its error.\<close>

record rpcMessage =
  rpc_ID :: int
  rpc_Method :: string
  rpc_Params :: "json option"
  rpc_Result :: "json option"
  rpc_Error :: "string option"

definition decode_int :: "json option \<Rightarrow> int option" where
  "decode_int v = (case v of None \<Rightarrow> Some 0 | Some JNull \<Rightarrow> Some 0
     | Some (JNum n) \<Rightarrow> (case Atoi n of (i, ok) \<Rightarrow> if ok then Some i else None) | _ \<Rightarrow> None)"

definition decode_str :: "json option \<Rightarrow> string option" where
  "decode_str v = (case v of None \<Rightarrow> Some [] | Some JNull \<Rightarrow> Some [] | Some (JStr s) \<Rightarrow> Some s | _ \<Rightarrow> None)"

definition decode_error :: "json option \<Rightarrow> string option option" where
  "decode_error v = (case v of None \<Rightarrow> Some None | Some JNull \<Rightarrow> Some None
     | Some (JObj kvs) \<Rightarrow> (case (decode_int (json_member ''code'' (JObj kvs)), decode_str (json_member ''message'' (JObj kvs))) of
         (Some _, Some m) \<Rightarrow> Some (Some m) | _ \<Rightarrow> None)
     | _ \<Rightarrow> None)"

text \<open>\<open>json.Unmarshal\<close> of a line into an \<open>rpcMessage\<close>; \<open>None\<close> is an error.\<close>

definition decode_rpc :: "output_line \<Rightarrow> rpcMessage option" where
  "decode_rpc line =
    (case ln_json line of None \<Rightarrow> None
     | Some JNull \<Rightarrow> Some \<lparr>rpc_ID = 0, rpc_Method = [], rpc_Params = None, rpc_Result = None, rpc_Error = None\<rparr>
     | Some (JObj kvs) \<Rightarrow>
       (case (decode_int (json_member ''id'' (JObj kvs)), decode_str (json_member ''method'' (JObj kvs)), decode_error (json_member ''error'' (JObj kvs))) of
          (Some i, Some m, Some e) \<Rightarrow> Some \<lparr>rpc_ID = i, rpc_Method = m, rpc_Params = json_member ''params'' (JObj kvs),
             rpc_Result = json_member ''result'' (JObj kvs), rpc_Error = e\<rparr>
        | _ \<Rightarrow> None)
     | _ \<Rightarrow> None)"

definition appServerError :: "string \<Rightarrow> error \<Rightarrow> string \<Rightarrow> error" where
  "appServerError provider err stderr =
    (let detail = TrimSpace stderr
     in if detail \<noteq> [] then GoError (err_is err) (''relay '' @ provider @ '': '' @ err_text err @ '': '' @ truncate_text detail 8192)
        else GoError (err_is err) (''relay '' @ provider @ '': '' @ err_text err))"

definition emitAppServerEvent :: "runtime_sys \<Rightarrow> ForkOptions \<Rightarrow> rpcMessage \<Rightarrow> (string \<times> goany) list" where
  "emitAppServerEvent sys fork message =
    (if rpc_Method message = [] then []
     else [(event_of fork (map (\<lambda>c. if c = CHR ''/'' then CHR ''.'' else c) (rpc_Method message)),
            case rpc_Params message of None \<Rightarrow> GoNil | Some j \<Rightarrow> rs_any sys j)])"

text \<open>A member of a struct that is itself a struct; one that does not fit is empty.\<close>

definition sub_member :: "string \<Rightarrow> json option \<Rightarrow> json option" where
  "sub_member k v = (case v of None \<Rightarrow> None | Some j \<Rightarrow> json_member k j)"

definition text_of :: "string \<Rightarrow> json option \<Rightarrow> string" where
  "text_of k v = (case v of None \<Rightarrow> [] | Some j \<Rightarrow> str_member k j)"

definition completedAgentMessage :: "json option \<Rightarrow> string" where
  "completedAgentMessage data =
    (let item = sub_member ''item'' data in if text_of ''type'' item = ''agentMessage'' then text_of ''text'' item else [])"

text \<open>\<open>waitRPCResponse\<close>: what a line is to one that waits for the answer to the request \<open>id\<close>.\<close>

datatype rpc_answer = Skipped | Notified rpcMessage | Answered "json option result"

definition waitRPCResponse :: "int \<Rightarrow> output_line \<Rightarrow> rpc_answer" where
  "waitRPCResponse i line =
    (case decode_rpc line of None \<Rightarrow> Skipped
     | Some message \<Rightarrow>
       if rpc_ID message \<noteq> i then Notified message
       else case rpc_Error message of Some e \<Rightarrow> Answered (Inl (errors_New e)) | None \<Rightarrow> Answered (Inr (rpc_Result message)))"

definition stream_closed :: "error option \<Rightarrow> error" where
  "stream_closed scanErr = (case scanErr of Some e \<Rightarrow> e | None \<Rightarrow> errors_New ''app-server closed the event stream'')"

text \<open>What the executor waits for: the answers to \<open>initialize\<close> and \<open>thread/start\<close>, and then the end of the turn.\<close>

datatype app_phase = AwaitInitialize | AwaitThread | InTurn (turn_thread: string) (turn_message: string) (turn_started: bool)

definition rpc_request :: "int \<Rightarrow> string \<Rightarrow> json \<Rightarrow> json" where
  "rpc_request i method params = JObj [(''id'', JNum (Itoa i)), (''method'', JStr method), (''params'', params)]"

definition initialize_request :: json where
  "initialize_request = rpc_request 1 ''initialize''
     (JObj [(''capabilities'', JObj [(''experimentalApi'', JBool True)]), (''clientInfo'', str_obj [(''name'', ''relay''), (''version'', ''0.1'')])])"

definition initialized_notice :: json where
  "initialized_notice = JObj [(''method'', JStr ''initialized''), (''params'', JObj [])]"

definition thread_request :: "codex_Config \<Rightarrow> string \<Rightarrow> string \<Rightarrow> json" where
  "thread_request config workDir sandbox = rpc_request 2 ''thread/start''
     (JObj ([(''approvalPolicy'', JStr ''never''), (''cwd'', JStr workDir), (''ephemeral'', JBool (cf_Ephemeral config))]
       @ omit_str ''model'' (cf_Model config) @ [(''sandbox'', JStr sandbox)] @ omit_str ''serviceTier'' (cf_ServiceTier config)))"

definition turn_request :: "string \<Rightarrow> string \<Rightarrow> json" where
  "turn_request threadID prompt = rpc_request 3 ''turn/start''
     (JObj [(''input'', JArr [str_obj [(''text'', prompt), (''type'', ''text'')]]), (''threadId'', JStr threadID)])"

text \<open>The end of a completed turn: the final message is stored, announced and returned, unless the context is done.\<close>

definition app_complete :: "runtime_sys \<Rightarrow> ForkOptions \<Rightarrow> string \<Rightarrow> string \<Rightarrow> string \<Rightarrow> string \<Rightarrow> directory execution" where
  "app_complete sys fork instructionPath workDir threadID message =
    (let finalMessage = TrimSpace message; finalPath = final_path fork workDir;
         result = codex_result fork instructionPath finalPath workDir threadID finalMessage finalMessage
     in Works (\<lambda>d. case os_WriteFile finalPath finalMessage d of
          (d, Some e) \<Rightarrow> (d, fails e)
        | (d, None) \<Rightarrow> (d, Emits (event_of fork ''completed'') (GoVal (str_obj [(''thread_id'', threadID)]))
            (Waits 0 (\<lambda>alive. Returns result (if alive then None else Some (rs_ctxErr sys)))))))"

definition ended_without_message :: "ForkOptions \<Rightarrow> string \<Rightarrow> directory execution" where
  "ended_without_message fork stderr = fails (appServerError (fk_Name fork) (errors_New ''app-server ended without a final message'') stderr)"

text \<open>A line of the turn: the events, and the message as it is after the line.\<close>

definition turn_text :: "rpcMessage \<Rightarrow> string \<Rightarrow> (string \<times> goany) list \<times> string" where
  "turn_text rpc message =
    (let delta = text_of ''delta'' (rpc_Params rpc); text = completedAgentMessage (rpc_Params rpc)
     in if rpc_Method rpc = ''item/agentMessage/delta'' then
          ((if delta \<noteq> [] then [(''assistant.message.delta'', GoVal (str_obj [(''delta'', delta)]))] else []), message @ delta)
        else if rpc_Method rpc = ''item/completed'' \<and> message = [] \<and> text \<noteq> [] then
          ([(''assistant.message.completed'', GoVal (str_obj [(''text'', text)]))], text)
        else ([], message))"

definition turn_cause :: "json option \<Rightarrow> string" where
  "turn_cause turn =
    (let detail = text_of ''message'' (sub_member ''error'' turn)
     in if detail \<noteq> [] then detail else ''turn '' @ text_of ''status'' turn)"

definition turn_react :: "runtime_sys \<Rightarrow> ForkOptions \<Rightarrow> string \<Rightarrow> string \<Rightarrow> string \<Rightarrow> string \<Rightarrow> bool \<Rightarrow> output_line \<Rightarrow> app_phase reaction" where
  "turn_react sys fork instructionPath workDir threadID message turnStarted line =
    (case decode_rpc line of None \<Rightarrow> Continue [] [] (InTurn threadID message turnStarted)
     | Some rpc \<Rightarrow>
       if rpc_ID rpc = 3 then
         (case rpc_Error rpc of Some e \<Rightarrow> Stop [] (fails (errors_New e)) | None \<Rightarrow> Continue [] [] (InTurn threadID message True))
       else let (assistant, message) = turn_text rpc message; events = emitAppServerEvent sys fork rpc @ assistant;
                turn = sub_member ''turn'' (rpc_Params rpc)
            in if rpc_Method rpc = ''turn/completed'' then
                 Stop events
                   (if text_of ''status'' turn \<noteq> ''completed'' then fails (errors_New (turn_cause turn))
                    else if \<not> turnStarted \<or> message = [] then ended_without_message fork (ln_stderr line)
                    else app_complete sys fork instructionPath workDir threadID message)
               else Continue events [] (InTurn threadID message turnStarted))"

definition app_react :: "runtime_sys \<Rightarrow> codex_Config \<Rightarrow> Execution \<Rightarrow> ForkOptions \<Rightarrow> string \<Rightarrow> string \<Rightarrow> string \<Rightarrow> app_phase \<Rightarrow> output_line \<Rightarrow> app_phase reaction" where
  "app_react sys config ex fork sandbox instructionPath workDir phase line =
    (case phase of
       AwaitInitialize \<Rightarrow>
         (case waitRPCResponse 1 line of
            Answered (Inl e) \<Rightarrow> Stop [] (fails (appServerError (fk_Name fork) e (ln_stderr line)))
          | Answered (Inr _) \<Rightarrow> Continue [] [initialized_notice, thread_request config workDir sandbox] AwaitThread
          | _ \<Rightarrow> Continue [] [] AwaitInitialize)
     | AwaitThread \<Rightarrow>
         (case waitRPCResponse 2 line of
            Skipped \<Rightarrow> Continue [] [] AwaitThread
          | Notified message \<Rightarrow> Continue (emitAppServerEvent sys fork message) [] AwaitThread
          | Answered (Inl e) \<Rightarrow> Stop [] (fails (appServerError (fk_Name fork) e (ln_stderr line)))
          | Answered (Inr response) \<Rightarrow>
            let threadID = text_of ''id'' (sub_member ''thread'' response)
            in if threadID = [] then Stop [] (fails (errors_New (''relay '' @ fk_Name fork @ '': invalid thread/start response'')))
               else Continue [] [turn_request threadID (ci_Prompt (ex_Instructions ex))] (InTurn threadID [] False))
     | InTurn threadID message turnStarted \<Rightarrow> turn_react sys fork instructionPath workDir threadID message turnStarted line)"

definition app_finish :: "ForkOptions \<Rightarrow> app_phase \<Rightarrow> error option \<Rightarrow> error option \<Rightarrow> string \<Rightarrow> directory execution" where
  "app_finish fork phase scanErr waitErr stderr =
    (case phase of
       InTurn threadID message turnStarted \<Rightarrow>
         (case scanErr of Some e \<Rightarrow> fails (GoError (err_is e) (''relay '' @ fk_Name fork @ '': read app-server stream: '' @ err_text e))
          | None \<Rightarrow> if turnStarted
              then fails (appServerError (fk_Name fork) (errors_New ''app-server ended before turn/completed'') stderr)
              else ended_without_message fork stderr)
     | _ \<Rightarrow> fails (appServerError (fk_Name fork) (stream_closed scanErr) stderr))"

definition executeAppServer :: "runtime_sys \<Rightarrow> (process_spec \<Rightarrow> directory \<Rightarrow> directory \<times> child result) \<Rightarrow> codex_Config \<Rightarrow> Execution \<Rightarrow> ForkOptions
    \<Rightarrow> directory execution" where
  "executeAppServer sys spawn config ex fork =
    (case codex_sandbox config fork of Inl e \<Rightarrow> fails e
     | Inr sandbox \<Rightarrow>
       let workDir = codex_workDir sys config ex
       in codex_prepare workDir ex fork (\<lambda>instructionPath.
            Emits (event_of fork ''started'') (GoVal (str_obj [(''binary'', codex_binary config fork), (''protocol'', ''app-server''), (''sandbox'', sandbox), (''work_dir'', workDir)]))
              (Works (\<lambda>d.
                case spawn \<lparr>ps_Binary = codex_binary config fork, ps_Args = [''app-server''], ps_Dir = workDir, ps_Stdin = [],
                    ps_Env = runtimeEnv sys config (bridge_dir workDir) (rs_token sys) (fk_PassEnv fork)\<rparr> d of
                  (d, Inl e) \<Rightarrow> (d, fails (GoError (err_is e) (''relay '' @ fk_Name fork @ '': start app-server: '' @ err_text e)))
                | (d, Inr p) \<Rightarrow> (d, run_child p (app_react sys config ex fork sandbox instructionPath workDir) (app_finish fork) AwaitInitialize [initialize_request])))))"

section \<open>The executors\<close>

definition ExecuteFork :: "runtime_sys \<Rightarrow> (process_spec \<Rightarrow> directory \<Rightarrow> directory \<times> child result) \<Rightarrow> codex_Config \<Rightarrow> ForkOptions \<Rightarrow> Execution
    \<Rightarrow> directory execution" where
  "ExecuteFork sys spawn config fork ex =
    (let config = (if rr_Model (ex_Runtime ex) \<noteq> [] then config\<lparr>cf_Model := rr_Model (ex_Runtime ex)\<rparr> else config);
         fork = fork_defaults fork
     in if cf_Protocol config = ''app-server'' then executeAppServer sys spawn config ex fork
        else if cf_Protocol config \<noteq> [] \<and> cf_Protocol config \<noteq> ''exec''
        then fails (errors_New (''relay '' @ fk_Name fork @ '': unsupported protocol '' @ quot @ cf_Protocol config @ quot))
        else execute_exec sys spawn config ex fork)"

definition codex_Execute :: "runtime_sys \<Rightarrow> (process_spec \<Rightarrow> directory \<Rightarrow> directory \<times> child result) \<Rightarrow> codex_Config \<Rightarrow> Execution \<Rightarrow> directory execution" where
  "codex_Execute sys spawn config =
    ExecuteFork sys spawn config \<lparr>fk_Name = ''codex'', fk_DefaultBinary = ''codex'', fk_InstructionProvider = ''codex'', fk_PassEnv = []\<rparr>"

definition ResolveBinary :: "runtime_sys \<Rightarrow> string \<Rightarrow> string" where
  "ResolveBinary sys binary = (if binary \<noteq> [] then binary else if rs_LookPath sys ''traex'' then ''traex'' else ''trae-cli'')"

definition trae_Execute :: "runtime_sys \<Rightarrow> (process_spec \<Rightarrow> directory \<Rightarrow> directory \<times> child result) \<Rightarrow> codex_Config \<Rightarrow> Execution \<Rightarrow> directory execution" where
  "trae_Execute sys spawn config ex =
    (let config = (if cf_PermissionMode config = ''default'' then config\<lparr>cf_PermissionMode := []\<rparr> else config)
     in if cf_PermissionMode config \<noteq> [] \<and> cf_PermissionMode config \<noteq> ''bypass_permissions'' \<and> cf_PermissionMode config \<noteq> ''custom''
        then fails (errors_New (''relay trae: unsupported headless permission mode '' @ quot @ cf_PermissionMode config @ quot))
        else let config = (if cf_Binary config = [] then config\<lparr>cf_Binary := ResolveBinary sys []\<rparr> else config)
             in ExecuteFork sys spawn config \<lparr>fk_Name = ''trae'', fk_DefaultBinary = ''traex'', fk_InstructionProvider = ''trae'',
                  fk_PassEnv = [''TRAE_HOME'', ''TRAE_API_KEY'', ''TRAE_BASE_URL'']\<rparr> ex)"

section \<open>The result of an execution\<close>

text \<open>\<open>produces p events r err\<close>: the execution \<open>p\<close> can emit \<open>events\<close> and return \<open>r\<close> and \<open>err\<close>, whatever it is answered.\<close>

inductive produces :: "'h execution \<Rightarrow> (string \<times> goany) list \<Rightarrow> Result \<Rightarrow> error option \<Rightarrow> bool" where
  returns: "produces (Returns r err) [] r err"
| emits: "produces p events r err \<Longrightarrow> produces (Emits eventType data p) ((eventType, data) # events) r err"
| calls: "produces (p answer) events r err \<Longrightarrow> produces (Calls c p) events r err"
| asks: "produces (p reply) events r err \<Longrightarrow> produces (Asks request p) events r err"
| waits: "produces (p fired) events r err \<Longrightarrow> produces (Waits delay p) events r err"
| works: "produces (snd (f h)) events r err \<Longrightarrow> produces (Works f) events r err"

inductive_simps produces_simps [simp]:
  "produces (Returns r' err') events r err"
  "produces (Emits eventType data p) events r err"
  "produces (Calls c k) events r err"
  "produces (Asks request k) events r err"
  "produces (Waits delay k) events r err"
  "produces (Works f) events r err"

lemma produces_fails [simp]: "\<not> produces (fails e) events r None"
  by (simp add: fails_def)

lemma produces_emit_all [simp]:
  "produces (emit_all pre p) events r err \<longleftrightarrow> (\<exists>rest. events = pre @ rest \<and> produces p rest r err)"
  by (induction pre arbitrary: events) (auto simp: emit_all_def)

text \<open>The text of the assistant in a sequence of events.\<close>

fun assistant_piece :: "string \<times> goany \<Rightarrow> string" where
  "assistant_piece (eventType, GoVal j) =
    (if eventType = ''assistant.message.delta'' then str_member ''delta'' j
     else if eventType = ''assistant.message.completed'' then str_member ''text'' j else [])"
| "assistant_piece (eventType, _) = []"

definition assistant_text :: "(string \<times> goany) list \<Rightarrow> string" where
  "assistant_text events = concat (map assistant_piece events)"

lemma assistant_text_simps [simp]:
  "assistant_text [] = []"
  "assistant_text (e # events) = assistant_piece e @ assistant_text events"
  "assistant_text (xs @ ys) = assistant_text xs @ assistant_text ys"
  by (simp_all add: assistant_text_def)

lemma str_member_single [simp]: "str_member k (str_obj [(k, v)]) = v"
  by (simp add: str_member_def json_member_def str_obj_def)

lemma runtime_piece [simp]: "assistant_piece (event_of fork t, data) = []"
  by (cases data) (simp_all add: event_of_def)

lemma emitAppServerEvent_text [simp]: "assistant_text (emitAppServerEvent sys fork rpc) = []"
  by (simp add: emitAppServerEvent_def)

lemma turn_text_pieces: "turn_text rpc message = (events, message') \<Longrightarrow> message' = message @ assistant_text events"
  by (auto simp: turn_text_def Let_def split: if_splits)

definition completion :: "ForkOptions \<Rightarrow> string \<Rightarrow> string \<times> goany" where
  "completion fork threadID = (event_of fork ''completed'', GoVal (str_obj [(''thread_id'', threadID)]))"

lemma completion_piece [simp]: "assistant_piece (completion fork threadID) = []"
  by (simp only: completion_def runtime_piece)

lemma produces_Works: "produces (Works f) events r err \<Longrightarrow> (\<And>h. produces (snd (f h)) events r err \<Longrightarrow> P) \<Longrightarrow> P"
  by auto

lemma app_complete_produces:
  "produces (app_complete sys fork instructionPath workDir threadID message) events r None \<Longrightarrow>
    events = [completion fork threadID] \<and>
    r = codex_result fork instructionPath (final_path fork workDir) workDir threadID (TrimSpace message) (TrimSpace message)"
  unfolding app_complete_def Let_def completion_def
  by (elim produces_Works) (auto split: prod.split_asm option.split_asm if_split_asm)

definition phase_text :: "app_phase \<Rightarrow> string" where
  "phase_text phase = (case phase of InTurn _ message _ \<Rightarrow> message | _ \<Rightarrow> [])"

lemma phase_text_simps [simp]:
  "phase_text AwaitInitialize = []" "phase_text AwaitThread = []" "phase_text (InTurn t m s) = m"
  by (simp_all add: phase_text_def)

lemma app_react_Continue:
  assumes "app_react sys config ex fork sandbox instructionPath workDir phase line = Continue events writes phase'"
  shows "phase_text phase' = phase_text phase @ assistant_text events"
  using assms by (cases phase) (auto simp: app_react_def turn_react_def Let_def dest: turn_text_pieces
    split: rpc_answer.splits sum.splits option.splits if_splits prod.splits)

lemma app_react_Stop:
  assumes "app_react sys config ex fork sandbox instructionPath workDir phase line = Stop events p"
    "produces p rest r None"
  shows "\<exists>threadID. p = app_complete sys fork instructionPath workDir threadID (phase_text phase @ assistant_text events) \<and>
    phase_text phase @ assistant_text events \<noteq> []"
  using assms by (cases phase) (auto simp: app_react_def turn_react_def Let_def ended_without_message_def dest!: turn_text_pieces
    split: rpc_answer.splits sum.splits option.splits if_splits prod.splits)

lemma app_finish_fails [simp]: "\<not> produces (app_finish fork phase scanErr waitErr stderr) events r None"
  by (simp add: app_finish_def ended_without_message_def split: app_phase.splits option.splits)

text \<open>What holds of every run of a process with its executor holds if it holds of the end and is kept by the reaction to a line.\<close>

lemma run_child_induct:
  assumes "produces (run_child p react finish s q) events r err"
    and "\<And>s scanErr waitErr stderr events. produces (finish s scanErr waitErr stderr) events r err \<Longrightarrow> P s events"
    and "\<And>s line out writes s' rest. react s line = Continue out writes s' \<Longrightarrow> P s' rest \<Longrightarrow> P s (out @ rest)"
    and "\<And>s line out k rest. react s line = Stop out k \<Longrightarrow> produces k rest r err \<Longrightarrow> P s (out @ rest)"
  shows "P s events"
  using assms(1)
proof (induction p arbitrary: s q events)
  case (Prints line p)
  then show ?case by (cases "react s line") (auto intro: assms(3, 4))
next
  case (Reads f)
  show ?case
  proof (cases q)
    case Nil
    with Reads.prems show ?thesis by (auto intro: assms(2))
  next
    case (Cons j js)
    with Reads.prems Reads.IH [of "f j" s js events] show ?thesis by simp
  qed
next
  case (Uses c k)
  from Uses.prems obtain answer where "produces (run_child (k answer) react finish s q) events r err" by auto
  with Uses.IH [of "k answer"] show ?case by simp
next
  case (Acts f)
  from Acts.prems obtain d where "produces (run_child (snd (f d)) react finish s q) events r err" by auto
  with Acts.IH [of "f d" "snd (f d)"] show ?case by (simp add: snds.intros)
next
  case (Ends scanErr waitErr stderr)
  then show ?case by (auto intro: assms(2))
qed

definition app_outcome :: "ForkOptions \<Rightarrow> string \<Rightarrow> string \<Rightarrow> Result \<Rightarrow> app_phase \<Rightarrow> (string \<times> goany) list \<Rightarrow> bool" where
  "app_outcome fork instructionPath workDir r phase events \<longleftrightarrow>
    (\<exists>threadID pre message. events = pre @ [completion fork threadID] \<and> message = phase_text phase @ assistant_text events \<and> message \<noteq> [] \<and>
      r = codex_result fork instructionPath (final_path fork workDir) workDir threadID (TrimSpace message) (TrimSpace message))"

lemma run_app_produces:
  assumes "produces (run_child p (app_react sys config ex fork sandbox instructionPath workDir) (app_finish fork) phase q) events r None"
  shows "app_outcome fork instructionPath workDir r phase events"
  using assms
proof (rule run_child_induct)
  fix phase line out writes phase' rest
  assume "app_react sys config ex fork sandbox instructionPath workDir phase line = Continue out writes phase'"
    "app_outcome fork instructionPath workDir r phase' rest"
  then show "app_outcome fork instructionPath workDir r phase (out @ rest)"
    by (auto simp: app_outcome_def dest!: app_react_Continue)
next
  fix phase line out k rest
  assume stop: "app_react sys config ex fork sandbox instructionPath workDir phase line = Stop out k" and k: "produces k rest r None"
  then obtain threadID where "k = app_complete sys fork instructionPath workDir threadID (phase_text phase @ assistant_text out)"
      "phase_text phase @ assistant_text out \<noteq> []"
    using app_react_Stop by blast
  with app_complete_produces k show "app_outcome fork instructionPath workDir r phase (out @ rest)"
    by (fastforce simp: app_outcome_def)
qed simp

definition exec_outcome :: "ForkOptions \<Rightarrow> string \<Rightarrow> string \<Rightarrow> Result \<Rightarrow> (string \<times> goany) list \<Rightarrow> bool" where
  "exec_outcome fork instructionPath workDir r events \<longleftrightarrow>
    (\<exists>threadID pre message d. events = pre @ [completion fork threadID] \<and> os_ReadFile (final_path fork workDir) d = Inr message \<and>
      r = codex_result fork instructionPath (final_path fork workDir) workDir threadID message (TrimSpace message))"

lemma exec_finish_produces:
  "produces (exec_finish fork instructionPath workDir threadID scanErr waitErr stderr) events r None \<Longrightarrow>
    exec_outcome fork instructionPath workDir r events"
  unfolding exec_finish_def exec_outcome_def completion_def
  by (cases scanErr; cases waitErr; simp; elim exE; auto split: sum.split_asm)

lemma run_exec_produces:
  assumes "produces (run_child p (exec_react sys fork) (exec_finish fork instructionPath workDir) threadID q) events r None"
  shows "exec_outcome fork instructionPath workDir r events"
  using assms
proof (rule run_child_induct [where P = "\<lambda>_. exec_outcome fork instructionPath workDir r"])
  fix threadID line out k rest
  assume "exec_react sys fork threadID line = Stop out k"
  then show "exec_outcome fork instructionPath workDir r (out @ rest)"
    by (auto simp: exec_react_def Let_def split: option.splits if_splits)
next
  fix threadID line out writes threadID' rest
  assume "exec_outcome fork instructionPath workDir r rest"
  then obtain threadID pre message d where "rest = pre @ [completion fork threadID]" "os_ReadFile (final_path fork workDir) d = Inr message"
    "r = codex_result fork instructionPath (final_path fork workDir) workDir threadID message (TrimSpace message)"
    unfolding exec_outcome_def by blast
  moreover from this have "out @ rest = (out @ pre) @ [completion fork threadID]" by simp
  ultimately show "exec_outcome fork instructionPath workDir r (out @ rest)" unfolding exec_outcome_def by blast
qed (rule exec_finish_produces)

lemma codex_prepare_produces:
  "produces (codex_prepare workDir ex fork k) events r None \<Longrightarrow>
    \<exists>d d' instructionPath. MaterializeInstructions workDir (fk_InstructionProvider fork) (ex_Instructions ex) d = (d', Inr instructionPath) \<and>
      produces (k instructionPath) events r None"
  unfolding codex_prepare_def by (elim produces_Works) (auto split: prod.split_asm option.split_asm sum.split_asm)

lemma spawn_produces:
  assumes "produces (Works (\<lambda>d. case spawn spec d of (d, Inl e) \<Rightarrow> (d, fails (g e)) | (d, Inr p) \<Rightarrow> (d, k p))) events r None"
  obtains p where "produces (k p) events r None"
  using assms by (elim produces_Works) (auto split: prod.split_asm sum.split_asm)

text \<open>What a successful execution returns and emits.\<close>

definition fork_outcome :: "codex_Config \<Rightarrow> ForkOptions \<Rightarrow> string \<Rightarrow> Execution \<Rightarrow> Result \<Rightarrow> (string \<times> goany) list \<Rightarrow> bool" where
  "fork_outcome config fork workDir ex r events \<longleftrightarrow>
    (\<exists>d d' instructionPath threadID pre message summary.
      MaterializeInstructions workDir (fk_InstructionProvider fork) (ex_Instructions ex) d = (d', Inr instructionPath) \<and>
      events = pre @ [completion fork threadID] \<and>
      r = codex_result fork instructionPath (final_path fork workDir) workDir threadID message summary \<and>
      (if cf_Protocol config = ''app-server''
       then message = summary \<and> summary = TrimSpace (assistant_text events) \<and> assistant_text events \<noteq> []
       else summary = TrimSpace message \<and> (\<exists>d. os_ReadFile (final_path fork workDir) d = Inr message)))"

lemma fork_outcomeI:
  assumes "MaterializeInstructions workDir (fk_InstructionProvider fork) (ex_Instructions ex) d = (d', Inr instructionPath)"
    "events = pre @ [completion fork threadID]"
    "r = codex_result fork instructionPath (final_path fork workDir) workDir threadID message summary"
    "if cf_Protocol config = ''app-server''
     then message = summary \<and> summary = TrimSpace (assistant_text events) \<and> assistant_text events \<noteq> []
     else summary = TrimSpace message \<and> (\<exists>d. os_ReadFile (final_path fork workDir) d = Inr message)"
  shows "fork_outcome config fork workDir ex r events"
  using assms unfolding fork_outcome_def by blast

lemma fork_outcome_app:
  assumes "MaterializeInstructions workDir (fk_InstructionProvider fork) (ex_Instructions ex) d = (d', Inr ip)"
    "app_outcome fork ip workDir r AwaitInitialize rest" "cf_Protocol config = ''app-server''"
  shows "fork_outcome config fork workDir ex r ((event_of fork t, start) # rest)"
proof -
  from assms(2) obtain threadID pre where "rest = pre @ [completion fork threadID]" "assistant_text rest \<noteq> []"
    "r = codex_result fork ip (final_path fork workDir) workDir threadID (TrimSpace (assistant_text rest)) (TrimSpace (assistant_text rest))"
    by (auto simp: app_outcome_def)
  with assms(1,3) show ?thesis
    by (intro fork_outcomeI [where pre = "(event_of fork t, start) # pre" and threadID = threadID]) auto
qed

lemma fork_outcome_exec:
  assumes "MaterializeInstructions workDir (fk_InstructionProvider fork) (ex_Instructions ex) d = (d', Inr ip)"
    "exec_outcome fork ip workDir r rest" "cf_Protocol config \<noteq> ''app-server''"
  shows "fork_outcome config fork workDir ex r ((event_of fork t, start) # rest)"
proof -
  from assms(2) obtain threadID pre message h where "rest = pre @ [completion fork threadID]" "os_ReadFile (final_path fork workDir) h = Inr message"
    "r = codex_result fork ip (final_path fork workDir) workDir threadID message (TrimSpace message)"
    by (auto simp: exec_outcome_def)
  with assms(1,3) show ?thesis
    by (intro fork_outcomeI [where pre = "(event_of fork t, start) # pre" and threadID = threadID]) auto
qed


text \<open>A run of an execution on a host, with every wait over and every call refused.\<close>

primrec run_on :: "'h execution \<Rightarrow> 'h \<Rightarrow> (string \<times> goany) list \<times> Result \<times> error option" where
  "run_on (Returns r err) h = ([], r, err)"
| "run_on (Emits eventType data p) h = (case run_on p h of (events, out) \<Rightarrow> ((eventType, data) # events, out))"
| "run_on (Calls c k) h = run_on (k (Inl ErrCapabilityProviderMissing)) h"
| "run_on (Asks request k) h = run_on (k (Inl ErrCapabilityProviderMissing)) h"
| "run_on (Waits delay k) h = run_on (k True) h"
| "run_on (Works f) h = (case map_prod id run_on (f h) of (h, run) \<Rightarrow> run h)"

lemma run_on_produces: "run_on p h = (events, r, err) \<Longrightarrow> produces p events r err"
proof (induction p arbitrary: h events)
  case (Works f)
  from Works.IH [of "f h" "snd (f h)" "fst (f h)"] Works.prems show ?case
    by (auto simp: snds.intros case_prod_beta intro: produces.works)
next
  case (Calls c k)
  then show ?case by (auto intro!: produces.calls [where answer = "Inl ErrCapabilityProviderMissing"] simp del: produces_simps)
next
  case (Asks request k)
  then show ?case by (auto intro!: produces.asks [where reply = "Inl ErrCapabilityProviderMissing"] simp del: produces_simps)
next
  case (Waits delay k)
  then show ?case by (auto intro!: produces.waits [where fired = True] simp del: produces_simps)
qed (auto split: prod.splits)

definition demo_line :: "(string \<times> json) list \<Rightarrow> output_line" where
  "demo_line kvs = \<lparr>ln_text = [], ln_json = Some (JObj kvs), ln_stderr = []\<rparr>"

definition demo_child :: child where
  "demo_child = Reads (\<lambda>_. Prints (demo_line [(''id'', JNum ''1''), (''result'', JObj [])]) (Reads (\<lambda>_. Reads (\<lambda>_.
     Prints (demo_line [(''id'', JNum ''2''), (''result'', JObj [(''thread'', JObj [(''id'', JStr ''th'')])])]) (Reads (\<lambda>_.
     Prints (demo_line [(''id'', JNum ''3'')])
     (Prints (demo_line [(''method'', JStr ''item/agentMessage/delta''), (''params'', JObj [(''delta'', JStr ''he'')])])
     (Prints (demo_line [(''method'', JStr ''item/agentMessage/delta''), (''params'', JObj [(''delta'', JStr ''llo '')])])
     (Prints (demo_line [(''method'', JStr ''turn/completed''), (''params'', JObj [(''turn'', JObj [(''status'', JStr ''completed'')])])])
     (Ends None None []))))))))))"

definition demo_execution :: Execution where
  "demo_execution = \<lparr>ex_RunID = ''r'', ex_AttemptID = ''a'', ex_AgentID = ''g'', ex_Runtime = rq_Runtime zero_Request, ex_Source = rq_Source zero_Request,
     ex_Input = rq_Input zero_Request, ex_Context = [], ex_Instructions = demo_compiled ''be brief'', ex_WorkDir = []\<rparr>"

definition demo_fork :: ForkOptions where
  "demo_fork = \<lparr>fk_Name = ''codex'', fk_DefaultBinary = ''codex'', fk_InstructionProvider = ''codex'', fk_PassEnv = []\<rparr>"

definition demo_answer :: "directory execution" where
  "demo_answer = ExecuteFork demo_sys (\<lambda>_ d. (d, Inr demo_child)) demo_codex demo_fork demo_execution"

lemma demo_run:
  "case run_on demo_answer demo_dir of (events, r, err) \<Rightarrow> res_Summary r = ''hello'' \<and> err = None"
  by code_simp


end
