(* ===== verification/Node_Setup.thy ===== *)
theory Node_Setup
  imports Runtime_Codex Bindings
begin

text \<open>
  \<open>cmd/relay-node/main.go\<close>: what a node makes of its configuration (bindings, executors, and the runtimes it advertises), with the probes of \<open>runtime/codex\<close> and
  \<open>runtime/trae\<close> for versions and models. Flags, signals and logging are left out.

  \<open>node_sys\<close> adds to \<open>runtime_sys\<close> what \<open>binary --version\<close> prints and how it ends, the error of a failed \<open>LookPath\<close>, and the app server of a process: its answer to the last
  of the requests written so far.
\<close>

section \<open>Versions\<close>

text \<open>\<open>semanticVersionPattern\<close> at the start of a text: digits are taken greedily, and no shorter choice can match where the longest does not.\<close>

definition version_char :: "char \<Rightarrow> bool" where
  "version_char c \<longleftrightarrow> is_digit c \<or> (CHR ''A'' \<le> c \<and> c \<le> CHR ''Z'') \<or> (CHR ''a'' \<le> c \<and> c \<le> CHR ''z'') \<or> c = CHR ''.'' \<or> c = CHR ''-''"

definition version_number :: "string \<Rightarrow> (string \<times> string) option" where
  "version_number s = (if takeWhile is_digit s = [] then None else Some (takeWhile is_digit s, dropWhile is_digit s))"

definition version_dotted :: "string \<Rightarrow> (string \<times> string) option" where
  "version_dotted s = (case version_number s of Some (d, CHR ''.'' # r) \<Rightarrow> Some (d @ ''.'', r) | _ \<Rightarrow> None)"

definition version_suffix :: "string \<Rightarrow> string" where
  "version_suffix s = (case s of c # r \<Rightarrow> if (c = CHR ''-'' \<or> c = CHR ''+'') \<and> takeWhile version_char r \<noteq> [] then c # takeWhile version_char r else [] | [] \<Rightarrow> [])"

definition version_at :: "string \<Rightarrow> string option" where
  "version_at s =
    (case version_dotted s of None \<Rightarrow> None
     | Some (a, r) \<Rightarrow> (case version_dotted r of None \<Rightarrow> None
         | Some (b, r) \<Rightarrow> (case version_number r of None \<Rightarrow> None
             | Some (c, r) \<Rightarrow> Some (a @ b @ c @ version_suffix r))))"

fun version_find :: "string \<Rightarrow> string" where
  "version_find [] = []"
| "version_find (c # s) = (case version_at (c # s) of Some v \<Rightarrow> v | None \<Rightarrow> version_find s)"

definition ParseVersionOutput :: "string \<Rightarrow> string" where
  "ParseVersionOutput output = (let value = version_find output in if value \<noteq> [] then value else TrimSpace output)"

record ModelInfo =
  mi_ID :: string
  mi_DisplayName :: string
  mi_Description :: string
  mi_Default :: bool

datatype app_reply = WriteFailed error | Reply "json option result" string

record node_sys = runtime_sys +
  ns_version :: "string \<Rightarrow> string \<times> error option"
  ns_lookErr :: "string \<Rightarrow> error"
  ns_appServer :: "process_spec \<Rightarrow> (json list \<Rightarrow> app_reply) result"

definition runtime_of :: "node_sys \<Rightarrow> runtime_sys" where
  "runtime_of sys = runtime_sys.truncate sys"

definition codex_ProbeVersion :: "node_sys \<Rightarrow> string \<Rightarrow> string result" where
  "codex_ProbeVersion sys binary =
    (case ns_version sys (if binary = [] then ''codex'' else binary) of
       (output, Some err) \<Rightarrow> Inl (GoError (err_is err) (''relay codex: probe version: '' @ err_text err @ '': '' @ output))
     | (output, None) \<Rightarrow> Inr (ParseVersionOutput output))"

definition trae_ProbeVersion :: "node_sys \<Rightarrow> string \<Rightarrow> string result" where
  "trae_ProbeVersion sys binary =
    (case ns_version sys (ResolveBinary (runtime_of sys) binary) of
       (output, Some err) \<Rightarrow> Inl (GoError (err_is err) (''relay trae: probe version: '' @ err_text err @ '': '' @ output))
     | (output, None) \<Rightarrow> Inr (ParseVersionOutput output))"

section \<open>Models\<close>

definition decode_bool :: "json option \<Rightarrow> bool option" where
  "decode_bool v = (case v of None \<Rightarrow> Some False | Some JNull \<Rightarrow> Some False | Some (JBool b) \<Rightarrow> Some b | _ \<Rightarrow> None)"

text \<open>An entry of the catalog: the model and whether it is hidden; the identifier is \<open>model\<close>, or \<open>id\<close> without one.\<close>

definition decode_model :: "json \<Rightarrow> (ModelInfo \<times> bool) option" where
  "decode_model j =
    (case j of JNull \<Rightarrow> Some (\<lparr>mi_ID = [], mi_DisplayName = [], mi_Description = [], mi_Default = False\<rparr>, False)
     | JObj kvs \<Rightarrow>
       (case (decode_str (json_member ''id'' j), decode_str (json_member ''model'' j), decode_str (json_member ''displayName'' j),
              decode_str (json_member ''description'' j), decode_bool (json_member ''hidden'' j), decode_bool (json_member ''isDefault'' j)) of
          (Some i, Some m, Some n, Some t, Some h, Some d) \<Rightarrow>
            Some (\<lparr>mi_ID = (if m = [] then i else m), mi_DisplayName = n, mi_Description = t, mi_Default = d\<rparr>, h)
        | _ \<Rightarrow> None)
     | _ \<Rightarrow> None)"

fun decode_models :: "json list \<Rightarrow> (ModelInfo \<times> bool) list option" where
  "decode_models [] = Some []"
| "decode_models (j # js) = (case (decode_model j, decode_models js) of (Some m, Some ms) \<Rightarrow> Some (m # ms) | _ \<Rightarrow> None)"

text \<open>The page and the cursor of the next one, \<open>[]\<close> if there is none.\<close>

definition decode_page :: "json option \<Rightarrow> ((ModelInfo \<times> bool) list \<times> string) option" where
  "decode_page data =
    (case data of Some JNull \<Rightarrow> Some ([], [])
     | Some (JObj kvs) \<Rightarrow>
       (case (case json_member ''data'' (JObj kvs) of None \<Rightarrow> Some [] | Some JNull \<Rightarrow> Some [] | Some (JArr js) \<Rightarrow> decode_models js | _ \<Rightarrow> None,
              decode_str (json_member ''nextCursor'' (JObj kvs))) of
          (Some ms, Some cursor) \<Rightarrow> Some (ms, cursor) | _ \<Rightarrow> None)
     | _ \<Rightarrow> None)"

definition visible :: "(ModelInfo \<times> bool) list \<Rightarrow> ModelInfo list" where
  "visible page = map fst (filter (\<lambda>(m, hidden). mi_ID m \<noteq> [] \<and> \<not> hidden) page)"

definition probe_initialize :: json where
  "probe_initialize = rpc_request 1 ''initialize''
     (JObj [(''capabilities'', JObj [(''experimentalApi'', JBool True)]), (''clientInfo'', str_obj [(''name'', ''relay-model-probe''), (''version'', ''0.1'')])])"

definition page_request :: "int \<Rightarrow> string \<Rightarrow> json" where
  "page_request i cursor = rpc_request i ''model/list'' (JObj (omit_str ''cursor'' cursor @ [(''includeHidden'', JBool False), (''limit'', JNum ''100'')]))"

definition invalid_catalog :: error where
  "invalid_catalog = errors_New ''json: cannot unmarshal model catalog''"

text \<open>The pages that are left, the number of the next request, the cursor, and the requests written so far. The requests are returned with the result.\<close>

fun model_pages :: "ForkOptions \<Rightarrow> (json list \<Rightarrow> app_reply) \<Rightarrow> nat \<Rightarrow> int \<Rightarrow> string \<Rightarrow> json list \<Rightarrow> ModelInfo list \<Rightarrow> json list \<times> ModelInfo list result" where
  "model_pages fork server 0 i cursor sent models = (sent, Inr models)"
| "model_pages fork server (Suc n) i cursor sent models =
    (let sent = sent @ [page_request i cursor] in
     case server sent of
       WriteFailed err \<Rightarrow> (sent, Inl err)
     | Reply (Inl err) stderr \<Rightarrow> (sent, Inl (appServerError (fk_Name fork) err stderr))
     | Reply (Inr data) stderr \<Rightarrow>
       (case decode_page data of
          None \<Rightarrow> (sent, Inl (GoError [] (''relay '' @ fk_Name fork @ '': decode model catalog: '' @ err_text invalid_catalog)))
        | Some (page, next) \<Rightarrow>
          if next = [] then (sent, Inr (models @ visible page))
          else model_pages fork server n (i + 1) next sent (models @ visible page)))"

definition ProbeModels :: "node_sys \<Rightarrow> codex_Config \<Rightarrow> ForkOptions \<Rightarrow> json list \<times> ModelInfo list result" where
  "ProbeModels sys config fork =
    (let binary = (if cf_Binary config \<noteq> [] then cf_Binary config else if fk_DefaultBinary fork \<noteq> [] then fk_DefaultBinary fork else ''codex'');
         spec = \<lparr>ps_Binary = binary, ps_Args = [''app-server''], ps_Dir = [], ps_Stdin = [], ps_Env = runtimeEnv (runtime_of sys) config [] [] (fk_PassEnv fork)\<rparr>
     in case ns_appServer sys spec of
          Inl err \<Rightarrow> ([], Inl (GoError (err_is err) (''relay '' @ fk_Name fork @ '': start model discovery: '' @ err_text err)))
        | Inr server \<Rightarrow>
          (case server [probe_initialize] of
             WriteFailed err \<Rightarrow> ([probe_initialize], Inl err)
           | Reply (Inl err) stderr \<Rightarrow> ([probe_initialize], Inl (appServerError (fk_Name fork) err stderr))
           | Reply (Inr _) _ \<Rightarrow>
             (case server [probe_initialize, initialized_notice] of
                WriteFailed err \<Rightarrow> ([probe_initialize, initialized_notice], Inl err)
              | Reply _ _ \<Rightarrow>
                (case model_pages fork server 10 2 [] [probe_initialize, initialized_notice] [] of
                   (sent, Inl err) \<Rightarrow> (sent, Inl err)
                 | (sent, Inr models) \<Rightarrow>
                   (sent, if models = [] then Inl (errors_New (''relay '' @ fk_Name fork @ '': model discovery returned no visible models'')) else Inr models)))))"

definition trae_ProbeModels :: "node_sys \<Rightarrow> codex_Config \<Rightarrow> json list \<times> ModelInfo list result" where
  "trae_ProbeModels sys config =
    ProbeModels sys (if cf_Binary config = [] then config\<lparr>cf_Binary := ResolveBinary (runtime_of sys) []\<rparr> else config)
      \<lparr>fk_Name = ''trae'', fk_DefaultBinary = ''traex'', fk_InstructionProvider = [], fk_PassEnv = [''TRAE_HOME'', ''TRAE_API_KEY'', ''TRAE_BASE_URL'']\<rparr>"

section \<open>Runtimes\<close>

record runtimeConfig =
  rtc_ID :: string
  rtc_Kind :: string
  rtc_Provider :: string
  rtc_Protocol :: string
  rtc_Version :: string
  rtc_Command :: string
  rtc_ToolDir :: string
  rtc_PassEnv :: "string list"
  rtc_Args :: "string list"
  rtc_Env :: "(string \<times> string) list"
  rtc_InheritEnv :: bool
  rtc_Model :: string
  rtc_Models :: "string list"
  rtc_Profile :: string
  rtc_ReasoningEffort :: string
  rtc_ServiceTier :: string
  rtc_Sandbox :: string
  rtc_WorkRoot :: string
  rtc_Ephemeral :: bool
  rtc_PermissionMode :: string
  rtc_AllowedTools :: "string list"
  rtc_DisallowedTools :: "string list"
  rtc_ShellToolTimeout :: string
  rtc_IgnoreUserConfig :: bool
  rtc_IgnoreRules :: bool
  rtc_DetectedModels :: "RuntimeModel list"
  rtc_DetectedDefault :: string

definition isTrae :: "runtimeConfig \<Rightarrow> bool" where
  "isTrae item \<longleftrightarrow> rtc_Kind item = ''trae'' \<or> rtc_Kind item = ''traex'' \<or> rtc_Kind item = ''trae-cli'' \<or>
     rtc_Kind item = [] \<and> (rtc_Provider item = ''trae'' \<or> rtc_Provider item = ''traex'')"

definition isCodex :: "runtimeConfig \<Rightarrow> bool" where
  "isCodex item \<longleftrightarrow> rtc_Kind item = ''codex'' \<or> rtc_Kind item = [] \<and> rtc_Provider item = ''codex''"

definition compatibleConfig :: "runtimeConfig \<Rightarrow> codex_Config" where
  "compatibleConfig item =
    \<lparr>cf_Binary = rtc_Command item, cf_Protocol = rtc_Protocol item, cf_ToolDir = rtc_ToolDir item, cf_PassEnv = rtc_PassEnv item, cf_Env = rtc_Env item,
     cf_Model = rtc_Model item, cf_Profile = rtc_Profile item, cf_ReasoningEffort = rtc_ReasoningEffort item, cf_ServiceTier = rtc_ServiceTier item,
     cf_Sandbox = rtc_Sandbox item, cf_AllowDangerousSandbox = False, cf_WorkRoot = rtc_WorkRoot item, cf_WorkDir = [], cf_Ephemeral = rtc_Ephemeral item,
     cf_RequireGitRepository = False, cf_PermissionMode = rtc_PermissionMode item, cf_AllowedTools = rtc_AllowedTools item, cf_DisallowedTools = rtc_DisallowedTools item,
     cf_ShellToolTimeout = rtc_ShellToolTimeout item, cf_IgnoreUserConfig = rtc_IgnoreUserConfig item, cf_IgnoreRules = rtc_IgnoreRules item, cf_ExtraArgs = rtc_Args item\<rparr>"

definition setup_contains :: "string list \<Rightarrow> string \<Rightarrow> bool" where
  "setup_contains vs expected \<longleftrightarrow> list_ex (\<lambda>v. v = expected) vs"

definition catalogContains :: "RuntimeModel list \<Rightarrow> string \<Rightarrow> bool" where
  "catalogContains vs expected \<longleftrightarrow> list_ex (\<lambda>v. rm_ID v = expected) vs"

definition advertised_models :: "runtimeConfig \<Rightarrow> string list" where
  "advertised_models item = fold (\<lambda>m ms. if setup_contains ms (rm_ID m) then ms else ms @ [rm_ID m]) (rtc_DetectedModels item) (rtc_Models item)"

definition advertised_catalog :: "string \<Rightarrow> runtimeConfig \<Rightarrow> RuntimeModel list" where
  "advertised_catalog defaultModel item =
    fold (\<lambda>m ms. if catalogContains ms m then ms else ms @ [\<lparr>rm_ID = m, rm_DisplayName = m, rm_Description = [], rm_Default = (m = defaultModel)\<rparr>])
      (rtc_Models item) (rtc_DetectedModels item)"

definition probed :: "Runtime \<Rightarrow> string result \<Rightarrow> Runtime" where
  "probed result version = (case version of Inl err \<Rightarrow> result\<lparr>rt_State := ''unhealthy'', rt_Message := err_text err\<rparr> | Inr v \<Rightarrow> result\<lparr>rt_Version := v\<rparr>)"

definition probeRuntime :: "node_sys \<Rightarrow> time \<Rightarrow> runtimeConfig \<Rightarrow> Runtime" where
  "probeRuntime sys now item =
    (let defaultModel = (if rtc_Model item = [] then rtc_DetectedDefault item else rtc_Model item);
         result = \<lparr>rt_ID = rtc_ID item, rt_Provider = rtc_Provider item, rt_Version = rtc_Version item, rt_State = ''healthy'', rt_Message = [],
           rt_DefaultModel = defaultModel, rt_Models = advertised_models item, rt_ModelCatalog = advertised_catalog defaultModel item, rt_CheckedAt = Some now\<rparr>
     in if isCodex item then probed result (codex_ProbeVersion sys (if rtc_Command item = [] then ''codex'' else rtc_Command item))
        else if isTrae item then probed result (trae_ProbeVersion sys (ResolveBinary (runtime_of sys) (rtc_Command item)))
        else if rs_LookPath sys (rtc_Command item) then result
        else result\<lparr>rt_State := ''unhealthy'', rt_Message := err_text (ns_lookErr sys (rtc_Command item))\<rparr>)"

definition detected_model :: "ModelInfo \<Rightarrow> RuntimeModel" where
  "detected_model m = \<lparr>rm_ID = mi_ID m, rm_DisplayName = mi_DisplayName m, rm_Description = mi_Description m, rm_Default = mi_Default m\<rparr>"

definition discoverRuntimeModels :: "node_sys \<Rightarrow> string \<Rightarrow> runtimeConfig \<Rightarrow> runtimeConfig" where
  "discoverRuntimeModels sys kind item =
    (case snd (if kind = ''trae'' then trae_ProbeModels sys (compatibleConfig item)
               else ProbeModels sys (compatibleConfig item) \<lparr>fk_Name = ''codex'', fk_DefaultBinary = ''codex'', fk_InstructionProvider = [], fk_PassEnv = []\<rparr>) of
       Inl err \<Rightarrow> item
     | Inr models \<Rightarrow> fold (\<lambda>m item. item\<lparr>rtc_DetectedModels := rtc_DetectedModels item @ [detected_model m],
         rtc_DetectedDefault := (if mi_Default m then mi_ID m else rtc_DetectedDefault item)\<rparr>) models item)"

section \<open>Executors and bindings\<close>

datatype node_executor = CodexExecutor codex_Config | TraeExecutor codex_Config | CommandExecutor string "string list" "(string \<times> string) list" bool

definition detected_version :: "runtimeConfig \<Rightarrow> string result \<Rightarrow> runtimeConfig" where
  "detected_version item version = (if rtc_Version item = [] then (case version of Inr v \<Rightarrow> item\<lparr>rtc_Version := v\<rparr> | Inl _ \<Rightarrow> item) else item)"

text \<open>One runtime of the configuration: the item as it is afterwards, and its executor.\<close>

definition setup_runtime :: "node_sys \<Rightarrow> string \<Rightarrow> runtimeConfig \<Rightarrow> runtimeConfig \<times> node_executor" where
  "setup_runtime sys nodeID item =
    (let item = (if rtc_ID item = [] then item\<lparr>rtc_ID := RuntimeInstanceID nodeID (rtc_Provider item)\<rparr> else item)
     in if isCodex item then
          let item = (if rtc_Command item = [] then item\<lparr>rtc_Command := ''codex''\<rparr> else item);
              item = discoverRuntimeModels sys ''codex'' (detected_version item (codex_ProbeVersion sys (rtc_Command item)))
          in (item, CodexExecutor (compatibleConfig item))
        else if isTrae item then
          let item = (if rtc_Command item = [] then item\<lparr>rtc_Command := ResolveBinary (runtime_of sys) []\<rparr> else item);
              item = discoverRuntimeModels sys ''trae'' (detected_version item (trae_ProbeVersion sys (rtc_Command item)))
          in (item, TraeExecutor (compatibleConfig item))
        else (item, CommandExecutor (rtc_Command item) (rtc_Args item) (rtc_Env item) (rtc_InheritEnv item)))"

fun setup_runtimes :: "node_sys \<Rightarrow> string \<Rightarrow> (nat \<Rightarrow> time) \<Rightarrow> nat \<Rightarrow> runtimeConfig list \<Rightarrow> (string \<Rightarrow> node_executor option)
    \<Rightarrow> runtimeConfig list \<times> Runtime list \<times> (string \<Rightarrow> node_executor option)" where
  "setup_runtimes sys nodeID clock k [] executors = ([], [], executors)"
| "setup_runtimes sys nodeID clock k (item # items) executors =
    (case setup_runtime sys nodeID item of (item, executor) \<Rightarrow>
      (case setup_runtimes sys nodeID clock (Suc k) items (executors(rtc_Provider item \<mapsto> executor)) of
         (items, runtimes, executors) \<Rightarrow> (item # items, probeRuntime sys (clock k) item # runtimes, executors)))"

record bindingConfig =
  bnc_Name :: string
  bnc_Version :: string
  bnc_Kind :: string
  bnc_Command :: string
  bnc_Args :: "string list"
  bnc_Endpoint :: string
  bnc_TokenEnv :: string
  bnc_Env :: "(string \<times> string) list"
  bnc_InheritEnv :: bool

text \<open>\<open>exec\<close> and \<open>http\<close> are the providers of \<open>Bindings\<close> for a configuration; \<open>log.Fatal\<close> is an error.\<close>

definition setup_binding :: "(Exec \<Rightarrow> 'h provider) \<Rightarrow> (HTTPProvider \<Rightarrow> 'h provider) \<Rightarrow> (string \<Rightarrow> string) \<Rightarrow> bindingConfig \<Rightarrow> 'h Registry \<Rightarrow> 'h Registry result" where
  "setup_binding exec http getenv item r =
    (let provider =
       (if bnc_Kind item = ''exec'' then Inr (exec \<lparr>xc_Command = bnc_Command item, xc_Args = bnc_Args item, xc_Env = bnc_Env item, xc_InheritEnv = bnc_InheritEnv item, xc_MaxOutputBytes = 0\<rparr>)
        else if bnc_Kind item = ''http'' then Inr (http \<lparr>hx_Endpoint = bnc_Endpoint item, hx_Token = getenv (bnc_TokenEnv item)\<rparr>)
        else Inl (errors_New (''unsupported binding kind '' @ quot @ bnc_Kind item @ quot)))
     in case provider of Inl err \<Rightarrow> Inl err
        | Inr p \<Rightarrow> (case Registry_Register \<lparr>ds_Name = bnc_Name item, ds_Version = bnc_Version item, ds_Kind = bnc_Kind item\<rparr> (Some p) r of
            (r, Some err) \<Rightarrow> Inl err | (r, None) \<Rightarrow> Inr r))"

fun setup_bindings :: "(Exec \<Rightarrow> 'h provider) \<Rightarrow> (HTTPProvider \<Rightarrow> 'h provider) \<Rightarrow> (string \<Rightarrow> string) \<Rightarrow> bindingConfig list \<Rightarrow> 'h Registry \<Rightarrow> 'h Registry result" where
  "setup_bindings exec http getenv [] r = Inr r"
| "setup_bindings exec http getenv (item # items) r =
    (case setup_binding exec http getenv item r of Inl err \<Rightarrow> Inl err | Inr r \<Rightarrow> setup_bindings exec http getenv items r)"

section \<open>What the probes find\<close>

lemma version_number_append:
  assumes "d \<noteq> []" "list_all is_digit d" "s = [] \<or> \<not> is_digit (hd s)"
  shows "version_number (d @ s) = Some (d, s)"
proof -
  have "takeWhile is_digit (d @ s) = d" using assms(2,3) by (cases s) (auto simp: list_all_iff takeWhile_append2)
  moreover have "dropWhile is_digit (d @ s) = s" using assms(2,3) by (cases s) (auto simp: list_all_iff dropWhile_append2)
  ultimately show ?thesis using assms(1) by (simp add: version_number_def)
qed

lemma version_at_append:
  assumes "a \<noteq> []" "b \<noteq> []" "c \<noteq> []" "list_all is_digit a" "list_all is_digit b" "list_all is_digit c"
    "s = [] \<or> \<not> is_digit (hd s)"
  shows "version_at (a @ ''.'' @ b @ ''.'' @ c @ s) = Some (a @ ''.'' @ b @ ''.'' @ c @ version_suffix s)"
proof -
  have dot: "\<not> is_digit CHR ''.''" by code_simp
  have "version_dotted (d @ ''.'' @ r) = Some (d @ ''.'', r)" if "d \<noteq> []" "list_all is_digit d" for d r
    using version_number_append [OF that, of "''.'' @ r"] dot by (simp add: version_dotted_def)
  from this [OF assms(1,4), of "b @ ''.'' @ c @ s"] this [OF assms(2,5), of "c @ s"] version_number_append [OF assms(3,6,7)]
  show ?thesis by (simp add: version_at_def)
qed

lemma version_at_digit: "version_at s = Some v \<Longrightarrow> s \<noteq> [] \<and> is_digit (hd s)"
  by (cases s) (auto simp: version_at_def version_dotted_def version_number_def split: if_split_asm)

lemma version_find_skip: "list_all (\<lambda>c. \<not> is_digit c) pre \<Longrightarrow> version_find (pre @ s) = version_find s"
proof (induction pre)
  case (Cons c pre)
  then show ?case using version_at_digit [of "c # pre @ s"] by (cases "version_at (c # pre @ s)") auto
qed simp

text \<open>The version is found after any text without digits, with its suffix and without what follows it.\<close>

lemma version_found:
  assumes "list_all (\<lambda>c. \<not> is_digit c) pre" "a \<noteq> []" "b \<noteq> []" "c \<noteq> []" "list_all is_digit a" "list_all is_digit b" "list_all is_digit c"
    "s = [] \<or> \<not> is_digit (hd s)"
  shows "ParseVersionOutput (pre @ a @ ''.'' @ b @ ''.'' @ c @ s) = a @ ''.'' @ b @ ''.'' @ c @ version_suffix s"
proof -
  let ?t = "a @ ''.'' @ b @ ''.'' @ c @ s"
  obtain x xs where t: "?t = x # xs" using assms(2) by (cases a) auto
  have "version_find ?t = a @ ''.'' @ b @ ''.'' @ c @ version_suffix s"
    using version_at_append [OF assms(2-8)] unfolding t by simp
  then show ?thesis using version_find_skip [OF assms(1)] assms(2) by (simp add: ParseVersionOutput_def Let_def)
qed

lemma model_pages_result:
  "model_pages fork server n i cursor sent models = (sent', res) \<Longrightarrow> (\<forall>m \<in> set models. mi_ID m \<noteq> []) \<Longrightarrow>
   length sent' \<le> length sent + n \<and> prefix sent sent' \<and> (\<forall>ms. res = Inr ms \<longrightarrow> prefix models ms \<and> (\<forall>m \<in> set ms. mi_ID m \<noteq> []))"
proof (induction n arbitrary: i cursor sent models)
  case (Suc n)
  let ?sent = "sent @ [page_request i cursor]"
  show ?case
  proof (cases "\<exists>data stderr page next. server ?sent = Reply (Inr data) stderr \<and> decode_page data = Some (page, next)")
    case True
    then obtain data stderr page nxt where d: "server ?sent = Reply (Inr data) stderr" "decode_page data = Some (page, nxt)" by blast
    have ids: "\<forall>m \<in> set (models @ visible page). mi_ID m \<noteq> []" using Suc.prems(2) by (auto simp: visible_def)
    show ?thesis
    proof (cases "nxt = []")
      case True
      with Suc.prems(1) d ids show ?thesis by auto
    next
      case False
      then have "model_pages fork server n (i + 1) nxt ?sent (models @ visible page) = (sent', res)" using Suc.prems(1) d by (simp add: Let_def)
      from Suc.IH [OF this ids] show ?thesis by (auto simp: prefix_def)
    qed
  next
    case False
    with Suc.prems(1) show ?thesis by (auto simp: Let_def split: app_reply.split_asm sum.split_asm option.split_asm)
  qed
qed auto

lemma ProbeModels_result:
  assumes "ProbeModels sys config fork = (sent, res)"
  shows "length sent \<le> 12 \<and> (\<forall>ms. res = Inr ms \<longrightarrow> ms \<noteq> [] \<and> (\<forall>m \<in> set ms. mi_ID m \<noteq> []))"
proof (cases "\<exists>server. model_pages fork server 10 2 [] [probe_initialize, initialized_notice] [] = (sent, res) \<or>
    model_pages fork server 10 2 [] [probe_initialize, initialized_notice] [] = (sent, Inr []) \<and> (\<exists>err. res = Inl err)")
  case True
  then obtain server r where p: "model_pages fork server 10 2 [] [probe_initialize, initialized_notice] [] = (sent, r)" "res = r \<or> (\<exists>err. res = Inl err)" by blast
  have "r \<noteq> Inr [] \<or> (\<exists>err. res = Inl err)"
    using assms p by (auto simp: ProbeModels_def Let_def split: sum.split_asm app_reply.split_asm prod.split_asm if_split_asm)
  with p model_pages_result [OF p(1)] show ?thesis by auto
next
  case False
  with assms show ?thesis by (auto simp: ProbeModels_def Let_def split: sum.split_asm app_reply.split_asm prod.split_asm if_split_asm)
qed

section \<open>What a node advertises\<close>

lemma fold_add_ids:
  "f ` set (fold (\<lambda>x ys. if list_ex (\<lambda>y. f y = g x) ys then ys else ys @ [h x]) xs ys) = f ` set ys \<union> g ` set xs" if "\<And>x. f (h x) = g x"
proof (induction xs arbitrary: ys)
  case (Cons x xs)
  show ?case
  proof (cases "list_ex (\<lambda>y. f y = g x) ys")
    case True
    then have "g x \<in> f ` set ys" by (auto simp: list_ex_iff) (metis image_eqI)
    with True Cons show ?thesis by auto
  qed (use Cons that in auto)
qed simp

lemma advertised_models_set: "set (advertised_models item) = set (rtc_Models item) \<union> rm_ID ` set (rtc_DetectedModels item)"
  using fold_add_ids [of "\<lambda>v. v" rm_ID rm_ID "rtc_DetectedModels item" "rtc_Models item"] by (simp add: advertised_models_def setup_contains_def)

lemma advertised_catalog_ids: "rm_ID ` set (advertised_catalog d item) = rm_ID ` set (rtc_DetectedModels item) \<union> set (rtc_Models item)"
  using fold_add_ids [of rm_ID "\<lambda>m. \<lparr>rm_ID = m, rm_DisplayName = m, rm_Description = [], rm_Default = (m = d)\<rparr>" "\<lambda>m. m" "rtc_Models item" "rtc_DetectedModels item"]
  by (simp add: advertised_catalog_def catalogContains_def)

lemma probeRuntime_simps:
  "rt_ID (probeRuntime sys now item) = rtc_ID item" "rt_Provider (probeRuntime sys now item) = rtc_Provider item"
  "rt_Models (probeRuntime sys now item) = advertised_models item"
  "rt_DefaultModel (probeRuntime sys now item) = (if rtc_Model item = [] then rtc_DetectedDefault item else rtc_Model item)"
  "rt_ModelCatalog (probeRuntime sys now item) = advertised_catalog (if rtc_Model item = [] then rtc_DetectedDefault item else rtc_Model item) item"
  by (simp_all add: probeRuntime_def Let_def probed_def split: sum.split)

lemma available_fold: "fold (\<lambda>model available. available \<or> model = x) ms b \<longleftrightarrow> b \<or> x \<in> set ms"
  by (induction ms arbitrary: b) auto

lemma discovered_models:
  "rtc_DetectedModels (fold (\<lambda>m item. item\<lparr>rtc_DetectedModels := rtc_DetectedModels item @ [detected_model m],
      rtc_DetectedDefault := (if mi_Default m then mi_ID m else rtc_DetectedDefault item)\<rparr>) models item) = rtc_DetectedModels item @ map detected_model models"
  "rtc_Models (fold (\<lambda>m item. item\<lparr>rtc_DetectedModels := rtc_DetectedModels item @ [detected_model m],
      rtc_DetectedDefault := (if mi_Default m then mi_ID m else rtc_DetectedDefault item)\<rparr>) models item) = rtc_Models item"
  "rtc_ID (fold (\<lambda>m item. item\<lparr>rtc_DetectedModels := rtc_DetectedModels item @ [detected_model m],
      rtc_DetectedDefault := (if mi_Default m then mi_ID m else rtc_DetectedDefault item)\<rparr>) models item) = rtc_ID item"
  "rtc_Provider (fold (\<lambda>m item. item\<lparr>rtc_DetectedModels := rtc_DetectedModels item @ [detected_model m],
      rtc_DetectedDefault := (if mi_Default m then mi_ID m else rtc_DetectedDefault item)\<rparr>) models item) = rtc_Provider item"
  by (induction models arbitrary: item) simp_all

lemma discover_keeps [simp]:
  "rtc_Models (discoverRuntimeModels sys kind item) = rtc_Models item" "rtc_ID (discoverRuntimeModels sys kind item) = rtc_ID item"
  "rtc_Provider (discoverRuntimeModels sys kind item) = rtc_Provider item"
  by (simp_all add: discoverRuntimeModels_def discovered_models split: sum.split)

lemma detected_version_keeps [simp]:
  "rtc_Models (detected_version item v) = rtc_Models item" "rtc_ID (detected_version item v) = rtc_ID item" "rtc_Provider (detected_version item v) = rtc_Provider item"
  by (simp_all add: detected_version_def split: sum.split)

lemma setup_runtime_keeps:
  assumes "setup_runtime sys nodeID item = (item', executor)"
  shows "rtc_Models item' = rtc_Models item" "rtc_Provider item' = rtc_Provider item"
    "rtc_ID item' = (if rtc_ID item = [] then RuntimeInstanceID nodeID (rtc_Provider item) else rtc_ID item)"
  using assms by (auto simp: setup_runtime_def Let_def isCodex_def isTrae_def split: if_split_asm)


definition demo_node_sys :: node_sys where
  "demo_node_sys = runtime_sys.extend demo_sys \<lparr>ns_version = (\<lambda>_. (''codex-cli 0.42.1-beta.2'' @ [CHR 0x0A], None)), ns_lookErr = (\<lambda>_. errors_New ''not found''),
     ns_appServer = (\<lambda>_. Inr (\<lambda>sent. Reply (Inr (Some (JObj [(''data'', JArr [JObj [(''id'', JStr ''m1'')], JObj [(''id'', JStr ''m2''), (''hidden'', JBool True)]])]))) []))\<rparr>"
definition demo_item :: runtimeConfig where
  "demo_item = \<lparr>rtc_ID = [], rtc_Kind = [], rtc_Provider = ''codex'', rtc_Protocol = [], rtc_Version = [], rtc_Command = [], rtc_ToolDir = [], rtc_PassEnv = [], rtc_Args = [],
     rtc_Env = [], rtc_InheritEnv = False, rtc_Model = [], rtc_Models = [''m0''], rtc_Profile = [], rtc_ReasoningEffort = [], rtc_ServiceTier = [], rtc_Sandbox = [],
     rtc_WorkRoot = [], rtc_Ephemeral = False, rtc_PermissionMode = [], rtc_AllowedTools = [], rtc_DisallowedTools = [], rtc_ShellToolTimeout = [], rtc_IgnoreUserConfig = False,
     rtc_IgnoreRules = False, rtc_DetectedModels = [], rtc_DetectedDefault = []\<rparr>"


text \<open>
  The discovery of models ends after ten pages whatever the app server answers: it writes at most twelve messages, and when it succeeds it returns at least one model
  and only models that have an identifier.
\<close>
theorem model_discovery_bounded:
  "length (fst (ProbeModels sys config fork)) \<le> 12 \<and>
   (case snd (ProbeModels sys config fork) of Inl _ \<Rightarrow> True | Inr ms \<Rightarrow> ms \<noteq> [] \<and> list_all (\<lambda>m. mi_ID m \<noteq> []) ms)"
  using ProbeModels_result [of sys config fork "fst (ProbeModels sys config fork)" "snd (ProbeModels sys config fork)"]
  by (auto simp: list_all_iff split: sum.split)

text \<open>
  The executors are kept by provider, so of two runtimes with one provider only the executor of the last is used, although both are advertised under their identifiers: a run that is bound to
  the first is executed by the second.
\<close>

lemma executors_by_provider:
  "setup_runtimes sys nodeID clock k items executors = (items', runtimes, executors') \<Longrightarrow>
   executors' = fold (\<lambda>item e. e(rtc_Provider item \<mapsto> snd (setup_runtime sys nodeID item))) items executors \<and> length runtimes = length items"
proof (induction items arbitrary: k executors items' runtimes)
  case (Cons item items)
  obtain it e where s: "setup_runtime sys nodeID item = (it, e)" by fastforce
  have "rtc_Provider it = rtc_Provider item" by (rule setup_runtime_keeps(2) [OF s])
  with Cons.prems s obtain rest others where r: "setup_runtimes sys nodeID clock (Suc k) items (executors(rtc_Provider item \<mapsto> e)) = (rest, others, executors')"
      "runtimes = probeRuntime sys (clock k) it # others" by (auto split: prod.split_asm)
  have e: "snd (setup_runtime sys nodeID item) = e" using s by simp
  show ?case using Cons.IH [OF r(1)] by (simp only: fold_simps(2) e r(2) list.size)
qed simp

lemma provider_clash:
  assumes "rtc_Provider a = p" "rtc_Provider b = p" "setup_runtimes sys nodeID clock k [a, b] executors = (items', runtimes, executors')"
  shows "executors' p = Some (snd (setup_runtime sys nodeID b))" "length runtimes = 2"
  using executors_by_provider [OF assms(3)] assms(1,2) by simp_all

end
