(* ===== verification/Postgres_Store.thy ===== *)
theory Postgres_Store
  imports Memory_Storage
begin

text \<open>
  \<open>controlplane/postgres/store.go\<close>: the storage of the control plane in a PostgreSQL database. A table is the list of its
  rows; a statement is a function of the tables that may violate a constraint; a transaction is a
  sequence of statements that is rolled back when it returns an error.

  Every statement may fail, and so may the beginning and the end of a transaction; when a commit fails the transaction may or may not have been
  applied. A single statement on the pool is a transaction of its own. Transactions are atomic: those that
  change a run first lock its row and the row of its current attempt (\<open>FOR UPDATE\<close>), and \<open>Claim\<close> checks its candidates again under
  that lock. \<open>pt_locked\<close> are the runs that other transactions have locked, which \<open>SKIP LOCKED\<close> passes over.

  A time is stored to the microsecond (\<open>usec\<close>). What a \<open>JSONB\<close> column gives back for a JSON text is \<open>pt_jsonb\<close>: PostgreSQL
  keeps the value but not the text. \<open>now()\<close> is \<open>pt_now\<close>, one value per transaction; \<open>time.Now\<close> and the random
  identifiers are those of the server, as in \<open>Memory_Storage\<close>.
\<close>

section \<open>Tables\<close>

record node_row =
  nc_registration :: NodeRegistration
  nc_last_seen :: time

record run_row =
  rc_id :: string
  rc_tenant_id :: string
  rc_project_id :: string
  rc_session_id :: string
  rc_agent_id :: string
  rc_idempotency_key :: string
  rc_runtime :: RuntimeRequirement
  rc_source :: Source
  rc_request :: Request
  rc_status :: RunStatus
  rc_result :: "Result option"
  rc_error :: string
  rc_created_at :: time
  rc_started_at :: "time option"
  rc_completed_at :: "time option"
  rc_current_attempt_id :: string
  rc_deadline_at :: "time option"
  rc_cancel_requested_at :: "time option"
  rc_cancel_reason :: string
  rc_cancel_requested_by :: string
  rc_cancelled_at :: "time option"

text \<open>The columns of \<open>relay_attempts\<close>: the owner and the fields of the attempt.\<close>

record attempt_row =
  ac_run_id :: string
  ac_attempt :: Attempt

record artifact_row =
  fc_artifact :: Artifact
  fc_attempt_id :: string
  fc_created_at :: time

record call_row =
  cl_id :: string
  cl_run_id :: string
  cl_attempt_id :: string
  cl_idempotency_key :: string
  cl_request_hash :: string
  cl_request :: CapabilityRequest
  cl_status :: string
  cl_result :: "CapabilityResult option"
  cl_error :: string

text \<open>\<open>tb_migrations\<close> is the ledger of the migrations, \<open>tb_scripts\<close> the scripts that were executed.\<close>

record tables =
  tb_migrations :: "string list"
  tb_scripts :: "string list"
  tb_nodes :: "node_row list"
  tb_runs :: "run_row list"
  tb_attempts :: "attempt_row list"
  tb_events :: "Event list"
  tb_artifacts :: "artifact_row list"
  tb_calls :: "call_row list"
  tb_interactions :: "Interaction list"

definition no_tables :: tables where
  "no_tables = \<lparr>tb_migrations = [], tb_scripts = [], tb_nodes = [], tb_runs = [], tb_attempts = [], tb_events = [], tb_artifacts = [], tb_calls = [], tb_interactions = []\<rparr>"

section \<open>Statements and transactions\<close>

record pg_tx =
  pt_now :: time
  pt_jsonb :: "json \<Rightarrow> json"
  pt_locked :: "string \<Rightarrow> bool"

text \<open>
  \<open>db_fault n\<close> is the error of the \<open>n\<close>-th statement, if it fails; \<open>db_applied n\<close> says whether a commit that failed as the \<open>n\<close>-th statement was applied;
  \<open>db_tx n\<close> is what the \<open>n\<close>-th transaction finds.
\<close>

record database = world +
  db_tables :: tables
  db_statements :: nat
  db_transactions :: nat
  db_fault :: "nat \<Rightarrow> error option"
  db_applied :: "nat \<Rightarrow> bool"
  db_tx :: "nat \<Rightarrow> pg_tx"

type_synonym 'a tx = "pg_tx \<Rightarrow> database \<Rightarrow> database \<times> 'a result"

definition tx_return :: "'a \<Rightarrow> 'a tx" where
  "tx_return x e d = (d, Inr x)"

definition tx_error :: "error \<Rightarrow> 'a tx" where
  "tx_error err e d = (d, Inl err)"

definition tx_bind :: "'a tx \<Rightarrow> ('a \<Rightarrow> 'b tx) \<Rightarrow> 'b tx" where
  "tx_bind m k e d = (case m e d of (d, Inl err) \<Rightarrow> (d, Inl err) | (d, Inr x) \<Rightarrow> k x e d)"

definition tx_seq :: "unit tx \<Rightarrow> 'b tx \<Rightarrow> 'b tx" where
  "tx_seq m k = tx_bind m (\<lambda>_. k)"

definition tx_now :: "time tx" where
  "tx_now e d = (case time_Now d of (now, d) \<Rightarrow> (d, Inr now))"

definition tx_env :: "pg_tx tx" where
  "tx_env e d = (d, Inr e)"

text \<open>\<open>newID\<close> of this package.\<close>

definition pg_newID :: "string \<Rightarrow> string tx" where
  "pg_newID prefix e d = (case newControlPlaneID prefix d of (i, d) \<Rightarrow> (d, Inr i))"

definition fault_point :: "database \<Rightarrow> database \<times> error option" where
  "fault_point d = (d\<lparr>db_statements := Suc (db_statements d)\<rparr>, db_fault d (db_statements d))"

definition statement :: "(pg_tx \<Rightarrow> tables \<Rightarrow> tables \<times> 'a result) \<Rightarrow> 'a tx" where
  "statement f e d =
    (case fault_point d of (d, Some err) \<Rightarrow> (d, Inl err)
     | (d, None) \<Rightarrow> (case f e (db_tables d) of (t, r) \<Rightarrow> (d\<lparr>db_tables := t\<rparr>, r)))"

definition sql_query :: "(pg_tx \<Rightarrow> tables \<Rightarrow> 'a) \<Rightarrow> 'a tx" where
  "sql_query f = statement (\<lambda>e t. (t, Inr (f e t)))"

definition sql_exec :: "(pg_tx \<Rightarrow> tables \<Rightarrow> tables) \<Rightarrow> unit tx" where
  "sql_exec f = statement (\<lambda>e t. (f e t, Inr ()))"

text \<open>\<open>fmt.Errorf\<close> around the error of a statement.\<close>

definition tx_wrap :: "string \<Rightarrow> 'a tx \<Rightarrow> 'a tx" where
  "tx_wrap msg m e d = (case m e d of (d, Inl err) \<Rightarrow> (d, Inl (GoError (err_is err) (msg @ err_text err))) | (d, Inr x) \<Rightarrow> (d, Inr x))"

definition unique_violation :: error where
  "unique_violation = errors_New ''duplicate key value violates unique constraint''"

definition check_violation :: error where
  "check_violation = errors_New ''new row violates check constraint''"

text \<open>\<open>Begin\<close>, the body, and \<open>Commit\<close> or the deferred \<open>Rollback\<close>.\<close>

definition transaction :: "'a tx \<Rightarrow> database \<Rightarrow> database \<times> 'a result" where
  "transaction body d =
    (case fault_point d of (d, Some err) \<Rightarrow> (d, Inl err)
     | (d, None) \<Rightarrow>
       (case body (db_tx d (db_transactions d)) (d\<lparr>db_transactions := Suc (db_transactions d)\<rparr>) of
          (d', Inl err) \<Rightarrow> (d'\<lparr>db_tables := db_tables d\<rparr>, Inl err)
        | (d', Inr x) \<Rightarrow>
          (case fault_point d' of
             (d'', None) \<Rightarrow> (d'', Inr x)
           | (d'', Some err) \<Rightarrow> (if db_applied d' (db_statements d') then d'' else d''\<lparr>db_tables := db_tables d\<rparr>, Inl err))))"

definition usec :: "time \<Rightarrow> time" where
  "usec t = t div 1000 * 1000"

section \<open>Reading rows\<close>

definition scanRun :: "run_row \<Rightarrow> Attempt \<Rightarrow> Run" where
  "scanRun r a =
    \<lparr>run_ID = rc_id r, run_TenantID = rc_tenant_id r, run_ProjectID = rc_project_id r, run_SessionID = rc_session_id r,
     run_AgentID = rc_agent_id r, run_IdempotencyKey = rc_idempotency_key r, run_Runtime = rc_runtime r, run_Source = rc_source r,
     run_Status = rc_status r, run_Attempt = a, run_Result = rc_result r, run_Error = rc_error r, run_CreatedAt = rc_created_at r,
     run_StartedAt = rc_started_at r, run_CompletedAt = rc_completed_at r, run_DeadlineAt = rc_deadline_at r,
     run_CancelRequestedAt = rc_cancel_requested_at r, run_CancelReason = rc_cancel_reason r, run_CancelledAt = rc_cancelled_at r\<rparr>"

text \<open>\<open>relay_runs r JOIN relay_attempts a ON a.id = r.current_attempt_id\<close>.\<close>

definition run_join :: "tables \<Rightarrow> (run_row \<times> attempt_row) list" where
  "run_join t = concat (map (\<lambda>r. map (Pair r) (filter (\<lambda>a. att_ID (ac_attempt a) = rc_current_attempt_id r) (tb_attempts t))) (tb_runs t))"

definition runSelect :: "(run_row \<Rightarrow> bool) \<Rightarrow> tables \<Rightarrow> Run list" where
  "runSelect P t = map (\<lambda>(r, a). scanRun r (ac_attempt a)) (filter (P \<circ> fst) (run_join t))"

definition first_row :: "'a list \<Rightarrow> 'a option" where
  "first_row rows = (case rows of [] \<Rightarrow> None | row # _ \<Rightarrow> Some row)"

definition pg_run :: "string \<Rightarrow> tables \<Rightarrow> Run option" where
  "pg_run runID t = first_row (runSelect (\<lambda>r. rc_id r = runID) t)"

definition nodeSelect :: "pg_tx \<Rightarrow> tables \<Rightarrow> node_row \<Rightarrow> Node" where
  "nodeSelect e t n =
    \<lparr>node_Registration = nc_registration n,
     node_Active = int (length (filter (\<lambda>a. att_NodeID (ac_attempt a) = reg_ID (nc_registration n) \<and>
         (att_Status (ac_attempt a) = AttemptRunning \<or> att_Status (ac_attempt a) = AttemptLeased) \<and>
         (case att_LeaseExpiresAt (ac_attempt a) of None \<Rightarrow> False | Some x \<Rightarrow> pt_now e < x)) (tb_attempts t))),
     node_LastSeen = nc_last_seen n, node_State = []\<rparr>"

definition pg_node :: "string \<Rightarrow> pg_tx \<Rightarrow> tables \<Rightarrow> Node option" where
  "pg_node nodeID e t = map_option (nodeSelect e t) (first_row (filter (\<lambda>n. reg_ID (nc_registration n) = nodeID) (tb_nodes t)))"

definition terminalRunStatus :: "RunStatus \<Rightarrow> bool" where
  "terminalRunStatus status \<longleftrightarrow> status = RunSucceeded \<or> status = RunFailed \<or> status = RunCancelled"

section \<open>Writing rows\<close>

definition update_run :: "string \<Rightarrow> (run_row \<Rightarrow> run_row) \<Rightarrow> unit tx" where
  "update_run runID f = sql_exec (\<lambda>e t. t\<lparr>tb_runs := map (\<lambda>r. if rc_id r = runID then f r else r) (tb_runs t)\<rparr>)"

definition update_attempt :: "string \<Rightarrow> (Attempt \<Rightarrow> Attempt) \<Rightarrow> unit tx" where
  "update_attempt attemptID f = sql_exec (\<lambda>e t. t\<lparr>tb_attempts :=
     map (\<lambda>a. if att_ID (ac_attempt a) = attemptID then a\<lparr>ac_attempt := f (ac_attempt a)\<rparr> else a) (tb_attempts t)\<rparr>)"

definition insert_attempt :: "string \<Rightarrow> (pg_tx \<Rightarrow> Attempt) \<Rightarrow> unit tx" where
  "insert_attempt runID f = statement (\<lambda>e t.
     if \<exists>a \<in> set (tb_attempts t). att_ID (ac_attempt a) = att_ID (f e) then (t, Inl unique_violation)
     else (t\<lparr>tb_attempts := tb_attempts t @ [\<lparr>ac_run_id = runID, ac_attempt = f e\<rparr>]\<rparr>, Inr ()))"

definition next_sequence :: "string \<Rightarrow> tables \<Rightarrow> int" where
  "next_sequence runID t =
    (let sequences = map ev_Sequence (filter (\<lambda>e. ev_RunID e = runID) (tb_events t))
     in (if sequences = [] then 0 else Max (set sequences)) + 1)"

definition insert_event_row :: "string \<Rightarrow> string \<Rightarrow> string \<Rightarrow> (tables \<Rightarrow> int) \<Rightarrow> string \<Rightarrow> json option \<Rightarrow> unit tx" where
  "insert_event_row eventID runID attemptID sequence eventType data = statement (\<lambda>e t.
     if \<exists>old \<in> set (tb_events t). ev_ID old = eventID \<or> ev_RunID old = runID \<and> ev_Sequence old = sequence t
     then (t, Inl unique_violation)
     else (t\<lparr>tb_events := tb_events t @ [\<lparr>ev_ID = eventID, ev_RunID = runID, ev_AttemptID = attemptID, ev_Sequence = sequence t,
             ev_Type = eventType, ev_Data = map_option (pt_jsonb e) data, ev_CreatedAt = pt_now e\<rparr>]\<rparr>, Inr ()))"

definition pg_insertEvent :: "string \<Rightarrow> string \<Rightarrow> int \<Rightarrow> string \<Rightarrow> goany \<Rightarrow> unit tx" where
  "pg_insertEvent runID attemptID sequence eventType value =
    (case (case value of GoNil \<Rightarrow> Inr None | _ \<Rightarrow> (case json_Marshal value of Inl err \<Rightarrow> Inl err | Inr j \<Rightarrow> Inr (Some j))) of
       Inl err \<Rightarrow> tx_error err
     | Inr data \<Rightarrow> tx_bind (pg_newID ''event'') (\<lambda>eventID. insert_event_row eventID runID attemptID (\<lambda>_. sequence) eventType data))"

definition pg_appendEvent :: "string \<Rightarrow> string \<Rightarrow> string \<Rightarrow> goany \<Rightarrow> unit tx" where
  "pg_appendEvent runID attemptID eventType value =
    tx_bind (sql_query (\<lambda>e t. next_sequence runID t)) (\<lambda>sequence. pg_insertEvent runID attemptID sequence eventType value)"

definition finalizeCancellationTx :: "Run \<Rightarrow> time \<Rightarrow> unit tx" where
  "finalizeCancellationTx run now =
    (if run_Status run = RunCancelled then tx_return ()
     else let reason = GoVal (str_obj [(''reason'', run_CancelReason run)]) in
       tx_seq (update_attempt (att_ID (run_Attempt run)) (\<lambda>a. a\<lparr>att_Status := AttemptCancelled, att_CompletedAt := Some (usec now)\<rparr>))
      (tx_seq (update_run (run_ID run) (\<lambda>r. r\<lparr>rc_status := RunCancelled, rc_completed_at := Some (usec now), rc_cancelled_at := Some (usec now)\<rparr>))
      (tx_seq (pg_appendEvent (run_ID run) (att_ID (run_Attempt run)) ''attempt.cancelled'' reason)
         (pg_appendEvent (run_ID run) (att_ID (run_Attempt run)) ''run.cancelled'' reason))))"

definition requestCancelTx :: "Run \<Rightarrow> CancelRequest \<Rightarrow> time \<Rightarrow> unit tx" where
  "requestCancelTx run request now =
    (if terminalRunStatus (run_Status run) \<or> run_CancelRequestedAt run \<noteq> None then tx_return ()
     else tx_seq (update_run (run_ID run) (\<lambda>r. r\<lparr>rc_status := RunCancelling, rc_cancel_requested_at := Some (usec now),
              rc_cancel_reason := cq_Reason request, rc_cancel_requested_by := cq_RequestedBy request\<rparr>))
         (tx_seq (pg_appendEvent (run_ID run) (att_ID (run_Attempt run)) ''run.cancel_requested'' (GoVal (CancelRequest_json request)))
            (if att_Status (run_Attempt run) = AttemptQueued
             then finalizeCancellationTx (run\<lparr>run_Status := RunCancelling, run_CancelRequestedAt := Some now, run_CancelReason := cq_Reason request\<rparr>) now
             else tx_return ())))"

text \<open>A change of a run by the holder of its lease.\<close>

definition pg_transition :: "Assignment \<Rightarrow> (Run \<Rightarrow> 'a tx) \<Rightarrow> database \<Rightarrow> database \<times> 'a result" where
  "pg_transition assignment change = transaction
    (tx_bind (sql_query (\<lambda>e t. pg_run (as_RunID assignment) t)) (\<lambda>row. case row of
       None \<Rightarrow> tx_error ErrNotFound
     | Some run \<Rightarrow>
       let a = run_Attempt run in
       if att_ID a \<noteq> as_AttemptID assignment \<or> as_LeaseToken assignment = [] \<or> att_LeaseToken a \<noteq> as_LeaseToken assignment
       then tx_error ErrInvalidLease
       else if terminalRunStatus (run_Status run) then change run
       else case att_LeaseExpiresAt a of None \<Rightarrow> tx_error ErrInvalidLease
       | Some expires \<Rightarrow> tx_bind tx_now (\<lambda>now. if expires \<le> now then tx_error ErrInvalidLease else change run)))"

section \<open>Migrations\<close>

text \<open>
  The embedded scripts, by name, in the order of their names. Taking the advisory lock and creating the ledger if it does not exist leave the tables as they are.
\<close>

fun migrate_all :: "(string \<times> string) list \<Rightarrow> unit tx" where
  "migrate_all [] = tx_return ()"
| "migrate_all ((name, script) # entries) =
    tx_bind (sql_query (\<lambda>e t. name \<in> set (tb_migrations t))) (\<lambda>applied.
      if applied then migrate_all entries
      else tx_seq (tx_wrap (''relay postgres: migration '' @ name @ '': '') (sql_exec (\<lambda>e t. t\<lparr>tb_scripts := tb_scripts t @ [script]\<rparr>)))
          (tx_seq (statement (\<lambda>e t. if name \<in> set (tb_migrations t) then (t, Inl unique_violation)
               else (t\<lparr>tb_migrations := tb_migrations t @ [name]\<rparr>, Inr ())))
             (migrate_all entries)))"

definition pg_Migrate :: "(string \<times> string) list \<Rightarrow> database \<Rightarrow> database \<times> unit result" where
  "pg_Migrate entries = transaction
    (tx_seq (tx_wrap ''relay postgres: acquire migration lock: '' (sql_exec (\<lambda>e t. t)))
    (tx_seq (tx_wrap ''relay postgres: create migration ledger: '' (sql_exec (\<lambda>e t. t)))
       (migrate_all (sort_key fst entries))))"

section \<open>Nodes\<close>

definition pg_node_read :: "string \<Rightarrow> database \<Rightarrow> database \<times> Node result" where
  "pg_node_read nodeID = transaction (tx_bind (sql_query (pg_node nodeID)) (\<lambda>row. case row of
     None \<Rightarrow> tx_error ErrNotFound | Some node \<Rightarrow> tx_return node))"

definition pg_RegisterNode :: "NodeRegistration \<Rightarrow> database \<Rightarrow> database \<times> Node result" where
  "pg_RegisterNode registration d =
    (case time_Now d of (now, d) \<Rightarrow>
      (case transaction (statement (\<lambda>e t.
          if reg_Capacity registration \<le> 0 then (t, Inl check_violation)
          else let row = \<lparr>nc_registration = registration, nc_last_seen = usec now\<rparr> in
            (t\<lparr>tb_nodes := (if \<exists>n \<in> set (tb_nodes t). reg_ID (nc_registration n) = reg_ID registration
                then map (\<lambda>n. if reg_ID (nc_registration n) = reg_ID registration then row else n) (tb_nodes t)
                else tb_nodes t @ [row])\<rparr>, Inr ()))) d of
         (d, Inl err) \<Rightarrow> (d, Inl err)
       | (d, Inr _) \<Rightarrow> pg_node_read (reg_ID registration) d))"

definition pg_Heartbeat :: "string \<Rightarrow> database \<Rightarrow> database \<times> Node result" where
  "pg_Heartbeat nodeID d =
    (case transaction (statement (\<lambda>e t.
        (t\<lparr>tb_nodes := map (\<lambda>n. if reg_ID (nc_registration n) = nodeID then n\<lparr>nc_last_seen := pt_now e\<rparr> else n) (tb_nodes t)\<rparr>,
         Inr (length (filter (\<lambda>n. reg_ID (nc_registration n) = nodeID) (tb_nodes t)))))) d of
       (d, Inl err) \<Rightarrow> (d, Inl err)
     | (d, Inr affected) \<Rightarrow> if affected = 0 then (d, Inl ErrNotFound) else pg_node_read nodeID d)"

definition pg_Nodes :: "database \<Rightarrow> database \<times> Node list result" where
  "pg_Nodes = transaction (sql_query (\<lambda>e t. map (nodeSelect e t) (sort_key (reg_ID \<circ> nc_registration) (tb_nodes t))))"

section \<open>Submission\<close>

text \<open>What the \<open>JSONB\<close> columns give back: raw JSON is passed through \<open>pt_jsonb\<close>, and a field with the tag \<open>"-"\<close> is lost.\<close>

definition jsonb_Source :: "pg_tx \<Rightarrow> Source \<Rightarrow> Source" where
  "jsonb_Source e s = s\<lparr>src_Metadata := map_option (pt_jsonb e) (src_Metadata s)\<rparr>"

definition jsonb_Request :: "pg_tx \<Rightarrow> Request \<Rightarrow> Request" where
  "jsonb_Request e r = r\<lparr>rq_Source := jsonb_Source e (rq_Source r),
     rq_Input := (rq_Input r)\<lparr>in_Data := map_option (pt_jsonb e) (in_Data (rq_Input r))\<rparr>,
     rq_Context := map (\<lambda>c. c\<lparr>cx_Data := map_option (pt_jsonb e) (cx_Data c)\<rparr>) (rq_Context r)\<rparr>"

definition jsonb_Result :: "pg_tx \<Rightarrow> Result \<Rightarrow> Result" where
  "jsonb_Result e r = r\<lparr>res_Output := map_option (pt_jsonb e) (res_Output r),
     res_Artifacts := map (\<lambda>a. a\<lparr>art_RunID := []\<rparr>) (res_Artifacts r)\<rparr>"

definition new_run_row :: "pg_tx \<Rightarrow> Request \<Rightarrow> time \<Rightarrow> string \<Rightarrow> string \<Rightarrow> run_row" where
  "new_run_row e request now runID attemptID =
    (let timeout = duration_or_zero (rq_Timeout request)
     in \<lparr>rc_id = runID, rc_tenant_id = rq_TenantID request, rc_project_id = rq_ProjectID request, rc_session_id = rq_SessionID request,
         rc_agent_id = rq_AgentID request, rc_idempotency_key = rq_IdempotencyKey request, rc_runtime = rq_Runtime request,
         rc_source = jsonb_Source e (rq_Source request), rc_request = jsonb_Request e request, rc_status = RunQueued,
         rc_result = None, rc_error = [], rc_created_at = usec now, rc_started_at = None, rc_completed_at = None,
         rc_current_attempt_id = attemptID,
         rc_deadline_at = (if timeout > 0 then Some (usec (now + timeout)) else None),
         rc_cancel_requested_at = None, rc_cancel_reason = [], rc_cancel_requested_by = [], rc_cancelled_at = None\<rparr>)"

definition row_scope :: "run_row \<Rightarrow> string \<times> string \<times> string" where
  "row_scope r = (rc_tenant_id r, rc_project_id r, rc_idempotency_key r)"

definition submit_scope :: "Request \<Rightarrow> string \<times> string \<times> string" where
  "submit_scope q = (rq_TenantID q, rq_ProjectID q, rq_IdempotencyKey q)"

text \<open>\<open>INSERT ... ON CONFLICT (tenant_id, project_id, idempotency_key) DO NOTHING RETURNING id\<close>: whether a row was inserted.\<close>

definition insert_run :: "Request \<Rightarrow> time \<Rightarrow> string \<Rightarrow> string \<Rightarrow> bool tx" where
  "insert_run request now runID attemptID = statement (\<lambda>e t.
     if \<exists>r \<in> set (tb_runs t). row_scope r = submit_scope request then (t, Inr False)
     else if \<exists>r \<in> set (tb_runs t). rc_id r = runID then (t, Inl unique_violation)
     else (t\<lparr>tb_runs := tb_runs t @ [new_run_row e request now runID attemptID]\<rparr>, Inr True))"

definition existing_run :: "Request \<Rightarrow> string tx" where
  "existing_run request = tx_bind (sql_query (\<lambda>e t. first_row (filter (\<lambda>r. row_scope r = submit_scope request) (tb_runs t)))) (\<lambda>row. case row of
     None \<Rightarrow> tx_error (errors_New ''no rows in result set'') | Some r \<Rightarrow> tx_return (rc_id r))"

definition submit_tx :: "Request \<Rightarrow> time \<Rightarrow> string \<Rightarrow> string \<Rightarrow> string tx" where
  "submit_tx request now runID attemptID =
    tx_bind (insert_run request now runID attemptID) (\<lambda>inserted.
      if \<not> inserted then existing_run request
      else tx_seq (insert_attempt runID (\<lambda>e. zero_Attempt\<lparr>att_ID := attemptID, att_Number := 1, att_Status := AttemptQueued, att_AvailableAt := Some (pt_now e)\<rparr>))
          (tx_seq (pg_insertEvent runID attemptID 1 ''run.created'' (GoVal (str_obj [(''status'', RunStatus_text RunQueued)])))
          (tx_seq (pg_insertEvent runID attemptID 2 ''attempt.queued'' (GoVal (JObj [(''number'', JNum ''1'')])))
             (tx_return runID))))"

definition pg_GetRun :: "string \<Rightarrow> database \<Rightarrow> database \<times> Run result" where
  "pg_GetRun runID = transaction (tx_bind (sql_query (\<lambda>e t. pg_run runID t)) (\<lambda>row. case row of
     None \<Rightarrow> tx_error ErrNotFound | Some run \<Rightarrow> tx_return run))"

definition pg_Submit :: "Request \<Rightarrow> database \<Rightarrow> database \<times> Run result" where
  "pg_Submit request d =
    (case newControlPlaneID ''run'' d of (runID, d) \<Rightarrow>
      (case newControlPlaneID ''attempt'' d of (attemptID, d) \<Rightarrow>
        (case time_Now d of (now, d) \<Rightarrow>
          (case transaction (submit_tx request now runID attemptID) d of
             (d, Inl err) \<Rightarrow> (d, Inl err)
           | (d, Inr found) \<Rightarrow> pg_GetRun found d))))"

section \<open>Leases\<close>

definition claimable_row :: "pg_tx \<Rightarrow> run_row \<times> attempt_row \<Rightarrow> bool" where
  "claimable_row e ra = (case ra of (r, row) \<Rightarrow> let a = ac_attempt row in
     rc_status r = RunQueued \<and> ac_run_id row = rc_id r \<and>
     (case rc_deadline_at r of None \<Rightarrow> True | Some x \<Rightarrow> pt_now e < x) \<and>
     (att_Status a = AttemptQueued \<and> (case att_AvailableAt a of None \<Rightarrow> False | Some x \<Rightarrow> x \<le> pt_now e) \<or>
      att_Status a = AttemptLeased \<and> (case att_LeaseExpiresAt a of None \<Rightarrow> False | Some x \<Rightarrow> x \<le> pt_now e)))"

text \<open>The hundred oldest candidates.\<close>

definition claim_candidates :: "pg_tx \<Rightarrow> tables \<Rightarrow> string list" where
  "claim_candidates e t =
    take 100 (map (rc_id \<circ> fst) (sort_key (rc_created_at \<circ> fst) (sort_key (rc_id \<circ> fst) (filter (claimable_row e) (run_join t)))))"

definition lock_candidate :: "string \<Rightarrow> pg_tx \<Rightarrow> tables \<Rightarrow> (run_row \<times> attempt_row) option" where
  "lock_candidate runID e t = first_row (filter (\<lambda>ra. rc_id (fst ra) = runID \<and> claimable_row e ra \<and> \<not> pt_locked e runID) (run_join t))"

definition lease_row :: "string \<Rightarrow> duration \<Rightarrow> run_row \<Rightarrow> Attempt \<Rightarrow> Assignment tx" where
  "lease_row nodeID leaseTTL r a =
    tx_bind tx_now (\<lambda>now.
    tx_seq (if att_Status a = AttemptLeased \<and> (case att_LeaseExpiresAt a of None \<Rightarrow> False | Some x \<Rightarrow> x \<le> now)
            then pg_appendEvent (rc_id r) (att_ID a) ''attempt.lease_expired'' (GoVal (str_obj [(''node_id'', att_NodeID a)]))
            else tx_return ())
   (tx_bind (pg_newID ''lease'') (\<lambda>lease.
    let expires = now + leaseTTL in
    tx_seq (update_attempt (att_ID a) (\<lambda>a. a\<lparr>att_Status := AttemptLeased, att_NodeID := nodeID, att_LeaseToken := lease, att_LeaseExpiresAt := Some (usec expires)\<rparr>))
   (tx_seq (pg_appendEvent (rc_id r) (att_ID a) ''attempt.leased'' (GoVal (JObj [(''lease_expires_at'', JTime expires), (''node_id'', JStr nodeID)])))
      (tx_return \<lparr>as_RunID = rc_id r, as_AttemptID = att_ID a, as_LeaseToken = lease, as_LeaseExpiresAt = expires, as_Request = rc_request r\<rparr>)))))"

fun claim_first :: "('v, 'c) semver \<Rightarrow> Node \<Rightarrow> string \<Rightarrow> duration \<Rightarrow> string list \<Rightarrow> Assignment tx" where
  "claim_first sv node nodeID leaseTTL [] = tx_error ErrNoAssignment"
| "claim_first sv node nodeID leaseTTL (runID # candidates) =
    tx_bind (sql_query (lock_candidate runID)) (\<lambda>row. case row of
       None \<Rightarrow> claim_first sv node nodeID leaseTTL candidates
     | Some (r, a) \<Rightarrow>
       if \<not> nodeMatches sv node (rc_request r) then claim_first sv node nodeID leaseTTL candidates
       else lease_row nodeID leaseTTL r (ac_attempt a))"

definition pg_Claim :: "('v, 'c) semver \<Rightarrow> string \<Rightarrow> duration \<Rightarrow> database \<Rightarrow> database \<times> Assignment result" where
  "pg_Claim sv nodeID leaseTTL = transaction
    (tx_bind (sql_query (pg_node nodeID)) (\<lambda>row. case row of
       None \<Rightarrow> tx_error ErrNotFound
     | Some node \<Rightarrow>
       if node_Active node \<ge> reg_Capacity (node_Registration node) then tx_error ErrNoAssignment
       else tx_bind (sql_query claim_candidates) (claim_first sv node nodeID leaseTTL)))"

definition pg_Renew :: "Assignment \<Rightarrow> duration \<Rightarrow> database \<Rightarrow> database \<times> LeaseUpdate result" where
  "pg_Renew assignment leaseTTL = transaction
    (tx_bind (sql_query (\<lambda>e t. pg_run (as_RunID assignment) t)) (\<lambda>row. case row of
       None \<Rightarrow> tx_error ErrNotFound
     | Some run \<Rightarrow> tx_bind tx_now (\<lambda>now.
         let a = run_Attempt run in
         if att_ID a \<noteq> as_AttemptID assignment \<or> as_LeaseToken assignment = [] \<or> att_LeaseToken a \<noteq> as_LeaseToken assignment \<or>
            (case att_LeaseExpiresAt a of None \<Rightarrow> True | Some x \<Rightarrow> x \<le> now)
         then tx_error ErrInvalidLease
         else if att_Status a \<noteq> AttemptLeased \<and> att_Status a \<noteq> AttemptRunning then tx_error ErrInvalidTransition
         else let expires = now + leaseTTL in
           tx_seq (update_attempt (att_ID a) (\<lambda>a. a\<lparr>att_LeaseExpiresAt := Some (usec expires)\<rparr>))
             (tx_return \<lparr>lu_LeaseExpiresAt = expires, lu_CancelRequested = (run_CancelRequestedAt run \<noteq> None), lu_CancelReason = run_CancelReason run\<rparr>))))"

section \<open>Reconciliation\<close>

definition overdue_rows :: "time \<Rightarrow> int \<Rightarrow> pg_tx \<Rightarrow> tables \<Rightarrow> string list" where
  "overdue_rows now limit e t =
    take (nat limit) (map (rc_id \<circ> fst) (sort_key ((\<lambda>r. case rc_deadline_at r of None \<Rightarrow> 0 | Some x \<Rightarrow> x) \<circ> fst) (sort_key (rc_id \<circ> fst)
      (filter (\<lambda>(r, a). (case rc_deadline_at r of None \<Rightarrow> False | Some x \<Rightarrow> x \<le> usec now) \<and> rc_cancel_requested_at r = None \<and>
         (rc_status r = RunQueued \<or> rc_status r = RunRunning) \<and> \<not> pt_locked e (rc_id r)) (run_join t)))))"

definition negative_limit :: error where
  "negative_limit = errors_New ''LIMIT must not be negative''"

fun cancel_overdue :: "time \<Rightarrow> string list \<Rightarrow> int \<Rightarrow> int tx" where
  "cancel_overdue now [] processed = tx_return processed"
| "cancel_overdue now (runID # runIDs) processed =
    tx_bind (sql_query (\<lambda>e t. pg_run runID t)) (\<lambda>row. case row of
       None \<Rightarrow> tx_error (errors_New ''no rows in result set'')
     | Some run \<Rightarrow> tx_seq (requestCancelTx run \<lparr>cq_Reason = ''run timeout exceeded'', cq_RequestedBy = ''relay''\<rparr> now)
         (cancel_overdue now runIDs (processed + 1)))"

definition expired_rows :: "time \<Rightarrow> int \<Rightarrow> pg_tx \<Rightarrow> tables \<Rightarrow> (run_row \<times> attempt_row) list" where
  "expired_rows now remaining e t =
    take (nat remaining) (sort_key ((\<lambda>row. case att_LeaseExpiresAt (ac_attempt row) of None \<Rightarrow> 0 | Some x \<Rightarrow> x) \<circ> snd) (sort_key (rc_id \<circ> fst)
      (filter (\<lambda>(r, row). let a = ac_attempt row in
         (rc_status r = RunRunning \<and> att_Status a = AttemptRunning \<or>
          rc_status r = RunCancelling \<and> (att_Status a = AttemptRunning \<or> att_Status a = AttemptLeased)) \<and>
         (case att_LeaseExpiresAt a of None \<Rightarrow> False | Some x \<Rightarrow> x \<le> usec now) \<and> \<not> pt_locked e (rc_id r)) (run_join t))))"

definition lose_attempt :: "time \<Rightarrow> run_row \<Rightarrow> Attempt \<Rightarrow> unit tx" where
  "lose_attempt now r a =
    tx_seq (update_attempt (att_ID a) (\<lambda>a. a\<lparr>att_Status := AttemptLost, att_CompletedAt := Some (usec now)\<rparr>))
   (tx_seq (pg_appendEvent (rc_id r) (att_ID a) ''attempt.lost'' (GoVal (str_obj [(''node_id'', att_NodeID a), (''reason'', ''lease_expired'')])))
      (if att_Number a \<ge> rp_MaxAttempts (rq_Retry (rc_request r)) then
         tx_seq (update_run (rc_id r) (\<lambda>r. r\<lparr>rc_status := RunFailed, rc_error := ''attempt lease expired'', rc_completed_at := Some (usec now)\<rparr>))
           (pg_appendEvent (rc_id r) (att_ID a) ''run.failed'' (GoVal (str_obj [(''error'', ''attempt lease expired'')])))
       else
         tx_bind (pg_newID ''attempt'') (\<lambda>nextID.
         let available = now + retryBackoff (rq_Retry (rc_request r)); number = att_Number a + 1 in
         tx_seq (insert_attempt (rc_id r) (\<lambda>e. zero_Attempt\<lparr>att_ID := nextID, att_Number := number, att_Status := AttemptQueued, att_AvailableAt := Some (usec available)\<rparr>))
        (tx_seq (update_run (rc_id r) (\<lambda>r. r\<lparr>rc_status := RunQueued, rc_current_attempt_id := nextID, rc_error := [], rc_started_at := None, rc_completed_at := None\<rparr>))
           (pg_appendEvent (rc_id r) nextID ''attempt.queued''
              (GoVal (JObj [(''available_at'', JTime available), (''number'', JNum (Itoa number)), (''reason'', JStr ''retry'')])))))))"

fun recover_expired :: "time \<Rightarrow> (run_row \<times> attempt_row) list \<Rightarrow> int \<Rightarrow> int tx" where
  "recover_expired now [] processed = tx_return processed"
| "recover_expired now ((r, a) # expired) processed =
    (if rc_status r = RunCancelling then
       tx_bind (sql_query (\<lambda>e t. pg_run (rc_id r) t)) (\<lambda>row. case row of
          None \<Rightarrow> tx_error (errors_New ''no rows in result set'')
        | Some run \<Rightarrow> tx_seq (finalizeCancellationTx run now) (recover_expired now expired (processed + 1)))
     else tx_seq (lose_attempt now r (ac_attempt a)) (recover_expired now expired (processed + 1)))"

definition reconcile_tx :: "time \<Rightarrow> int \<Rightarrow> int tx" where
  "reconcile_tx now limit =
    (if limit < 0 then tx_error negative_limit
     else tx_bind (sql_query (overdue_rows now limit)) (\<lambda>runIDs.
          tx_bind (cancel_overdue now runIDs 0) (\<lambda>processed.
            let remaining = limit - processed in
            if remaining \<le> 0 then tx_return processed
            else tx_bind (sql_query (expired_rows now remaining)) (\<lambda>expired. recover_expired now expired processed))))"

definition pg_Reconcile :: "time \<Rightarrow> int \<Rightarrow> database \<Rightarrow> database \<times> int result" where
  "pg_Reconcile now limit = transaction (reconcile_tx now limit)"

section \<open>Cancellation\<close>

definition pg_CancelRun :: "string \<Rightarrow> CancelRequest \<Rightarrow> database \<Rightarrow> database \<times> Run result" where
  "pg_CancelRun runID request d =
    (case transaction
        (tx_bind (sql_query (\<lambda>e t. pg_run runID t)) (\<lambda>row. case row of
           None \<Rightarrow> tx_error ErrNotFound
         | Some run \<Rightarrow> tx_bind tx_now (requestCancelTx run request))) d of
       (d, Inl err) \<Rightarrow> (d, Inl err)
     | (d, Inr _) \<Rightarrow> pg_GetRun runID d)"

definition pg_AcknowledgeCancellation :: "Assignment \<Rightarrow> database \<Rightarrow> database \<times> unit result" where
  "pg_AcknowledgeCancellation assignment = pg_transition assignment (\<lambda>run.
     if run_Status run = RunCancelled then tx_return ()
     else if run_Status run \<noteq> RunCancelling then tx_error ErrInvalidTransition
     else tx_bind tx_now (finalizeCancellationTx run))"

section \<open>Execution\<close>

definition start_tx :: "Run \<Rightarrow> time \<Rightarrow> unit tx" where
  "start_tx run now =
    tx_seq (update_run (run_ID run) (\<lambda>r. r\<lparr>rc_status := RunRunning, rc_started_at := Some (usec now)\<rparr>))
   (tx_seq (update_attempt (att_ID (run_Attempt run)) (\<lambda>a. a\<lparr>att_Status := AttemptRunning, att_StartedAt := Some (usec now)\<rparr>))
   (tx_seq (pg_appendEvent (run_ID run) (att_ID (run_Attempt run)) ''attempt.started'' (GoVal (str_obj [(''node_id'', att_NodeID (run_Attempt run))])))
      (pg_appendEvent (run_ID run) (att_ID (run_Attempt run)) ''run.started'' GoNil)))"

definition pg_Start :: "Assignment \<Rightarrow> database \<Rightarrow> database \<times> unit result" where
  "pg_Start assignment = pg_transition assignment (\<lambda>run.
     if run_Status run = RunCancelling then tx_error ErrRunCancelled
     else if att_Status (run_Attempt run) \<noteq> AttemptLeased then tx_error ErrInvalidTransition
     else case att_LeaseExpiresAt (run_Attempt run) of
       None \<Rightarrow> tx_bind tx_now (start_tx run)
     | Some expires \<Rightarrow> tx_bind tx_now (\<lambda>now. if expires \<le> now then tx_error ErrInvalidLease else tx_bind tx_now (start_tx run)))"

definition pg_AppendEvent :: "string \<Rightarrow> string \<Rightarrow> string \<Rightarrow> string \<Rightarrow> goany \<Rightarrow> string list \<Rightarrow> database \<Rightarrow> database \<times> unit result" where
  "pg_AppendEvent runID attemptID lease eventType data eventIDs =
    pg_transition \<lparr>as_RunID = runID, as_AttemptID = attemptID, as_LeaseToken = lease, as_LeaseExpiresAt = 0, as_Request = zero_Request\<rparr> (\<lambda>run.
      if att_Status (run_Attempt run) \<noteq> AttemptRunning then tx_error ErrInvalidTransition
      else let eventID = EventIdentity attemptID lease eventIDs in
        if eventID = [] then pg_appendEvent runID attemptID eventType data
        else tx_bind (sql_query (\<lambda>e t. first_row (filter (\<lambda>old. ev_ID old = eventID) (tb_events t)))) (\<lambda>row. case row of
           Some old \<Rightarrow> (case SameEvent (ev_Type old) (ev_Data old) eventType data of None \<Rightarrow> tx_return () | Some err \<Rightarrow> tx_error err)
         | None \<Rightarrow> (case json_Marshal data of Inl err \<Rightarrow> tx_error err
             | Inr encoded \<Rightarrow> insert_event_row eventID runID attemptID (next_sequence runID) eventType (Some encoded))))"

definition complete_tx :: "Run \<Rightarrow> Result \<Rightarrow> unit tx" where
  "complete_tx run result =
    tx_bind tx_now (\<lambda>now. tx_bind tx_env (\<lambda>e.
    tx_seq (update_run (run_ID run) (\<lambda>r. r\<lparr>rc_status := RunSucceeded, rc_result := Some (jsonb_Result e result), rc_completed_at := Some (usec now)\<rparr>))
   (tx_seq (update_attempt (att_ID (run_Attempt run)) (\<lambda>a. a\<lparr>att_Status := AttemptSucceeded, att_CompletedAt := Some (usec now)\<rparr>))
   (tx_seq (pg_appendEvent (run_ID run) (att_ID (run_Attempt run)) ''attempt.succeeded'' GoNil)
      (pg_appendEvent (run_ID run) (att_ID (run_Attempt run)) ''run.succeeded'' (GoVal (Result_json result)))))))"

definition pg_Complete :: "Assignment \<Rightarrow> Result \<Rightarrow> database \<Rightarrow> database \<times> unit result" where
  "pg_Complete assignment result = pg_transition assignment (\<lambda>run.
     if run_Status run = RunSucceeded \<and> att_Status (run_Attempt run) = AttemptSucceeded then
       (if (case run_Result run of None \<Rightarrow> False | Some r \<Rightarrow> SameValue (Result_json r) (Result_json result)) then tx_return ()
        else tx_error (wrap ErrInvalidTransition ''completion result differs from the committed result''))
     else if run_Status run = RunCancelling then tx_error ErrRunCancelled
     else if att_Status (run_Attempt run) \<noteq> AttemptRunning then tx_error ErrInvalidTransition
     else complete_tx run result)"

definition fail_tx :: "Run \<Rightarrow> string \<Rightarrow> unit tx" where
  "fail_tx run cause =
    tx_bind tx_now (\<lambda>now.
    let data = GoVal (str_obj [(''error'', cause)]) in
    tx_seq (update_run (run_ID run) (\<lambda>r. r\<lparr>rc_status := RunFailed, rc_error := cause, rc_completed_at := Some (usec now)\<rparr>))
   (tx_seq (update_attempt (att_ID (run_Attempt run)) (\<lambda>a. a\<lparr>att_Status := AttemptFailed, att_CompletedAt := Some (usec now)\<rparr>))
   (tx_seq (pg_appendEvent (run_ID run) (att_ID (run_Attempt run)) ''attempt.failed'' data)
      (pg_appendEvent (run_ID run) (att_ID (run_Attempt run)) ''run.failed'' data))))"

definition pg_Fail :: "Assignment \<Rightarrow> string \<Rightarrow> database \<Rightarrow> database \<times> unit result" where
  "pg_Fail assignment cause = pg_transition assignment (\<lambda>run.
     if run_Status run = RunFailed \<and> att_Status (run_Attempt run) = AttemptFailed then
       (if run_Error run = cause then tx_return ()
        else tx_error (wrap ErrInvalidTransition ''failure cause differs from the committed cause''))
     else if run_Status run = RunCancelling then tx_error ErrRunCancelled
     else if att_Status (run_Attempt run) \<noteq> AttemptRunning \<and> att_Status (run_Attempt run) \<noteq> AttemptLeased then tx_error ErrInvalidTransition
     else fail_tx run cause)"

section \<open>Queries\<close>

definition run_exists :: "string \<Rightarrow> tables \<Rightarrow> bool" where
  "run_exists runID t \<longleftrightarrow> (\<exists>r \<in> set (tb_runs t). rc_id r = runID)"

definition pg_EventsAfter :: "string \<Rightarrow> int \<Rightarrow> database \<Rightarrow> database \<times> Event list result" where
  "pg_EventsAfter runID after d =
    (case transaction (sql_query (\<lambda>e t. run_exists runID t)) d of
       (d, Inl err) \<Rightarrow> (d, Inl err)
     | (d, Inr False) \<Rightarrow> (d, Inl ErrNotFound)
     | (d, Inr True) \<Rightarrow> transaction (sql_query (\<lambda>e t. sort_key ev_Sequence (filter (\<lambda>v. ev_RunID v = runID \<and> ev_Sequence v > after) (tb_events t)))) d)"

definition pg_Events :: "string \<Rightarrow> database \<Rightarrow> database \<times> Event list result" where
  "pg_Events runID = pg_EventsAfter runID 0"

definition pg_ListRuns :: "string \<Rightarrow> string \<Rightarrow> string \<Rightarrow> int \<Rightarrow> database \<Rightarrow> database \<times> Run list result" where
  "pg_ListRuns tenant project session limit =
    (let limit = (if limit \<le> 0 \<or> limit > 200 then 50 else limit) in
     transaction (sql_query (\<lambda>e t. take (nat limit) (sort_key (\<lambda>run. - run_CreatedAt run)
       (runSelect (\<lambda>r. (tenant = [] \<or> rc_tenant_id r = tenant) \<and> (project = [] \<or> rc_project_id r = project) \<and> (session = [] \<or> rc_session_id r = session)) t)))))"

definition pg_Attempts :: "string \<Rightarrow> database \<Rightarrow> database \<times> Attempt list result" where
  "pg_Attempts runID = transaction
    (tx_bind (sql_query (\<lambda>e t. sort_key att_Number (map ac_attempt (filter (\<lambda>a. ac_run_id a = runID) (tb_attempts t))))) (\<lambda>values.
       if values = [] then tx_error ErrNotFound else tx_return values))"

section \<open>Artifacts\<close>

definition pg_AddArtifact :: "Assignment \<Rightarrow> Artifact \<Rightarrow> database \<Rightarrow> database \<times> unit result" where
  "pg_AddArtifact assignment artifact = pg_transition assignment (\<lambda>run.
     if att_Status (run_Attempt run) \<noteq> AttemptRunning then tx_error ErrInvalidTransition
     else tx_seq (statement (\<lambda>e t.
            if \<exists>f \<in> set (tb_artifacts t). art_ID (fc_artifact f) = art_ID artifact then (t, Inl unique_violation)
            else (t\<lparr>tb_artifacts := tb_artifacts t @ [\<lparr>fc_artifact = artifact\<lparr>art_RunID := run_ID run\<rparr>,
                    fc_attempt_id = att_ID (run_Attempt run), fc_created_at = pt_now e\<rparr>]\<rparr>, Inr ())))
          (pg_appendEvent (run_ID run) (att_ID (run_Attempt run)) ''artifact.created'' (GoVal (Artifact_json artifact))))"

definition pg_Artifacts :: "string \<Rightarrow> database \<Rightarrow> database \<times> Artifact list result" where
  "pg_Artifacts runID d =
    (case transaction (sql_query (\<lambda>e t. run_exists runID t)) d of
       (d, Inl err) \<Rightarrow> (d, Inl err)
     | (d, Inr False) \<Rightarrow> (d, Inl ErrNotFound)
     | (d, Inr True) \<Rightarrow> transaction (sql_query (\<lambda>e t. map (\<lambda>f. (fc_artifact f)\<lparr>art_RunID := []\<rparr>)
         (sort_key fc_created_at (sort_key (art_ID \<circ> fc_artifact) (filter (\<lambda>f. art_RunID (fc_artifact f) = runID) (tb_artifacts t)))))) d)"

definition pg_Artifact :: "string \<Rightarrow> database \<Rightarrow> database \<times> Artifact result" where
  "pg_Artifact artifactID = transaction
    (tx_bind (sql_query (\<lambda>e t. first_row (filter (\<lambda>f. art_ID (fc_artifact f) = artifactID) (tb_artifacts t)))) (\<lambda>row. case row of
       None \<Rightarrow> tx_error ErrNotFound | Some f \<Rightarrow> tx_return (fc_artifact f)))"

section \<open>Capability calls\<close>

definition insert_call :: "string \<Rightarrow> Run \<Rightarrow> string \<Rightarrow> string \<Rightarrow> CapabilityRequest \<Rightarrow> unit tx" where
  "insert_call callID run key hash request = statement (\<lambda>e t.
     if \<exists>c \<in> set (tb_calls t). cl_run_id c = run_ID run \<and> cl_idempotency_key c = key then (t, Inr ())
     else if \<exists>c \<in> set (tb_calls t). cl_id c = callID then (t, Inl unique_violation)
     else (t\<lparr>tb_calls := tb_calls t @ [\<lparr>cl_id = callID, cl_run_id = run_ID run, cl_attempt_id = att_ID (run_Attempt run), cl_idempotency_key = key,
            cl_request_hash = hash, cl_request = request\<lparr>cr_Input := map_option (pt_jsonb e) (cr_Input request)\<rparr>,
            cl_status = ''pending'', cl_result = None, cl_error = []\<rparr>]\<rparr>, Inr ()))"

definition reserve_tx :: "string \<Rightarrow> string \<Rightarrow> CapabilityRequest \<Rightarrow> Run \<Rightarrow> CapabilityReservation tx" where
  "reserve_tx key hash request run =
    tx_bind (pg_newID ''call'') (\<lambda>callID.
    tx_seq (insert_call callID run key hash request)
   (tx_bind (sql_query (\<lambda>e t. first_row (filter (\<lambda>c. cl_run_id c = run_ID run \<and> cl_idempotency_key c = key) (tb_calls t)))) (\<lambda>row. case row of
       None \<Rightarrow> tx_error (errors_New ''no rows in result set'')
     | Some c \<Rightarrow>
       if cl_request_hash c \<noteq> hash then tx_error ErrIdempotencyConflict
       else tx_return \<lparr>rsv_CallID = cl_id c, rsv_Execute = (cl_status c = ''pending'' \<and> cl_id c = callID),
              rsv_Result = (if cl_status c = ''succeeded'' then cl_result c else None), rsv_Error = cl_error c\<rparr>)))"

definition pg_ReserveCapability :: "Assignment \<Rightarrow> string \<Rightarrow> string \<Rightarrow> CapabilityRequest \<Rightarrow> database \<Rightarrow> database \<times> CapabilityReservation result" where
  "pg_ReserveCapability assignment key hash request = pg_transition assignment (reserve_tx key hash request)"

definition finish_tx :: "CapabilityReservation \<Rightarrow> CapabilityResult \<Rightarrow> string \<Rightarrow> Run \<Rightarrow> unit tx" where
  "finish_tx reservation result cause run =
    (let status = (if cause \<noteq> [] then ''failed'' else ''succeeded'');
         pending = (\<lambda>c. cl_id c = rsv_CallID reservation \<and> cl_run_id c = run_ID run \<and> cl_status c = ''pending'')
     in tx_bind (statement (\<lambda>e t.
          (t\<lparr>tb_calls := map (\<lambda>c. if pending c then c\<lparr>cl_status := status,
               cl_result := Some (result\<lparr>cres_Output := map_option (pt_jsonb e) (cres_Output result)\<rparr>), cl_error := cause\<rparr> else c) (tb_calls t)\<rparr>,
           Inr (length (filter pending (tb_calls t)))))) (\<lambda>affected.
          if affected = 0 then tx_error ErrInvalidTransition
          else pg_appendEvent (run_ID run) (att_ID (run_Attempt run)) ''capability.recorded''
            (GoVal (str_obj [(''call_id'', rsv_CallID reservation), (''status'', status)]))))"

definition pg_FinishCapability :: "Assignment \<Rightarrow> CapabilityReservation \<Rightarrow> CapabilityResult \<Rightarrow> string \<Rightarrow> database \<Rightarrow> database \<times> unit result" where
  "pg_FinishCapability assignment reservation result cause = pg_transition assignment (finish_tx reservation result cause)"

section \<open>Interactions\<close>

definition create_tx :: "InteractionRequest \<Rightarrow> Run \<Rightarrow> Interaction tx" where
  "create_tx request run =
    (if att_Status (run_Attempt run) \<noteq> AttemptRunning then tx_error ErrInvalidTransition
     else tx_bind (pg_newID ''interaction'') (\<lambda>interactionID. tx_bind tx_now (\<lambda>now.
       let v = \<lparr>ia_ID = interactionID, ia_RunID = run_ID run, ia_AttemptID = att_ID (run_Attempt run), ia_Kind = ir_Kind request,
             ia_State = ''pending'', ia_Prompt = ir_Prompt request, ia_Data = ir_Data request, ia_Response = None, ia_CreatedAt = now, ia_ResolvedAt = None\<rparr> in
       tx_seq (statement (\<lambda>e t.
           if \<exists>i \<in> set (tb_interactions t). ia_ID i = interactionID then (t, Inl unique_violation)
           else (t\<lparr>tb_interactions := tb_interactions t @ [v\<lparr>ia_Data := map_option (pt_jsonb e) (ia_Data v), ia_CreatedAt := usec now\<rparr>]\<rparr>, Inr ())))
      (tx_seq (pg_appendEvent (run_ID run) (att_ID (run_Attempt run)) ''interaction.requested'' (GoVal (Interaction_json v)))
         (tx_return v)))))"

definition pg_CreateInteraction :: "Assignment \<Rightarrow> InteractionRequest \<Rightarrow> database \<Rightarrow> database \<times> Interaction result" where
  "pg_CreateInteraction assignment request = pg_transition assignment (create_tx request)"

definition pg_GetInteraction :: "Assignment \<Rightarrow> string \<Rightarrow> database \<Rightarrow> database \<times> Interaction result" where
  "pg_GetInteraction assignment interactionID = pg_transition assignment (\<lambda>run.
     tx_bind (sql_query (\<lambda>e t. first_row (filter (\<lambda>i. ia_ID i = interactionID \<and> ia_RunID i = run_ID run) (tb_interactions t)))) (\<lambda>row. case row of
       None \<Rightarrow> tx_error ErrNotFound | Some v \<Rightarrow> tx_return v))"

definition pg_Interactions :: "string \<Rightarrow> database \<Rightarrow> database \<times> Interaction list result" where
  "pg_Interactions runID = transaction (sql_query (\<lambda>e t. sort_key ia_CreatedAt (filter (\<lambda>i. ia_RunID i = runID) (tb_interactions t))))"

text \<open>\<open>relay_interactions i JOIN relay_runs r ON r.id = i.run_id\<close>, within the scope.\<close>

definition interaction_in_scope :: "string \<Rightarrow> string \<Rightarrow> string \<Rightarrow> tables \<Rightarrow> Interaction option" where
  "interaction_in_scope interactionID tenant project t =
    first_row (filter (\<lambda>i. ia_ID i = interactionID \<and> (\<exists>r \<in> set (tb_runs t). rc_id r = ia_RunID i \<and>
      (tenant = [] \<or> rc_tenant_id r = tenant) \<and> (project = [] \<or> rc_project_id r = project))) (tb_interactions t))"

definition resolve_tx :: "string \<Rightarrow> json option \<Rightarrow> string \<Rightarrow> string \<Rightarrow> Interaction tx" where
  "resolve_tx interactionID response tenant project =
    tx_bind (sql_query (\<lambda>e t. interaction_in_scope interactionID tenant project t)) (\<lambda>row. case row of
       None \<Rightarrow> tx_error ErrNotFound
     | Some v \<Rightarrow>
       if ia_State v \<noteq> ''pending'' then tx_error ErrInvalidTransition
       else tx_bind tx_now (\<lambda>now.
         tx_seq (sql_exec (\<lambda>e t. t\<lparr>tb_interactions := map (\<lambda>i. if ia_ID i = interactionID
             then i\<lparr>ia_State := ''resolved'', ia_Response := map_option (pt_jsonb e) response, ia_ResolvedAt := Some (usec now)\<rparr> else i) (tb_interactions t)\<rparr>))
        (tx_seq (pg_appendEvent (ia_RunID v) (ia_AttemptID v) ''interaction.resolved'' (GoVal (str_obj [(''interaction_id'', interactionID)])))
           (tx_return (v\<lparr>ia_State := ''resolved'', ia_Response := response, ia_ResolvedAt := Some now\<rparr>)))))"

definition pg_ResolveInteraction :: "string \<Rightarrow> json option \<Rightarrow> string \<Rightarrow> string \<Rightarrow> database \<Rightarrow> database \<times> Interaction result" where
  "pg_ResolveInteraction interactionID response tenant project = transaction (resolve_tx interactionID response tenant project)"

end
