(* ===== verification/Postgres_Rows.thy ===== *)
theory Postgres_Rows
  imports Postgres_Store Memory_Lifecycle
begin

text \<open>
  What the transactions of the PostgreSQL storage do to the rows. \<open>pg_step\<close> lists the atomic changes of the tables: a run and its
  current attempt change together, a lost attempt is followed by a new one, a run is inserted with its first attempt,
  an event is appended, another table changes. Every transaction that commits is a sequence of
  such steps, whatever clock and identifiers it reads; the invariant \<open>pg_inv\<close> and the laws of finished runs are proved once for the steps.
\<close>

section \<open>Transactions that succeed\<close>

text \<open>\<open>succeeds m e t t' x\<close>: the body \<open>m\<close> can take the tables \<open>t\<close> to \<open>t'\<close> and return \<open>x\<close>.\<close>

definition succeeds :: "'a tx \<Rightarrow> pg_tx \<Rightarrow> tables \<Rightarrow> tables \<Rightarrow> 'a \<Rightarrow> bool" where
  "succeeds m e t t' x \<longleftrightarrow> (\<exists>d d'. db_tables d = t \<and> m e d = (d', Inr x) \<and> db_tables d' = t')"

named_theorems tx_elims

lemma succeeds_return [tx_elims]: "succeeds (tx_return x) e t t' y \<Longrightarrow> (t' = t \<Longrightarrow> y = x \<Longrightarrow> P) \<Longrightarrow> P"
  by (auto simp: succeeds_def tx_return_def)

lemma succeeds_error [tx_elims]: "succeeds (tx_error err) e t t' y \<Longrightarrow> P"
  by (auto simp: succeeds_def tx_error_def)

lemma succeeds_bind [tx_elims]:
  assumes "succeeds (tx_bind m k) e t t' y"
  obtains t1 x where "succeeds m e t t1 x" "succeeds (k x) e t1 t' y"
proof -
  from assms obtain d d' where d: "db_tables d = t" "tx_bind m k e d = (d', Inr y)" "db_tables d' = t'" by (auto simp: succeeds_def)
  obtain d1 r where m: "m e d = (d1, r)" by (cases "m e d")
  with d(2) obtain x where "r = Inr x" "k x e d1 = (d', Inr y)" by (cases r) (auto simp: tx_bind_def)
  with d m that [of "db_tables d1" x] show thesis by (auto simp: succeeds_def)
qed

lemma succeeds_seq [tx_elims]:
  assumes "succeeds (tx_seq m k) e t t' y"
  obtains t1 where "succeeds m e t t1 ()" "succeeds k e t1 t' y"
  using assms unfolding tx_seq_def by (auto elim: succeeds_bind)

lemma succeeds_now [tx_elims]: "succeeds tx_now e t t' x \<Longrightarrow> (t' = t \<Longrightarrow> P) \<Longrightarrow> P"
  by (auto simp: succeeds_def tx_now_def time_Now_def)

lemma succeeds_env [tx_elims]: "succeeds tx_env e t t' x \<Longrightarrow> (t' = t \<Longrightarrow> x = e \<Longrightarrow> P) \<Longrightarrow> P"
  by (auto simp: succeeds_def tx_env_def)

lemma succeeds_newID [tx_elims]: "succeeds (pg_newID prefix) e t t' x \<Longrightarrow> (t' = t \<Longrightarrow> x \<noteq> [] \<Longrightarrow> P) \<Longrightarrow> P"
  by (auto simp: succeeds_def pg_newID_def newControlPlaneID_def rand_Read_def id_text_def)

lemma succeeds_statement [tx_elims]:
  assumes "succeeds (statement f) e t t' x"
  obtains "f e t = (t', Inr x)"
proof -
  from assms obtain d d' where "db_tables d = t" "statement f e d = (d', Inr x)" "db_tables d' = t'" by (auto simp: succeeds_def)
  then show thesis by (auto simp: statement_def fault_point_def split: prod.split_asm option.split_asm intro: that)
qed

lemma succeeds_query [tx_elims]: "succeeds (sql_query f) e t t' x \<Longrightarrow> (t' = t \<Longrightarrow> x = f e t \<Longrightarrow> P) \<Longrightarrow> P"
  by (auto simp: sql_query_def elim!: succeeds_statement)

lemma succeeds_exec [tx_elims]: "succeeds (sql_exec f) e t t' x \<Longrightarrow> (t' = f e t \<Longrightarrow> P) \<Longrightarrow> P"
  by (auto simp: sql_exec_def elim!: succeeds_statement)

lemma succeeds_wrap [tx_elims]:
  assumes "succeeds (tx_wrap msg m) e t t' x"
  obtains "succeeds m e t t' x"
proof -
  from assms obtain d d' where d: "db_tables d = t" "tx_wrap msg m e d = (d', Inr x)" "db_tables d' = t'" by (auto simp: succeeds_def)
  obtain d1 r where m: "m e d = (d1, r)" by (cases "m e d")
  with d(2) have "r = Inr x" "d1 = d'" by (cases r; simp add: tx_wrap_def)+
  with d m that show thesis by (auto simp: succeeds_def)
qed

lemma transaction_result:
  assumes "transaction body d = (d', r)"
  obtains "db_tables d' = db_tables d" "\<exists>err. r = Inl err"
  | e x where "succeeds body e (db_tables d) (db_tables d') x" "r = Inr x \<or> (\<exists>err. r = Inl err)"
proof -
  let ?e = "db_tx d (db_transactions d)"
  let ?d = "d\<lparr>db_statements := Suc (db_statements d), db_transactions := Suc (db_transactions d)\<rparr>"
  show thesis
  proof (cases "db_fault d (db_statements d)")
    case (Some err)
    with assms have "db_tables d' = db_tables d" "\<exists>err. r = Inl err" by (auto simp: transaction_def fault_point_def)
    then show thesis by (rule that(1))
  next
    case None
    obtain d1 r1 where body: "body ?e ?d = (d1, r1)" by (cases "body ?e ?d")
    show thesis
    proof (cases r1)
      case (Inl err)
      with assms None body have "db_tables d' = db_tables d" "\<exists>err. r = Inl err" by (auto simp: transaction_def fault_point_def)
      then show thesis by (rule that(1))
    next
      case (Inr x)
      with body have ok: "succeeds body ?e (db_tables d) (db_tables d1) x"
        unfolding succeeds_def by (intro exI [of _ ?d] exI [of _ d1]) simp
      from assms None body Inr consider "db_tables d' = db_tables d1" "r = Inr x \<or> (\<exists>err. r = Inl err)"
        | "db_tables d' = db_tables d" "\<exists>err. r = Inl err"
        by (auto simp: transaction_def fault_point_def split: option.splits if_splits)
      then show thesis using ok that by cases auto
    qed
  qed
qed

lemma transaction_Inr:
  assumes "transaction body d = (d', Inr x)"
  obtains e where "succeeds body e (db_tables d) (db_tables d') x"
  using assms by (auto elim: transaction_result)

section \<open>The invariant\<close>

definition run_attempts :: "string \<Rightarrow> tables \<Rightarrow> Attempt list" where
  "run_attempts runID t = map ac_attempt (filter (\<lambda>a. ac_run_id a = runID) (tb_attempts t))"

definition run_events :: "string \<Rightarrow> tables \<Rightarrow> Event list" where
  "run_events runID t = filter (\<lambda>v. ev_RunID v = runID) (tb_events t)"

text \<open>A run has the attempts 1, 2, ... within its policy; the last one is current, the others are lost, and the row agrees with it.\<close>

definition row_ok :: "tables \<Rightarrow> run_row \<Rightarrow> bool" where
  "row_ok t r \<longleftrightarrow> (let as = run_attempts (rc_id r) t in
     as \<noteq> [] \<and> map att_Number as = map (\<lambda>i. int i + 1) [0..<length as] \<and> int (length as) \<le> max_attempts (rc_request r) \<and>
     att_ID (last as) = rc_current_attempt_id r \<and> (\<forall>a \<in> set (butlast as). att_Status a = AttemptLost) \<and>
     run_ok (scanRun r (last as)))"

definition rows_inv :: "tables \<Rightarrow> bool" where
  "rows_inv t \<longleftrightarrow> distinct (map rc_id (tb_runs t)) \<and> distinct (map row_scope (tb_runs t)) \<and>
     distinct (map (att_ID \<circ> ac_attempt) (tb_attempts t)) \<and> (\<forall>a \<in> set (tb_attempts t). run_exists (ac_run_id a) t) \<and>
     (\<forall>r \<in> set (tb_runs t). row_ok t r)"

definition log_inv :: "tables \<Rightarrow> bool" where
  "log_inv t \<longleftrightarrow> distinct (map ev_ID (tb_events t)) \<and> (\<forall>v \<in> set (tb_events t). run_exists (ev_RunID v) t) \<and>
     (\<forall>runID. \<forall>i < length (run_events runID t). ev_Sequence (run_events runID t ! i) = int i + 1)"

definition pg_inv :: "tables \<Rightarrow> bool" where
  "pg_inv t \<longleftrightarrow> rows_inv t \<and> log_inv t \<and> distinct (map (reg_ID \<circ> nc_registration) (tb_nodes t)) \<and>
     (\<forall>n \<in> set (tb_nodes t). reg_ID (nc_registration n) \<noteq> [] \<and> reg_Capacity (nc_registration n) > 0)"

section \<open>Steps\<close>

definition logged :: "string \<Rightarrow> tables \<Rightarrow> tables \<Rightarrow> bool" where
  "logged runID t t' \<longleftrightarrow> (\<exists>v. t' = t\<lparr>tb_events := tb_events t @ [v]\<rparr> \<and> ev_RunID v = runID \<and> ev_Sequence v = next_sequence runID t \<and>
     ev_ID v \<notin> ev_ID ` set (tb_events t))"

definition set_run :: "string \<Rightarrow> (run_row \<Rightarrow> run_row) \<Rightarrow> tables \<Rightarrow> tables" where
  "set_run runID f t = t\<lparr>tb_runs := map (\<lambda>r. if rc_id r = runID then f r else r) (tb_runs t)\<rparr>"

definition set_attempt :: "string \<Rightarrow> (Attempt \<Rightarrow> Attempt) \<Rightarrow> tables \<Rightarrow> tables" where
  "set_attempt attemptID f t = t\<lparr>tb_attempts := map (\<lambda>a. if att_ID (ac_attempt a) = attemptID then a\<lparr>ac_attempt := f (ac_attempt a)\<rparr> else a) (tb_attempts t)\<rparr>"

definition add_attempt :: "string \<Rightarrow> Attempt \<Rightarrow> tables \<Rightarrow> tables" where
  "add_attempt runID a t = t\<lparr>tb_attempts := tb_attempts t @ [\<lparr>ac_run_id = runID, ac_attempt = a\<rparr>]\<rparr>"

text \<open>The columns that no update touches.\<close>

definition same_keys :: "run_row \<Rightarrow> run_row \<Rightarrow> bool" where
  "same_keys r r' \<longleftrightarrow> rc_id r' = rc_id r \<and> row_scope r' = row_scope r \<and> rc_request r' = rc_request r \<and>
     rc_session_id r' = rc_session_id r \<and> rc_agent_id r' = rc_agent_id r \<and> rc_runtime r' = rc_runtime r \<and> rc_source r' = rc_source r \<and>
     rc_created_at r' = rc_created_at r \<and> rc_deadline_at r' = rc_deadline_at r"

definition attempt_taken :: "string \<Rightarrow> tables \<Rightarrow> bool" where
  "attempt_taken attemptID t \<longleftrightarrow> (\<exists>a \<in> set (tb_attempts t). att_ID (ac_attempt a) = attemptID)"

inductive pg_step :: "tables \<Rightarrow> tables \<Rightarrow> bool" where
  log: "run_exists runID t \<Longrightarrow> logged runID t t' \<Longrightarrow> pg_step t t'"
| change: "r \<in> set (tb_runs t) \<Longrightarrow> run_attempts (rc_id r) t \<noteq> [] \<Longrightarrow> a = last (run_attempts (rc_id r) t) \<Longrightarrow> \<not> terminalRun (rc_status r) \<Longrightarrow>
    same_keys r (f r) \<Longrightarrow> rc_current_attempt_id (f r) = rc_current_attempt_id r \<Longrightarrow>
    att_ID (g a) = att_ID a \<Longrightarrow> att_Number (g a) = att_Number a \<Longrightarrow> run_ok (scanRun (f r) (g a)) \<Longrightarrow>
    pg_step t (set_run (rc_id r) f (set_attempt (att_ID a) g t))"
| retry: "r \<in> set (tb_runs t) \<Longrightarrow> run_attempts (rc_id r) t \<noteq> [] \<Longrightarrow> a = last (run_attempts (rc_id r) t) \<Longrightarrow> \<not> terminalRun (rc_status r) \<Longrightarrow>
    same_keys r (f r) \<Longrightarrow> rc_current_attempt_id (f r) = att_ID b \<Longrightarrow> \<not> attempt_taken (att_ID b) t \<Longrightarrow>
    att_ID (g a) = att_ID a \<Longrightarrow> att_Number (g a) = att_Number a \<Longrightarrow> att_Status (g a) = AttemptLost \<Longrightarrow>
    att_Number b = att_Number a + 1 \<Longrightarrow> att_Number a < max_attempts (rc_request r) \<Longrightarrow> run_ok (scanRun (f r) b) \<Longrightarrow>
    pg_step t (set_run (rc_id r) f (add_attempt (rc_id r) b (set_attempt (att_ID a) g t)))"
| insert: "\<not> run_exists (rc_id r) t \<Longrightarrow> row_scope r \<notin> row_scope ` set (tb_runs t) \<Longrightarrow> rc_current_attempt_id r = att_ID b \<Longrightarrow>
    \<not> attempt_taken (att_ID b) t \<Longrightarrow> att_Number b = 1 \<Longrightarrow> run_ok (scanRun r b) \<Longrightarrow>
    pg_step t (add_attempt (rc_id r) b (t\<lparr>tb_runs := tb_runs t @ [r]\<rparr>))"
| other: "distinct (map (reg_ID \<circ> nc_registration) ns) \<Longrightarrow> (\<forall>n \<in> set ns. reg_ID (nc_registration n) \<noteq> [] \<and> reg_Capacity (nc_registration n) > 0) \<Longrightarrow>
    pg_step t (t\<lparr>tb_migrations := ms, tb_scripts := ss, tb_nodes := ns, tb_artifacts := fs, tb_calls := cs, tb_interactions := ics\<rparr>)"

section \<open>Rows under updates\<close>

lemma row_updates [simp]:
  "tb_runs (set_run i f t) = map (\<lambda>r. if rc_id r = i then f r else r) (tb_runs t)"
  "tb_attempts (set_run i f t) = tb_attempts t" "tb_events (set_run i f t) = tb_events t" "tb_nodes (set_run i f t) = tb_nodes t"
  "tb_runs (set_attempt j g t) = tb_runs t" "tb_events (set_attempt j g t) = tb_events t" "tb_nodes (set_attempt j g t) = tb_nodes t"
  "tb_runs (add_attempt i b t) = tb_runs t" "tb_events (add_attempt i b t) = tb_events t" "tb_nodes (add_attempt i b t) = tb_nodes t"
  by (simp_all add: set_run_def set_attempt_def add_attempt_def)

lemma run_attempts_updates [simp]:
  "run_attempts k (set_run i f t) = run_attempts k t"
  "run_attempts k (set_attempt j g t) = map (\<lambda>a. if att_ID a = j then g a else a) (run_attempts k t)"
  "run_attempts k (add_attempt i b t) = run_attempts k t @ (if k = i then [b] else [])"
  "run_attempts k (t\<lparr>tb_runs := rs\<rparr>) = run_attempts k t" "run_attempts k (t\<lparr>tb_events := es\<rparr>) = run_attempts k t"
  by (auto simp: run_attempts_def set_run_def set_attempt_def add_attempt_def filter_map comp_def intro!: map_cong filter_cong)

lemma run_exists_updates [simp]:
  "(\<And>r. rc_id r = i \<Longrightarrow> rc_id (f r) = i) \<Longrightarrow> run_exists k (set_run i f t) = run_exists k t"
  "run_exists k (set_attempt j g t) = run_exists k t" "run_exists k (add_attempt i b t) = run_exists k t" "run_exists k (t\<lparr>tb_events := es\<rparr>) = run_exists k t"
  by (auto simp: run_exists_def)

lemma attempt_unique:
  assumes "distinct (map (att_ID \<circ> ac_attempt) (tb_attempts t))" "a \<in> set (run_attempts i t)" "b \<in> set (run_attempts j t)" "att_ID a = att_ID b"
  shows "i = j \<and> a = b"
proof -
  from assms(2,3) obtain x y where xy: "x \<in> set (tb_attempts t)" "y \<in> set (tb_attempts t)" "a = ac_attempt x" "b = ac_attempt y"
    "i = ac_run_id x" "j = ac_run_id y" by (auto simp: run_attempts_def)
  with assms(1,4) have "x = y" by (auto simp: distinct_map inj_on_def)
  with xy show ?thesis by simp
qed

lemma run_attempts_distinct: "distinct (map (att_ID \<circ> ac_attempt) (tb_attempts t)) \<Longrightarrow> distinct (map att_ID (run_attempts i t))"
  by (auto simp: run_attempts_def distinct_map_filter)

lemma update_last:
  assumes "distinct (map att_ID as)" "as \<noteq> []"
  shows "map (\<lambda>a. if att_ID a = att_ID (last as) then g a else a) as = butlast as @ [g (last as)]"
proof -
  have "as = butlast as @ [last as]" using assms(2) by simp
  then obtain bs b where "as = bs @ [b]" by blast
  with assms show ?thesis by (auto intro!: map_idI) (metis imageI)
qed

lemma row_ok_frame: "run_attempts (rc_id r) t' = run_attempts (rc_id r) t \<Longrightarrow> row_ok t' r = row_ok t r"
  by (simp add: row_ok_def)

lemma rows_invD:
  assumes "rows_inv t"
  shows "distinct (map rc_id (tb_runs t))" "distinct (map row_scope (tb_runs t))" "distinct (map (att_ID \<circ> ac_attempt) (tb_attempts t))"
    "\<And>a. a \<in> set (tb_attempts t) \<Longrightarrow> run_exists (ac_run_id a) t" "\<And>r. r \<in> set (tb_runs t) \<Longrightarrow> row_ok t r"
  using assms by (auto simp: rows_inv_def)

lemma rows_invI:
  assumes "distinct (map rc_id (tb_runs t))" "distinct (map row_scope (tb_runs t))" "distinct (map (att_ID \<circ> ac_attempt) (tb_attempts t))"
    "\<And>a. a \<in> set (tb_attempts t) \<Longrightarrow> run_exists (ac_run_id a) t" "\<And>r. r \<in> set (tb_runs t) \<Longrightarrow> row_ok t r"
  shows "rows_inv t"
  using assms by (auto simp: rows_inv_def)

lemma same_row: "rows_inv t \<Longrightarrow> r \<in> set (tb_runs t) \<Longrightarrow> r' \<in> set (tb_runs t) \<Longrightarrow> rc_id r = rc_id r' \<Longrightarrow> r = r'"
  by (auto simp: rows_inv_def distinct_map dest: inj_onD)

lemma set_run_image:
  assumes "rows_inv t" "r \<in> set (tb_runs t)" "key (f r) = key r"
  shows "map key (map (\<lambda>x. if rc_id x = rc_id r then f x else x) (tb_runs t)) = map key (tb_runs t)"
proof -
  have "x = r" if "x \<in> set (tb_runs t)" "rc_id x = rc_id r" for x
    using same_row [OF assms(1) that(1) assms(2) that(2)] .
  with assms(3) show ?thesis by auto
qed

lemma set_run_elem:
  assumes "rows_inv t" "r \<in> set (tb_runs t)" "x \<in> set (map (\<lambda>x. if rc_id x = rc_id r then f x else x) (tb_runs t))"
  obtains "x = f r" | "x \<in> set (tb_runs t)" "rc_id x \<noteq> rc_id r"
proof -
  from assms(3) obtain y where y: "y \<in> set (tb_runs t)" "x = (if rc_id y = rc_id r then f y else y)" by auto
  show thesis
  proof (cases "rc_id y = rc_id r")
    case True
    then show thesis using same_row [OF assms(1) y(1) assms(2)] y(2) that(1) by simp
  next
    case False
    with y that(2) show thesis by simp
  qed
qed

text \<open>The other runs keep their attempts when the last attempt of a run is updated.\<close>

lemma set_attempt_other:
  assumes "rows_inv t" "run_attempts i t \<noteq> []" "k \<noteq> i"
  shows "run_attempts k (set_attempt (att_ID (last (run_attempts i t))) g t) = run_attempts k t"
proof -
  have "att_ID a \<noteq> att_ID (last (run_attempts i t))" if "a \<in> set (run_attempts k t)" for a
    using attempt_unique [OF rows_invD(3) [OF assms(1)] that last_in_set [OF assms(2)]] assms(3) by blast
  then show ?thesis by (auto intro!: map_idI)
qed

lemma set_attempt_own:
  assumes "rows_inv t" "run_attempts i t \<noteq> []"
  shows "run_attempts i (set_attempt (att_ID (last (run_attempts i t))) g t) = butlast (run_attempts i t) @ [g (last (run_attempts i t))]"
  using update_last [OF run_attempts_distinct [OF rows_invD(3) [OF assms(1)]] assms(2)] by simp

lemma set_attempt_ids:
  assumes "rows_inv t" "run_attempts i t \<noteq> []" "a = last (run_attempts i t)" "att_ID (g a) = att_ID a"
  shows "map (att_ID \<circ> ac_attempt) (tb_attempts (set_attempt (att_ID a) g t)) = map (att_ID \<circ> ac_attempt) (tb_attempts t)"
proof -
  have "a \<in> set (run_attempts i t)" using assms(2,3) by simp
  moreover have "x = a" if "x \<in> ac_attempt ` set (tb_attempts t)" "att_ID x = att_ID a" for x
    using attempt_unique [OF rows_invD(3) [OF assms(1)], of x _ a i] that \<open>a \<in> set (run_attempts i t)\<close>
    by (auto simp: run_attempts_def)
  ultimately show ?thesis using assms(4) by (auto simp: set_attempt_def)
qed

lemma set_attempt_owner: "(\<forall>a \<in> set (tb_attempts (set_attempt j g t)). P (ac_run_id a)) \<longleftrightarrow> (\<forall>a \<in> set (tb_attempts t). P (ac_run_id a))"
proof -
  have "map ac_run_id (tb_attempts (set_attempt j g t)) = map ac_run_id (tb_attempts t)" by (simp add: set_attempt_def)
  then have "ac_run_id ` set (tb_attempts (set_attempt j g t)) = ac_run_id ` set (tb_attempts t)" by (metis set_map)
  then show ?thesis by (metis (no_types, opaque_lifting) image_iff)
qed

lemma run_exists_set_run: "rows_inv t \<Longrightarrow> r \<in> set (tb_runs t) \<Longrightarrow> rc_id (f r) = rc_id r \<Longrightarrow> run_exists k (set_run (rc_id r) f t') = run_exists k t"
  if "tb_runs t' = tb_runs t" for t'
proof -
  assume a: "rows_inv t" "r \<in> set (tb_runs t)" "rc_id (f r) = rc_id r"
  have eq: "run_exists k u \<longleftrightarrow> k \<in> set (map rc_id (tb_runs u))" for u by (auto simp: run_exists_def)
  have "map rc_id (tb_runs (set_run (rc_id r) f t')) = map rc_id (tb_runs t)"
    using set_run_image [OF a(1,2), of rc_id f] a(3) that by simp
  then show ?thesis unfolding eq by (simp only:)
qed

lemma row_ok_update:
  assumes "rows_inv t" "r \<in> set (tb_runs t)" "x \<in> set (map (\<lambda>x. if rc_id x = rc_id r then f x else x) (tb_runs t))"
    and "row_ok t' (f r)" "\<And>k. k \<noteq> rc_id r \<Longrightarrow> run_attempts k t' = run_attempts k t"
  shows "row_ok t' x"
  using assms(3)
proof (rule set_run_elem [OF assms(1,2)])
  assume "x = f r" with assms(4) show ?thesis by simp
next
  assume "x \<in> set (tb_runs t)" "rc_id x \<noteq> rc_id r"
  then show ?thesis using rows_invD(5) [OF assms(1)] assms(5) row_ok_frame [of x t' t] by simp
qed

lemma rows_inv_change:
  assumes inv: "rows_inv t" and r: "r \<in> set (tb_runs t)" and as: "run_attempts (rc_id r) t \<noteq> []" and a: "a = last (run_attempts (rc_id r) t)"
    and keys: "same_keys r (f r)" "rc_current_attempt_id (f r) = rc_current_attempt_id r" "att_ID (g a) = att_ID a" "att_Number (g a) = att_Number a"
    and ok: "run_ok (scanRun (f r) (g a))"
  shows "rows_inv (set_run (rc_id r) f (set_attempt (att_ID a) g t))"
proof -
  let ?t = "set_run (rc_id r) f (set_attempt (att_ID a) g t)" and ?as = "run_attempts (rc_id r) t"
  have own: "run_attempts (rc_id r) ?t = butlast ?as @ [g a]" using set_attempt_own [OF inv as, of g] a by simp
  have other: "run_attempts k ?t = run_attempts k t" if "k \<noteq> rc_id r" for k using set_attempt_other [OF inv as that, of g] a by simp
  obtain bs where bs: "?as = bs @ [a]" using as a by (metis append_butlast_last_id)
  have "row_ok ?t (f r)"
    using rows_invD(5) [OF inv r] keys ok own bs unfolding row_ok_def same_keys_def Let_def by simp
  then have "row_ok ?t x" if "x \<in> set (tb_runs ?t)" for x
    using row_ok_update [OF inv r _ _ other] that by simp
  moreover have "run_exists k ?t = run_exists k t" for k
    by (rule run_exists_set_run [OF _ inv r]) (use keys in \<open>simp_all add: same_keys_def\<close>)
  moreover have "map rc_id (tb_runs ?t) = map rc_id (tb_runs t)" "map row_scope (tb_runs ?t) = map row_scope (tb_runs t)"
    using set_run_image [OF inv r, of rc_id f] set_run_image [OF inv r, of row_scope f] keys(1) by (simp_all add: same_keys_def)
  moreover have "map (att_ID \<circ> ac_attempt) (tb_attempts ?t) = map (att_ID \<circ> ac_attempt) (tb_attempts t)"
    using set_attempt_ids [of t "rc_id r" a g, OF inv as a keys(3)] by simp
  moreover have "\<forall>x \<in> set (tb_attempts ?t). run_exists (ac_run_id x) t"
    using set_attempt_owner [of "att_ID a" g t "\<lambda>i. run_exists i t"] rows_invD(4) [OF inv] by simp
  ultimately show ?thesis using rows_invD [OF inv] by (intro rows_invI) (simp_all del: row_updates)
qed

lemma rows_inv_retry:
  assumes inv: "rows_inv t" and r: "r \<in> set (tb_runs t)" and as: "run_attempts (rc_id r) t \<noteq> []" and a: "a = last (run_attempts (rc_id r) t)"
    and keys: "same_keys r (f r)" "rc_current_attempt_id (f r) = att_ID b" "\<not> attempt_taken (att_ID b) t"
      "att_ID (g a) = att_ID a" "att_Number (g a) = att_Number a" "att_Status (g a) = AttemptLost"
    and b: "att_Number b = att_Number a + 1" "att_Number a < max_attempts (rc_request r)" "run_ok (scanRun (f r) b)"
  shows "rows_inv (set_run (rc_id r) f (add_attempt (rc_id r) b (set_attempt (att_ID a) g t)))"
proof -
  let ?t = "set_run (rc_id r) f (add_attempt (rc_id r) b (set_attempt (att_ID a) g t))" and ?as = "run_attempts (rc_id r) t"
  have own: "run_attempts (rc_id r) ?t = butlast ?as @ [g a, b]" using set_attempt_own [OF inv as, of g] a by simp
  have other: "run_attempts k ?t = run_attempts k t" if "k \<noteq> rc_id r" for k using set_attempt_other [OF inv as that, of g] a that by simp
  obtain bs where bs: "?as = bs @ [a]" using as a by (metis append_butlast_last_id)
  have "row_ok ?t (f r)"
    using rows_invD(5) [OF inv r] keys b own bs unfolding row_ok_def same_keys_def Let_def by (auto simp: butlast_append)
  then have "row_ok ?t x" if "x \<in> set (tb_runs ?t)" for x
    using row_ok_update [OF inv r _ _ other] that by simp
  moreover have exists: "run_exists k ?t = run_exists k t" for k
    by (rule run_exists_set_run [OF _ inv r]) (use keys in \<open>simp_all add: same_keys_def\<close>)
  moreover have "map rc_id (tb_runs ?t) = map rc_id (tb_runs t)" "map row_scope (tb_runs ?t) = map row_scope (tb_runs t)"
    using set_run_image [OF inv r, of rc_id f] set_run_image [OF inv r, of row_scope f] keys(1) by (simp_all add: same_keys_def)
  moreover have "map (att_ID \<circ> ac_attempt) (tb_attempts ?t) = map (att_ID \<circ> ac_attempt) (tb_attempts t) @ [att_ID b]"
    using set_attempt_ids [of t "rc_id r" a g, OF inv as a keys(4)] by (simp add: add_attempt_def)
  moreover have "\<forall>x \<in> set (tb_attempts ?t). run_exists (ac_run_id x) t"
    using set_attempt_owner [of "att_ID a" g t "\<lambda>i. run_exists i t"] rows_invD(4) [OF inv] r by (auto simp: add_attempt_def run_exists_def)
  ultimately show ?thesis using rows_invD [OF inv] keys(3) by (intro rows_invI) (auto simp: attempt_taken_def simp del: row_updates)
qed

lemma rows_inv_insert:
  assumes inv: "rows_inv t" and r: "\<not> run_exists (rc_id r) t" "row_scope r \<notin> row_scope ` set (tb_runs t)" "rc_current_attempt_id r = att_ID b"
    and b: "\<not> attempt_taken (att_ID b) t" "att_Number b = 1" "run_ok (scanRun r b)"
  shows "rows_inv (add_attempt (rc_id r) b (t\<lparr>tb_runs := tb_runs t @ [r]\<rparr>))"
proof -
  let ?t = "add_attempt (rc_id r) b (t\<lparr>tb_runs := tb_runs t @ [r]\<rparr>)"
  have none: "run_attempts (rc_id r) t = []" using r(1) by (auto simp: run_attempts_def filter_empty_conv dest: rows_invD(4) [OF inv])
  then have "row_ok ?t r" using r(3) b by (simp add: row_ok_def max_attempts_def)
  moreover have "row_ok ?t x" if "x \<in> set (tb_runs t)" for x
    using rows_invD(5) [OF inv that] that r(1) row_ok_frame [of x ?t t] by (auto simp: run_exists_def)
  moreover have "run_exists k ?t \<longleftrightarrow> k = rc_id r \<or> run_exists k t" for k by (auto simp: run_exists_def)
  ultimately show ?thesis
    using rows_invD [OF inv] r b(1) unfolding rows_inv_def by (auto simp: add_attempt_def attempt_taken_def run_exists_def)
qed

lemma rows_inv_frame: "tb_runs t' = tb_runs t \<Longrightarrow> tb_attempts t' = tb_attempts t \<Longrightarrow> rows_inv t' = rows_inv t"
  by (simp add: rows_inv_def row_ok_def run_attempts_def run_exists_def)

lemma log_inv_frame:
  "tb_events t' = tb_events t \<Longrightarrow> (\<And>k. run_exists k t \<Longrightarrow> run_exists k t') \<Longrightarrow> log_inv t \<Longrightarrow> log_inv t'"
  by (simp add: log_inv_def run_events_def)

lemma next_sequence_eq:
  assumes "log_inv t"
  shows "next_sequence runID t = int (length (run_events runID t)) + 1"
proof -
  let ?s = "map ev_Sequence (run_events runID t)"
  have nth: "?s ! i = int i + 1" if "i < length ?s" for i using assms that by (simp add: log_inv_def)
  have "Max (set ?s) = int (length ?s)" if "?s \<noteq> []"
  proof (rule Max_eqI)
    show "y \<le> int (length ?s)" if "y \<in> set ?s" for y
      using that nth by (metis in_set_conv_nth of_nat_le_iff Suc_leI of_nat_Suc add.commute)
    have "int (length ?s) = ?s ! (length ?s - 1)" using nth [of "length ?s - 1"] that by (simp add: of_nat_diff Suc_leI)
    then show "int (length ?s) \<in> set ?s" using that by simp
  qed simp
  then show ?thesis unfolding next_sequence_def run_events_def [symmetric] Let_def by auto
qed

lemma log_inv_logged:
  assumes "log_inv t" "run_exists runID t" "logged runID t t'"
  shows "log_inv t'"
proof -
  from assms(3) obtain v where v: "t' = t\<lparr>tb_events := tb_events t @ [v]\<rparr>" "ev_RunID v = runID" "ev_Sequence v = next_sequence runID t"
    "ev_ID v \<notin> ev_ID ` set (tb_events t)" by (auto simp: logged_def)
  have "run_events k t' = run_events k t @ (if k = runID then [v] else [])" for k using v(1,2) by (simp add: run_events_def)
  then have "ev_Sequence (run_events k t' ! i) = int i + 1" if "i < length (run_events k t')" for k i
    using that assms(1) v(3) next_sequence_eq [OF assms(1), of runID] by (auto simp: log_inv_def nth_append less_Suc_eq split: if_splits)
  then show ?thesis using assms(1,2) v unfolding log_inv_def by (auto simp: run_exists_def)
qed

lemma pg_step_inv: "pg_step t t' \<Longrightarrow> pg_inv t \<Longrightarrow> pg_inv t'"
proof (induction rule: pg_step.induct)
  case (log runID t t')
  then show ?case using log_inv_logged rows_inv_frame [of t' t] by (auto simp: pg_inv_def logged_def)
next
  case (change r t a f g)
  then have rows: "rows_inv t" by (simp add: pg_inv_def)
  have "rc_id (f r) = rc_id r" using change by (simp add: same_keys_def)
  then have "run_exists k (set_run (rc_id r) f (set_attempt (att_ID a) g t)) = run_exists k t" for k
    by (intro run_exists_set_run [OF _ rows change(1)]) simp_all
  then have "log_inv (set_run (rc_id r) f (set_attempt (att_ID a) g t))"
    using change(10) log_inv_frame [of "set_run (rc_id r) f (set_attempt (att_ID a) g t)" t] by (simp add: pg_inv_def)
  then show ?case using rows_inv_change [of t r a f g, OF rows change(1,2,3,5,6,7,8,9)] change(10) by (simp add: pg_inv_def)
next
  case (retry r t a f b g)
  let ?t = "set_run (rc_id r) f (add_attempt (rc_id r) b (set_attempt (att_ID a) g t))"
  from retry have rows: "rows_inv t" by (simp add: pg_inv_def)
  have "rc_id (f r) = rc_id r" using retry by (simp add: same_keys_def)
  then have "run_exists k ?t = run_exists k t" for k
    by (intro run_exists_set_run [OF _ rows retry(1)]) simp_all
  then have "log_inv ?t" using retry(14) log_inv_frame [of ?t t] by (simp add: pg_inv_def)
  then show ?case using rows_inv_retry [of t r a f b g, OF rows retry(1,2,3,5,6,7,8,9,10,11,12,13)] retry(14) by (simp add: pg_inv_def)
next
  case (insert r t b)
  then have "rows_inv t" by (simp add: pg_inv_def)
  then have "rows_inv (add_attempt (rc_id r) b (t\<lparr>tb_runs := tb_runs t @ [r]\<rparr>))" using insert(1-6) by (rule rows_inv_insert)
  moreover have "log_inv (add_attempt (rc_id r) b (t\<lparr>tb_runs := tb_runs t @ [r]\<rparr>))"
    by (rule log_inv_frame [of _ t]) (use insert(7) in \<open>simp_all add: pg_inv_def run_exists_def\<close>)
  ultimately show ?case using insert(7) by (simp add: pg_inv_def)
next
  case (other ns t ics cs fs ss ms)
  let ?t = "t\<lparr>tb_migrations := ms, tb_scripts := ss, tb_nodes := ns, tb_artifacts := fs, tb_calls := cs, tb_interactions := ics\<rparr>"
  have "rows_inv ?t = rows_inv t" by (rule rows_inv_frame) simp_all
  moreover have "log_inv t \<Longrightarrow> log_inv ?t" by (rule log_inv_frame) (simp_all add: run_exists_def)
  ultimately show ?case using other by (simp add: pg_inv_def)
qed

lemma pg_steps_inv: "pg_step\<^sup>*\<^sup>* t t' \<Longrightarrow> pg_inv t \<Longrightarrow> pg_inv t'"
  by (induction rule: rtranclp_induct) (auto intro: pg_step_inv)

end
