(* ===== verification/Postgres_Steps.thy ===== *)
theory Postgres_Steps
  imports Postgres_Rows
begin

text \<open>
  The transactions of \<open>controlplane/postgres/store.go\<close> as sequences of the steps of \<open>Postgres_Rows\<close>. \<open>row_steps i\<close> are steps that leave the
  rows of every run but \<open>i\<close> as they are, so that a transaction that reads several rows first and changes them one after the other
  still finds them as it read them.
\<close>

section \<open>Reading a run\<close>

text \<open>The row of a run and its current attempt.\<close>

definition current :: "tables \<Rightarrow> run_row \<Rightarrow> Attempt \<Rightarrow> bool" where
  "current t r a \<longleftrightarrow> r \<in> set (tb_runs t) \<and> run_attempts (rc_id r) t \<noteq> [] \<and> a = last (run_attempts (rc_id r) t)"

lemma current_ok: "rows_inv t \<Longrightarrow> current t r a \<Longrightarrow> run_ok (scanRun r a)"
  using rows_invD(5) by (fastforce simp: current_def row_ok_def Let_def)

lemma pg_current_ok: "pg_inv t \<Longrightarrow> current t r a \<Longrightarrow> run_ok (scanRun r a)"
  using current_ok by (auto simp: pg_inv_def)

lemma current_id: "rows_inv t \<Longrightarrow> current t r a \<Longrightarrow> att_ID a = rc_current_attempt_id r"
  using rows_invD(5) by (fastforce simp: current_def row_ok_def Let_def)

lemma current_exists: "current t r a \<Longrightarrow> run_exists (rc_id r) t"
  by (auto simp: current_def run_exists_def)

lemma join_current:
  assumes "rows_inv t" "(r, row) \<in> set (run_join t)"
  shows "current t r (ac_attempt row)" "ac_run_id row = rc_id r"
proof -
  from assms(2) have r: "r \<in> set (tb_runs t)" "row \<in> set (tb_attempts t)" "att_ID (ac_attempt row) = rc_current_attempt_id r"
    by (auto simp: run_join_def)
  have ok: "row_ok t r" by (rule rows_invD(5) [OF assms(1) r(1)])
  let ?as = "run_attempts (rc_id r) t"
  have last: "?as \<noteq> []" "att_ID (last ?as) = rc_current_attempt_id r" using ok by (auto simp: row_ok_def Let_def)
  have "ac_attempt row \<in> set (run_attempts (ac_run_id row) t)" using r(2) by (auto simp: run_attempts_def)
  from attempt_unique [OF rows_invD(3) [OF assms(1)] this last_in_set [OF last(1)]] r(3) last(2)
  show "current t r (ac_attempt row)" "ac_run_id row = rc_id r" using r(1) last(1) by (auto simp: current_def)
qed

lemma current_join:
  assumes "rows_inv t" "current t r a"
  shows "(r, \<lparr>ac_run_id = rc_id r, ac_attempt = a\<rparr>) \<in> set (run_join t)"
proof -
  have "a \<in> set (run_attempts (rc_id r) t)" using assms(2) by (simp add: current_def)
  then obtain row where row: "row \<in> set (tb_attempts t)" "ac_run_id row = rc_id r" "ac_attempt row = a" by (auto simp: run_attempts_def)
  have eq: "row = \<lparr>ac_run_id = rc_id r, ac_attempt = a\<rparr>" using row(2,3) by (cases row) simp
  have join: "(x, y) \<in> set (run_join t) \<longleftrightarrow> x \<in> set (tb_runs t) \<and> y \<in> set (tb_attempts t) \<and> att_ID (ac_attempt y) = rc_current_attempt_id x" for x y
    by (auto simp: run_join_def)
  show ?thesis unfolding join eq [symmetric] using assms(2) current_id [OF assms] row by (simp add: current_def)
qed

lemma first_row_Some: "first_row xs = Some x \<Longrightarrow> x \<in> set xs"
  by (cases xs) (auto simp: first_row_def)

lemma first_row_None: "first_row xs = None \<longleftrightarrow> xs = []"
  by (cases xs) (auto simp: first_row_def)

lemma pg_run_current:
  assumes "rows_inv t" "pg_run runID t = Some run"
  obtains r a where "current t r a" "rc_id r = runID" "run = scanRun r a"
proof -
  from first_row_Some [OF assms(2) [unfolded pg_run_def]] obtain r row where
    "(r, row) \<in> set (run_join t)" "rc_id r = runID" "run = scanRun r (ac_attempt row)" by (auto simp: runSelect_def)
  with join_current [OF assms(1)] that show thesis by blast
qed

lemma scanRun_simps [simp]:
  "run_ID (scanRun r a) = rc_id r" "run_Status (scanRun r a) = rc_status r" "run_Attempt (scanRun r a) = a"
  "run_CancelRequestedAt (scanRun r a) = rc_cancel_requested_at r" "run_CompletedAt (scanRun r a) = rc_completed_at r"
  "run_CancelledAt (scanRun r a) = rc_cancelled_at r" "run_Result (scanRun r a) = rc_result r" "run_Error (scanRun r a) = rc_error r"
  by (simp_all add: scanRun_def)

section \<open>Statements\<close>

lemma succeeds_update_run [tx_elims]: "succeeds (update_run i f) e t t' x \<Longrightarrow> (t' = set_run i f t \<Longrightarrow> P) \<Longrightarrow> P"
  unfolding update_run_def set_run_def by (auto elim: succeeds_exec)

lemma succeeds_update_attempt [tx_elims]: "succeeds (update_attempt j g) e t t' x \<Longrightarrow> (t' = set_attempt j g t \<Longrightarrow> P) \<Longrightarrow> P"
  unfolding update_attempt_def set_attempt_def by (auto elim: succeeds_exec)

lemma succeeds_insert_attempt [tx_elims]:
  "succeeds (insert_attempt i f) e t t' x \<Longrightarrow> (t' = add_attempt i (f e) t \<Longrightarrow> \<not> attempt_taken (att_ID (f e)) t \<Longrightarrow> P) \<Longrightarrow> P"
  unfolding insert_attempt_def add_attempt_def attempt_taken_def by (auto elim!: succeeds_statement split: if_split_asm)

lemma succeeds_insert_event_row:
  assumes "succeeds (insert_event_row eventID i j s ty data) e t t' x" "s t = next_sequence i t"
  shows "logged i t t'"
  using assms unfolding insert_event_row_def
  by (auto elim!: succeeds_statement split: if_split_asm simp: logged_def intro!: exI [of _
    "\<lparr>ev_ID = eventID, ev_RunID = i, ev_AttemptID = j, ev_Sequence = next_sequence i t, ev_Type = ty, ev_Data = map_option (pt_jsonb e) data, ev_CreatedAt = pt_now e\<rparr>"])

lemma succeeds_insertEvent:
  assumes "succeeds (pg_insertEvent i j s ty v) e t t' x" "s = next_sequence i t"
  shows "logged i t t'"
  using assms unfolding pg_insertEvent_def
  by (auto elim!: tx_elims dest: succeeds_insert_event_row split: goany.split_asm sum.split_asm)

lemma succeeds_appendEvent [tx_elims]:
  "succeeds (pg_appendEvent i j ty v) e t t' x \<Longrightarrow> (logged i t t' \<Longrightarrow> P) \<Longrightarrow> P"
  unfolding pg_appendEvent_def by (auto elim!: succeeds_bind succeeds_query dest: succeeds_insertEvent)

lemma next_sequence_frame [simp]:
  "next_sequence k (set_run i f t) = next_sequence k t" "next_sequence k (set_attempt j g t) = next_sequence k t"
  "next_sequence k (add_attempt i b t) = next_sequence k t"
  by (simp_all add: next_sequence_def)

lemma logged_set_run: "logged k t t' \<Longrightarrow> logged k (set_run i f t) (set_run i f t')"
  unfolding logged_def by (force simp: set_run_def next_sequence_def)

lemma logged_add_attempt: "logged k t t' \<Longrightarrow> logged k (add_attempt i b t) (add_attempt i b t')"
  unfolding logged_def by (force simp: add_attempt_def next_sequence_def)

lemma logged_set_attempt: "logged k t t' \<Longrightarrow> logged k (set_attempt j g t) (set_attempt j g t')"
  unfolding logged_def by (force simp: set_attempt_def next_sequence_def)

lemma logged_frame [simp]: "logged k t t' \<Longrightarrow> tb_runs t' = tb_runs t" "logged k t t' \<Longrightarrow> tb_attempts t' = tb_attempts t"
  "logged k t t' \<Longrightarrow> tb_nodes t' = tb_nodes t" "logged k t t' \<Longrightarrow> run_attempts i t' = run_attempts i t"
  by (auto simp: logged_def)

lemma set_id [simp]: "set_run i (\<lambda>r. r) t = t" "set_attempt j (\<lambda>a. a) t = t"
proof -
  have "map (\<lambda>a. if att_ID (ac_attempt a) = j then a\<lparr>ac_attempt := ac_attempt a\<rparr> else a) (tb_attempts t) = tb_attempts t"
    by (rule map_idI) simp
  then show "set_run i (\<lambda>r. r) t = t" "set_attempt j (\<lambda>a. a) t = t" by (simp_all add: set_run_def set_attempt_def)
qed

lemma set_comm: "set_attempt j g (set_run i f t) = set_run i f (set_attempt j g t)" "add_attempt k b (set_run i f t) = set_run i f (add_attempt k b t)"
  by (simp_all add: set_run_def set_attempt_def add_attempt_def)

section \<open>Steps on one run\<close>

definition untouched :: "string \<Rightarrow> tables \<Rightarrow> tables \<Rightarrow> bool" where
  "untouched i t t' \<longleftrightarrow> (\<forall>r a. rc_id r \<noteq> i \<longrightarrow> current t r a \<longrightarrow> current t' r a)"

definition row_step :: "string \<Rightarrow> tables \<Rightarrow> tables \<Rightarrow> bool" where
  "row_step i t t' \<longleftrightarrow> pg_step t t' \<and> (rows_inv t \<longrightarrow> untouched i t t')"

abbreviation row_steps :: "string \<Rightarrow> tables \<Rightarrow> tables \<Rightarrow> bool" where
  "row_steps i \<equiv> (row_step i)\<^sup>*\<^sup>*"

lemma row_steps_pg: "row_steps i t t' \<Longrightarrow> pg_step\<^sup>*\<^sup>* t t'"
  by (induction rule: rtranclp_induct) (auto simp: row_step_def intro: rtranclp.rtrancl_into_rtrancl)

lemma row_steps_inv: "row_steps i t t' \<Longrightarrow> pg_inv t \<Longrightarrow> pg_inv t'"
  using row_steps_pg pg_steps_inv by blast

lemma row_steps_untouched: "row_steps i t t' \<Longrightarrow> pg_inv t \<Longrightarrow> untouched i t t'"
proof (induction rule: rtranclp_induct)
  case base then show ?case by (simp add: untouched_def)
next
  case (step t' t'')
  then have "pg_inv t'" using row_steps_inv by blast
  then have "rows_inv t'" by (simp add: pg_inv_def)
  then show ?case using step by (auto simp: untouched_def row_step_def)
qed

lemma row_step_log: "run_exists k t \<Longrightarrow> logged k t t' \<Longrightarrow> row_step i t t'"
  unfolding row_step_def by (auto intro: pg_step.log simp: untouched_def current_def)

lemma row_step_change:
  assumes "rows_inv t" "current t r a" "\<not> terminalRun (rc_status r)" "same_keys r (f r)" "rc_current_attempt_id (f r) = rc_current_attempt_id r"
    "att_ID (g a) = att_ID a" "att_Number (g a) = att_Number a" "run_ok (scanRun (f r) (g a))"
  shows "row_step (rc_id r) t (set_run (rc_id r) f (set_attempt (att_ID a) g t))"
    and "current (set_run (rc_id r) f (set_attempt (att_ID a) g t)) (f r) (g a)"
proof -
  from assms(2) have r: "r \<in> set (tb_runs t)" "run_attempts (rc_id r) t \<noteq> []" "a = last (run_attempts (rc_id r) t)" by (auto simp: current_def)
  let ?t = "set_run (rc_id r) f (set_attempt (att_ID a) g t)"
  have "pg_step t ?t" by (rule pg_step.change [of r t a f g, OF r assms(3-8)])
  moreover have "current ?t x b" if "rc_id x \<noteq> rc_id r" "current t x b" for x b
    using that set_attempt_other [OF assms(1) r(2) that(1), of g] r(3) by (auto simp: current_def)
  ultimately show "row_step (rc_id r) t ?t" by (auto simp: row_step_def untouched_def)
  have keys: "rc_id (f r) = rc_id r" using assms(4) by (simp add: same_keys_def)
  have "run_attempts (rc_id r) ?t = butlast (run_attempts (rc_id r) t) @ [g a]" using set_attempt_own [OF assms(1) r(2), of g] r(3) by simp
  then show "current ?t (f r) (g a)" using r(1) keys by (auto simp: current_def)
qed

lemma row_step_retry:
  assumes "rows_inv t" "current t r a" "\<not> terminalRun (rc_status r)" "same_keys r (f r)" "rc_current_attempt_id (f r) = att_ID b"
    "\<not> attempt_taken (att_ID b) t" "att_ID (g a) = att_ID a" "att_Number (g a) = att_Number a" "att_Status (g a) = AttemptLost"
    "att_Number b = att_Number a + 1" "att_Number a < max_attempts (rc_request r)" "run_ok (scanRun (f r) b)"
  shows "row_step (rc_id r) t (set_run (rc_id r) f (add_attempt (rc_id r) b (set_attempt (att_ID a) g t)))"
proof -
  from assms(2) have r: "r \<in> set (tb_runs t)" "run_attempts (rc_id r) t \<noteq> []" "a = last (run_attempts (rc_id r) t)" by (auto simp: current_def)
  let ?t = "set_run (rc_id r) f (add_attempt (rc_id r) b (set_attempt (att_ID a) g t))"
  have "pg_step t ?t" by (rule pg_step.retry [of r t a f b g, OF r assms(3-12)])
  moreover have "current ?t x b" if "rc_id x \<noteq> rc_id r" "current t x b" for x b
    using that set_attempt_other [OF assms(1) r(2) that(1), of g] r(3) by (auto simp: current_def)
  ultimately show ?thesis by (auto simp: row_step_def untouched_def)
qed

lemma row_steps_log: "row_steps i t t' \<Longrightarrow> run_exists i t' \<Longrightarrow> logged i t' t'' \<Longrightarrow> row_steps i t t''"
  by (rule rtranclp.rtrancl_into_rtrancl) (auto intro: row_step_log)

lemma logged_exists: "logged k t t' \<Longrightarrow> run_exists i t' = run_exists i t"
  by (simp add: run_exists_def)

lemma logged_current: "logged k t t' \<Longrightarrow> current t' r a = current t r a"
  by (simp add: current_def)

text \<open>A run and its attempt change together, and events about the run follow.\<close>

lemma change_logs:
  assumes "pg_inv t" "current t r a" "\<not> terminalRun (rc_status r)" "same_keys r (f r)" "rc_current_attempt_id (f r) = rc_current_attempt_id r"
    "att_ID (g a) = att_ID a" "att_Number (g a) = att_Number a" "run_ok (scanRun (f r) (g a))"
    and "(logged (rc_id r))\<^sup>*\<^sup>* (set_run (rc_id r) f (set_attempt (att_ID a) g t)) t'"
  shows "row_steps (rc_id r) t t' \<and> current t' (f r) (g a)"
  using assms(9)
proof (induction rule: rtranclp_induct)
  case base
  have "rows_inv t" using assms(1) by (simp add: pg_inv_def)
  then show ?case using row_step_change [of t r a f g, OF _ assms(2-8)] by blast
next
  case (step t1 t2)
  have "rc_id (f r) = rc_id r" using assms(4) by (simp add: same_keys_def)
  then show ?case using step row_steps_log [of "rc_id r" t t1 t2] current_exists [of t1 "f r" "g a"] logged_current [OF step(2)] by simp
qed

lemmas run_ok_rows = run_ok_simps same_keys_def row_scope_def

lemmas logs_intros = rtranclp.rtrancl_into_rtrancl [where r = "logged k" for k] rtranclp.rtrancl_refl [where r = "logged k" for k]

lemma logs2: "logged k t t1 \<and> logged k t1 t2 \<Longrightarrow> (logged k)\<^sup>*\<^sup>* t t2"
  by (auto intro: logs_intros)

section \<open>Cancellation\<close>

lemma finalize_steps:
  assumes "succeeds (finalizeCancellationTx run now) e t t' x" "pg_inv t" "current t r a" "rc_status r = RunCancelling"
    and "run_ID run = rc_id r" "att_ID (run_Attempt run) = att_ID a"
  shows "row_steps (rc_id r) t t'"
proof (cases "run_Status run = RunCancelled")
  case True
  with assms(1) show ?thesis by (auto simp: finalizeCancellationTx_def elim!: tx_elims)
next
  case False
  let ?f = "\<lambda>r. r\<lparr>rc_status := RunCancelled, rc_completed_at := Some (usec now), rc_cancelled_at := Some (usec now)\<rparr>"
  let ?g = "\<lambda>a. a\<lparr>att_Status := AttemptCancelled, att_CompletedAt := Some (usec now)\<rparr>"
  from False assms(1,5,6) have "(logged (rc_id r))\<^sup>*\<^sup>* (set_run (rc_id r) ?f (set_attempt (att_ID a) ?g t)) t'"
    by (auto simp: finalizeCancellationTx_def Let_def elim!: tx_elims intro: logs_intros)
  moreover have "run_ok (scanRun r a)" by (rule pg_current_ok [OF assms(2,3)])
  ultimately show ?thesis using change_logs [of t r a ?f ?g t'] assms(2-4) by (simp add: run_ok_rows)
qed

lemma requestCancel_steps:
  assumes "succeeds (requestCancelTx (scanRun r a) request now) e t t' x" "pg_inv t" "current t r a"
  shows "row_steps (rc_id r) t t'"
proof (cases "terminalRunStatus (rc_status r) \<or> rc_cancel_requested_at r \<noteq> None")
  case True
  with assms(1) show ?thesis by (auto simp: requestCancelTx_def elim!: tx_elims)
next
  case False
  let ?f = "\<lambda>r. r\<lparr>rc_status := RunCancelling, rc_cancel_requested_at := Some (usec now), rc_cancel_reason := cq_Reason request, rc_cancel_requested_by := cq_RequestedBy request\<rparr>"
  let ?run = "(scanRun r a)\<lparr>run_Status := RunCancelling, run_CancelRequestedAt := Some now, run_CancelReason := cq_Reason request\<rparr>"
  from False assms(1) obtain t1 where t1: "logged (rc_id r) (set_run (rc_id r) ?f t) t1"
      "t' = t1 \<or> succeeds (finalizeCancellationTx ?run now) e t1 t' x"
    by (auto simp: requestCancelTx_def elim!: tx_elims split: if_split_asm)
  have "run_ok (scanRun r a)" by (rule pg_current_ok [OF assms(2,3)])
  then have "row_steps (rc_id r) t t1 \<and> current t1 (?f r) a"
    using False assms(2,3) t1(1) change_logs [of t r a ?f "\<lambda>a. a" t1]
    by (auto simp: run_ok_rows terminalRunStatus_def intro: logs_intros split: RunStatus.split_asm)
  moreover then have "pg_inv t1" using row_steps_inv assms(2) by blast
  ultimately show ?thesis
    using t1(2) finalize_steps [of ?run now e t1 t' x "?f r" a] by (auto intro: rtranclp_trans)
qed

section \<open>Execution\<close>

lemma start_steps:
  assumes "succeeds (start_tx (scanRun r a) now) e t t' x" "pg_inv t" "current t r a" "att_Status a = AttemptLeased" "rc_status r \<noteq> RunCancelling"
  shows "row_steps (rc_id r) t t'"
proof -
  let ?f = "\<lambda>r. r\<lparr>rc_status := RunRunning, rc_started_at := Some (usec now)\<rparr>"
  let ?g = "\<lambda>a. a\<lparr>att_Status := AttemptRunning, att_StartedAt := Some (usec now)\<rparr>"
  from assms(1) have "(logged (rc_id r))\<^sup>*\<^sup>* (set_run (rc_id r) ?f (set_attempt (att_ID a) ?g t)) t'"
    by (auto simp: start_tx_def set_comm elim!: tx_elims intro: logs_intros)
  moreover have "run_ok (scanRun r a)" by (rule pg_current_ok [OF assms(2,3)])
  moreover then have "rc_status r = RunQueued" using assms(4,5) status_ok_cases(1) by fastforce
  ultimately show ?thesis using change_logs [of t r a ?f ?g t'] assms(2-4) by (simp add: run_ok_rows)
qed

lemma complete_steps:
  assumes "succeeds (complete_tx (scanRun r a) result) e t t' x" "pg_inv t" "current t r a" "att_Status a = AttemptRunning" "rc_status r \<noteq> RunCancelling"
  shows "row_steps (rc_id r) t t'"
proof -
  from assms(1) obtain now t1 where "logged (rc_id r)
      (set_run (rc_id r) (\<lambda>r. r\<lparr>rc_status := RunSucceeded, rc_result := Some (jsonb_Result e result), rc_completed_at := Some (usec now)\<rparr>)
        (set_attempt (att_ID a) (\<lambda>a. a\<lparr>att_Status := AttemptSucceeded, att_CompletedAt := Some (usec now)\<rparr>) t)) t1 \<and> logged (rc_id r) t1 t'"
    by (auto simp: complete_tx_def set_comm elim!: tx_elims)
  note logs = logs2 [OF this]
  have ok: "run_ok (scanRun r a)" by (rule pg_current_ok [OF assms(2,3)])
  then have "rc_status r = RunRunning" using assms(4,5) status_ok_cases(2) by fastforce
  then show ?thesis using change_logs [OF assms(2,3) _ _ _ _ _ _ logs] assms(4) ok by (simp add: run_ok_rows)
qed

lemma fail_steps:
  assumes "succeeds (fail_tx (scanRun r a) cause) e t t' x" "pg_inv t" "current t r a"
    "att_Status a = AttemptRunning \<or> att_Status a = AttemptLeased" "rc_status r \<noteq> RunCancelling"
  shows "row_steps (rc_id r) t t'"
proof -
  from assms(1) obtain now t1 where "logged (rc_id r)
      (set_run (rc_id r) (\<lambda>r. r\<lparr>rc_status := RunFailed, rc_error := cause, rc_completed_at := Some (usec now)\<rparr>)
        (set_attempt (att_ID a) (\<lambda>a. a\<lparr>att_Status := AttemptFailed, att_CompletedAt := Some (usec now)\<rparr>) t)) t1 \<and> logged (rc_id r) t1 t'"
    by (auto simp: fail_tx_def Let_def set_comm elim!: tx_elims)
  note logs = logs2 [OF this]
  have ok: "run_ok (scanRun r a)" by (rule pg_current_ok [OF assms(2,3)])
  then have "rc_status r = RunRunning \<or> rc_status r = RunQueued" using assms(4,5) status_ok_cases(1,2) by fastforce
  then show ?thesis using change_logs [OF assms(2,3) _ _ _ _ _ _ logs] assms(4) ok by (auto simp: run_ok_rows)
qed

section \<open>Leases\<close>

lemma claim_nonempty: "pg_inv t \<Longrightarrow> pg_node nodeID e t = Some node \<Longrightarrow> nodeID \<noteq> []"
  by (auto simp: pg_node_def pg_inv_def dest!: first_row_Some)

definition leased_by :: "string \<Rightarrow> string \<Rightarrow> time \<Rightarrow> Attempt \<Rightarrow> Attempt" where
  "leased_by nodeID lease expires = (\<lambda>a. a\<lparr>att_Status := AttemptLeased, att_NodeID := nodeID, att_LeaseToken := lease, att_LeaseExpiresAt := Some expires\<rparr>)"

lemma lease_row_result:
  assumes "succeeds (lease_row nodeID ttl r a) e t t' x"
  obtains t1 lease now where "t1 = t \<or> logged (rc_id r) t t1" "lease \<noteq> []"
    "logged (rc_id r) (set_attempt (att_ID a) (leased_by nodeID lease (usec (now + ttl))) t1) t'"
    "x = \<lparr>as_RunID = rc_id r, as_AttemptID = att_ID a, as_LeaseToken = lease, as_LeaseExpiresAt = now + ttl, as_Request = rc_request r\<rparr>"
  using assms unfolding lease_row_def Let_def leased_by_def [symmetric]
  by (elim succeeds_bind succeeds_seq succeeds_now succeeds_newID succeeds_update_attempt succeeds_appendEvent succeeds_return)
    (auto elim!: succeeds_return succeeds_appendEvent split: if_split_asm)

lemma lease_steps:
  assumes "succeeds (lease_row nodeID ttl r a) e t t' x" "pg_inv t" "current t r a" "nodeID \<noteq> []" "rc_status r = RunQueued"
  shows "row_steps (rc_id r) t t'"
proof -
  from assms(1) obtain t1 lease now where t1: "t1 = t \<or> logged (rc_id r) t t1" and lease: "lease \<noteq> []" and
    logs: "logged (rc_id r) (set_attempt (att_ID a) (leased_by nodeID lease (usec (now + ttl))) t1) t'"
    by (rule lease_row_result)
  have one: "row_steps (rc_id r) t t1" "current t1 r a"
    using t1 assms(3) row_steps_log [of "rc_id r" t t t1] current_exists [OF assms(3)] logged_current by auto
  have inv: "pg_inv t1" by (rule row_steps_inv [OF one(1) assms(2)])
  have "run_ok (scanRun r a)" by (rule pg_current_ok [OF inv one(2)])
  then have "row_steps (rc_id r) t1 t'"
    using change_logs [of t1 r a "\<lambda>r. r" "leased_by nodeID lease (usec (now + ttl))" t'] inv one(2) logs lease assms(4,5)
    by (auto simp: run_ok_rows leased_by_def)
  then show ?thesis using one(1) by (rule rtranclp_trans [rotated])
qed

lemma claim_first_steps:
  assumes "succeeds (claim_first sv node nodeID ttl candidates) e t t' x" "pg_inv t" "nodeID \<noteq> []"
  shows "\<exists>r row. row_steps (rc_id r) t t' \<and> current t r (ac_attempt row) \<and> claimable_row e (r, row) \<and> nodeMatches sv node (rc_request r) \<and>
    \<not> pt_locked e (rc_id r) \<and> succeeds (lease_row nodeID ttl r (ac_attempt row)) e t t' x"
  using assms(1)
proof (induction candidates)
  case Nil
  then show ?case by (auto elim!: tx_elims)
next
  case (Cons runID candidates)
  show ?case
  proof (cases "lock_candidate runID e t")
    case None
    with Cons show ?thesis by (auto elim!: tx_elims)
  next
    case (Some ra)
    obtain r row where ra: "ra = (r, row)" by (cases ra)
    have rows: "rows_inv t" using assms(2) by (simp add: pg_inv_def)
    from Some ra have c: "(r, row) \<in> set (run_join t)" "claimable_row e (r, row)" "\<not> pt_locked e (rc_id r)"
      by (auto simp: lock_candidate_def dest!: first_row_Some)
    note current = join_current(1) [OF rows c(1)]
    have "rc_status r = RunQueued" using c(2) by (simp add: claimable_row_def Let_def)
    then show ?thesis
      using Cons Some ra c current lease_steps [OF _ assms(2) current assms(3), of ttl e t' x]
      by (auto elim!: tx_elims split: if_split_asm) blast
  qed
qed

lemma claim_steps:
  assumes "succeeds (tx_bind (sql_query (pg_node nodeID)) (\<lambda>row. case row of
       None \<Rightarrow> tx_error ErrNotFound
     | Some node \<Rightarrow>
       if node_Active node \<ge> reg_Capacity (node_Registration node) then tx_error ErrNoAssignment
       else tx_bind (sql_query claim_candidates) (claim_first sv node nodeID ttl))) e t t' x" "pg_inv t"
  obtains node r row where "pg_node nodeID e t = Some node" "node_Active node < reg_Capacity (node_Registration node)"
    "row_steps (rc_id r) t t'" "current t r (ac_attempt row)" "claimable_row e (r, row)" "nodeMatches sv node (rc_request r)"
    "succeeds (lease_row nodeID ttl r (ac_attempt row)) e t t' x"
proof -
  from assms(1) obtain node where node: "pg_node nodeID e t = Some node" "node_Active node < reg_Capacity (node_Registration node)"
    "succeeds (claim_first sv node nodeID ttl (claim_candidates e t)) e t t' x"
    by (auto elim!: tx_elims split: option.split_asm if_split_asm)
  with claim_first_steps [OF node(3) assms(2) claim_nonempty [OF assms(2) node(1)]] that show thesis by blast
qed

lemma renew_steps:
  assumes "pg_inv t" "current t r a" "att_Status a = AttemptLeased \<or> att_Status a = AttemptRunning"
  shows "row_steps (rc_id r) t (set_attempt (att_ID a) (\<lambda>a. a\<lparr>att_LeaseExpiresAt := Some expires\<rparr>) t)"
proof -
  let ?g = "\<lambda>a. a\<lparr>att_LeaseExpiresAt := Some expires\<rparr>"
  have ok: "run_ok (scanRun r a)" by (rule pg_current_ok [OF assms(1,2)])
  with assms(3) have "\<not> terminalRun (rc_status r)" by (auto simp: run_ok_simps split: RunStatus.split_asm)
  moreover have "run_ok (scanRun r (?g a))"
    using ok assms(3) by (cases "rc_status r") (auto simp: run_ok_simps)
  ultimately show ?thesis
    using change_logs [of t r a "\<lambda>r. r" ?g "set_attempt (att_ID a) ?g t"] assms(1,2) by (simp add: same_keys_def)
qed

section \<open>Reconciliation\<close>

lemma retry_logs:
  assumes "pg_inv t" "current t r a" "\<not> terminalRun (rc_status r)" "same_keys r (f r)" "rc_current_attempt_id (f r) = att_ID b"
    "\<not> attempt_taken (att_ID b) t" "att_ID (g a) = att_ID a" "att_Number (g a) = att_Number a" "att_Status (g a) = AttemptLost"
    "att_Number b = att_Number a + 1" "att_Number a < max_attempts (rc_request r)" "run_ok (scanRun (f r) b)"
    and logs: "(logged (rc_id r))\<^sup>*\<^sup>* (set_run (rc_id r) f (add_attempt (rc_id r) b (set_attempt (att_ID a) g t))) t'"
  shows "row_steps (rc_id r) t t' \<and> run_exists (rc_id r) t'"
  using logs
proof (induction rule: rtranclp_induct)
  case base
  have rows: "rows_inv t" using assms(1) by (simp add: pg_inv_def)
  have "rc_id (f r) = rc_id r" using assms(4) by (simp add: same_keys_def)
  then have "run_exists (rc_id r) (set_run (rc_id r) f (add_attempt (rc_id r) b (set_attempt (att_ID a) g t)))"
    using assms(2) by (auto simp: current_def run_exists_def)
  then show ?case using row_step_retry [of t r a f b g, OF rows assms(2-12)] by blast
next
  case (step t1 t2)
  then show ?case using row_steps_log [of "rc_id r" t t1 t2] logged_exists [OF step(2)] by simp
qed

lemma attempt_taken_ids: "attempt_taken k t \<longleftrightarrow> k \<in> set (map (att_ID \<circ> ac_attempt) (tb_attempts t))"
  by (auto simp: attempt_taken_def)

lemma attempt_taken_frame [simp]:
  "(\<And>a. att_ID (g a) = att_ID a) \<Longrightarrow> attempt_taken k (set_attempt j g t) = attempt_taken k t" "logged i t t' \<Longrightarrow> attempt_taken k t' = attempt_taken k t"
proof -
  assume "\<And>a. att_ID (g a) = att_ID a"
  then have "map (att_ID \<circ> ac_attempt) (tb_attempts (set_attempt j g t)) = map (att_ID \<circ> ac_attempt) (tb_attempts t)" by (simp add: set_attempt_def)
  then show "attempt_taken k (set_attempt j g t) = attempt_taken k t" unfolding attempt_taken_ids by (simp only:)
qed (simp add: attempt_taken_def)

lemma lose_steps:
  assumes "succeeds (lose_attempt now r a) e t t' x" "pg_inv t" "current t r a" "rc_status r = RunRunning"
  shows "row_steps (rc_id r) t t'"
proof -
  let ?g = "\<lambda>a. a\<lparr>att_Status := AttemptLost, att_CompletedAt := Some (usec now)\<rparr>"
  let ?t = "set_attempt (att_ID a) ?g t"
  have ok: "run_ok (scanRun r a)" by (rule pg_current_ok [OF assms(2,3)])
  show ?thesis
  proof (cases "att_Number a \<ge> rp_MaxAttempts (rq_Retry (rc_request r))")
    case True
    let ?f = "\<lambda>r. r\<lparr>rc_status := RunFailed, rc_error := ''attempt lease expired'', rc_completed_at := Some (usec now)\<rparr>"
    from True assms(1) obtain t1 where "logged (rc_id r) ?t t1" "logged (rc_id r) (set_run (rc_id r) ?f t1) t'"
      by (auto simp: lose_attempt_def elim!: tx_elims)
    then have "(logged (rc_id r))\<^sup>*\<^sup>* (set_run (rc_id r) ?f ?t) t'" by (auto intro!: logs2 logged_set_run)
    then show ?thesis using change_logs [of t r a ?f ?g t'] assms ok by (simp add: run_ok_rows)
  next
    case False
    let ?queued = "\<lambda>i. zero_Attempt\<lparr>att_ID := i, att_Number := att_Number a + 1, att_Status := AttemptQueued,
      att_AvailableAt := Some (usec (now + retryBackoff (rq_Retry (rc_request r))))\<rparr>"
    from False assms(1) obtain t1 i where t1: "logged (rc_id r) ?t t1" "\<not> attempt_taken i t1"
      "logged (rc_id r) (set_run (rc_id r) (\<lambda>r. r\<lparr>rc_status := RunQueued, rc_current_attempt_id := i, rc_error := [], rc_started_at := None, rc_completed_at := None\<rparr>)
        (add_attempt (rc_id r) (?queued i) t1)) t'"
      by (auto simp: lose_attempt_def Let_def elim!: tx_elims)
    define b where "b = ?queued i"
    have b: "logged (rc_id r) ?t t1" "\<not> attempt_taken (att_ID b) t1" "att_ID b = i"
      "logged (rc_id r) (set_run (rc_id r) (\<lambda>r. r\<lparr>rc_status := RunQueued, rc_current_attempt_id := i, rc_error := [], rc_started_at := None, rc_completed_at := None\<rparr>)
        (add_attempt (rc_id r) b t1)) t'"
      "att_Number b = att_Number a + 1" "att_Status b = AttemptQueued" "att_NodeID b = []" "att_LeaseToken b = []" "att_LeaseExpiresAt b = None"
      using t1 by (simp_all add: b_def zero_Attempt_def)
    let ?f = "\<lambda>r. r\<lparr>rc_status := RunQueued, rc_current_attempt_id := i, rc_error := [], rc_started_at := None, rc_completed_at := None\<rparr>"
    have "(logged (rc_id r))\<^sup>*\<^sup>* (set_run (rc_id r) ?f (add_attempt (rc_id r) b ?t)) t'"
      using b(1,4) by (auto intro!: logs2 logged_set_run logged_add_attempt)
    then show ?thesis using retry_logs [of t r a ?f b ?g t'] assms ok b False by (simp add: run_ok_rows max_attempts_def)
  qed
qed

lemma filter_unique: "distinct (map f xs) \<Longrightarrow> x \<in> set xs \<Longrightarrow> filter (\<lambda>y. f y = f x) xs = [x]"
proof (induction xs)
  case (Cons y xs)
  have "filter (\<lambda>z. f z = f x) zs = []" if "f x \<notin> f ` set zs" for zs using that by (induction zs) auto
  then show ?case using Cons by auto
qed simp

lemma join_ids:
  assumes "rows_inv t"
  shows "map (rc_id \<circ> fst) (run_join t) = map rc_id (tb_runs t)"
proof -
  have one: "map (rc_id \<circ> fst \<circ> Pair r) (filter (\<lambda>a. att_ID (ac_attempt a) = rc_current_attempt_id r) (tb_attempts t)) = [rc_id r]"
    if "r \<in> set (tb_runs t)" for r
  proof -
    have "row_ok t r" by (rule rows_invD(5) [OF assms that])
    then have "run_attempts (rc_id r) t \<noteq> []" "att_ID (last (run_attempts (rc_id r) t)) = rc_current_attempt_id r" by (auto simp: row_ok_def Let_def)
    then obtain row where "row \<in> set (tb_attempts t)" "att_ID (ac_attempt row) = rc_current_attempt_id r"
      using last_in_set [of "run_attempts (rc_id r) t"] by (auto simp: run_attempts_def)
    then show ?thesis using filter_unique [OF rows_invD(3) [OF assms], of row] by simp
  qed
  have "map (rc_id \<circ> fst) (concat (map (\<lambda>r. map (Pair r) (filter (\<lambda>a. att_ID (ac_attempt a) = rc_current_attempt_id r) (tb_attempts t))) rs)) = map rc_id rs"
    if "set rs \<subseteq> set (tb_runs t)" for rs
    using that one by (induction rs) auto
  then show ?thesis unfolding run_join_def by simp
qed

lemma distinct_sorted_rows: "distinct (map f xs) \<Longrightarrow> distinct (map f (take n (sort_key g (sort_key h (filter P xs)))))"
  by (simp add: take_map [symmetric] distinct_map distinct_map_filter inj_on_def)

lemma expired_rows_current:
  assumes "rows_inv t"
  shows "distinct (map (rc_id \<circ> fst) (expired_rows now remaining e t))"
    and "(r, row) \<in> set (expired_rows now remaining e t) \<Longrightarrow> current t r (ac_attempt row) \<and> (rc_status r = RunRunning \<or> rc_status r = RunCancelling)"
proof -
  have "distinct (map (rc_id \<circ> fst) (run_join t))" using join_ids [OF assms] rows_invD(1) [OF assms] by simp
  then show "distinct (map (rc_id \<circ> fst) (expired_rows now remaining e t))"
    unfolding expired_rows_def by (rule distinct_sorted_rows)
next
  assume "(r, row) \<in> set (expired_rows now remaining e t)"
  then show "current t r (ac_attempt row) \<and> (rc_status r = RunRunning \<or> rc_status r = RunCancelling)"
    using join_current(1) [OF assms] by (auto simp: expired_rows_def Let_def dest!: in_set_takeD)
qed

lemma cancel_overdue_steps:
  "succeeds (cancel_overdue now runIDs processed) e t t' x \<Longrightarrow> pg_inv t \<Longrightarrow> pg_step\<^sup>*\<^sup>* t t'"
proof (induction runIDs arbitrary: t processed)
  case Nil
  then show ?case by (auto elim!: tx_elims)
next
  case (Cons runID runIDs)
  from Cons.prems(1) obtain run t1 where run: "pg_run runID t = Some run"
      "succeeds (requestCancelTx run \<lparr>cq_Reason = ''run timeout exceeded'', cq_RequestedBy = ''relay''\<rparr> now) e t t1 ()"
      "succeeds (cancel_overdue now runIDs (processed + 1)) e t1 t' x"
    by (auto elim!: tx_elims split: option.split_asm)
  have rows: "rows_inv t" using Cons.prems(2) by (simp add: pg_inv_def)
  obtain r a where "current t r a" "run = scanRun r a" using pg_run_current [OF rows run(1)] .
  then have "row_steps (rc_id r) t t1" using requestCancel_steps run(2) Cons.prems(2) by blast
  then show ?case using Cons.IH [OF run(3)] row_steps_inv row_steps_pg Cons.prems(2) by (meson rtranclp_trans)
qed

lemma current_unique: "rows_inv t \<Longrightarrow> current t r a \<Longrightarrow> current t r' a' \<Longrightarrow> rc_id r = rc_id r' \<Longrightarrow> r = r' \<and> a = a'"
  using same_row by (fastforce simp: current_def)

lemma recover_expired_steps:
  "succeeds (recover_expired now expired processed) e t t' x \<Longrightarrow> pg_inv t \<Longrightarrow> distinct (map (rc_id \<circ> fst) expired) \<Longrightarrow>
   (\<And>r row. (r, row) \<in> set expired \<Longrightarrow> current t r (ac_attempt row) \<and> (rc_status r = RunRunning \<or> rc_status r = RunCancelling)) \<Longrightarrow> pg_step\<^sup>*\<^sup>* t t'"
proof (induction expired arbitrary: t processed)
  case Nil
  then show ?case by (auto elim!: tx_elims)
next
  case (Cons p expired)
  obtain r row where p: "p = (r, row)" by (cases p)
  have rows: "rows_inv t" using Cons.prems(2) by (simp add: pg_inv_def)
  have c: "current t r (ac_attempt row)" "rc_status r = RunRunning \<or> rc_status r = RunCancelling" using Cons.prems(4) p by auto
  obtain t1 where t1: "row_steps (rc_id r) t t1" "succeeds (recover_expired now expired (processed + 1)) e t1 t' x"
  proof (cases "rc_status r = RunCancelling")
    case True
    with Cons.prems(1) p obtain run t1 where run: "pg_run (rc_id r) t = Some run" "succeeds (finalizeCancellationTx run now) e t t1 ()"
        "succeeds (recover_expired now expired (processed + 1)) e t1 t' x"
      by (auto elim!: tx_elims split: option.split_asm)
    obtain r' a' where r': "current t r' a'" "rc_id r' = rc_id r" "run = scanRun r' a'" using pg_run_current [OF rows run(1)] .
    with current_unique [OF rows r'(1) c(1)] have "run = scanRun r (ac_attempt row)" by simp
    then have "row_steps (rc_id r) t t1" using finalize_steps [OF run(2) Cons.prems(2) c(1) True] by simp
    with run(3) that show thesis by blast
  next
    case False
    with Cons.prems(1) p obtain t1 where "succeeds (lose_attempt now r (ac_attempt row)) e t t1 ()"
        "succeeds (recover_expired now expired (processed + 1)) e t1 t' x"
      by (auto elim!: tx_elims)
    with lose_steps c False Cons.prems(2) that show thesis by blast
  qed
  have inv: "pg_inv t1" by (rule row_steps_inv [OF t1(1) Cons.prems(2)])
  have "current t1 r' (ac_attempt row') \<and> (rc_status r' = RunRunning \<or> rc_status r' = RunCancelling)" if "(r', row') \<in> set expired" for r' row'
  proof -
    have "rc_id r' \<noteq> rc_id r" using that Cons.prems(3) p by force
    then show ?thesis using Cons.prems(4) [of r' row'] that row_steps_untouched [OF t1(1) Cons.prems(2)] by (simp add: untouched_def)
  qed
  then have "pg_step\<^sup>*\<^sup>* t1 t'" using Cons.IH [OF t1(2) inv] Cons.prems(3) by simp
  then show ?case using row_steps_pg [OF t1(1)] by (rule rtranclp_trans [rotated])
qed

lemma reconcile_steps:
  assumes "succeeds (reconcile_tx now limit) e t t' x" "pg_inv t"
  shows "pg_step\<^sup>*\<^sup>* t t'"
proof -
  from assms(1) obtain t1 processed where t1: "succeeds (cancel_overdue now (overdue_rows now limit e t) 0) e t t1 processed"
      "t' = t1 \<or> succeeds (recover_expired now (expired_rows now (limit - processed) e t1) processed) e t1 t' x"
    by (auto simp: reconcile_tx_def Let_def elim!: tx_elims split: if_split_asm)
  have steps: "pg_step\<^sup>*\<^sup>* t t1" by (rule cancel_overdue_steps [OF t1(1) assms(2)])
  have inv: "pg_inv t1" by (rule pg_steps_inv [OF steps assms(2)])
  then have rows: "rows_inv t1" by (simp add: pg_inv_def)
  have "pg_step\<^sup>*\<^sup>* t1 t'"
    using t1(2) recover_expired_steps [OF _ inv expired_rows_current(1) [OF rows] expired_rows_current(2) [OF rows]] by auto
  with steps show ?thesis by (rule rtranclp_trans)
qed

end
