(* ===== verification/Postgres_Calls.thy ===== *)
theory Postgres_Calls
  imports Postgres_Steps
begin

text \<open>
  The methods of the PostgreSQL storage, one after the other: each call takes the tables through steps of \<open>Postgres_Rows\<close> or leaves them as they are,
  whatever statements fail and whichever commits are lost.
\<close>

section \<open>Steps of the other tables\<close>

lemma pg_step_other:
  assumes "pg_inv t"
  shows "pg_step t (t\<lparr>tb_artifacts := fs\<rparr>)" "pg_step t (t\<lparr>tb_calls := cs\<rparr>)" "pg_step t (t\<lparr>tb_interactions := ics\<rparr>)"
    "pg_step t (t\<lparr>tb_scripts := ss\<rparr>)" "pg_step t (t\<lparr>tb_migrations := ms\<rparr>)"
  using assms pg_step.other [of "tb_nodes t" t "tb_interactions t" "tb_calls t" fs "tb_scripts t" "tb_migrations t"]
    pg_step.other [of "tb_nodes t" t "tb_interactions t" cs "tb_artifacts t" "tb_scripts t" "tb_migrations t"]
    pg_step.other [of "tb_nodes t" t ics "tb_calls t" "tb_artifacts t" "tb_scripts t" "tb_migrations t"]
    pg_step.other [of "tb_nodes t" t "tb_interactions t" "tb_calls t" "tb_artifacts t" ss "tb_migrations t"]
    pg_step.other [of "tb_nodes t" t "tb_interactions t" "tb_calls t" "tb_artifacts t" "tb_scripts t" ms]
  by (simp_all add: pg_inv_def)

lemma pg_step_nodes:
  assumes "distinct (map (reg_ID \<circ> nc_registration) ns)" "\<And>n. n \<in> set ns \<Longrightarrow> reg_ID (nc_registration n) \<noteq> [] \<and> reg_Capacity (nc_registration n) > 0"
  shows "pg_step t (t\<lparr>tb_nodes := ns\<rparr>)"
  using assms pg_step.other [of ns t "tb_interactions t" "tb_calls t" "tb_artifacts t" "tb_scripts t" "tb_migrations t"] by simp

lemma pg_step_logged: "pg_step t t1 \<Longrightarrow> run_exists k t1 \<Longrightarrow> logged k t1 t2 \<Longrightarrow> pg_step\<^sup>*\<^sup>* t t2"
  by (auto intro: pg_step.log rtranclp.rtrancl_into_rtrancl)

section \<open>Transactions\<close>

lemma transaction_steps:
  assumes "transaction body d = (d', res)" "\<And>e t' x. succeeds body e (db_tables d) t' x \<Longrightarrow> pg_step\<^sup>*\<^sup>* (db_tables d) t'"
  shows "pg_step\<^sup>*\<^sup>* (db_tables d) (db_tables d')"
  using assms(1) by (rule transaction_result) (auto intro: assms(2))

lemma query_tables:
  assumes "transaction (tx_bind (sql_query f) (\<lambda>row. case row of None \<Rightarrow> tx_error err | Some y \<Rightarrow> tx_return y)) d = (d', res)"
  shows "db_tables d' = db_tables d"
  using assms by (rule transaction_result) (auto elim!: tx_elims split: option.split_asm)

lemma query_only: "transaction (sql_query f) d = (d', res) \<Longrightarrow> db_tables d' = db_tables d"
  by (erule transaction_result) (auto elim!: tx_elims)

text \<open>A change by the holder of the lease starts from the run's row and its current attempt, and the holder names that attempt and its token.\<close>

lemma transition_result:
  assumes "pg_transition asg change d = (d', res)"
  obtains "db_tables d' = db_tables d" "\<exists>err. res = Inl err"
  | e run x where "pg_run (as_RunID asg) (db_tables d) = Some run"
      "att_ID (run_Attempt run) = as_AttemptID asg" "as_LeaseToken asg \<noteq> []" "att_LeaseToken (run_Attempt run) = as_LeaseToken asg"
      "succeeds (change run) e (db_tables d) (db_tables d') x" "res = Inr x \<or> (\<exists>err. res = Inl err)"
  using assms unfolding pg_transition_def
proof (rule transaction_result)
  fix e x
  assume "succeeds (tx_bind (sql_query (\<lambda>e t. pg_run (as_RunID asg) t)) (\<lambda>row. case row of
       None \<Rightarrow> tx_error ErrNotFound
     | Some run \<Rightarrow>
       let a = run_Attempt run in
       if att_ID a \<noteq> as_AttemptID asg \<or> as_LeaseToken asg = [] \<or> att_LeaseToken a \<noteq> as_LeaseToken asg
       then tx_error ErrInvalidLease
       else if terminalRunStatus (run_Status run) then change run
       else case att_LeaseExpiresAt a of None \<Rightarrow> tx_error ErrInvalidLease
       | Some expires \<Rightarrow> tx_bind tx_now (\<lambda>now. if expires \<le> now then tx_error ErrInvalidLease else change run)))
     e (db_tables d) (db_tables d') x" and res: "res = Inr x \<or> (\<exists>err. res = Inl err)"
  then obtain run where "pg_run (as_RunID asg) (db_tables d) = Some run"
      "att_ID (run_Attempt run) = as_AttemptID asg" "as_LeaseToken asg \<noteq> []" "att_LeaseToken (run_Attempt run) = as_LeaseToken asg"
      "succeeds (change run) e (db_tables d) (db_tables d') x"
    by (auto simp: Let_def elim!: succeeds_bind succeeds_query succeeds_now succeeds_error split: option.split_asm if_split_asm)
  with res that(2) show thesis by blast
qed (auto intro: that(1))

lemma transition_steps:
  assumes "pg_transition asg change d = (d', res)" "pg_inv (db_tables d)"
    and "\<And>e r a t' x. current (db_tables d) r a \<Longrightarrow> rc_id r = as_RunID asg \<Longrightarrow> succeeds (change (scanRun r a)) e (db_tables d) t' x \<Longrightarrow> pg_step\<^sup>*\<^sup>* (db_tables d) t'"
  shows "pg_step\<^sup>*\<^sup>* (db_tables d) (db_tables d')"
  using assms(1)
proof (rule transition_result)
  fix e run x
  assume run: "pg_run (as_RunID asg) (db_tables d) = Some run" "succeeds (change run) e (db_tables d) (db_tables d') x"
  have "rows_inv (db_tables d)" using assms(2) by (simp add: pg_inv_def)
  from pg_run_current [OF this run(1)] obtain r a where "current (db_tables d) r a" "rc_id r = as_RunID asg" "run = scanRun r a" .
  with run(2) assms(3) show ?thesis by blast
qed simp

section \<open>Submission\<close>

lemma new_row_ok:
  "run_ok (scanRun (new_run_row e request now runID attemptID)
     (zero_Attempt\<lparr>att_ID := attemptID, att_Number := 1, att_Status := AttemptQueued, att_AvailableAt := Some available\<rparr>))"
  by (simp add: run_ok_simps new_run_row_def zero_Attempt_def Let_def)

lemma logged_events: "logged k t t' \<Longrightarrow> length (run_events k t') = Suc (length (run_events k t))"
  by (auto simp: logged_def run_events_def)

lemma submit_result:
  assumes "succeeds (submit_tx request now runID attemptID) e t t' x" "pg_inv t"
  shows "(\<exists>r \<in> set (tb_runs t). row_scope r = submit_scope request \<and> x = rc_id r \<and> t' = t) \<or>
    (\<forall>r \<in> set (tb_runs t). row_scope r \<noteq> submit_scope request) \<and> x = runID \<and> \<not> run_exists runID t \<and> pg_step\<^sup>*\<^sup>* t t' \<and>
      tb_runs t' = tb_runs t @ [new_run_row e request now runID attemptID]"
proof -
  let ?r = "new_run_row e request now runID attemptID"
  let ?b = "zero_Attempt\<lparr>att_ID := attemptID, att_Number := 1, att_Status := AttemptQueued, att_AvailableAt := Some (pt_now e)\<rparr>"
  let ?t = "add_attempt runID ?b (t\<lparr>tb_runs := tb_runs t @ [?r]\<rparr>)"
  from assms(1) consider "\<exists>r \<in> set (tb_runs t). row_scope r = submit_scope request \<and> x = rc_id r \<and> t' = t"
    | t1 where "\<forall>r \<in> set (tb_runs t). row_scope r \<noteq> submit_scope request" "\<not> run_exists runID t" "\<not> attempt_taken attemptID t"
      "succeeds (pg_insertEvent runID attemptID 1 ''run.created'' (GoVal (str_obj [(''status'', RunStatus_text RunQueued)]))) e ?t t1 ()"
      "succeeds (pg_insertEvent runID attemptID 2 ''attempt.queued'' (GoVal (JObj [(''number'', JNum ''1'')]))) e t1 t' ()" "x = runID"
    unfolding submit_tx_def insert_run_def existing_run_def
    by (auto elim!: succeeds_bind succeeds_seq succeeds_statement succeeds_query succeeds_error succeeds_return succeeds_insert_attempt
      dest!: first_row_Some simp: run_exists_def attempt_taken_def split: if_split_asm option.split_asm) blast
  then show ?thesis
  proof cases
    case 1
    then show ?thesis by blast
  next
    case 2
    have scope: "row_scope ?r = submit_scope request" by (simp add: new_run_row_def Let_def row_scope_def submit_scope_def)
    have "row_scope ?r \<notin> row_scope ` set (tb_runs t)" unfolding scope using 2(1) by (metis image_iff)
    then have step: "pg_step t ?t"
      using pg_step.insert [of ?r t ?b] 2(2,3) new_row_ok [of e request now runID attemptID "pt_now e"]
      by (simp add: new_run_row_def Let_def zero_Attempt_def)
    have log: "log_inv t" "log_inv ?t" using pg_step_inv [OF step assms(2)] assms(2) by (auto simp: pg_inv_def)
    have "\<forall>v \<in> set (tb_events t). run_exists (ev_RunID v) t" using log(1) unfolding log_inv_def by blast
    then have none: "run_events runID ?t = []" using 2(2) by (auto simp: run_events_def filter_empty_conv)
    then have l1: "logged runID ?t t1" using succeeds_insertEvent [OF 2(4)] next_sequence_eq [OF log(2), of runID] by simp
    have ex: "run_exists runID ?t" by (simp add: run_exists_def new_run_row_def Let_def)
    have "length (run_events runID t1) = 1" using logged_events [OF l1] none by simp
    then have l2: "logged runID t1 t'"
      using succeeds_insertEvent [OF 2(5)] next_sequence_eq [OF log_inv_logged [OF log(2) ex l1], of runID] by simp
    have "pg_step\<^sup>*\<^sup>* t t1" using pg_step_logged [OF step ex l1] .
    moreover have "pg_step t1 t'" using pg_step.log [OF _ l2] logged_exists [OF l1] ex by simp
    ultimately have "pg_step\<^sup>*\<^sup>* t t'" by (rule rtranclp.rtrancl_into_rtrancl)
    then show ?thesis using 2(1,2,6) l1 l2 by simp
  qed
qed

section \<open>The methods\<close>

lemma GetRun_tables: "pg_GetRun runID d = (d', res) \<Longrightarrow> db_tables d' = db_tables d"
  unfolding pg_GetRun_def by (rule query_tables)

lemma node_read_tables: "pg_node_read nodeID d = (d', res) \<Longrightarrow> db_tables d' = db_tables d"
  unfolding pg_node_read_def by (rule query_tables)

lemma pg_Submit_cases:
  assumes "pg_Submit request d = (d', res)"
  obtains now runID attemptID d0 d1 where "db_tables d0 = db_tables d" "db_tables d1 = db_tables d'" "\<exists>err. res = Inl err"
      "\<exists>err. transaction (submit_tx request now runID attemptID) d0 = (d1, Inl err)"
  | now runID attemptID d0 d1 found where "db_tables d0 = db_tables d" "db_tables d1 = db_tables d'"
      "transaction (submit_tx request now runID attemptID) d0 = (d1, Inr found)" "pg_GetRun found d1 = (d', res)"
proof -
  obtain runID d1 where 1: "newControlPlaneID ''run'' d = (runID, d1)" by (cases "newControlPlaneID ''run'' d")
  obtain attemptID d2 where 2: "newControlPlaneID ''attempt'' d1 = (attemptID, d2)" by (cases "newControlPlaneID ''attempt'' d1")
  obtain now d3 where 3: "time_Now d2 = (now, d3)" by (cases "time_Now d2")
  have t: "db_tables d3 = db_tables d" using 1 2 3 by (auto simp: newControlPlaneID_def rand_Read_def time_Now_def)
  obtain d4 out where 4: "transaction (submit_tx request now runID attemptID) d3 = (d4, out)" by (cases "transaction (submit_tx request now runID attemptID) d3")
  show thesis
  proof (cases out)
    case (Inl err)
    then show thesis using assms 1 2 3 4 t that(1) [of d3 d4 now runID attemptID] by (auto simp: pg_Submit_def)
  next
    case (Inr found)
    then have get: "pg_GetRun found d4 = (d', res)" using assms 1 2 3 4 by (simp add: pg_Submit_def)
    then show thesis using 4 t Inr GetRun_tables [OF get] that(2) [of d3 d4 now runID attemptID found] by simp
  qed
qed

lemma pg_Submit_steps:
  assumes "pg_Submit request d = (d', res)" "pg_inv (db_tables d)"
  shows "pg_step\<^sup>*\<^sup>* (db_tables d) (db_tables d')"
proof -
  have "pg_step\<^sup>*\<^sup>* (db_tables d0) (db_tables d1)" if "transaction (submit_tx request now runID attemptID) d0 = (d1, out)" "db_tables d0 = db_tables d" for d0 d1 out now runID attemptID
    using that(1) by (rule transaction_steps) (use submit_result assms(2) that(2) in fastforce)
  then show ?thesis using pg_Submit_cases [OF assms(1)] by (metis (no_types))
qed

lemma pg_Claim_steps:
  assumes "pg_Claim sv nodeID ttl d = (d', res)" "pg_inv (db_tables d)"
  shows "pg_step\<^sup>*\<^sup>* (db_tables d) (db_tables d')"
  using assms(1) unfolding pg_Claim_def by (rule transaction_steps) (auto elim!: claim_steps [OF _ assms(2)] dest: row_steps_pg)

lemma pg_Renew_steps:
  assumes "pg_Renew asg ttl d = (d', res)" "pg_inv (db_tables d)"
  shows "pg_step\<^sup>*\<^sup>* (db_tables d) (db_tables d')"
  using assms(1) unfolding pg_Renew_def
proof (rule transaction_steps)
  fix e t' x
  assume "succeeds (tx_bind (sql_query (\<lambda>e t. pg_run (as_RunID asg) t)) (\<lambda>row. case row of
       None \<Rightarrow> tx_error ErrNotFound
     | Some run \<Rightarrow> tx_bind tx_now (\<lambda>now.
         let a = run_Attempt run in
         if att_ID a \<noteq> as_AttemptID asg \<or> as_LeaseToken asg = [] \<or> att_LeaseToken a \<noteq> as_LeaseToken asg \<or>
            (case att_LeaseExpiresAt a of None \<Rightarrow> True | Some x \<Rightarrow> x \<le> now)
         then tx_error ErrInvalidLease
         else if att_Status a \<noteq> AttemptLeased \<and> att_Status a \<noteq> AttemptRunning then tx_error ErrInvalidTransition
         else let expires = now + ttl in
           tx_seq (update_attempt (att_ID a) (\<lambda>a. a\<lparr>att_LeaseExpiresAt := Some (usec expires)\<rparr>))
             (tx_return \<lparr>lu_LeaseExpiresAt = expires, lu_CancelRequested = (run_CancelRequestedAt run \<noteq> None), lu_CancelReason = run_CancelReason run\<rparr>))))
     e (db_tables d) t' x"
  then obtain run expires where run: "pg_run (as_RunID asg) (db_tables d) = Some run" "att_Status (run_Attempt run) = AttemptLeased \<or> att_Status (run_Attempt run) = AttemptRunning"
      "t' = set_attempt (att_ID (run_Attempt run)) (\<lambda>a. a\<lparr>att_LeaseExpiresAt := Some expires\<rparr>) (db_tables d)"
    by (auto simp: Let_def elim!: tx_elims split: option.split_asm if_split_asm)
  have "rows_inv (db_tables d)" using assms(2) by (simp add: pg_inv_def)
  from pg_run_current [OF this run(1)] obtain r a where "current (db_tables d) r a" "run = scanRun r a" .
  then show "pg_step\<^sup>*\<^sup>* (db_tables d) t'" using renew_steps [OF assms(2), of r a expires] run(2,3) row_steps_pg by fastforce
qed

lemma pg_Reconcile_steps:
  assumes "pg_Reconcile now limit d = (d', res)" "pg_inv (db_tables d)"
  shows "pg_step\<^sup>*\<^sup>* (db_tables d) (db_tables d')"
  using assms(1) unfolding pg_Reconcile_def by (rule transaction_steps) (rule reconcile_steps [OF _ assms(2)])

lemma pg_Start_steps:
  assumes "pg_Start asg d = (d', res)" "pg_inv (db_tables d)"
  shows "pg_step\<^sup>*\<^sup>* (db_tables d) (db_tables d')"
  using assms(1) unfolding pg_Start_def
  by (rule transition_steps [OF _ assms(2)])
    (auto elim!: succeeds_error succeeds_bind succeeds_now split: if_split_asm option.split_asm dest!: row_steps_pg [OF start_steps [OF _ assms(2)]])

lemma pg_Complete_steps:
  assumes "pg_Complete asg result d = (d', res)" "pg_inv (db_tables d)"
  shows "pg_step\<^sup>*\<^sup>* (db_tables d) (db_tables d')"
  using assms(1) unfolding pg_Complete_def
  by (rule transition_steps [OF _ assms(2)])
    (auto elim!: succeeds_error succeeds_return split: if_split_asm option.split_asm intro: row_steps_pg complete_steps [OF _ assms(2)])

lemma pg_Fail_steps:
  assumes "pg_Fail asg cause d = (d', res)" "pg_inv (db_tables d)"
  shows "pg_step\<^sup>*\<^sup>* (db_tables d) (db_tables d')"
  using assms(1) unfolding pg_Fail_def
  by (rule transition_steps [OF _ assms(2)])
    (auto elim!: succeeds_error succeeds_return split: if_split_asm intro: row_steps_pg fail_steps [OF _ assms(2)])

lemma pg_Acknowledge_steps:
  assumes "pg_AcknowledgeCancellation asg d = (d', res)" "pg_inv (db_tables d)"
  shows "pg_step\<^sup>*\<^sup>* (db_tables d) (db_tables d')"
  using assms(1) unfolding pg_AcknowledgeCancellation_def
  by (rule transition_steps [OF _ assms(2)])
    (auto elim!: succeeds_error succeeds_return succeeds_bind succeeds_now split: if_split_asm dest!: row_steps_pg [OF finalize_steps [OF _ assms(2)]])

lemma pg_CancelRun_steps:
  assumes "pg_CancelRun runID request d = (d', res)" "pg_inv (db_tables d)"
  shows "pg_step\<^sup>*\<^sup>* (db_tables d) (db_tables d')"
proof -
  let ?body = "tx_bind (sql_query (\<lambda>e t. pg_run runID t)) (\<lambda>row. case row of
           None \<Rightarrow> tx_error ErrNotFound
         | Some run \<Rightarrow> tx_bind tx_now (requestCancelTx run request))"
  obtain d1 out where d1: "transaction ?body d = (d1, out)" by (cases "transaction ?body d")
  have rows: "rows_inv (db_tables d)" using assms(2) by (simp add: pg_inv_def)
  from d1 have "pg_step\<^sup>*\<^sup>* (db_tables d) (db_tables d1)"
  proof (rule transaction_steps)
    fix e t' x
    assume "succeeds ?body e (db_tables d) t' x"
    then obtain run now where run: "pg_run runID (db_tables d) = Some run" "succeeds (requestCancelTx run request now) e (db_tables d) t' x"
      by (auto elim!: succeeds_bind succeeds_query succeeds_error succeeds_now split: option.split_asm)
    then show "pg_step\<^sup>*\<^sup>* (db_tables d) t'"
      using pg_run_current [OF rows run(1)] requestCancel_steps [OF _ assms(2)] row_steps_pg by metis
  qed
  moreover have "db_tables d' = db_tables d1"
    using assms(1) d1 by (cases out) (auto simp: pg_CancelRun_def dest: GetRun_tables)
  ultimately show ?thesis by simp
qed

lemma event_steps: "succeeds (pg_appendEvent k j ty v) e t t' x \<Longrightarrow> run_exists k t \<Longrightarrow> pg_step\<^sup>*\<^sup>* t t'"
  by (erule succeeds_appendEvent) (auto intro: pg_step.log)

lemma other_logged:
  assumes "pg_inv t" "run_exists k t"
  shows "logged k (t\<lparr>tb_artifacts := fs\<rparr>) t' \<Longrightarrow> pg_step\<^sup>*\<^sup>* t t'" "logged k (t\<lparr>tb_calls := cs\<rparr>) t' \<Longrightarrow> pg_step\<^sup>*\<^sup>* t t'"
    "logged k (t\<lparr>tb_interactions := ics\<rparr>) t' \<Longrightarrow> pg_step\<^sup>*\<^sup>* t t'"
  by (rule pg_step_logged [OF pg_step_other(1) [OF assms(1)]] pg_step_logged [OF pg_step_other(2) [OF assms(1)]]
      pg_step_logged [OF pg_step_other(3) [OF assms(1)]]; use assms(2) in \<open>simp add: run_exists_def\<close>)+

lemma pg_AppendEvent_steps:
  assumes "pg_AppendEvent runID attemptID lease eventType data eventIDs d = (d', res)" "pg_inv (db_tables d)"
  shows "pg_step\<^sup>*\<^sup>* (db_tables d) (db_tables d')"
  using assms(1) unfolding pg_AppendEvent_def
proof (rule transition_steps [OF _ assms(2)])
  fix e r a t' x
  assume c: "current (db_tables d) r a" and r: "rc_id r = as_RunID \<lparr>as_RunID = runID, as_AttemptID = attemptID, as_LeaseToken = lease, as_LeaseExpiresAt = 0, as_Request = zero_Request\<rparr>"
    and s: "succeeds (if att_Status (run_Attempt (scanRun r a)) \<noteq> AttemptRunning then tx_error ErrInvalidTransition
      else let eventID = EventIdentity attemptID lease eventIDs in
        if eventID = [] then pg_appendEvent runID attemptID eventType data
        else tx_bind (sql_query (\<lambda>e t. first_row (filter (\<lambda>old. ev_ID old = eventID) (tb_events t)))) (\<lambda>row. case row of
           Some old \<Rightarrow> (case SameEvent (ev_Type old) (ev_Data old) eventType data of None \<Rightarrow> tx_return () | Some err \<Rightarrow> tx_error err)
         | None \<Rightarrow> (case json_Marshal data of Inl err \<Rightarrow> tx_error err
             | Inr encoded \<Rightarrow> insert_event_row eventID runID attemptID (next_sequence runID) eventType (Some encoded)))) e (db_tables d) t' x"
  have ex: "run_exists runID (db_tables d)" using current_exists [OF c] r by simp
  from s have "t' = db_tables d \<or> logged runID (db_tables d) t'"
    by (auto simp: Let_def elim!: succeeds_bind succeeds_query succeeds_error succeeds_return succeeds_appendEvent
      dest!: succeeds_insert_event_row split: if_split_asm option.split_asm sum.split_asm)
  then show "pg_step\<^sup>*\<^sup>* (db_tables d) t'" using pg_step.log [OF ex] by auto
qed

lemma pg_AddArtifact_steps:
  assumes "pg_AddArtifact asg artifact d = (d', res)" "pg_inv (db_tables d)"
  shows "pg_step\<^sup>*\<^sup>* (db_tables d) (db_tables d')"
  using assms(1) unfolding pg_AddArtifact_def
  by (rule transition_steps [OF _ assms(2)])
    (auto elim!: succeeds_error succeeds_seq succeeds_statement succeeds_appendEvent split: if_split_asm dest: current_exists
      intro: other_logged [OF assms(2)])

lemma pg_Reserve_steps:
  assumes "pg_ReserveCapability asg key hash request d = (d', res)" "pg_inv (db_tables d)"
  shows "pg_step\<^sup>*\<^sup>* (db_tables d) (db_tables d')"
  using assms(1) unfolding pg_ReserveCapability_def reserve_tx_def insert_call_def
  by (rule transition_steps [OF _ assms(2)])
    (auto elim!: succeeds_error succeeds_return succeeds_bind succeeds_newID succeeds_query succeeds_seq succeeds_statement split: if_split_asm option.split_asm
      intro: r_into_rtranclp [of pg_step, OF pg_step_other(2) [OF assms(2)]])

lemma pg_Finish_steps:
  assumes "pg_FinishCapability asg reservation result cause d = (d', res)" "pg_inv (db_tables d)"
  shows "pg_step\<^sup>*\<^sup>* (db_tables d) (db_tables d')"
  using assms(1) unfolding pg_FinishCapability_def finish_tx_def Let_def
  by (rule transition_steps [OF _ assms(2)])
    (auto elim!: succeeds_error succeeds_bind succeeds_statement succeeds_appendEvent split: if_split_asm dest: current_exists
      intro: other_logged [OF assms(2)])

lemma pg_CreateInteraction_steps:
  assumes "pg_CreateInteraction asg request d = (d', res)" "pg_inv (db_tables d)"
  shows "pg_step\<^sup>*\<^sup>* (db_tables d) (db_tables d')"
  using assms(1) unfolding pg_CreateInteraction_def create_tx_def Let_def
  by (rule transition_steps [OF _ assms(2)])
    (auto elim!: succeeds_error succeeds_return succeeds_bind succeeds_newID succeeds_now succeeds_seq succeeds_statement succeeds_appendEvent split: if_split_asm
      dest: current_exists intro: other_logged [OF assms(2)])

lemma GetInteraction_tables:
  assumes "pg_GetInteraction asg interactionID d = (d', res)"
  shows "db_tables d' = db_tables d"
  using assms unfolding pg_GetInteraction_def
  by (rule transition_result) (auto elim!: succeeds_error succeeds_return succeeds_bind succeeds_query split: option.split_asm)

lemma pg_ResolveInteraction_steps:
  assumes "pg_ResolveInteraction interactionID response tenant project d = (d', res)" "pg_inv (db_tables d)"
  shows "pg_step\<^sup>*\<^sup>* (db_tables d) (db_tables d')"
  using assms(1) unfolding pg_ResolveInteraction_def
proof (rule transaction_steps)
  fix e t' x
  assume "succeeds (resolve_tx interactionID response tenant project) e (db_tables d) t' x"
  then obtain v ics where v: "interaction_in_scope interactionID tenant project (db_tables d) = Some v"
      "logged (ia_RunID v) ((db_tables d)\<lparr>tb_interactions := ics\<rparr>) t'"
    unfolding resolve_tx_def
    by (auto elim!: succeeds_error succeeds_return succeeds_bind succeeds_query succeeds_now succeeds_seq succeeds_exec succeeds_appendEvent split: option.split_asm if_split_asm)
  have "run_exists (ia_RunID v) (db_tables d)"
    using first_row_Some [OF v(1) [unfolded interaction_in_scope_def]] by (auto simp: run_exists_def)
  then show "pg_step\<^sup>*\<^sup>* (db_tables d) t'"
    using other_logged(3) [OF assms(2) _ v(2)] by simp
qed

lemma migrate_steps: "succeeds (migrate_all entries) e t t' x \<Longrightarrow> pg_inv t \<Longrightarrow> pg_step\<^sup>*\<^sup>* t t'"
proof (induction entries arbitrary: t)
  case Nil
  then show ?case by (auto elim!: succeeds_return)
next
  case (Cons p entries)
  obtain name script where p: "p = (name, script)" by (cases p)
  from Cons.prems(1) p consider "succeeds (migrate_all entries) e t t' x"
    | "succeeds (migrate_all entries) e (t\<lparr>tb_scripts := tb_scripts t @ [script], tb_migrations := tb_migrations t @ [name]\<rparr>) t' x"
    by (auto elim!: succeeds_bind succeeds_query succeeds_seq succeeds_wrap succeeds_exec succeeds_statement split: if_split_asm)
  then show ?case
  proof cases
    case 1
    then show ?thesis using Cons.IH Cons.prems(2) by blast
  next
    case 2
    have one: "pg_step t (t\<lparr>tb_scripts := tb_scripts t @ [script]\<rparr>)" by (rule pg_step_other(4) [OF Cons.prems(2)])
    have two: "pg_step (t\<lparr>tb_scripts := tb_scripts t @ [script]\<rparr>) (t\<lparr>tb_scripts := tb_scripts t @ [script], tb_migrations := tb_migrations t @ [name]\<rparr>)"
      by (rule pg_step_other(5) [OF pg_step_inv [OF one Cons.prems(2)]])
    have "pg_inv (t\<lparr>tb_scripts := tb_scripts t @ [script], tb_migrations := tb_migrations t @ [name]\<rparr>)"
      using pg_step_inv [OF two pg_step_inv [OF one Cons.prems(2)]] .
    from Cons.IH [OF 2 this] one two show ?thesis by (meson converse_rtranclp_into_rtranclp)
  qed
qed

lemma pg_Migrate_steps:
  assumes "pg_Migrate entries d = (d', res)" "pg_inv (db_tables d)"
  shows "pg_step\<^sup>*\<^sup>* (db_tables d) (db_tables d')"
  using assms(1) unfolding pg_Migrate_def
  by (rule transaction_steps) (auto elim!: succeeds_seq succeeds_wrap succeeds_exec intro: migrate_steps [OF _ assms(2)])

lemma upsert_nodes:
  assumes "pg_inv t" "reg_ID g \<noteq> []" "reg_Capacity g > 0" "nc_registration row = g"
  shows "pg_step t (t\<lparr>tb_nodes := (if \<exists>n \<in> set (tb_nodes t). reg_ID (nc_registration n) = reg_ID g
    then map (\<lambda>n. if reg_ID (nc_registration n) = reg_ID g then row else n) (tb_nodes t) else tb_nodes t @ [row])\<rparr>)"
proof -
  have d: "distinct (map (reg_ID \<circ> nc_registration) (tb_nodes t))"
    and n: "\<And>n. n \<in> set (tb_nodes t) \<Longrightarrow> reg_ID (nc_registration n) \<noteq> [] \<and> reg_Capacity (nc_registration n) > 0"
    using assms(1) by (auto simp: pg_inv_def)
  have eq: "map (reg_ID \<circ> nc_registration) (map (\<lambda>n. if reg_ID (nc_registration n) = reg_ID g then row else n) (tb_nodes t)) = map (reg_ID \<circ> nc_registration) (tb_nodes t)"
    using assms(4) by simp
  show ?thesis
  proof (cases "\<exists>n \<in> set (tb_nodes t). reg_ID (nc_registration n) = reg_ID g")
    case True
    have "pg_step t (t\<lparr>tb_nodes := map (\<lambda>n. if reg_ID (nc_registration n) = reg_ID g then row else n) (tb_nodes t)\<rparr>)"
    proof (rule pg_step_nodes)
      show "distinct (map (reg_ID \<circ> nc_registration) (map (\<lambda>n. if reg_ID (nc_registration n) = reg_ID g then row else n) (tb_nodes t)))"
        unfolding eq by (rule d)
    qed (use n assms(2-4) in \<open>auto split: if_split_asm\<close>)
    with True show ?thesis by simp
  next
    case False
    have "pg_step t (t\<lparr>tb_nodes := tb_nodes t @ [row]\<rparr>)"
    proof (rule pg_step_nodes)
      show "distinct (map (reg_ID \<circ> nc_registration) (tb_nodes t @ [row]))"
        using d False unfolding map_append distinct_append assms(4) [symmetric] by (simp add: image_iff) metis
      show "reg_ID (nc_registration x) \<noteq> [] \<and> reg_Capacity (nc_registration x) > 0" if "x \<in> set (tb_nodes t @ [row])" for x
        using that n [of x] assms(2-4) by auto
    qed
    with False show ?thesis by simp
  qed
qed

lemma pg_RegisterNode_steps:
  assumes "pg_RegisterNode g d = (d', res)" "pg_inv (db_tables d)" "reg_ID g \<noteq> []"
  shows "pg_step\<^sup>*\<^sup>* (db_tables d) (db_tables d')"
proof -
  obtain now d0 where d0: "time_Now d = (now, d0)" "db_tables d0 = db_tables d" by (cases "time_Now d") (auto simp: time_Now_def)
  let ?row = "\<lparr>nc_registration = g, nc_last_seen = usec now\<rparr>"
  let ?up = "\<lambda>t. t\<lparr>tb_nodes := (if \<exists>n \<in> set (tb_nodes t). reg_ID (nc_registration n) = reg_ID g
    then map (\<lambda>n. if reg_ID (nc_registration n) = reg_ID g then ?row else n) (tb_nodes t) else tb_nodes t @ [?row])\<rparr>"
  let ?body = "statement (\<lambda>e t. if reg_Capacity g \<le> 0 then (t, Inl check_violation)
      else let row = ?row in
        (t\<lparr>tb_nodes := (if \<exists>n \<in> set (tb_nodes t). reg_ID (nc_registration n) = reg_ID g
            then map (\<lambda>n. if reg_ID (nc_registration n) = reg_ID g then row else n) (tb_nodes t)
            else tb_nodes t @ [row])\<rparr>, Inr ()))"
  obtain d1 out where d1: "transaction ?body d0 = (d1, out)" by (cases "transaction ?body d0")
  from d1 have "pg_step\<^sup>*\<^sup>* (db_tables d0) (db_tables d1)"
  proof (rule transaction_steps)
    fix e t' x
    assume s: "succeeds ?body e (db_tables d0) t' x"
    show "pg_step\<^sup>*\<^sup>* (db_tables d0) t'"
    proof (cases "reg_Capacity g \<le> 0")
      case True
      with s show ?thesis by (auto elim!: succeeds_statement)
    next
      case False
      with s have "t' = ?up (db_tables d0)" by (elim succeeds_statement) (simp only: Let_def if_False prod.inject)
      moreover have "pg_step (db_tables d0) (?up (db_tables d0))" unfolding d0(2)
        by (rule upsert_nodes [OF assms(2,3)]) (use False in simp_all)
      ultimately show ?thesis by blast
    qed
  qed
  moreover have "db_tables d' = db_tables d1"
    using assms(1) d0(1) d1 by (cases out) (auto simp: pg_RegisterNode_def dest: node_read_tables)
  ultimately show ?thesis using d0(2) by simp
qed

lemma pg_Heartbeat_steps:
  assumes "pg_Heartbeat nodeID d = (d', res)" "pg_inv (db_tables d)"
  shows "pg_step\<^sup>*\<^sup>* (db_tables d) (db_tables d')"
proof -
  let ?seen = "\<lambda>e n. if reg_ID (nc_registration n) = nodeID then n\<lparr>nc_last_seen := pt_now e\<rparr> else n"
  let ?body = "statement (\<lambda>e t. (t\<lparr>tb_nodes := map (?seen e) (tb_nodes t)\<rparr>, Inr (length (filter (\<lambda>n. reg_ID (nc_registration n) = nodeID) (tb_nodes t)))))"
  obtain d1 out where d1: "transaction ?body d = (d1, out)" by (cases "transaction ?body d")
  have "pg_step (db_tables d) ((db_tables d)\<lparr>tb_nodes := map (?seen e) (tb_nodes (db_tables d))\<rparr>)" for e
  proof (rule pg_step_nodes)
    have "map (reg_ID \<circ> nc_registration) (map (?seen e) (tb_nodes (db_tables d))) = map (reg_ID \<circ> nc_registration) (tb_nodes (db_tables d))" by simp
    then show "distinct (map (reg_ID \<circ> nc_registration) (map (?seen e) (tb_nodes (db_tables d))))" using assms(2) by (simp only: pg_inv_def)
  qed (use assms(2) in \<open>auto simp: pg_inv_def\<close>)
  with d1 have "pg_step\<^sup>*\<^sup>* (db_tables d) (db_tables d1)"
    by (intro transaction_steps [OF d1]) (auto elim!: succeeds_statement)
  moreover have "db_tables d' = db_tables d1"
    using assms(1) d1 by (cases out) (auto simp: pg_Heartbeat_def split: if_split_asm dest: node_read_tables)
  ultimately show ?thesis by simp
qed

section \<open>Histories of calls\<close>

datatype pg_call =
    PgMigrate "(string \<times> string) list"
  | PgRegisterNode NodeRegistration
  | PgHeartbeat string
  | PgSubmit Request
  | PgClaim string duration
  | PgRenew Assignment duration
  | PgReconcile time int
  | PgCancelRun string CancelRequest
  | PgAcknowledgeCancellation Assignment
  | PgStart Assignment
  | PgAppendEvent string string string string goany "string list"
  | PgComplete Assignment Result
  | PgFail Assignment string
  | PgAddArtifact Assignment Artifact
  | PgReserveCapability Assignment string string CapabilityRequest
  | PgFinishCapability Assignment CapabilityReservation CapabilityResult string
  | PgCreateInteraction Assignment InteractionRequest
  | PgGetInteraction Assignment string
  | PgResolveInteraction string "json option" string string

fun pg_apply :: "('v, 'c) semver \<Rightarrow> pg_call \<Rightarrow> database \<Rightarrow> database" where
  "pg_apply sv (PgMigrate entries) d = fst (pg_Migrate entries d)"
| "pg_apply sv (PgRegisterNode g) d = fst (pg_RegisterNode g d)"
| "pg_apply sv (PgHeartbeat nodeID) d = fst (pg_Heartbeat nodeID d)"
| "pg_apply sv (PgSubmit request) d = fst (pg_Submit request d)"
| "pg_apply sv (PgClaim nodeID ttl) d = fst (pg_Claim sv nodeID ttl d)"
| "pg_apply sv (PgRenew asg ttl) d = fst (pg_Renew asg ttl d)"
| "pg_apply sv (PgReconcile now limit) d = fst (pg_Reconcile now limit d)"
| "pg_apply sv (PgCancelRun runID request) d = fst (pg_CancelRun runID request d)"
| "pg_apply sv (PgAcknowledgeCancellation asg) d = fst (pg_AcknowledgeCancellation asg d)"
| "pg_apply sv (PgStart asg) d = fst (pg_Start asg d)"
| "pg_apply sv (PgAppendEvent runID attemptID lease ty data ids) d = fst (pg_AppendEvent runID attemptID lease ty data ids d)"
| "pg_apply sv (PgComplete asg result) d = fst (pg_Complete asg result d)"
| "pg_apply sv (PgFail asg cause) d = fst (pg_Fail asg cause d)"
| "pg_apply sv (PgAddArtifact asg artifact) d = fst (pg_AddArtifact asg artifact d)"
| "pg_apply sv (PgReserveCapability asg key hash request) d = fst (pg_ReserveCapability asg key hash request d)"
| "pg_apply sv (PgFinishCapability asg reservation result cause) d = fst (pg_FinishCapability asg reservation result cause d)"
| "pg_apply sv (PgCreateInteraction asg request) d = fst (pg_CreateInteraction asg request d)"
| "pg_apply sv (PgGetInteraction asg interactionID) d = fst (pg_GetInteraction asg interactionID d)"
| "pg_apply sv (PgResolveInteraction interactionID response tenant project) d = fst (pg_ResolveInteraction interactionID response tenant project d)"

text \<open>The service registers only nodes that have an identifier.\<close>

fun pg_admissible :: "pg_call \<Rightarrow> bool" where
  "pg_admissible (PgRegisterNode g) \<longleftrightarrow> reg_ID g \<noteq> []"
| "pg_admissible _ \<longleftrightarrow> True"

lemma pg_GetInteraction_steps: "pg_GetInteraction asg interactionID d = (d', res) \<Longrightarrow> pg_step\<^sup>*\<^sup>* (db_tables d) (db_tables d')"
  by (drule GetInteraction_tables) simp

lemma pg_apply_steps:
  assumes "pg_inv (db_tables d)" "pg_admissible c"
  shows "pg_step\<^sup>*\<^sup>* (db_tables d) (db_tables (pg_apply sv c d))"
  using assms
  by (cases c)
    (simp_all add: pg_Migrate_steps [OF prod.collapse [symmetric]] pg_RegisterNode_steps [OF prod.collapse [symmetric]] pg_Heartbeat_steps [OF prod.collapse [symmetric]]
      pg_Submit_steps [OF prod.collapse [symmetric]] pg_Claim_steps [OF prod.collapse [symmetric]] pg_Renew_steps [OF prod.collapse [symmetric]]
      pg_Reconcile_steps [OF prod.collapse [symmetric]] pg_CancelRun_steps [OF prod.collapse [symmetric]] pg_Acknowledge_steps [OF prod.collapse [symmetric]]
      pg_Start_steps [OF prod.collapse [symmetric]] pg_AppendEvent_steps [OF prod.collapse [symmetric]] pg_Complete_steps [OF prod.collapse [symmetric]]
      pg_Fail_steps [OF prod.collapse [symmetric]] pg_AddArtifact_steps [OF prod.collapse [symmetric]] pg_Reserve_steps [OF prod.collapse [symmetric]]
      pg_Finish_steps [OF prod.collapse [symmetric]] pg_CreateInteraction_steps [OF prod.collapse [symmetric]] pg_GetInteraction_steps [OF prod.collapse [symmetric]]
      pg_ResolveInteraction_steps [OF prod.collapse [symmetric]])

lemma pg_apply_inv: "pg_inv (db_tables d) \<Longrightarrow> pg_admissible c \<Longrightarrow> pg_inv (db_tables (pg_apply sv c d))"
  using pg_apply_steps pg_steps_inv by blast

end
