(* ===== verification/Postgres_Properties.thy ===== *)
theory Postgres_Properties
  imports Postgres_Calls Memory_Scenario "HOL-Library.Sublist"
begin

text \<open>
  The properties of the PostgreSQL storage: the invariant of its tables, what no later call changes, fencing of superseded attempts, what a claim
  and a submission guarantee, and reading the event log. They hold for every sequence of calls, with failing
  statements, rolled back transactions and commits whose outcome is unknown, and without an assumption on the random identifiers: the constraints
  of the tables refuse a duplicate.
\<close>

section \<open>What later calls keep\<close>

definition pg_extends :: "tables \<Rightarrow> tables \<Rightarrow> bool" where
  "pg_extends t t' \<longleftrightarrow> prefix (tb_events t) (tb_events t') \<and>
     (\<forall>r \<in> set (tb_runs t). \<exists>r' \<in> set (tb_runs t'). same_keys r r' \<and>
        prefix (butlast (run_attempts (rc_id r) t)) (butlast (run_attempts (rc_id r) t')) \<and>
        (terminalRun (rc_status r) \<longrightarrow> r' = r \<and> run_attempts (rc_id r) t' = run_attempts (rc_id r) t))"

lemma same_keys_refl [simp]: "same_keys r r" by (simp add: same_keys_def)

lemma same_keys_trans: "same_keys r r' \<Longrightarrow> same_keys r' r'' \<Longrightarrow> same_keys r r''" by (simp add: same_keys_def)

lemma same_keys_id: "same_keys r r' \<Longrightarrow> rc_id r' = rc_id r" by (simp add: same_keys_def)

lemma pg_extends_refl [simp]: "pg_extends t t"
  unfolding pg_extends_def using same_keys_refl by blast

lemma pg_extends_trans:
  assumes "pg_extends t t1" "pg_extends t1 t2"
  shows "pg_extends t t2"
  unfolding pg_extends_def
proof (intro conjI ballI)
  show "prefix (tb_events t) (tb_events t2)" using assms by (auto simp: pg_extends_def)
next
  fix r assume "r \<in> set (tb_runs t)"
  with assms(1) obtain r1 where r1: "r1 \<in> set (tb_runs t1)" "same_keys r r1" "prefix (butlast (run_attempts (rc_id r) t)) (butlast (run_attempts (rc_id r) t1))"
    "terminalRun (rc_status r) \<longrightarrow> r1 = r \<and> run_attempts (rc_id r) t1 = run_attempts (rc_id r) t" by (auto simp: pg_extends_def)
  with assms(2) obtain r2 where r2: "r2 \<in> set (tb_runs t2)" "same_keys r1 r2" "prefix (butlast (run_attempts (rc_id r1) t1)) (butlast (run_attempts (rc_id r1) t2))"
    "terminalRun (rc_status r1) \<longrightarrow> r2 = r1 \<and> run_attempts (rc_id r1) t2 = run_attempts (rc_id r1) t1" by (auto simp: pg_extends_def)
  have same: "same_keys r r2" by (rule same_keys_trans [OF r1(2) r2(2)])
  have pre: "prefix (butlast (run_attempts (rc_id r) t)) (butlast (run_attempts (rc_id r) t2))"
    using r1(3) r2(3) unfolding same_keys_id [OF r1(2)] by (rule prefix_order.trans)
  have fin: "terminalRun (rc_status r) \<longrightarrow> r2 = r \<and> run_attempts (rc_id r) t2 = run_attempts (rc_id r) t"
    using r1(4) r2(4) by auto
  show "\<exists>r' \<in> set (tb_runs t2). same_keys r r' \<and> prefix (butlast (run_attempts (rc_id r) t)) (butlast (run_attempts (rc_id r) t2)) \<and>
      (terminalRun (rc_status r) \<longrightarrow> r' = r \<and> run_attempts (rc_id r) t2 = run_attempts (rc_id r) t)"
    using r2(1) same pre fin by blast
qed

text \<open>A step that changes one row that is not finished, and keeps the attempts before the current one.\<close>

lemma pg_extends_set_run:
  assumes "rows_inv t" "r \<in> set (tb_runs t)" "\<not> terminalRun (rc_status r)" "same_keys r (f r)"
    and runs: "tb_runs t' = map (\<lambda>x. if rc_id x = rc_id r then f x else x) (tb_runs t)" and log: "tb_events t' = tb_events t"
    and own: "prefix (butlast (run_attempts (rc_id r) t)) (butlast (run_attempts (rc_id r) t'))"
    and other: "\<And>k. k \<noteq> rc_id r \<Longrightarrow> run_attempts k t' = run_attempts k t"
  shows "pg_extends t t'"
  unfolding pg_extends_def
proof (intro conjI ballI)
  show "prefix (tb_events t) (tb_events t')" by (simp add: log)
next
  fix x assume x: "x \<in> set (tb_runs t)"
  show "\<exists>r' \<in> set (tb_runs t'). same_keys x r' \<and> prefix (butlast (run_attempts (rc_id x) t)) (butlast (run_attempts (rc_id x) t')) \<and>
      (terminalRun (rc_status x) \<longrightarrow> r' = x \<and> run_attempts (rc_id x) t' = run_attempts (rc_id x) t)"
  proof (cases "rc_id x = rc_id r")
    case True
    then have "x = r" by (rule same_row [OF assms(1) x assms(2)])
    moreover have "f r \<in> set (tb_runs t')" using assms(2) unfolding runs by force
    ultimately show ?thesis using assms(3,4) own by blast
  next
    case False
    then have "x \<in> set (tb_runs t')" using x unfolding runs by force
    then show ?thesis using other [OF False] by (intro bexI [of _ x]) simp_all
  qed
qed

lemma pg_extends_same:
  assumes "tb_runs t' = tb_runs t" "tb_attempts t' = tb_attempts t" "prefix (tb_events t) (tb_events t')"
  shows "pg_extends t t'"
proof -
  have "run_attempts k t' = run_attempts k t" for k using assms(2) by (simp add: run_attempts_def)
  then show ?thesis unfolding pg_extends_def assms(1) using assms(3) same_keys_refl by (metis prefix_order.refl)
qed

lemma logged_prefix: "logged k t t' \<Longrightarrow> prefix (tb_events t) (tb_events t')"
  by (auto simp: logged_def)

lemma pg_step_extends: "pg_step t t' \<Longrightarrow> pg_inv t \<Longrightarrow> pg_extends t t'"
proof (induction rule: pg_step.induct)
  case (log runID t t')
  show ?case by (rule pg_extends_same [OF logged_frame(1,2) [OF log(2)] logged_prefix [OF log(2)]])
next
  case (change r t a f g)
  then have rows: "rows_inv t" by (simp add: pg_inv_def)
  show ?case
  proof (rule pg_extends_set_run [of t r f, OF rows change(1,4,5)])
    show "prefix (butlast (run_attempts (rc_id r) t)) (butlast (run_attempts (rc_id r) (set_run (rc_id r) f (set_attempt (att_ID a) g t))))"
      using set_attempt_own [OF rows change(2), of g] change(3) by simp
    show "run_attempts k (set_run (rc_id r) f (set_attempt (att_ID a) g t)) = run_attempts k t" if "k \<noteq> rc_id r" for k
      using set_attempt_other [OF rows change(2) that, of g] change(3) by simp
  qed simp_all
next
  case (retry r t a f b g)
  then have rows: "rows_inv t" by (simp add: pg_inv_def)
  show ?case
  proof (rule pg_extends_set_run [of t r f, OF rows retry(1,4,5)])
    show "prefix (butlast (run_attempts (rc_id r) t)) (butlast (run_attempts (rc_id r) (set_run (rc_id r) f (add_attempt (rc_id r) b (set_attempt (att_ID a) g t)))))"
      using set_attempt_own [OF rows retry(2), of g] retry(3) by (simp add: butlast_append)
    show "run_attempts k (set_run (rc_id r) f (add_attempt (rc_id r) b (set_attempt (att_ID a) g t))) = run_attempts k t" if "k \<noteq> rc_id r" for k
      using set_attempt_other [OF rows retry(2) that, of g] retry(3) that by simp
  qed simp_all
next
  case (insert r t b)
  have "rc_id x \<noteq> rc_id r" if "x \<in> set (tb_runs t)" for x using insert(1) that by (auto simp: run_exists_def)
  then have "run_attempts (rc_id x) (add_attempt (rc_id r) b (t\<lparr>tb_runs := tb_runs t @ [r]\<rparr>)) = run_attempts (rc_id x) t"
    if "x \<in> set (tb_runs t)" for x using that by simp
  then show ?case unfolding pg_extends_def
    by (intro conjI ballI) (simp, metis Un_iff prefix_order.refl row_updates(8) same_keys_refl set_append tables.select_convs(4) tables.surjective tables.update_convs(4))
next
  case (other ns t ics cs fs ss ms)
  show ?case by (rule pg_extends_same) simp_all
qed

lemma pg_steps_extend: "pg_step\<^sup>*\<^sup>* t t' \<Longrightarrow> pg_inv t \<Longrightarrow> pg_extends t t'"
proof (induction rule: rtranclp_induct)
  case (step t1 t2)
  then show ?case using pg_steps_inv pg_step_extends pg_extends_trans by blast
qed simp

section \<open>Histories\<close>

text \<open>A storage whose calls keep an invariant and only ever extend what is recorded.\<close>

locale storage_history =
  fixes apply_call :: "'c \<Rightarrow> 's \<Rightarrow> 's" and admissible :: "'c \<Rightarrow> bool" and valid :: "'s \<Rightarrow> bool" and later :: "'s \<Rightarrow> 's \<Rightarrow> bool"
  assumes keeps: "valid s \<Longrightarrow> admissible c \<Longrightarrow> valid (apply_call c s) \<and> later s (apply_call c s)"
    and later_refl: "later s s"
    and later_trans: "later s s1 \<Longrightarrow> later s1 s2 \<Longrightarrow> later s s2"
begin

lemma history: "valid s \<Longrightarrow> list_all admissible calls \<Longrightarrow> valid (fold apply_call calls s) \<and> later s (fold apply_call calls s)"
proof (induction calls arbitrary: s)
  case (Cons c calls)
  then show ?case using keeps [of s c] later_trans by auto
qed (simp add: later_refl)

end

interpretation postgres_history: storage_history "pg_apply sv" pg_admissible "\<lambda>d. pg_inv (db_tables d)" "\<lambda>d d'. pg_extends (db_tables d) (db_tables d')"
  for sv
proof
  fix d :: database and c
  assume "pg_inv (db_tables d)" "pg_admissible c"
  then show "pg_inv (db_tables (pg_apply sv c d)) \<and> pg_extends (db_tables d) (db_tables (pg_apply sv c d))"
    using pg_apply_steps pg_steps_inv pg_steps_extend by metis
qed (simp, rule pg_extends_trans)

lemma no_tables_inv: "pg_inv no_tables"
  by (simp add: no_tables_def pg_inv_def rows_inv_def log_inv_def run_events_def)

lemma pg_reachable:
  "db_tables d = no_tables \<Longrightarrow> list_all pg_admissible calls \<Longrightarrow> pg_inv (db_tables (fold (pg_apply sv) calls d))"
  using postgres_history.history [of d calls sv] no_tables_inv by simp

section \<open>Fencing\<close>

text \<open>A call that is refused: nothing changes, and the error is the lease error unless the database itself failed.\<close>

definition fenced :: "(database \<Rightarrow> database \<times> 'a result) \<Rightarrow> database \<Rightarrow> bool" where
  "fenced m d \<longleftrightarrow> (case m d of (d', r) \<Rightarrow> db_tables d' = db_tables d \<and>
     (r = Inl ErrInvalidLease \<or> (\<exists>n err. db_fault d n = Some err \<and> r = Inl err)))"

definition stale :: "Assignment \<Rightarrow> Run \<Rightarrow> bool" where
  "stale asg run \<longleftrightarrow> att_ID (run_Attempt run) \<noteq> as_AttemptID asg \<or> as_LeaseToken asg = [] \<or> att_LeaseToken (run_Attempt run) \<noteq> as_LeaseToken asg"

lemmas tx_run_simps = transaction_def fault_point_def tx_bind_def sql_query_def statement_def tx_error_def tx_now_def time_Now_def

lemma fenced_transition: "pg_run (as_RunID asg) (db_tables d) = Some run \<Longrightarrow> stale asg run \<Longrightarrow> fenced (pg_transition asg change) d"
  unfolding fenced_def pg_transition_def stale_def by (auto simp: tx_run_simps Let_def split: option.splits)

lemma fenced_Renew: "pg_run (as_RunID asg) (db_tables d) = Some run \<Longrightarrow> stale asg run \<Longrightarrow> fenced (pg_Renew asg ttl) d"
  unfolding fenced_def pg_Renew_def stale_def by (auto simp: tx_run_simps Let_def split: option.splits)

lemma fenced_calls:
  assumes "pg_run (as_RunID asg) (db_tables d) = Some run" "stale asg run"
  shows "fenced (pg_Renew asg ttl) d" "fenced (pg_Start asg) d" "fenced (pg_Complete asg result) d" "fenced (pg_Fail asg cause) d"
    "fenced (pg_AcknowledgeCancellation asg) d" "fenced (pg_AddArtifact asg artifact) d" "fenced (pg_ReserveCapability asg key hash request) d"
    "fenced (pg_FinishCapability asg reservation output cause) d" "fenced (pg_CreateInteraction asg question) d" "fenced (pg_GetInteraction asg interactionID) d"
    "fenced (pg_AppendEvent (as_RunID asg) (as_AttemptID asg) (as_LeaseToken asg) eventType data eventIDs) d"
proof -
  note by_transition = fenced_transition [OF assms]
  show "fenced (pg_Renew asg ttl) d" "fenced (pg_Start asg) d" "fenced (pg_Complete asg result) d" "fenced (pg_Fail asg cause) d"
    "fenced (pg_AcknowledgeCancellation asg) d" "fenced (pg_AddArtifact asg artifact) d" "fenced (pg_ReserveCapability asg key hash request) d"
    "fenced (pg_FinishCapability asg reservation output cause) d" "fenced (pg_CreateInteraction asg question) d" "fenced (pg_GetInteraction asg interactionID) d"
    by (simp_all add: fenced_Renew [OF assms] by_transition pg_Start_def pg_Complete_def pg_Fail_def pg_AcknowledgeCancellation_def pg_AddArtifact_def
      pg_ReserveCapability_def pg_FinishCapability_def pg_CreateInteraction_def pg_GetInteraction_def)
  show "fenced (pg_AppendEvent (as_RunID asg) (as_AttemptID asg) (as_LeaseToken asg) eventType data eventIDs) d"
    unfolding pg_AppendEvent_def by (rule fenced_transition) (use assms in \<open>simp_all add: stale_def\<close>)
qed

lemma current_run:
  assumes "rows_inv t" "run_exists runID t"
  obtains run where "pg_run runID t = Some run"
proof (cases "pg_run runID t")
  case None
  from assms(2) obtain r where r: "r \<in> set (tb_runs t)" "rc_id r = runID" by (auto simp: run_exists_def)
  have "row_ok t r" by (rule rows_invD(5) [OF assms(1) r(1)])
  then have "current t r (last (run_attempts (rc_id r) t))" using r(1) by (simp add: current_def row_ok_def Let_def)
  from current_join [OF assms(1) this] None r(2) show thesis by (force simp: pg_run_def first_row_None runSelect_def filter_empty_conv)
qed (use that in blast)

text \<open>An attempt that was superseded is not the current one of its run, then or later.\<close>

lemma superseded_stale:
  assumes inv: "pg_inv t" "pg_inv t'" and ext: "pg_extends t t'"
    and a: "a \<in> set (butlast (run_attempts (as_RunID asg) t))" "att_ID a = as_AttemptID asg"
  obtains run where "pg_run (as_RunID asg) t' = Some run" "stale asg run"
proof -
  have rows: "rows_inv t" "rows_inv t'" using inv by (auto simp: pg_inv_def)
  have "a \<in> set (run_attempts (as_RunID asg) t)" using a(1) by (rule in_set_butlastD)
  then obtain row where "row \<in> set (tb_attempts t)" "ac_run_id row = as_RunID asg" by (auto simp: run_attempts_def)
  then have "run_exists (as_RunID asg) t" using rows_invD(4) [OF rows(1)] by metis
  then obtain r where r: "r \<in> set (tb_runs t)" "rc_id r = as_RunID asg" by (auto simp: run_exists_def)
  with ext obtain r' where r': "r' \<in> set (tb_runs t')" "same_keys r r'" "prefix (butlast (run_attempts (as_RunID asg) t)) (butlast (run_attempts (as_RunID asg) t'))"
    unfolding pg_extends_def by fastforce
  have a': "a \<in> set (butlast (run_attempts (as_RunID asg) t'))" using set_mono_prefix [OF r'(3)] a(1) by blast
  have "run_exists (as_RunID asg) t'" using r'(1) same_keys_id [OF r'(2)] r(2) by (auto simp: run_exists_def)
  then obtain run where run: "pg_run (as_RunID asg) t' = Some run" using current_run [OF rows(2)] by blast
  obtain q b where q: "current t' q b" "rc_id q = as_RunID asg" "run = scanRun q b" using pg_run_current [OF rows(2) run] .
  let ?as = "run_attempts (as_RunID asg) t'"
  have "distinct (map att_ID ?as)" by (rule run_attempts_distinct [OF rows_invD(3) [OF rows(2)]])
  moreover have "?as = butlast ?as @ [b]" using q by (simp add: current_def)
  ultimately have "att_ID b \<noteq> att_ID a" using a' by (metis (no_types, lifting) distinct_append image_eqI map_append not_distinct_conv_prefix set_map list.simps(8,9) disjoint_insert(2) list.set(2))
  with a(2) q(3) run that show thesis by (auto simp: stale_def)
qed

section \<open>Claims\<close>

lemma transaction_commit:
  assumes "transaction body d = (d', Inr x)"
  shows "succeeds body (db_tx d (db_transactions d)) (db_tables d) (db_tables d') x"
proof -
  let ?d = "d\<lparr>db_statements := Suc (db_statements d), db_transactions := Suc (db_transactions d)\<rparr>"
  obtain d1 r where body: "body (db_tx d (db_transactions d)) ?d = (d1, r)" by (cases "body (db_tx d (db_transactions d)) ?d")
  with assms have "r = Inr x" "db_tables d' = db_tables d1"
    by (auto simp: transaction_def fault_point_def split: option.splits sum.splits)
  with body show ?thesis unfolding succeeds_def by (intro exI [of _ ?d] exI [of _ d1]) simp
qed

lemma filter_update_one:
  assumes "distinct (map f xs)"
  shows "length (filter P (map (\<lambda>x. if f x = k then g x else x) xs)) \<le> length (filter P xs) + 1"
  using assms
proof (induction xs)
  case (Cons x xs)
  show ?case
  proof (cases "f x = k")
    case True
    have "f y \<noteq> k" if "y \<in> set xs" for y
      using Cons.prems True that by (metis distinct.simps(2) imageI list.set_map list.simps(9))
    then have "map (\<lambda>x. if f x = k then g x else x) xs = xs" by (intro map_idI) simp
    then show ?thesis using True by simp
  qed (use Cons in simp)
qed simp

lemma lease_capacity:
  assumes "rows_inv t" "node_Active (nodeSelect e t n) < capacity"
  shows "node_Active (nodeSelect e (set_attempt j g t) n) \<le> capacity"
  using filter_update_one [OF rows_invD(3) [OF assms(1)], of
      "\<lambda>a. att_NodeID (ac_attempt a) = reg_ID (nc_registration n) \<and> (att_Status (ac_attempt a) = AttemptRunning \<or> att_Status (ac_attempt a) = AttemptLeased) \<and>
         (case att_LeaseExpiresAt (ac_attempt a) of None \<Rightarrow> False | Some x \<Rightarrow> pt_now e < x)" j "\<lambda>a. a\<lparr>ac_attempt := g (ac_attempt a)\<rparr>"] assms(2)
  by (simp add: nodeSelect_def set_attempt_def)

lemma nodeSelect_logged: "logged k t t' \<Longrightarrow> nodeSelect e t' n = nodeSelect e t n"
  by (simp add: nodeSelect_def)

lemma claim_result:
  assumes inv: "pg_inv (db_tables d)" and claim: "pg_Claim sv nodeID ttl d = (d', Inr asg)"
  shows "let e = db_tx d (db_transactions d); t = db_tables d; t' = db_tables d' in
    \<exists>n r a a'. n \<in> set (tb_nodes t) \<and> reg_ID (nc_registration n) = nodeID \<and> nodeMatches sv (nodeSelect e t n) (rc_request r) \<and>
      node_Active (nodeSelect e t n) < reg_Capacity (nc_registration n) \<and> node_Active (nodeSelect e t' n) \<le> reg_Capacity (nc_registration n) \<and>
      r \<in> set (tb_runs t) \<and> rc_id r = as_RunID asg \<and> as_Request asg = rc_request r \<and> claimable_row e (r, \<lparr>ac_run_id = rc_id r, ac_attempt = a\<rparr>) \<and>
      run_attempts (rc_id r) t = butlast (run_attempts (rc_id r) t) @ [a] \<and> run_attempts (rc_id r) t' = butlast (run_attempts (rc_id r) t) @ [a'] \<and>
      att_ID a' = as_AttemptID asg \<and> att_LeaseToken a' = as_LeaseToken asg \<and> as_LeaseToken asg \<noteq> [] \<and> att_Status a' = AttemptLeased \<and> att_NodeID a' = nodeID \<and>
      att_LeaseExpiresAt a' = Some (usec (as_LeaseExpiresAt asg)) \<and>
      tb_runs t' = tb_runs t \<and> (\<forall>k. k \<noteq> rc_id r \<longrightarrow> run_attempts k t' = run_attempts k t)"
proof -
  let ?e = "db_tx d (db_transactions d)" and ?t = "db_tables d" and ?t' = "db_tables d'"
  have rows: "rows_inv ?t" using inv by (simp add: pg_inv_def)
  from claim_steps [OF transaction_commit [OF claim [unfolded pg_Claim_def]] inv] obtain node r row where c:
      "pg_node nodeID ?e ?t = Some node" "node_Active node < reg_Capacity (node_Registration node)" "current ?t r (ac_attempt row)"
      "claimable_row ?e (r, row)" "nodeMatches sv node (rc_request r)" "succeeds (lease_row nodeID ttl r (ac_attempt row)) ?e ?t ?t' asg" .
  define a where "a = ac_attempt row"
  from c(1) obtain n where n: "n \<in> set (tb_nodes ?t)" "reg_ID (nc_registration n) = nodeID" "node = nodeSelect ?e ?t n"
    by (auto simp: pg_node_def dest!: first_row_Some)
  from c(6) obtain t1 lease now where l: "t1 = ?t \<or> logged (rc_id r) ?t t1" "lease \<noteq> []"
      "logged (rc_id r) (set_attempt (att_ID a) (leased_by nodeID lease (usec (now + ttl))) t1) ?t'"
      "asg = \<lparr>as_RunID = rc_id r, as_AttemptID = att_ID a, as_LeaseToken = lease, as_LeaseExpiresAt = now + ttl, as_Request = rc_request r\<rparr>"
    unfolding a_def by (rule lease_row_result)
  let ?g = "leased_by nodeID lease (usec (now + ttl))"
  have t1: "tb_runs t1 = tb_runs ?t" "tb_attempts t1 = tb_attempts ?t" "run_attempts k t1 = run_attempts k ?t" for k using l(1) by auto
  then have rows1: "rows_inv t1" using rows rows_inv_frame [of t1 ?t] by simp
  have cur: "current t1 r a" using c(3) t1 by (simp add: current_def a_def)
  then have last: "run_attempts (rc_id r) t1 \<noteq> []" "a = last (run_attempts (rc_id r) t1)" by (auto simp: current_def)
  have own: "run_attempts (rc_id r) ?t' = butlast (run_attempts (rc_id r) ?t) @ [?g a]"
    using logged_frame(4) [OF l(3)] set_attempt_own [OF rows1 last(1), of ?g] last(2) t1(3) by simp
  have other: "run_attempts k ?t' = run_attempts k ?t" if "k \<noteq> rc_id r" for k
    using logged_frame(4) [OF l(3)] set_attempt_other [OF rows1 last(1) that, of ?g] last(2) t1(3) by simp
  have runs: "tb_runs ?t' = tb_runs ?t" using logged_frame(1) [OF l(3)] t1(1) by simp
  have same: "nodeSelect ?e t1 n = nodeSelect ?e ?t n" using t1(2) by (simp add: nodeSelect_def)
  have node: "node_Registration node = nc_registration n" using n(3) by (simp add: nodeSelect_def)
  have cap: "node_Active (nodeSelect ?e ?t' n) \<le> reg_Capacity (nc_registration n)"
    using nodeSelect_logged [OF l(3), of ?e n] lease_capacity [OF rows1, of ?e n "reg_Capacity (nc_registration n)" "att_ID a" ?g] c(2) n(3) same node by simp
  have claimable: "claimable_row ?e (r, \<lparr>ac_run_id = rc_id r, ac_attempt = a\<rparr>)" using c(4) unfolding a_def by (simp add: claimable_row_def Let_def)
  have "r \<in> set (tb_runs ?t)" "run_attempts (rc_id r) ?t = butlast (run_attempts (rc_id r) ?t) @ [a]" using c(3) by (auto simp: current_def a_def)
  then show ?thesis unfolding Let_def
    using n c(2,5) cap claimable own other runs l(2,4) node
    by (intro exI [of _ n] exI [of _ r] exI [of _ a] exI [of _ "?g a"]) (simp add: leased_by_def)
qed

section \<open>Submission\<close>

lemma GetRun_ID: "pg_GetRun runID d = (d', Inr run) \<Longrightarrow> run_ID run = runID"
  unfolding pg_GetRun_def
  by (drule transaction_commit) (auto elim!: tx_elims split: option.split_asm simp: pg_run_def runSelect_def dest!: first_row_Some)

lemma pg_Submit_result:
  assumes "pg_inv (db_tables d)" "pg_Submit request d = (d', Inr run)"
  obtains r where "r \<in> set (tb_runs (db_tables d'))" "row_scope r = submit_scope request" "run_ID run = rc_id r"
    "r \<in> set (tb_runs (db_tables d)) \<longrightarrow> db_tables d' = db_tables d"
    "r \<notin> set (tb_runs (db_tables d)) \<longrightarrow> (\<forall>x \<in> set (tb_runs (db_tables d)). row_scope x \<noteq> submit_scope request)"
  using assms(2)
proof (rule pg_Submit_cases)
  fix now runID attemptID d0 d1 found
  assume d: "db_tables d0 = db_tables d" "db_tables d1 = db_tables d'" and tx: "transaction (submit_tx request now runID attemptID) d0 = (d1, Inr found)"
    and get: "pg_GetRun found d1 = (d', Inr run)"
  let ?e = "db_tx d0 (db_transactions d0)"
  have result: "(\<exists>r \<in> set (tb_runs (db_tables d)). row_scope r = submit_scope request \<and> found = rc_id r \<and> db_tables d' = db_tables d) \<or>
    (\<forall>r \<in> set (tb_runs (db_tables d)). row_scope r \<noteq> submit_scope request) \<and> found = runID \<and> \<not> run_exists runID (db_tables d) \<and>
      tb_runs (db_tables d') = tb_runs (db_tables d) @ [new_run_row ?e request now runID attemptID]"
    using submit_result [OF transaction_commit [OF tx]] assms(1) d by auto
  have id: "run_ID run = found" by (rule GetRun_ID [OF get])
  have new: "row_scope (new_run_row ?e request now runID attemptID) = submit_scope request" "rc_id (new_run_row ?e request now runID attemptID) = runID"
    by (simp_all add: new_run_row_def Let_def row_scope_def submit_scope_def)
  from result show thesis
  proof
    assume "\<exists>r \<in> set (tb_runs (db_tables d)). row_scope r = submit_scope request \<and> found = rc_id r \<and> db_tables d' = db_tables d"
    then show thesis using that id by force
  next
    assume "(\<forall>r \<in> set (tb_runs (db_tables d)). row_scope r \<noteq> submit_scope request) \<and> found = runID \<and> \<not> run_exists runID (db_tables d) \<and>
      tb_runs (db_tables d') = tb_runs (db_tables d) @ [new_run_row ?e request now runID attemptID]"
    then show thesis using that [of "new_run_row ?e request now runID attemptID"] new id by auto
  qed
qed (auto simp: that)

lemma same_keys_scope: "same_keys r r' \<Longrightarrow> row_scope r' = row_scope r" by (simp add: same_keys_def)

lemma scope_unique: "rows_inv t \<Longrightarrow> r \<in> set (tb_runs t) \<Longrightarrow> r' \<in> set (tb_runs t) \<Longrightarrow> row_scope r = row_scope r' \<Longrightarrow> r = r'"
  using rows_invD(2) by (auto simp: distinct_map dest: inj_onD)

section \<open>Properties\<close>

text \<open>
  The scenario: a node registers, a run is submitted, claimed and started; then its lease expires and a reconciliation queues a second attempt, or the run
  completes. \<open>failing_db\<close> is the same database with a connection that drops at the sixth statement.
\<close>

definition demo_db :: database where
  "demo_db = \<lparr>w_clock = int, w_ticks = 0, w_rand = (\<lambda>k i. if i = 11 then word_of_nat k else 0), w_drawn = 0,
     db_tables = no_tables, db_statements = 0, db_transactions = 0, db_fault = (\<lambda>_. None), db_applied = (\<lambda>_. False),
     db_tx = (\<lambda>n. \<lparr>pt_now = int n, pt_jsonb = (\<lambda>j. j), pt_locked = (\<lambda>_. False)\<rparr>)\<rparr>"
definition failing_db :: database where
  "failing_db = demo_db\<lparr>db_fault := (\<lambda>n. if n = 5 then Some (errors_New ''conn closed'') else None)\<rparr>"
definition demo_pg_asg :: Assignment where
  "demo_pg_asg = \<lparr>as_RunID = ''run_000000000000000000000000'', as_AttemptID = ''attempt_000000000000000000000001'',
     as_LeaseToken = ''lease_000000000000000000000004'', as_LeaseExpiresAt = 1000002, as_Request = demo_request\<rparr>"
definition demo_leased_calls :: "pg_call list" where
  "demo_leased_calls = [PgRegisterNode demo_registration, PgSubmit demo_request, PgClaim ''n1'' 1000000]"
definition demo_lost_calls :: "pg_call list" where
  "demo_lost_calls = demo_leased_calls @ [PgStart demo_pg_asg, PgReconcile 5000000 10]"
definition demo_done_calls :: "pg_call list" where
  "demo_done_calls = demo_leased_calls @ [PgStart demo_pg_asg, PgComplete demo_pg_asg demo_result]"

lemma demo_admissible: "list_all pg_admissible demo_leased_calls" "list_all pg_admissible demo_lost_calls" "list_all pg_admissible demo_done_calls"
  by (simp_all add: demo_leased_calls_def demo_lost_calls_def demo_done_calls_def demo_registration_def)

lemma demo_db_empty: "db_tables demo_db = no_tables" "db_tables failing_db = no_tables"
  by (simp_all add: demo_db_def failing_db_def)

text \<open>
  C11: Whatever calls the server makes on an empty PostgreSQL database, and whichever statements, commits and connections fail on the way, the tables are
  consistent: identifiers, idempotency scopes, event identifiers and node identifiers are unique; every attempt and event belongs to a run; the
  attempts of a run are numbered 1, 2, ... within its retry policy, the last one is the current one and the others are lost; the status of the run
  agrees with its current attempt, its lease, its result and its times; the events of a run are numbered 1, 2, ...; every node has a positive capacity.
\<close>
theorem pg_invariant:
  assumes "db_tables d = no_tables" "list_all pg_admissible calls"
  shows "pg_inv (db_tables (fold (pg_apply sv) calls d))"
  by (rule pg_reachable [OF assms])

theorem pg_invariant_witness:
  "pg_inv (db_tables (fold (pg_apply demo_semver) demo_lost_calls failing_db)) \<and>
   length (tb_runs (db_tables (fold (pg_apply demo_semver) (demo_lost_calls @ [PgSubmit demo_request]) failing_db))) = 1 \<and>
   length (tb_attempts (db_tables (fold (pg_apply demo_semver) demo_lost_calls demo_db))) = 2"
proof (intro conjI)
  show "pg_inv (db_tables (fold (pg_apply demo_semver) demo_lost_calls failing_db))" by (rule pg_invariant [OF demo_db_empty(2) demo_admissible(2)])
  show "length (tb_runs (db_tables (fold (pg_apply demo_semver) (demo_lost_calls @ [PgSubmit demo_request]) failing_db))) = 1" by code_simp
  show "length (tb_attempts (db_tables (fold (pg_apply demo_semver) demo_lost_calls demo_db))) = 2" by code_simp
qed

text \<open>
  C13: What the database has recorded stays recorded, for every sequence of later calls, failures included: the event log is only ever appended to; a run is
  never deleted and keeps its identifier, scope, request, creation time and deadline; the attempts before the current one never change and never become
  current again; a run that has succeeded, failed or been cancelled keeps its row and its attempts exactly.
\<close>
theorem pg_history:
  assumes "db_tables d0 = no_tables" "list_all pg_admissible (calls @ later_calls)" "d = fold (pg_apply sv) calls d0" "d' = fold (pg_apply sv) later_calls d"
  shows "prefix (tb_events (db_tables d)) (tb_events (db_tables d')) \<and>
    (\<forall>r \<in> set (tb_runs (db_tables d)). \<exists>r' \<in> set (tb_runs (db_tables d')). same_keys r r' \<and>
      prefix (butlast (run_attempts (rc_id r) (db_tables d))) (butlast (run_attempts (rc_id r) (db_tables d'))) \<and>
      (terminalRun (rc_status r) \<longrightarrow> r' = r \<and> run_attempts (rc_id r) (db_tables d') = run_attempts (rc_id r) (db_tables d)))"
proof -
  have "pg_inv (db_tables d)" unfolding assms(3) by (rule pg_reachable) (use assms(1,2) in simp_all)
  then have "pg_extends (db_tables d) (db_tables d')" unfolding assms(4) using postgres_history.history [of d later_calls sv] assms(2) by simp
  then show ?thesis unfolding pg_extends_def .
qed

theorem pg_history_witness:
  "(\<exists>r \<in> set (tb_runs (db_tables (fold (pg_apply demo_semver) demo_done_calls demo_db))). rc_status r = RunSucceeded \<and>
      r \<in> set (tb_runs (db_tables (fold (pg_apply demo_semver) [PgCancelRun (rc_id r) \<lparr>cq_Reason = [], cq_RequestedBy = []\<rparr>, PgReconcile 9000000 10]
        (fold (pg_apply demo_semver) demo_done_calls demo_db)))))"
proof -
  let ?d = "fold (pg_apply demo_semver) demo_done_calls demo_db"
  have "\<exists>r \<in> set (tb_runs (db_tables ?d)). rc_status r = RunSucceeded" by code_simp
  then obtain r where r: "r \<in> set (tb_runs (db_tables ?d))" "rc_status r = RunSucceeded" by blast
  have "list_all pg_admissible (demo_done_calls @ [PgCancelRun (rc_id r) \<lparr>cq_Reason = [], cq_RequestedBy = []\<rparr>, PgReconcile 9000000 10])"
    using demo_admissible(3) by simp
  from pg_history [OF demo_db_empty(1) this refl refl] r show ?thesis by (fastforce simp: terminalRun_def)
qed

text \<open>
  C12: An attempt that a reconciliation has superseded is fenced off for good: whatever happens afterwards, every call of its holder (renewing, starting, appending
  an event, completing, failing, acknowledging a cancellation, adding an artifact, reserving or recording a capability call, asking or polling an
  interaction) is refused and changes nothing, with the lease error unless the database itself reports one.
\<close>
theorem pg_fencing:
  assumes "db_tables d0 = no_tables" "list_all pg_admissible (calls @ later_calls)"
    "a \<in> set (butlast (run_attempts (as_RunID asg) (db_tables (fold (pg_apply sv) calls d0))))" "att_ID a = as_AttemptID asg"
    "d = fold (pg_apply sv) (calls @ later_calls) d0"
  shows "fenced (pg_Renew asg ttl) d \<and> fenced (pg_Start asg) d \<and> fenced (pg_Complete asg result) d \<and> fenced (pg_Fail asg cause) d \<and>
    fenced (pg_AcknowledgeCancellation asg) d \<and> fenced (pg_AddArtifact asg artifact) d \<and> fenced (pg_ReserveCapability asg key hash request) d \<and>
    fenced (pg_FinishCapability asg reservation output cause) d \<and> fenced (pg_CreateInteraction asg question) d \<and> fenced (pg_GetInteraction asg interactionID) d \<and>
    fenced (pg_AppendEvent (as_RunID asg) (as_AttemptID asg) (as_LeaseToken asg) eventType data eventIDs) d"
proof -
  let ?d = "fold (pg_apply sv) calls d0"
  have inv: "pg_inv (db_tables ?d)" by (rule pg_reachable) (use assms(1,2) in simp_all)
  have "pg_inv (db_tables d)" "pg_extends (db_tables ?d) (db_tables d)"
    using postgres_history.history [of ?d later_calls sv] inv assms(2,5) by simp_all
  from superseded_stale [OF inv this assms(3,4)] obtain run where "pg_run (as_RunID asg) (db_tables d) = Some run" "stale asg run" .
  from fenced_calls [OF this] show ?thesis by blast
qed

theorem pg_fencing_witness:
  "fenced (pg_Complete demo_pg_asg demo_result) (fold (pg_apply demo_semver) demo_lost_calls demo_db) \<and>
   snd (pg_Complete demo_pg_asg demo_result (fold (pg_apply demo_semver) demo_lost_calls demo_db)) = Inl ErrInvalidLease"
proof
  have "\<exists>a \<in> set (butlast (run_attempts (as_RunID demo_pg_asg) (db_tables (fold (pg_apply demo_semver) demo_lost_calls demo_db)))). att_ID a = as_AttemptID demo_pg_asg"
    by code_simp
  then obtain a where a: "a \<in> set (butlast (run_attempts (as_RunID demo_pg_asg) (db_tables (fold (pg_apply demo_semver) demo_lost_calls demo_db))))"
    "att_ID a = as_AttemptID demo_pg_asg" by blast
  have "list_all pg_admissible (demo_lost_calls @ [])" using demo_admissible(2) by simp
  from pg_fencing [OF demo_db_empty(1) this a refl, where result = demo_result]
  show "fenced (pg_Complete demo_pg_asg demo_result) (fold (pg_apply demo_semver) demo_lost_calls demo_db)" by simp
  show "snd (pg_Complete demo_pg_asg demo_result (fold (pg_apply demo_semver) demo_lost_calls demo_db)) = Inl ErrInvalidLease" by code_simp
qed



text \<open>
  C15: A submission is recorded once per tenant, project and idempotency key: after a first submission has returned, and whatever calls and failures follow, a second one
  in the same scope that returns gives the same run and leaves every table as it is; the scope has exactly one run.
\<close>
theorem pg_submit_once:
  assumes "db_tables d0 = no_tables" "list_all pg_admissible (calls @ later_calls)" "d = fold (pg_apply sv) calls d0"
    "pg_Submit request d = (d1, Inr run)" "d2 = fold (pg_apply sv) later_calls d1" "pg_Submit request' d2 = (d3, Inr run')" "submit_scope request' = submit_scope request"
  shows "run_ID run' = run_ID run \<and> db_tables d3 = db_tables d2 \<and>
    length (filter (\<lambda>r. row_scope r = submit_scope request) (tb_runs (db_tables d3))) = 1"
proof -
  have inv: "pg_inv (db_tables d)" unfolding assms(3) by (rule pg_reachable) (use assms(1,2) in simp_all)
  have inv1: "pg_inv (db_tables d1)" using pg_steps_inv [OF pg_Submit_steps [OF assms(4) inv] inv] .
  have inv2: "pg_inv (db_tables d2)" "pg_extends (db_tables d1) (db_tables d2)"
    using postgres_history.history [of d1 later_calls sv] inv1 assms(2,5) by simp_all
  have rows: "rows_inv (db_tables d2)" using inv2(1) by (simp add: pg_inv_def)
  obtain r where r: "r \<in> set (tb_runs (db_tables d1))" "row_scope r = submit_scope request" "run_ID run = rc_id r"
    by (rule pg_Submit_result [OF inv assms(4)])
  with inv2(2) obtain r2 where r2: "r2 \<in> set (tb_runs (db_tables d2))" "same_keys r r2" by (auto simp: pg_extends_def)
  have scope2: "row_scope r2 = submit_scope request'" using same_keys_scope [OF r2(2)] r(2) assms(7) by simp
  obtain r3 where r3: "r3 \<in> set (tb_runs (db_tables d3))" "row_scope r3 = submit_scope request'" "run_ID run' = rc_id r3"
    "r3 \<in> set (tb_runs (db_tables d2)) \<longrightarrow> db_tables d3 = db_tables d2"
    "r3 \<notin> set (tb_runs (db_tables d2)) \<longrightarrow> (\<forall>x \<in> set (tb_runs (db_tables d2)). row_scope x \<noteq> submit_scope request')"
    by (rule pg_Submit_result [OF inv2(1) assms(6)])
  have old: "r3 \<in> set (tb_runs (db_tables d2))" using r3(5) r2(1) scope2 by blast
  have eq: "r3 = r2" by (rule scope_unique [OF rows old r2(1)]) (simp add: r3(2) scope2)
  have "filter (\<lambda>x. row_scope x = row_scope r2) (tb_runs (db_tables d2)) = [r2]" by (rule filter_unique [OF rows_invD(2) [OF rows] r2(1)])
  then show ?thesis using r3(3,4) old eq r(3) same_keys_id [OF r2(2)] scope2 assms(7) by simp
qed

theorem pg_submit_once_witness:
  "\<exists>d1 run d3 run'. pg_Submit demo_request demo_db = (d1, Inr run) \<and>
     pg_Submit demo_request (fold (pg_apply demo_semver) demo_done_calls d1) = (d3, Inr run') \<and> run_ID run' = run_ID run"
proof -
  have "\<not> (case snd (pg_Submit demo_request demo_db) of Inl _ \<Rightarrow> True | Inr _ \<Rightarrow> False)" by code_simp
  then obtain d1 run where d1: "pg_Submit demo_request demo_db = (d1, Inr run)"
    by (cases "pg_Submit demo_request demo_db") (auto split: sum.splits)
  have "\<not> (case snd (pg_Submit demo_request (fold (pg_apply demo_semver) demo_done_calls (fst (pg_Submit demo_request demo_db)))) of Inl _ \<Rightarrow> True | Inr _ \<Rightarrow> False)"
    by code_simp
  then obtain d3 run' where d3: "pg_Submit demo_request (fold (pg_apply demo_semver) demo_done_calls d1) = (d3, Inr run')"
    using d1 by (cases "pg_Submit demo_request (fold (pg_apply demo_semver) demo_done_calls d1)") (auto split: sum.splits)
  have "list_all pg_admissible ([] @ demo_done_calls)" using demo_admissible(3) by simp
  from pg_submit_once [OF demo_db_empty(1) this _ d1 refl d3 refl] d1 d3 show ?thesis by auto
qed

section \<open>Departures from the in-memory storage\<close>

text \<open>The holder of a finished run may still reserve a capability call, and is told to execute it; the in-memory storage refuses.\<close>

lemma pg_reserve_finished:
  "case snd (pg_ReserveCapability demo_pg_asg ''key'' ''hash'' 
     \<lparr>cr_CallID = [], cr_RunID = [], cr_AgentID = [], cr_Principal = rq_Principal demo_request, cr_Name = ''c'', cr_Version = [], cr_Effect = [], cr_Resource = [], cr_Input = None\<rparr>
     (fold (pg_apply demo_semver) demo_done_calls demo_db)) of Inl _ \<Rightarrow> False | Inr rsv \<Rightarrow> rsv_Execute rsv"
  by code_simp

text \<open>
  A \<open>JSONB\<close> column gives a number back in decimal notation, and \<open>SameEvent\<close> compares numbers as they are written: an event that was recorded and is delivered again is
  refused when its data has a number with an exponent.
\<close>

lemma pg_redelivery_refused: "SameEvent ''note'' (Some (JObj [(''n'', JNum ''1000'')])) ''note'' (GoVal (JObj [(''n'', JNum ''1e3'')])) \<noteq> None"
  by code_simp

end
