(* ===== verification/Postgres_Stream.thy ===== *)
theory Postgres_Stream
  imports Postgres_Properties Http_Stream
begin

text \<open>
  Reading the event log of the PostgreSQL storage: \<open>EventsAfter\<close> satisfies the contract of the event stream, so that what a client of the stream handles
  is a part of the log here too, although any read may fail and the log grows between the reads.
\<close>

lemma pg_events_dense: "log_inv t \<Longrightarrow> consecutive 0 (run_events runID t)"
  by (simp add: log_inv_def consecutive_def)

lemma consecutive_sorted: "consecutive 0 es \<Longrightarrow> sort_key ev_Sequence (filter (\<lambda>v. after < ev_Sequence v) es) = filter (\<lambda>v. after < ev_Sequence v) es"
proof (rule sort_key_id_if_sorted)
  assume "consecutive 0 es"
  then have "sorted (map ev_Sequence es)" by (auto simp: consecutive_def sorted_iff_nth_mono)
  then show "sorted (map ev_Sequence (filter (\<lambda>v. after < ev_Sequence v) es))" by (rule sorted_filter)
qed

lemma consecutive_after:
  assumes "consecutive 0 es" "0 \<le> after"
  shows "filter (\<lambda>v. after < ev_Sequence v) es = drop (nat after) es"
proof -
  have nth: "ev_Sequence (es ! i) = int i + 1" if "i < length es" for i using assms(1) that by (simp add: consecutive_def)
  have "filter (\<lambda>v. after < ev_Sequence v) (take (nat after) es) = []" using nth by (auto simp: filter_empty_conv in_set_conv_nth)
  moreover have "filter (\<lambda>v. after < ev_Sequence v) (drop (nat after) es) = drop (nat after) es"
    using nth assms(2) by (auto simp: filter_id_conv in_set_conv_nth)
  ultimately show ?thesis by (metis append_Nil append_take_drop_id filter_append)
qed

lemma pg_EventsAfter_read:
  assumes "pg_inv (db_tables d)" "pg_EventsAfter runID after d = (d', Inr vs)" "0 \<le> after"
  shows "vs = drop (nat after) (run_events runID (db_tables d))"
proof -
  obtain d1 where one: "transaction (sql_query (\<lambda>e t. run_exists runID t)) d = (d1, Inr True)"
    and two: "transaction (sql_query (\<lambda>e t. sort_key ev_Sequence (filter (\<lambda>v. ev_RunID v = runID \<and> ev_Sequence v > after) (tb_events t)))) d1 = (d', Inr vs)"
    using assms(2) by (auto simp: pg_EventsAfter_def split: prod.split_asm sum.split_asm bool.split_asm)
  have "vs = sort_key ev_Sequence (filter (\<lambda>v. ev_RunID v = runID \<and> ev_Sequence v > after) (tb_events (db_tables d)))"
    using transaction_commit [OF two] query_only [OF one] by (auto elim!: succeeds_query)
  also have "filter (\<lambda>v. ev_RunID v = runID \<and> ev_Sequence v > after) (tb_events (db_tables d)) = filter (\<lambda>v. after < ev_Sequence v) (run_events runID (db_tables d))"
    by (simp add: run_events_def conj_commute)
  finally have vs: "vs = sort_key ev_Sequence (filter (\<lambda>v. after < ev_Sequence v) (run_events runID (db_tables d)))" .
  have dense: "consecutive 0 (run_events runID (db_tables d))" using assms(1) by (simp add: pg_inv_def pg_events_dense)
  show ?thesis unfolding vs consecutive_sorted [OF dense] by (rule consecutive_after [OF dense assms(3)])
qed

interpretation postgres_feed: event_feed "\<lambda>after d. snd (pg_EventsAfter runID after d)" "\<lambda>d. run_events runID (db_tables d)"
  "\<lambda>d. pg_inv (db_tables d)" "\<lambda>d d'. pg_extends (db_tables d) (db_tables d')" for runID
proof
  fix d :: database and after vs
  assume "pg_inv (db_tables d)" "0 \<le> after" "snd (pg_EventsAfter runID after d) = Inr vs"
  then show "vs = drop (nat after) (run_events runID (db_tables d))"
    using pg_EventsAfter_read [of d runID after "fst (pg_EventsAfter runID after d)" vs] by (metis prod.collapse)
next
  fix d :: database
  assume "pg_inv (db_tables d)"
  then show "consecutive 0 (run_events runID (db_tables d))" by (simp add: pg_inv_def pg_events_dense)
next
  fix d d' :: database
  assume "pg_extends (db_tables d) (db_tables d')"
  then show "prefix (run_events runID (db_tables d)) (run_events runID (db_tables d'))"
    by (auto simp: pg_extends_def prefix_def run_events_def)
qed

text \<open>
  C16: A client that reads the event stream of a run from a server on PostgreSQL gets a part of the log: over a connection opened after event number \<open>after\<close> and cut
  anywhere, while other calls change the database between the polls and any read may fail, the callback is handed exactly the events from \<open>after\<close> to the number the client
  has reached, in order and without gaps, and resuming from that number continues where it stopped.
\<close>
theorem pg_stream_slice:
  assumes "db_tables d0 = no_tables" "list_all pg_admissible (calls @ later_calls)" "d = fold (pg_apply sv) calls d0" "final = fold (pg_apply sv) later_calls d"
    and "\<forall>(w, w', wake) \<in> set rounds. \<exists>before after'. later_calls = before @ after' \<and> w' = fold (pg_apply sv) before d"
    and "0 \<le> after"
    and "scan_stream width handle end' after [] False (take n (connection_lines (\<lambda>d. snd (pg_GetRun runID d)) (\<lambda>after d. snd (pg_EventsAfter runID after d)) after d rounds))
      = (handled, reached', r)"
  shows "after \<le> reached' \<and> handled = take (nat reached' - nat after) (drop (nat after) (run_events runID (db_tables final))) \<and>
    length handled = nat reached' - nat after"
proof -
  have inv: "pg_inv (db_tables d)" unfolding assms(3) by (rule pg_reachable) (use assms(1,2) in simp_all)
  have part: "pg_inv (db_tables w) \<and> pg_extends (db_tables w) (db_tables final)" if "later_calls = before @ after'" "w = fold (pg_apply sv) before d" for w before after'
    using postgres_history.history [of d before sv] postgres_history.history [of w after' sv] inv that assms(2,4) by simp
  have states: "\<forall>(w, w', wake) \<in> set rounds. pg_inv (db_tables w') \<and> pg_extends (db_tables w') (db_tables final)" using assms(5) part by fast
  have final: "pg_extends (db_tables d) (db_tables final)" "pg_inv (db_tables final)" using part [of "[]" later_calls d] part [of later_calls "[]" final] assms(4) by simp_all
  have "log_slice (run_events runID (db_tables final)) after reached' handled"
    using postgres_feed.connection_slice [OF inv final(1) states assms(6) final(2) assms(7)] by blast
  then show ?thesis unfolding log_slice_def by blast
qed

theorem pg_stream_slice_witness:
  "let final = fold (pg_apply demo_semver) [PgHeartbeat ''n1''] (fold (pg_apply demo_semver) demo_done_calls demo_db) in
   \<exists>handled reached' r. scan_stream (\<lambda>_. 0) (\<lambda>_. None) None 2 [] False (take 100 (connection_lines (\<lambda>d. snd (pg_GetRun (as_RunID demo_pg_asg) d))
       (\<lambda>after d. snd (pg_EventsAfter (as_RunID demo_pg_asg) after d)) 2 (fold (pg_apply demo_semver) demo_done_calls demo_db) [])) = (handled, reached', r) \<and>
     handled = take (nat reached' - 2) (drop 2 (run_events (as_RunID demo_pg_asg) (db_tables final))) \<and>
     drop 2 (run_events (as_RunID demo_pg_asg) (db_tables final)) \<noteq> []"
proof -
  let ?scan = "scan_stream (\<lambda>_. 0) (\<lambda>_. None) None 2 [] False (take 100 (connection_lines (\<lambda>d. snd (pg_GetRun (as_RunID demo_pg_asg) d))
       (\<lambda>after d. snd (pg_EventsAfter (as_RunID demo_pg_asg) after d)) 2 (fold (pg_apply demo_semver) demo_done_calls demo_db) []))"
  obtain handled reached' r where s: "?scan = (handled, reached', r)" by (cases ?scan)
  have "list_all pg_admissible (demo_done_calls @ [PgHeartbeat ''n1''])" using demo_admissible(3) by simp
  from pg_stream_slice [OF demo_db_empty(1) this refl refl _ _ s]
  have h: "handled = take (nat reached' - 2) (drop 2 (run_events (as_RunID demo_pg_asg)
      (db_tables (fold (pg_apply demo_semver) [PgHeartbeat ''n1''] (fold (pg_apply demo_semver) demo_done_calls demo_db)))))" by simp
  have "drop 2 (run_events (as_RunID demo_pg_asg) (db_tables (fold (pg_apply demo_semver) [PgHeartbeat ''n1''] (fold (pg_apply demo_semver) demo_done_calls demo_db)))) \<noteq> []"
    by code_simp
  with s h show ?thesis unfolding Let_def by blast
qed

end
