(* ===== verification/Spec2Isabelle.thy ===== *)
theory Spec2Isabelle
  imports Engine Memory_Recovery Service_Properties Http_Transparency Http_Stream Node_Pool Tool_Bridge Node_Setup Postgres_Stream
begin

text \<open>
  Relay, a control plane for agent runs: hosts submit requests, the control plane turns each into a run, nodes
  claim the runs under leases, execute them and report back, and hosts follow the events of a run.

  \<^bold>\<open>The parts of the program and the theories that model them.\<close>

  \<^item> \<open>Relay_Prelude\<close>, \<open>Go_Strings\<close>, \<open>Go_Sha256\<close>, \<open>Go_JSON\<close>, \<open>Go_Files\<close>: the Go values and the functions of the standard
    library that the sources use: errors with the sentinels they wrap, the readings of clock and entropy source (record
    \<open>world\<close>), byte strings, decimal numbers and durations, paths, SHA-256, JSON values, files whose calls may fail.
  \<^item> \<open>Relay_Types\<close>: \<open>types.go\<close>, \<open>controlplane/types.go\<close> and \<open>controlplane/event.go\<close>: one record per struct, one datatype
    per enumeration.
  \<^item> \<open>Scheduling\<close>: \<open>RuntimeMatches\<close> and \<open>nodeMatches\<close> (the semantic-version package is the parameter \<open>semver\<close>), and the
    access scopes of \<open>controlplane/access.go\<close>.
  \<^item> \<open>Memory_Storage\<close>: every method of \<open>controlplane/memory.go\<close>, state passing, on every branch. The orders in which Go
    iterates over maps are arguments, so what is proved holds for each of them.
  \<^item> \<open>Memory_Lifecycle\<close>, \<open>Memory_Refinement\<close>: an abstract specification of the storage, the step relations \<open>run_step\<close> and
    \<open>submit_step\<close> on single runs, and the refinement: every method is a sequence of such steps. The storage invariant and the
    laws of leases, terminal runs and event logs are proved once for the steps.
  \<^item> \<open>Memory_Scenario\<close>: one concrete history, from which the witnesses are taken. \<open>Memory_Properties\<close>, \<open>Memory_Recovery\<close>,
    \<open>Memory_Calls\<close>: what the methods guarantee: accounting, fencing, idempotence, claiming, recovery, cancellation, capability
    reservations and interactions.
  \<^item> \<open>Postgres_Store\<close>: every method of \<open>controlplane/postgres/store.go\<close>: a table is the list of its rows, a statement may fail or violate a constraint, a transaction
    commits, rolls back, or fails at the commit with an unknown outcome. \<open>Postgres_Rows\<close> has the atomic changes of the rows (\<open>pg_step\<close>) and the invariant, \<open>Postgres_Steps\<close>
    and \<open>Postgres_Calls\<close> the refinement: whatever transaction succeeds is a sequence of such steps. \<open>Postgres_Properties\<close> has what the methods guarantee, over the locale \<open>storage_history\<close>;
    \<open>Postgres_Stream\<close> interprets \<open>event_feed\<close> on this storage.
  \<^item> \<open>Blob_Stores\<close>: \<open>controlplane/blob.go\<close> and \<open>controlplane/file_blob.go\<close> against one contract, the locale \<open>blob_store\<close>.
  \<^item> \<open>Service\<close>, \<open>Service_Properties\<close>: \<open>controlplane/service.go\<close> over any storage and blob store (records of operations); the
    locales \<open>artifact_storage\<close> and \<open>artifact_service\<close> state what it relies on, and the in-memory storage, the
    in-memory blobs and the file blobs interpret them.
  \<^item> \<open>Capabilities\<close>: \<open>capability.go\<close>; \<open>Call\<close> is cut at its critical sections and \<open>invoker_step\<close> interleaves any number of callers.
  \<^item> \<open>Instructions\<close>: \<open>instructions.go\<close>; the managed block of an instruction file as a view of the file.
  \<^item> \<open>Engine\<close>: \<open>engine.go\<close>, \<open>store.go\<close>, \<open>id.go\<close>; the locale \<open>run_store\<close> is the contract of a \<open>Store\<close>, interpreted on
    \<open>MemoryStore\<close>. An executor is the sequence of calls it makes to the engine.
  \<^item> \<open>Http_Server\<close>, \<open>Http_Client\<close>: \<open>transport/httpapi\<close>: authentication, routes, one definition per handler and per method of
    the client. \<open>Http_Transparency\<close> composes them; \<open>Http_Stream\<close> models the event stream on both sides, with the locale
    \<open>event_feed\<close> for the log behind it, interpreted on the service over the in-memory storage.
  \<^item> \<open>Node_Delivery\<close>: \<open>node/events.go\<close> and \<open>node/final.go\<close>: calls to a control plane that are repeated until they are answered. The locale
    \<open>event_sink\<close> is what a node relies on; the service over the in-memory storage interprets it, and so does that service behind a
    network that loses requests and answers and lets other clients in between.
  \<^item> \<open>Go_Disk\<close>, \<open>Node_Outbox\<close>: \<open>node/outbox.go\<close> on a disk that keeps after a power failure only what was synced.
  \<^item> \<open>Node_Lease\<close>, \<open>Node_Worker\<close>, \<open>Node_Runs\<close>, \<open>Node_Pool\<close>: \<open>node/worker.go\<close>: the lease keeper and the interaction broker, one assignment from claim to
    report, what it means for the control plane (locale \<open>node_plane\<close>, which extends \<open>event_sink\<close> and is interpreted on both providers), and the pool.
  \<^item> \<open>Bindings\<close>: \<open>binding\<close>. \<open>Workspaces\<close>: \<open>workspace/manager.go\<close>. \<open>Tool_Bridge\<close>: \<open>runtime/toolbridge\<close>, the mailbox as a step relation over
    clients, the bridge and writers without the token. \<open>Runtime_Codex\<close>: \<open>runtime/codex\<close> and \<open>runtime/trae\<close>, both protocols over an arbitrary process.
  \<^item> \<open>Node_Setup\<close>: what \<open>cmd/relay-node/main.go\<close> makes of its configuration: the bindings it registers, the executors, and the runtimes it advertises, with the
    probes for versions and models of \<open>runtime/codex\<close> and \<open>runtime/trae\<close>.

  \<^bold>\<open>What the theorems show.\<close>

  \<^item> Storage: every reachable state satisfies the invariant; nodes are charged for exactly the runs they hold; a superseded
    lease is refused by every method for ever; a finished run never changes; submissions, completions, failures and
    producer events are idempotent; a claim is safe and a node below capacity gets matching work; \<open>Reconcile\<close>
    leaves nothing expired and retries within the policy; the two phases of a cancellation.
  \<^item> PostgreSQL: the tables are consistent after every history of calls and failures; what is recorded stays recorded; a superseded attempt is refused for ever; a claim is
    within the capacity of the node and takes nothing away from an unexpired lease; one run per submission scope; the event stream reads the log without gaps.
  \<^item> Service: tenants cannot see each other's runs; artifacts round trip and failed uploads leave nothing.
  \<^item> Capabilities: one invocation per key under every interleaving, always within a grant, and no caller is stranded.
  \<^item> Engine: the run that \<open>Execute\<close> creates has ended when it returns, is stored as returned, and executes once per key.
  \<^item> Instructions: the host's text around the managed block is never touched.
  \<^item> HTTP: client and server compose to the service itself; error classes survive; no request gets past authentication without
    a token of the right kind and identity; following a run over broken connections delivers every event once, in order.
  \<^item> Node: an event is in the log at most once, exactly once when the delivery is acknowledged, also across crashes and power failures of the node; a worker that
    reports success is right about the run, its result and its events; the keeper cuts an execution off when its lease is lost; a pool drains.
  \<^item> Around the worker: the registry routes to the last binding of a name and version; a binding never decodes output that was cut; a workspace stays within its
    base; the mailbox answers a call with the outcome of that call only; an agent process sees exactly the allowed environment, and its executor
    returns what the agent said; the runtimes that a node advertises are matched by the scheduler for exactly the configured and discovered models, and the discovery of
    models ends whatever the agent answers.

  \<^bold>\<open>Choices and bounds.\<close> Loops are structural recursion over the data they traverse, or recursion with a termination proof (the retry loops, the lease keeper, the
  broker); the claim loop of a pool, which may run for ever, is an option, and that it returns is proved. No definition uses fuel. Times and
  durations are integers (nanoseconds), \<open>ParseDuration\<close> has the library's overflow checks, \<open>Atoi\<close> the range of \<open>int64\<close>.
  A reachable state is one in which the entropy source has not repeated a draw so far (\<open>no_collision\<close>), which the identifiers of
  the source rely on. JSON text is represented by the value it denotes: \<open>encoding/json\<close> reads back what it wrote, except for the
  fields that are tagged \<open>"-"\<close>, and strings are taken to be valid UTF-8. What \<open>net/http\<close> answers by itself and the length of encodings are
  parameters. The stream handler's polling is a list of rounds with arbitrary states, and a connection delivers any prefix of a stream.
  In a node every call takes an arbitrary time and other clients may act before and after it; a context is the instant at which it is done. The lease keeper
  runs beside the execution and enters \<open>RunOnce\<close> as an arbitrary function. An executor is the tree of the calls it makes, and a process
  the tree of what it prints, reads and does to the files of the host.

  A PostgreSQL transaction is atomic: the row locks that the statements take serialise those that touch the same run, and \<open>SKIP LOCKED\<close> passes over an arbitrary set of runs. \<open>now()\<close> and
  what \<open>JSONB\<close> gives back for a JSON text are parameters of a transaction, a stored time is cut to the microsecond, and rows that an \<open>ORDER BY\<close> leaves tied come in the order of the table. The
  results on this storage do not assume distinct identifiers, since the constraints of the tables refuse a duplicate.

  \<^bold>\<open>Not modelled.\<close> Opening and closing the PostgreSQL connection pool and what the migration scripts do to an older schema, the S3 blob store (calls of the
  MinIO client), the signals of process groups, the command executor, the SDK and adapter wrappers, the flags, signals and logging of \<open>relay-node\<close>, and the other commands, which parse
  flags and print.
\<close>

end
